(* ===== verification/Prelude.thy ===== *)
theory Prelude
  imports Main "HOL-Library.Sublist"
begin

text \<open>
  Shared ground of the development: the Go values the other theories talk about and the
  generic lemmas on lists, options and maps their proofs use.

  \<^item> A Go \<open>string\<close> is a byte sequence, here a \<^typ>\<open>string\<close> (each \<^typ>\<open>char\<close> is a byte).
    \<open>trim_space\<close> is \<open>strings.TrimSpace\<close> on UTF-8 bytes, \<open>rune_count_split\<close> the
    \<open>for range\<close> loop over the runes of a string.
  \<^item> A Go \<open>int64\<close> is an \<^typ>\<open>int\<close>, and every arithmetic operation whose result the type
    may not hold goes through \<open>wrap64\<close>, the two's complement wrap-around. Go's division
    truncates towards zero (\<open>go_div\<close>, \<open>go_mod\<close>).
  \<^item> A \<open>time.Time\<close> is an instant in nanoseconds, with the zero \<open>Time\<close> as 0; a
    \<open>time.Duration\<close> is an \<open>int64\<close> of nanoseconds, and \<open>time_sub\<close> saturates as
    \<open>Time.Sub\<close> does.
  \<^item> A function that returns \<open>(T, error)\<close> returns a value of the sum type, the error on the
    left.
\<close>

named_theorems go_arith \<open>facts that evaluate int64 arithmetic inside its range\<close>

section \<open>Machine integers\<close>

definition wrap64 :: "int \<Rightarrow> int" where
  "wrap64 x = (x + 2 ^ 63) mod 2 ^ 64 - 2 ^ 63"

definition in64 :: "int \<Rightarrow> bool" where
  "in64 x \<longleftrightarrow> - (2 ^ 63) \<le> x \<and> x < 2 ^ 63"

definition max_int64 :: int where
  "max_int64 = 2 ^ 63 - 1"

definition go_div :: "int \<Rightarrow> int \<Rightarrow> int" where
  "go_div a b = (if (a < 0) = (b < 0) then \<bar>a\<bar> div \<bar>b\<bar> else - (\<bar>a\<bar> div \<bar>b\<bar>))"

definition go_mod :: "int \<Rightarrow> int \<Rightarrow> int" where
  "go_mod a b = a - b * go_div a b"

definition add64 :: "int \<Rightarrow> int \<Rightarrow> int" where
  "add64 a b = wrap64 (a + b)"

definition sub64 :: "int \<Rightarrow> int \<Rightarrow> int" where
  "sub64 a b = wrap64 (a - b)"

definition mul64 :: "int \<Rightarrow> int \<Rightarrow> int" where
  "mul64 a b = wrap64 (a * b)"

lemma wrap64_id [go_arith]: "in64 x \<Longrightarrow> wrap64 x = x"
  by (simp add: wrap64_def in64_def)

lemma wrap64_in64 [simp, intro]: "in64 (wrap64 x)"
proof -
  have "0 \<le> (x + 2 ^ 63) mod 2 ^ 64" "(x + 2 ^ 63) mod 2 ^ 64 < 2 ^ 64"
    by simp_all
  then show ?thesis by (simp add: wrap64_def in64_def)
qed

lemma wrap64_range: "- (2 ^ 63) \<le> x \<Longrightarrow> x < 2 ^ 63 \<Longrightarrow> wrap64 x = x"
  by (rule wrap64_id) (simp add: in64_def)

lemma add64_id [go_arith]: "in64 (a + b) \<Longrightarrow> add64 a b = a + b"
  by (simp add: add64_def wrap64_id)

lemma sub64_id [go_arith]: "in64 (a - b) \<Longrightarrow> sub64 a b = a - b"
  by (simp add: sub64_def wrap64_id)

lemma mul64_id [go_arith]: "in64 (a * b) \<Longrightarrow> mul64 a b = a * b"
  by (simp add: mul64_def wrap64_id)

lemma go_div_nonneg [go_arith]: "0 \<le> a \<Longrightarrow> 0 < b \<Longrightarrow> go_div a b = a div b"
  by (simp add: go_div_def)

lemma go_mod_nonneg [go_arith]: "0 \<le> a \<Longrightarrow> 0 < b \<Longrightarrow> go_mod a b = a mod b"
  by (simp add: go_mod_def go_div_nonneg minus_mult_div_eq_mod)

lemma wrap64_0 [simp]: "wrap64 0 = 0"
  by (simp add: wrap64_def)

section \<open>Instants and durations\<close>

type_synonym go_time = int
type_synonym duration = int

definition zero_time :: "go_time \<Rightarrow> bool" where
  "zero_time t \<longleftrightarrow> t = 0"

definition time_sub :: "go_time \<Rightarrow> go_time \<Rightarrow> duration" where
  "time_sub t u =
     (if t - u < - (2 ^ 63) then - (2 ^ 63)
      else if 2 ^ 63 - 1 < t - u then 2 ^ 63 - 1 else t - u)"

lemma time_sub_le: "time_sub t u \<le> d \<Longrightarrow> d < 2 ^ 63 - 1 \<Longrightarrow> t - u \<le> d"
  by (auto simp: time_sub_def split: if_splits)

section \<open>Strings\<close>

definition byte_of :: "char \<Rightarrow> nat" where
  "byte_of c = of_char c"

text \<open>
  The white space runes of \<open>unicode.IsSpace\<close>, as UTF-8: tab to carriage return and space,
  U+0085, U+00A0, U+1680, U+2000 to U+200A, U+2028, U+2029, U+202F, U+205F, U+3000.
\<close>

definition space1 :: "char \<Rightarrow> bool" where
  "space1 a \<longleftrightarrow> (let x = byte_of a in (9 \<le> x \<and> x \<le> 13) \<or> x = 32)"

definition space2 :: "char \<Rightarrow> char \<Rightarrow> bool" where
  "space2 a b \<longleftrightarrow> byte_of a = 194 \<and> (byte_of b = 133 \<or> byte_of b = 160)"

definition space3 :: "char \<Rightarrow> char \<Rightarrow> char \<Rightarrow> bool" where
  "space3 a b c \<longleftrightarrow>
     (let x = byte_of a; y = byte_of b; z = byte_of c in
        (x = 225 \<and> y = 154 \<and> z = 128)
      \<or> (x = 226 \<and> y = 128 \<and> ((128 \<le> z \<and> z \<le> 138) \<or> z = 168 \<or> z = 169 \<or> z = 175))
      \<or> (x = 226 \<and> y = 129 \<and> z = 159)
      \<or> (x = 227 \<and> y = 128 \<and> z = 128))"

fun space_width :: "string \<Rightarrow> nat" where
  "space_width [] = 0"
| "space_width [a] = (if space1 a then 1 else 0)"
| "space_width [a, b] = (if space1 a then 1 else if space2 a b then 2 else 0)"
| "space_width (a # b # c # s) =
     (if space1 a then 1 else if space2 a b then 2 else if space3 a b c then 3 else 0)"

text \<open>The same recogniser on a reversed string: the last rune of the original.\<close>

fun space_width_rev :: "string \<Rightarrow> nat" where
  "space_width_rev [] = 0"
| "space_width_rev [a] = (if space1 a then 1 else 0)"
| "space_width_rev [a, b] = (if space1 a then 1 else if space2 b a then 2 else 0)"
| "space_width_rev (a # b # c # s) =
     (if space1 a then 1 else if space2 b a then 2 else if space3 c b a then 3 else 0)"

function trim_left :: "string \<Rightarrow> string" where
  "trim_left s = (if space_width s = 0 then s else trim_left (drop (space_width s) s))"
  by pat_completeness auto
termination
proof (relation "measure length", goal_cases)
  case (2 s)
  then show ?case by (cases s) auto
qed simp

function trim_left_rev :: "string \<Rightarrow> string" where
  "trim_left_rev s =
     (if space_width_rev s = 0 then s else trim_left_rev (drop (space_width_rev s) s))"
  by pat_completeness auto
termination
proof (relation "measure length", goal_cases)
  case (2 s)
  then show ?case by (cases s) auto
qed simp

declare trim_left.simps [simp del] trim_left_rev.simps [simp del]

definition trim_space :: "string \<Rightarrow> string" where
  "trim_space s = rev (trim_left_rev (rev (trim_left s)))"

definition blank :: "string \<Rightarrow> bool" where
  "blank s \<longleftrightarrow> trim_space s = []"

lemma trim_left_Nil [simp]: "trim_left [] = []"
  by (simp add: trim_left.simps)

lemma trim_left_rev_Nil [simp]: "trim_left_rev [] = []"
  by (simp add: trim_left_rev.simps)

lemma trim_space_Nil [simp]: "trim_space [] = []"
  by (simp add: trim_space_def)

lemma blank_Nil [simp]: "blank []"
  by (simp add: blank_def)

lemma trim_left_width: "space_width (trim_left s) = 0"
proof (induction s rule: trim_left.induct)
  case (1 s)
  then show ?case by (cases "space_width s = 0") (auto simp: trim_left.simps [of s])
qed

lemma trim_left_rev_width: "space_width_rev (trim_left_rev s) = 0"
proof (induction s rule: trim_left_rev.induct)
  case (1 s)
  then show ?case by (cases "space_width_rev s = 0") (auto simp: trim_left_rev.simps [of s])
qed

lemma trim_left_rev_suffix: "suffix (trim_left_rev s) s"
proof (induction s rule: trim_left_rev.induct)
  case (1 s)
  show ?case
  proof (cases "space_width_rev s = 0")
    case True
    then show ?thesis by (simp add: trim_left_rev.simps [of s])
  next
    case False
    with 1 have "suffix (trim_left_rev (drop (space_width_rev s) s)) (drop (space_width_rev s) s)"
      by simp
    with False show ?thesis
      by (metis suffix_drop suffix_order.trans trim_left_rev.simps)
  qed
qed

lemma trim_left_suffix: "suffix (trim_left s) s"
proof (induction s rule: trim_left.induct)
  case (1 s)
  show ?case
  proof (cases "space_width s = 0")
    case True
    then show ?thesis by (simp add: trim_left.simps [of s])
  next
    case False
    with 1 have "suffix (trim_left (drop (space_width s) s)) (drop (space_width s) s)"
      by simp
    with False show ?thesis
      by (metis suffix_drop suffix_order.trans trim_left.simps)
  qed
qed

lemma trim_space_length: "length (trim_space s) \<le> length s"
proof -
  have "length (trim_left_rev (rev (trim_left s))) \<le> length (trim_left s)"
    using suffix_length_le [OF trim_left_rev_suffix, of "rev (trim_left s)"] by simp
  also have "\<dots> \<le> length s" by (rule suffix_length_le [OF trim_left_suffix])
  finally show ?thesis by (simp add: trim_space_def)
qed

lemma space_width_prefix:
  assumes "prefix t s" and "space_width s = 0"
  shows "space_width t = 0"
  using assms by (cases t rule: space_width.cases; cases s rule: space_width.cases)
    (auto split: if_splits)

text \<open>Trimming twice changes nothing more: what the code compares is already canonical.\<close>

lemma trim_space_idem [simp]: "trim_space (trim_space s) = trim_space s"
proof -
  let ?r = "trim_left_rev (rev (trim_left s))"
  have "prefix (rev ?r) (trim_left s)"
    by (metis rev_swap suffix_to_prefix trim_left_rev_suffix)
  then have "space_width (rev ?r) = 0"
    by (rule space_width_prefix) (rule trim_left_width)
  then have "trim_left (rev ?r) = rev ?r"
    by (simp add: trim_left.simps)
  moreover have "trim_left_rev ?r = ?r"
    using trim_left_rev_width [of "rev (trim_left s)"] by (simp add: trim_left_rev.simps)
  ultimately show ?thesis by (simp add: trim_space_def)
qed

lemma trim_space_Cons_id:
  "space_width s = 0 \<Longrightarrow> space_width_rev (rev s) = 0 \<Longrightarrow> trim_space s = s"
  by (simp add: trim_space_def trim_left.simps trim_left_rev.simps)

subsection \<open>Runes\<close>

text \<open>
  \<open>for _, r := range value\<close> decodes UTF-8; an invalid byte is one rune of width 1
  (\<open>utf8.RuneError\<close>). \<open>rune_width\<close> gives the bytes the next rune takes.
\<close>

definition cont :: "char \<Rightarrow> bool" where
  "cont c \<longleftrightarrow> 128 \<le> byte_of c \<and> byte_of c \<le> 191"

definition second_ok :: "nat \<Rightarrow> nat \<Rightarrow> bool" where
  "second_ok a b \<longleftrightarrow>
     (if a = 224 then 160 \<le> b \<and> b \<le> 191
      else if a = 237 then 128 \<le> b \<and> b \<le> 159
      else if a = 240 then 144 \<le> b \<and> b \<le> 191
      else if a = 244 then 128 \<le> b \<and> b \<le> 143
      else 128 \<le> b \<and> b \<le> 191)"

fun rune_width :: "string \<Rightarrow> nat" where
  "rune_width [] = 0"
| "rune_width (a # s) =
     (let x = byte_of a in
      if 194 \<le> x \<and> x \<le> 223 then
        (case s of b # _ \<Rightarrow> if cont b then 2 else 1 | _ \<Rightarrow> 1)
      else if 224 \<le> x \<and> x \<le> 239 then
        (case s of b # c # _ \<Rightarrow> if second_ok x (byte_of b) \<and> cont c then 3 else 1 | _ \<Rightarrow> 1)
      else if 240 \<le> x \<and> x \<le> 244 then
        (case s of b # c # d # _ \<Rightarrow>
           if second_ok x (byte_of b) \<and> cont c \<and> cont d then 4 else 1 | _ \<Rightarrow> 1)
      else 1)"

lemma rune_width_pos: "s \<noteq> [] \<Longrightarrow> 0 < rune_width s"
  by (cases s) (auto simp: Let_def split: list.splits)

lemma rune_width_le: "rune_width s \<le> length s"
  by (cases s) (auto simp: Let_def split: list.splits)

function rune_count_split :: "string \<Rightarrow> nat \<times> nat" where
  "rune_count_split s =
     (case s of [] \<Rightarrow> (0, 0)
      | c # t \<Rightarrow>
          (case rune_count_split (drop (rune_width s) s) of
             (asc, non) \<Rightarrow> if byte_of c < 128 then (Suc asc, non) else (asc, Suc non)))"
  by pat_completeness auto
termination
proof (relation "measure length", goal_cases)
  case (2 s c t)
  then have "0 < rune_width s" by (intro rune_width_pos) simp
  with 2 show ?case by simp
qed simp

declare rune_count_split.simps [simp del] rune_width.simps [simp del]

lemma rune_count_split_Cons:
  "rune_count_split (c # t) =
     (case rune_count_split (drop (rune_width (c # t)) (c # t)) of
        (asc, non) \<Rightarrow> if byte_of c < 128 then (Suc asc, non) else (asc, Suc non))"
  by (subst rune_count_split.simps) simp

lemma rune_count_split_Nil [simp]: "rune_count_split [] = (0, 0)"
  by (simp add: rune_count_split.simps)


lemma rune_count_split_pos:
  "s \<noteq> [] \<Longrightarrow> 0 < fst (rune_count_split s) + snd (rune_count_split s)"
  by (cases s) (auto simp: rune_count_split_Cons split: prod.splits)

lemma rune_count_split_le: "fst (rune_count_split s) + snd (rune_count_split s) \<le> length s"
proof (induction s rule: rune_count_split.induct)
  case (1 s)
  show ?case
  proof (cases s)
    case Nil
    then show ?thesis by simp
  next
    case (Cons c t)
    then have w: "0 < rune_width s" by (intro rune_width_pos) simp
    then have "fst (rune_count_split (drop (rune_width s) s))
        + snd (rune_count_split (drop (rune_width s) s)) < length s"
      using 1 [OF Cons] rune_width_le [of s] Cons by simp
    then show ?thesis using Cons
      by (auto simp: rune_count_split_Cons split: prod.splits)
  qed
qed

subsection \<open>Case folding against ASCII literals\<close>

text \<open>
  \<open>strings.ToLower\<close>, as far as a comparison with an ASCII literal can observe it: the ASCII
  letters, and the two other runes whose lower case is an ASCII letter, U+0130 (to \<open>i\<close>) and
  U+212A, the Kelvin sign (to \<open>k\<close>). Every other rune is lowered to a rune outside ASCII and is
  left as it is.
\<close>

definition lower_char :: "char \<Rightarrow> char" where
  "lower_char c = (if 65 \<le> byte_of c \<and> byte_of c \<le> 90 then char_of (byte_of c + 32) else c)"

fun to_lower :: "string \<Rightarrow> string" where
  "to_lower [] = []"
| "to_lower [a] = [lower_char a]"
| "to_lower [a, b] =
     (if byte_of a = 196 \<and> byte_of b = 176 then ''i'' else lower_char a # to_lower [b])"
| "to_lower (a # b # c # s) =
     (if byte_of a = 196 \<and> byte_of b = 176 then CHR ''i'' # to_lower (c # s)
      else if byte_of a = 226 \<and> byte_of b = 132 \<and> byte_of c = 170 then CHR ''k'' # to_lower s
      else lower_char a # to_lower (b # c # s))"

text \<open>
  \<open>strings.EqualFold\<close> against an ASCII literal: simple case folding also identifies U+017F with
  \<open>s\<close> and the Kelvin sign with \<open>k\<close>.
\<close>

fun fold_case :: "string \<Rightarrow> string" where
  "fold_case [] = []"
| "fold_case [a] = [lower_char a]"
| "fold_case [a, b] =
     (if byte_of a = 197 \<and> byte_of b = 191 then ''s'' else lower_char a # fold_case [b])"
| "fold_case (a # b # c # s) =
     (if byte_of a = 197 \<and> byte_of b = 191 then CHR ''s'' # fold_case (c # s)
      else if byte_of a = 226 \<and> byte_of b = 132 \<and> byte_of c = 170 then CHR ''k'' # fold_case s
      else lower_char a # fold_case (b # c # s))"

definition has_suffix :: "string \<Rightarrow> string \<Rightarrow> bool" where
  "has_suffix s t \<longleftrightarrow> length t \<le> length s \<and> drop (length s - length t) s = t"

section \<open>Results\<close>

text \<open>\<open>if err != nil { return err }\<close> after a call, written as a bind.\<close>

definition rbind :: "'e + 'a \<Rightarrow> ('a \<Rightarrow> 'e + 'b) \<Rightarrow> 'e + 'b" where
  "rbind r f = (case r of Inl e \<Rightarrow> Inl e | Inr a \<Rightarrow> f a)"

lemma rbind_simps [simp]: "rbind (Inl e) f = Inl e" "rbind (Inr a) f = f a"
  by (simp_all add: rbind_def)

lemma rbind_Inr_iff: "rbind r f = Inr b \<longleftrightarrow> (\<exists>a. r = Inr a \<and> f a = Inr b)"
  by (cases r) auto

fun list_find :: "('a \<Rightarrow> bool) \<Rightarrow> 'a list \<Rightarrow> 'a option" where
  "list_find P [] = None"
| "list_find P (x # xs) = (if P x then Some x else list_find P xs)"

lemma list_find_Some: "list_find P xs = Some x \<Longrightarrow> x \<in> set xs \<and> P x"
  by (induction xs) (auto split: if_splits)

lemma list_find_None: "list_find P xs = None \<longleftrightarrow> (\<forall>x \<in> set xs. \<not> P x)"
  by (induction xs) auto

lemma list_find_append:
  "list_find P (xs @ ys) = (case list_find P xs of Some x \<Rightarrow> Some x | None \<Rightarrow> list_find P ys)"
  by (induction xs) auto

end
