(* ===== verification/ContextPolicy.thy ===== *)
theory ContextPolicy
  imports Prelude
begin

text \<open>
  The context-window policy of \<^verbatim>\<open>internal/session/contextpolicy\<close>: the policy record and its
  defaults (\<open>Normalize\<close>, \<open>MergeDefaults\<close>), the request budget
  (\<^verbatim>\<open>output_budget.go\<close>), the pressure records computed from it, the conservative text
  estimate, and the validation of the character attribution (\<^verbatim>\<open>characters.go\<close>).
  The string-valued Go types (estimate methods, sources, signals, confidences) stay strings:
  the code compares them with the empty string and with other strings. All token arithmetic
  is \<open>int64\<close> arithmetic.
\<close>

section \<open>Constants\<close>

type_synonym estimate_confidence = string
type_synonym estimate_method = string
type_synonym pressure_signal = string
type_synonym pressure_source = string

definition MinSupportedContextWindowTokens :: int where
  "MinSupportedContextWindowTokens = 256000"
definition DefaultContextWindowTokens :: int where
  "DefaultContextWindowTokens = MinSupportedContextWindowTokens"
definition DefaultReservedOutputTokens :: int where
  "DefaultReservedOutputTokens = 64000"
definition DefaultAutoCompactRatioPercent :: int where
  "DefaultAutoCompactRatioPercent = 90"
definition DefaultCompactedContextTargetTokens :: int where
  "DefaultCompactedContextTargetTokens = 50000"
definition DefaultReservedSummaryTokens :: int where
  "DefaultReservedSummaryTokens = 20000"
definition DefaultRecentTailTokens :: int where
  "DefaultRecentTailTokens = 12000"
definition DefaultRecentUserTokens :: int where
  "DefaultRecentUserTokens = 15000"
definition DefaultEstimatorSource :: string where
  "DefaultEstimatorSource = ''generic_conservative''"

definition EstimateExact :: estimate_confidence where
  "EstimateExact = ''exact''"
definition EstimateConservative :: estimate_confidence where
  "EstimateConservative = ''conservative''"

definition EstimateMethodGenericPayload :: estimate_method where
  "EstimateMethodGenericPayload = ''generic_payload_estimate''"
definition EstimateMethodProviderRenderedPayload :: estimate_method where
  "EstimateMethodProviderRenderedPayload = ''provider_rendered_payload_estimate''"
definition EstimateMethodMessageContext :: estimate_method where
  "EstimateMethodMessageContext = ''message_context_estimate''"
definition EstimateMethodOfficialPreflightCount :: estimate_method where
  "EstimateMethodOfficialPreflightCount = ''official_preflight_count''"
definition EstimateMethodUnknown :: estimate_method where
  "EstimateMethodUnknown = ''unknown_estimate_method''"
definition DefaultEstimatorMethod :: estimate_method where
  "DefaultEstimatorMethod = EstimateMethodMessageContext"

definition PressureSignalNativeUsage :: pressure_signal where
  "PressureSignalNativeUsage = ''native_usage''"
definition PressureSignalProjected :: pressure_signal where
  "PressureSignalProjected = ''projected_request''"
definition PressureSignalOverflow :: pressure_signal where
  "PressureSignalOverflow = ''provider_overflow''"
definition PressureSignalManual :: pressure_signal where
  "PressureSignalManual = ''manual''"

definition PressureSourceProviderUsage :: pressure_source where
  "PressureSourceProviderUsage = ''provider_usage''"
definition PressureSourceUsageAnchoredDelta :: pressure_source where
  "PressureSourceUsageAnchoredDelta = ''usage_anchored_delta''"
definition PressureSourceFullRequestEstimate :: pressure_source where
  "PressureSourceFullRequestEstimate = ''full_request_estimate''"
definition PressureSourceMissingNativeUsage :: pressure_source where
  "PressureSourceMissingNativeUsage = ''missing_native_usage_request_estimate''"
definition PressureSourceManual :: pressure_source where
  "PressureSourceManual = ''manual''"

lemmas estimate_method_defs =
  EstimateMethodGenericPayload_def EstimateMethodProviderRenderedPayload_def
  EstimateMethodMessageContext_def EstimateMethodOfficialPreflightCount_def
  EstimateMethodUnknown_def DefaultEstimatorMethod_def

lemmas default_defs =
  MinSupportedContextWindowTokens_def DefaultContextWindowTokens_def
  DefaultReservedOutputTokens_def DefaultAutoCompactRatioPercent_def
  DefaultCompactedContextTargetTokens_def DefaultReservedSummaryTokens_def
  DefaultRecentTailTokens_def DefaultRecentUserTokens_def DefaultEstimatorSource_def

section \<open>Data\<close>

record request_estimate =
  re_PrefixTokens :: int
  re_MessageTokens :: int
  re_ToolDefinitionTokens :: int
  re_EstimatedInputTokens :: int
  re_Source :: string
  re_Method :: estimate_method
  re_Confidence :: estimate_confidence

record request_delta_estimate =
  rd_MessageDeltaTokens :: int
  rd_PrefixDeltaTokens :: int
  rd_ToolDefinitionDeltaTokens :: int
  rd_EstimatedDeltaTokens :: int
  rd_Source :: string
  rd_Method :: estimate_method
  rd_Confidence :: estimate_confidence

record message_context_estimate =
  mc_PrefixTokens :: int
  mc_MessageTokens :: int
  mc_InputTokens :: int
  mc_Source :: string
  mc_Method :: estimate_method
  mc_Confidence :: estimate_confidence

record context_pressure =
  cp_RequestOutputTokens :: int
  cp_OutputControl :: string
  cp_SafetyMarginTokens :: int
  cp_WindowInputTokens :: int
  cp_ProjectedInputTokens :: int
  cp_ContextWindowTokens :: int
  cp_ThresholdTokens :: int
  cp_RequestSafeLimit :: int
  cp_OutputHeadroomTokens :: int
  cp_Signal :: pressure_signal
  cp_Source :: pressure_source
  cp_EstimateMethod :: estimate_method
  cp_Confidence :: estimate_confidence
  cp_CompactionNeeded :: bool
  cp_HardLimitExceeded :: bool

record native_usage =
  nu_InputTokens :: int
  nu_CacheReadTokens :: int
  nu_CacheWriteTokens :: int
  nu_WindowInputTokens :: int
  nu_Available :: bool

record policy =
  ModelMaxOutputTokens :: int
  ContextWindowTokens :: int
  MaxOutputTokens :: int
  ReservedOutputTokens :: int
  ReservedSummaryTokens :: int
  RecentTailTokens :: int
  RecentUserTokens :: int
  CompactedContextTargetTokens :: int
  EstimatorSource :: string
  EstimatorMethod :: estimate_method
  MaxCompactionFailures :: int

record usage =
  us_PrefixTokens :: int
  us_MessageTokens :: int
  us_InputTokens :: int
  us_ContextWindow :: int
  us_ThresholdTokens :: int
  us_RatioLimitTokens :: int
  us_RequestSafeLimit :: int
  us_MaxOutputTokens :: int
  us_ReservedOutput :: int
  us_ReservedSummary :: int
  us_OutputHeadroom :: int
  us_AutoCompactRatio :: int
  us_RecentTailTokens :: int
  us_RecentUserTokens :: int
  us_Source :: string
  us_Method :: estimate_method
  us_Confidence :: estimate_confidence
  us_CompactionNeeded :: bool
  us_HardLimitExceeded :: bool

record request_budget =
  OutputTokens :: int
  SafetyMarginTokens :: int
  ThresholdTokens :: int
  RequestSafeLimit :: int
  HeadroomTokens :: int
  CompactionNeeded :: bool
  HardLimitExceeded :: bool
  Invalid :: bool

section \<open>Policies and their defaults\<close>

definition min64 :: "int \<Rightarrow> int \<Rightarrow> int" where
  "min64 a b = (if a < b then a else b)"

definition ceilDiv :: "int \<Rightarrow> int \<Rightarrow> int" where
  "ceilDiv value divisor =
     (if value \<le> 0 then 0 else go_div (sub64 (add64 value divisor) 1) divisor)"

definition defaultWindowBudget :: "int \<Rightarrow> int \<Rightarrow> int \<Rightarrow> int" where
  "defaultWindowBudget value0 defaultValue contextWindow =
     (let value = (if value0 \<le> 0 then defaultValue else value0) in
      if contextWindow \<le> 0 then value
      else (let limit0 = go_div contextWindow 4;
                limit = (if limit0 < 1 then 1 else limit0)
            in min64 value limit))"

definition MethodForEstimateSource :: "string \<Rightarrow> estimate_method \<Rightarrow> estimate_method" where
  "MethodForEstimateSource source0 defaultMethod =
     (let source = trim_space source0 in
      if source = '''' then
        (if defaultMethod \<noteq> '''' then defaultMethod else EstimateMethodUnknown)
      else if has_suffix source ''_rendered_json'' then EstimateMethodProviderRenderedPayload
      else if source = ''generic_request_json'' then EstimateMethodGenericPayload
      else if source = ''generic_conservative'' \<or> source = ''message_context_test'' then
        (if defaultMethod \<noteq> '''' then defaultMethod else EstimateMethodMessageContext)
      else if source = ''official_preflight_count'' then EstimateMethodOfficialPreflightCount
      else EstimateMethodUnknown)"

definition HasValues :: "policy \<Rightarrow> bool" where
  "HasValues p \<longleftrightarrow>
     ModelMaxOutputTokens p > 0 \<or> ContextWindowTokens p > 0 \<or> MaxOutputTokens p > 0
   \<or> ReservedOutputTokens p > 0 \<or> ReservedSummaryTokens p > 0 \<or> RecentTailTokens p > 0
   \<or> RecentUserTokens p > 0 \<or> CompactedContextTargetTokens p > 0
   \<or> EstimatorSource p \<noteq> '''' \<or> EstimatorMethod p \<noteq> '''' \<or> MaxCompactionFailures p > 0"

definition MergeDefaults :: "policy \<Rightarrow> policy \<Rightarrow> policy" where
  "MergeDefaults p defaults =
    (let provided = HasValues p;
         model = (if \<not> provided then ModelMaxOutputTokens defaults else ModelMaxOutputTokens p);
         window = (if ContextWindowTokens p \<le> 0
                   then (if ContextWindowTokens defaults \<le> 0 then DefaultContextWindowTokens
                         else ContextWindowTokens defaults)
                   else ContextWindowTokens p);
         maxOut = (if MaxOutputTokens p \<le> 0 \<and> \<not> provided then MaxOutputTokens defaults
                   else MaxOutputTokens p);
         reserved = (if ReservedOutputTokens p \<le> 0
                     then (let r = (if ReservedOutputTokens defaults \<le> 0
                                    then DefaultReservedOutputTokens
                                    else ReservedOutputTokens defaults)
                           in if maxOut > 0 then min64 maxOut r else r)
                     else ReservedOutputTokens p);
         summary = (if ReservedSummaryTokens p \<le> 0
                    then defaultWindowBudget (ReservedSummaryTokens defaults)
                           DefaultReservedSummaryTokens window
                    else ReservedSummaryTokens p);
         tail = (if RecentTailTokens p \<le> 0
                 then defaultWindowBudget (RecentTailTokens defaults)
                        DefaultRecentTailTokens window
                 else RecentTailTokens p);
         user = (if RecentUserTokens p \<le> 0
                 then defaultWindowBudget (RecentUserTokens defaults)
                        DefaultRecentUserTokens window
                 else RecentUserTokens p);
         target = (if CompactedContextTargetTokens p \<le> 0
                   then CompactedContextTargetTokens defaults
                   else CompactedContextTargetTokens p);
         source = (if EstimatorSource p = ''''
                   then (if EstimatorSource defaults = '''' then DefaultEstimatorSource
                         else EstimatorSource defaults)
                   else EstimatorSource p);
         meth = (if EstimatorMethod p = ''''
                 then (if EstimatorMethod defaults = ''''
                       then MethodForEstimateSource source DefaultEstimatorMethod
                       else EstimatorMethod defaults)
                 else EstimatorMethod p);
         failures = (if MaxCompactionFailures p \<le> 0
                     then (if MaxCompactionFailures defaults \<le> 0 then 2
                           else MaxCompactionFailures defaults)
                     else MaxCompactionFailures p)
     in \<lparr>ModelMaxOutputTokens = model, ContextWindowTokens = window, MaxOutputTokens = maxOut,
         ReservedOutputTokens = reserved, ReservedSummaryTokens = summary,
         RecentTailTokens = tail, RecentUserTokens = user,
         CompactedContextTargetTokens = target, EstimatorSource = source,
         EstimatorMethod = meth, MaxCompactionFailures = failures\<rparr>)"

definition Normalize :: "policy \<Rightarrow> policy" where
  "Normalize p =
    (let window = (if ContextWindowTokens p \<le> 0 then DefaultContextWindowTokens
                   else ContextWindowTokens p);
         reserved = (if ReservedOutputTokens p \<le> 0
                     then (if MaxOutputTokens p > 0
                           then min64 (MaxOutputTokens p) DefaultReservedOutputTokens
                           else DefaultReservedOutputTokens)
                     else ReservedOutputTokens p);
         summary = (if ReservedSummaryTokens p \<le> 0
                    then defaultWindowBudget DefaultReservedSummaryTokens
                           DefaultReservedSummaryTokens window
                    else ReservedSummaryTokens p);
         tail = (if RecentTailTokens p \<le> 0
                 then defaultWindowBudget DefaultRecentTailTokens DefaultRecentTailTokens window
                 else RecentTailTokens p);
         user = (if RecentUserTokens p \<le> 0
                 then defaultWindowBudget DefaultRecentUserTokens DefaultRecentUserTokens window
                 else RecentUserTokens p);
         target = (if CompactedContextTargetTokens p \<le> 0
                   then DefaultCompactedContextTargetTokens
                   else CompactedContextTargetTokens p);
         source = (if EstimatorSource p = '''' then DefaultEstimatorSource
                   else EstimatorSource p);
         meth = (if EstimatorMethod p = ''''
                 then MethodForEstimateSource source DefaultEstimatorMethod
                 else EstimatorMethod p);
         failures = (if MaxCompactionFailures p \<le> 0 then 2 else MaxCompactionFailures p)
     in \<lparr>ModelMaxOutputTokens = ModelMaxOutputTokens p, ContextWindowTokens = window,
         MaxOutputTokens = MaxOutputTokens p,
         ReservedOutputTokens = reserved, ReservedSummaryTokens = summary,
         RecentTailTokens = tail, RecentUserTokens = user,
         CompactedContextTargetTokens = target, EstimatorSource = source,
         EstimatorMethod = meth, MaxCompactionFailures = failures\<rparr>)"

text \<open>What both defaulting functions establish and what the budget relies on.\<close>

definition wf_policy :: "policy \<Rightarrow> bool" where
  "wf_policy p \<longleftrightarrow>
     0 < ContextWindowTokens p \<and> 0 < ReservedOutputTokens p \<and> 0 < ReservedSummaryTokens p
   \<and> 0 < RecentTailTokens p \<and> 0 < RecentUserTokens p \<and> EstimatorSource p \<noteq> ''''
   \<and> EstimatorMethod p \<noteq> '''' \<and> 0 < MaxCompactionFailures p"

lemma MethodForEstimateSource_nonempty [simp]: "MethodForEstimateSource s m \<noteq> ''''"
  by (simp add: MethodForEstimateSource_def Let_def estimate_method_defs)

lemma defaultWindowBudget_pos: "0 < d \<Longrightarrow> 0 < defaultWindowBudget v d w"
  by (auto simp: defaultWindowBudget_def Let_def min64_def)

lemma defaultWindowBudget_quarter:
  "0 < w \<Longrightarrow> defaultWindowBudget v d w \<le> max 1 (w div 4)"
  by (auto simp: defaultWindowBudget_def Let_def min64_def go_div_nonneg)

lemma MaxOutputTokens_Normalize [simp]: "MaxOutputTokens (Normalize p) = MaxOutputTokens p"
  by (simp add: Normalize_def Let_def)

lemma ModelMaxOutputTokens_Normalize [simp]:
  "ModelMaxOutputTokens (Normalize p) = ModelMaxOutputTokens p"
  by (simp add: Normalize_def Let_def)

lemma ContextWindowTokens_Normalize:
  "ContextWindowTokens (Normalize p) =
     (if ContextWindowTokens p \<le> 0 then DefaultContextWindowTokens else ContextWindowTokens p)"
  by (simp add: Normalize_def Let_def)

lemma window_pos: "0 < ContextWindowTokens (Normalize p)"
  by (simp add: ContextWindowTokens_Normalize default_defs)

lemma window_in64:
  "in64 (ContextWindowTokens p) \<Longrightarrow> in64 (ContextWindowTokens (Normalize p))"
  by (simp add: ContextWindowTokens_Normalize default_defs in64_def)

lemma wf_policy_Normalize: "wf_policy (Normalize p)"
  by (simp add: wf_policy_def Normalize_def Let_def default_defs min64_def defaultWindowBudget_pos)

lemma CompactedContextTargetTokens_Normalize: "0 < CompactedContextTargetTokens (Normalize p)"
  by (simp add: Normalize_def Let_def default_defs)

lemma Normalize_wf_id:
  "wf_policy p \<Longrightarrow> 0 < CompactedContextTargetTokens p \<Longrightarrow> Normalize p = p"
  by (simp add: wf_policy_def Normalize_def Let_def)

lemma Normalize_idem [simp]: "Normalize (Normalize p) = Normalize p"
  by (rule Normalize_wf_id [OF wf_policy_Normalize CompactedContextTargetTokens_Normalize])

lemma wf_policy_MergeDefaults: "wf_policy (MergeDefaults p d)"
  by (simp add: wf_policy_def MergeDefaults_def Let_def default_defs min64_def
      defaultWindowBudget_pos)

section \<open>The request budget\<close>

definition SafetyMargin :: "int \<Rightarrow> int" where
  "SafetyMargin window = max 0 (min (go_div window 100) 4096)"

definition RatioLimitTokens :: "policy \<Rightarrow> int" where
  "RatioLimitTokens p0 =
     (let p = Normalize p0; w = ContextWindowTokens p in
      add64 (mul64 (go_div w 100) DefaultAutoCompactRatioPercent)
            (go_div (mul64 (go_mod w 100) DefaultAutoCompactRatioPercent) 100))"

text \<open>
  The variadic \<open>minimumOutput\<close> is a list. The two branches are the output-fitted mode
  (\<open>ModelMaxOutputTokens\<close> positive) and the legacy reservation mode.
\<close>

definition budget_minimum :: "int list \<Rightarrow> int" where
  "budget_minimum minimumOutput =
     (case minimumOutput of [] \<Rightarrow> 1 | m # _ \<Rightarrow> max 1 m)"

definition ResolveRequestBudget :: "policy \<Rightarrow> int \<Rightarrow> int list \<Rightarrow> request_budget" where
  "ResolveRequestBudget p0 input minimumOutput =
    (let p = Normalize p0;
         minimum = budget_minimum minimumOutput;
         window = ContextWindowTokens p;
         fitted = ModelMaxOutputTokens p > 0;
         margin = (if fitted then SafetyMargin window else 0);
         required = (if MaxOutputTokens p > 0 then MaxOutputTokens p else minimum);
         invalid = (fitted \<and> (MaxOutputTokens p < 0 \<or> required < minimum
                              \<or> required > ModelMaxOutputTokens p));
         headroom = (if fitted then add64 margin required
                     else if MaxOutputTokens p \<le> 0 then ReservedOutputTokens p
                     else MaxOutputTokens p);
         safe = (if fitted then sub64 (sub64 window margin) required
                 else sub64 window headroom);
         out = (if fitted \<and> MaxOutputTokens p = 0
                then max 0 (min (ModelMaxOutputTokens p) (sub64 (sub64 window input) margin))
                else MaxOutputTokens p);
         hard = (if fitted then invalid \<or> input > safe else input \<ge> safe);
         threshold = max 1 (min (RatioLimitTokens p) safe)
     in \<lparr>OutputTokens = out, SafetyMarginTokens = margin, ThresholdTokens = threshold,
         RequestSafeLimit = safe, HeadroomTokens = headroom,
         CompactionNeeded = input \<ge> threshold, HardLimitExceeded = hard,
         Invalid = invalid \<or> safe \<le> 0\<rparr>)"

definition Threshold :: "policy \<Rightarrow> int" where
  "Threshold p = ThresholdTokens (ResolveRequestBudget p 0 [])"
definition OutputHeadroom :: "policy \<Rightarrow> int" where
  "OutputHeadroom p = HeadroomTokens (ResolveRequestBudget p 0 [])"
definition RequestSafeLimitTokens :: "policy \<Rightarrow> int" where
  "RequestSafeLimitTokens p = RequestSafeLimit (ResolveRequestBudget p 0 [])"

section \<open>Estimates and pressure records\<close>

definition request_estimate_Normalized :: "policy \<Rightarrow> request_estimate \<Rightarrow> request_estimate" where
  "request_estimate_Normalized p e =
    (let sum0 = (if re_EstimatedInputTokens e \<le> 0
                  then add64 (add64 (re_PrefixTokens e) (re_MessageTokens e))
                             (re_ToolDefinitionTokens e)
                  else re_EstimatedInputTokens e);
         source = (if re_Source e = '''' then EstimatorSource (Normalize p) else re_Source e);
         meth = (if re_Method e = ''''
                 then MethodForEstimateSource source EstimateMethodGenericPayload
                 else re_Method e);
         conf = (if re_Confidence e = '''' then EstimateConservative else re_Confidence e)
     in e\<lparr>re_EstimatedInputTokens := sum0, re_Source := source, re_Method := meth,
          re_Confidence := conf\<rparr>)"

definition request_delta_Normalized :: "request_delta_estimate \<Rightarrow> request_delta_estimate" where
  "request_delta_Normalized e =
    (let sum0 = (if rd_EstimatedDeltaTokens e = 0
                  then add64 (add64 (rd_MessageDeltaTokens e) (rd_PrefixDeltaTokens e))
                             (rd_ToolDefinitionDeltaTokens e)
                  else rd_EstimatedDeltaTokens e);
         meth = (if rd_Method e = '''' \<and> rd_Source e \<noteq> ''''
                 then MethodForEstimateSource (rd_Source e) EstimateMethodGenericPayload
                 else rd_Method e);
         conf = (if rd_Confidence e = '''' then EstimateConservative else rd_Confidence e)
     in e\<lparr>rd_EstimatedDeltaTokens := sum0, rd_Method := meth, rd_Confidence := conf\<rparr>)"

definition message_context_Normalized ::
  "policy \<Rightarrow> message_context_estimate \<Rightarrow> message_context_estimate" where
  "message_context_Normalized p e =
    (let sum0 = (if mc_InputTokens e \<le> 0
                  then add64 (mc_PrefixTokens e) (mc_MessageTokens e) else mc_InputTokens e);
         source = (if mc_Source e = '''' then EstimatorSource (Normalize p) else mc_Source e);
         meth = (if mc_Method e = ''''
                 then MethodForEstimateSource source EstimateMethodMessageContext
                 else mc_Method e);
         conf = (if mc_Confidence e = '''' then EstimateConservative else mc_Confidence e)
     in e\<lparr>mc_InputTokens := sum0, mc_Source := source, mc_Method := meth,
          mc_Confidence := conf\<rparr>)"

definition basePressure :: "policy \<Rightarrow> context_pressure" where
  "basePressure p0 =
    (let p = Normalize p0 in
     \<lparr>cp_RequestOutputTokens = 0, cp_OutputControl = '''', cp_SafetyMarginTokens = 0,
      cp_WindowInputTokens = 0, cp_ProjectedInputTokens = 0,
      cp_ContextWindowTokens = ContextWindowTokens p, cp_ThresholdTokens = Threshold p,
      cp_RequestSafeLimit = RequestSafeLimitTokens p,
      cp_OutputHeadroomTokens = OutputHeadroom p, cp_Signal = '''', cp_Source = '''',
      cp_EstimateMethod = '''', cp_Confidence = '''', cp_CompactionNeeded = False,
      cp_HardLimitExceeded = False\<rparr>)"

definition PressureFromNativeUsage :: "native_usage \<Rightarrow> policy \<Rightarrow> context_pressure" where
  "PressureFromNativeUsage u p0 =
    (let p = Normalize p0;
         pressure = (basePressure p)\<lparr>cp_Signal := PressureSignalNativeUsage,
                       cp_Source := PressureSourceProviderUsage,
                       cp_Confidence := EstimateExact\<rparr>
     in if \<not> nu_Available u then pressure\<lparr>cp_Confidence := EstimateConservative\<rparr>
        else (let windowInput = (if nu_WindowInputTokens u \<le> 0
                                 then add64 (add64 (nu_InputTokens u) (nu_CacheReadTokens u))
                                            (nu_CacheWriteTokens u)
                                 else nu_WindowInputTokens u);
                  budget = ResolveRequestBudget p windowInput []
              in pressure\<lparr>cp_WindowInputTokens := windowInput,
                   cp_CompactionNeeded := CompactionNeeded budget,
                   cp_HardLimitExceeded := HardLimitExceeded budget\<rparr>))"

definition PressureFromProjectedRequest ::
  "request_estimate \<Rightarrow> request_delta_estimate \<Rightarrow> policy \<Rightarrow> context_pressure" where
  "PressureFromProjectedRequest estimate0 delta0 p0 =
    (let estimate = request_estimate_Normalized p0 estimate0;
         p = Normalize p0;
         delta = request_delta_Normalized delta0;
         anchored = rd_Source delta \<noteq> '''';
         projected0 = (if anchored
                       then add64 (re_EstimatedInputTokens estimate) (rd_EstimatedDeltaTokens delta)
                       else re_EstimatedInputTokens estimate);
         projected = (if projected0 < 0 then 0 else projected0);
         budget = ResolveRequestBudget p projected []
     in (basePressure p)\<lparr>cp_Signal := PressureSignalProjected,
          cp_Source := (if anchored then PressureSourceUsageAnchoredDelta
                        else PressureSourceFullRequestEstimate),
          cp_EstimateMethod := (if anchored \<and> rd_Method delta \<noteq> '''' then rd_Method delta
                                else re_Method estimate),
          cp_Confidence := (if anchored \<and> rd_Confidence delta \<noteq> '''' then rd_Confidence delta
                            else re_Confidence estimate),
          cp_ProjectedInputTokens := projected,
          cp_HardLimitExceeded := HardLimitExceeded budget,
          cp_CompactionNeeded := CompactionNeeded budget\<rparr>)"

definition zero_delta :: request_delta_estimate where
  "zero_delta = \<lparr>rd_MessageDeltaTokens = 0, rd_PrefixDeltaTokens = 0,
     rd_ToolDefinitionDeltaTokens = 0, rd_EstimatedDeltaTokens = 0, rd_Source = '''',
     rd_Method = '''', rd_Confidence = ''''\<rparr>"

definition PressureFromMissingNativeUsage :: "request_estimate \<Rightarrow> policy \<Rightarrow> context_pressure" where
  "PressureFromMissingNativeUsage estimate p =
     (PressureFromProjectedRequest estimate zero_delta p)
       \<lparr>cp_Source := PressureSourceMissingNativeUsage\<rparr>"

definition PressureFromOverflow :: "policy \<Rightarrow> context_pressure" where
  "PressureFromOverflow p = (basePressure p)\<lparr>cp_Signal := PressureSignalOverflow,
     cp_Source := PressureSourceProviderUsage, cp_Confidence := EstimateExact,
     cp_CompactionNeeded := True, cp_HardLimitExceeded := True\<rparr>"

definition PressureFromManual :: "usage \<Rightarrow> policy \<Rightarrow> context_pressure" where
  "PressureFromManual u p0 =
    (let p = Normalize p0;
         base = (basePressure p)\<lparr>cp_Signal := PressureSignalManual,
                  cp_Source := PressureSourceManual, cp_Confidence := EstimateExact\<rparr>;
         pressure = (if us_InputTokens u > 0
                     then base\<lparr>cp_WindowInputTokens := us_InputTokens u,
                               cp_ProjectedInputTokens := us_InputTokens u\<rparr>
                     else base)
     in pressure\<lparr>cp_CompactionNeeded := True,
          cp_HardLimitExceeded := HardLimitExceeded
            (ResolveRequestBudget p (cp_ProjectedInputTokens pressure) [])\<rparr>)"

definition UsageFromMessageContextEstimate :: "message_context_estimate \<Rightarrow> policy \<Rightarrow> usage" where
  "UsageFromMessageContextEstimate estimate0 p0 =
    (let p = Normalize p0;
         estimate = message_context_Normalized p estimate0;
         budget = ResolveRequestBudget p (mc_InputTokens estimate) []
     in \<lparr>us_PrefixTokens = mc_PrefixTokens estimate, us_MessageTokens = mc_MessageTokens estimate,
         us_InputTokens = mc_InputTokens estimate, us_ContextWindow = ContextWindowTokens p,
         us_ThresholdTokens = Threshold p, us_RatioLimitTokens = RatioLimitTokens p,
         us_RequestSafeLimit = RequestSafeLimitTokens p, us_MaxOutputTokens = MaxOutputTokens p,
         us_ReservedOutput = ReservedOutputTokens p,
         us_ReservedSummary = ReservedSummaryTokens p, us_OutputHeadroom = OutputHeadroom p,
         us_AutoCompactRatio = DefaultAutoCompactRatioPercent,
         us_RecentTailTokens = RecentTailTokens p, us_RecentUserTokens = RecentUserTokens p,
         us_Source = mc_Source estimate, us_Method = mc_Method estimate,
         us_Confidence = mc_Confidence estimate,
         us_CompactionNeeded = CompactionNeeded budget,
         us_HardLimitExceeded = HardLimitExceeded budget\<rparr>)"

definition EstimateTextTokens :: "string \<Rightarrow> int" where
  "EstimateTextTokens value0 =
    (let value = trim_space value0 in
     if value = '''' then 0
     else (case rune_count_split value of (asc, non) \<Rightarrow>
             let tokens = add64 (ceilDiv (int asc) 3) (int non)
             in if tokens < 1 then 1 else tokens))"

section \<open>Character attribution\<close>

record char_detail =
  cd_Key :: string
  cd_Source :: string
  cd_Namespace :: string
  cd_Characters :: int

record char_category =
  cc_Category :: string
  cc_Characters :: int
  cc_Details :: "char_detail list"

record char_breakdown =
  cb_Source :: string
  cb_Unit :: string
  cb_TotalCharacters :: int
  cb_Categories :: "char_category list"
  cb_Limitations :: "string list"

definition category_names :: "string list" where
  "category_names = [''system'', ''user'', ''assistant'', ''tool_definition'', ''tool_call'',
     ''tool_result'', ''model_context'', ''compaction'', ''reasoning'', ''hosted_context'',
     ''unlabelled'']"

definition limitation_names :: "string list" where
  "limitation_names = [''media_input'', ''opaque_reasoning'', ''unknown_content'',
     ''hosted_context'', ''opaque_transport'']"

definition detail_key :: "char_detail \<Rightarrow> string \<times> string \<times> string" where
  "detail_key d = (cd_Key d, cd_Source d, cd_Namespace d)"

text \<open>The inner loop over the details of a category; \<open>None\<close> is the early return.\<close>

fun sum_details ::
  "(string \<times> string \<times> string) list \<Rightarrow> int \<Rightarrow> char_detail list \<Rightarrow> int option" where
  "sum_details keys details [] = Some details"
| "sum_details keys details (d # ds) =
     (if detail_key d \<in> set keys \<or> cd_Characters d < 0
         \<or> cd_Characters d > sub64 max_int64 details then None
      else sum_details (detail_key d # keys) (add64 details (cd_Characters d)) ds)"

fun sum_categories :: "string list \<Rightarrow> int \<Rightarrow> char_category list \<Rightarrow> int option" where
  "sum_categories seen sum0 [] = Some sum0"
| "sum_categories seen sum0 (c # cs) =
     (if cc_Category c \<notin> set category_names then None
      else if cc_Category c \<in> set seen \<or> cc_Characters c < 0
         \<or> cc_Characters c > sub64 max_int64 sum0 then None
      else (case sum_details [] 0 (cc_Details c) of
              None \<Rightarrow> None
            | Some details \<Rightarrow>
                if cc_Details c \<noteq> [] \<and> details \<noteq> cc_Characters c then None
                else sum_categories (cc_Category c # seen) (add64 sum0 (cc_Characters c)) cs))"

fun check_limitations :: "string list \<Rightarrow> string list \<Rightarrow> bool" where
  "check_limitations limits [] = True"
| "check_limitations limits (l # ls) =
     (if l \<notin> set limitation_names then False
      else if l \<in> set limits then False else check_limitations (l # limits) ls)"

definition validate_breakdown :: "char_breakdown \<Rightarrow> bool" where
  "validate_breakdown b =
    (if cb_Source b \<noteq> ''prepared_characters_v1'' \<or> cb_Unit b \<noteq> ''unicode_code_points''
        \<or> cb_TotalCharacters b < 0 then False
     else (case sum_categories [] 0 (cb_Categories b) of
             None \<Rightarrow> False
           | Some sum0 \<Rightarrow>
               if sum0 \<noteq> cb_TotalCharacters b then False
               else check_limitations [] (cb_Limitations b)))"

text \<open>\<open>Validate\<close> accepts the absent breakdown (a nil pointer).\<close>

definition Validate_characters :: "char_breakdown option \<Rightarrow> bool" where
  "Validate_characters b = (case b of None \<Rightarrow> True | Some b \<Rightarrow> validate_breakdown b)"

section \<open>Facts about the budget\<close>

lemma SafetyMargin_bounds: "0 < w \<Longrightarrow> 0 \<le> SafetyMargin w \<and> SafetyMargin w \<le> w div 100"
  by (simp add: SafetyMargin_def go_arith)

lemma ratio_split: "(w::int) div 100 * 90 + w mod 100 * 90 div 100 = w * 90 div 100"
proof -
  have w: "w * 90 = w mod 100 * 90 + 100 * (w div 100 * 90)"
    using mult_div_mod_eq [of 100 w] by linarith
  show ?thesis unfolding w by (simp only: div_mult_self2 zero_neq_numeral not_False_eq_True)
qed

lemma ratio_limit_eq:
  assumes "in64 (ContextWindowTokens p)"
  shows "RatioLimitTokens p = ContextWindowTokens (Normalize p) * 90 div 100"
proof -
  let ?w = "ContextWindowTokens (Normalize p)"
  have w: "0 < ?w" "?w < 2 ^ 63"
    using window_pos [of p] window_in64 [OF assms] by (simp_all add: in64_def)
  have q: "0 \<le> ?w div 100" "?w div 100 \<le> ?w" "?w div 100 * 90 \<le> ?w"
    using w(1) by simp_all
  have m: "0 \<le> ?w mod 100" "?w mod 100 < 100" by simp_all
  have 1: "mul64 (go_div ?w 100) 90 = ?w div 100 * 90"
    using w q by (simp add: go_div_nonneg mul64_def wrap64_range)
  have 2: "mul64 (go_mod ?w 100) 90 = ?w mod 100 * 90"
    using w m by (simp add: go_mod_nonneg mul64_def wrap64_range)
  have 3: "go_div (?w mod 100 * 90) 100 = ?w mod 100 * 90 div 100"
    by (rule go_div_nonneg) (use m in simp_all)
  have "0 \<le> ?w * 90 div 100" "?w * 90 div 100 \<le> ?w" using w by simp_all
  then have 4: "wrap64 (?w * 90 div 100) = ?w * 90 div 100"
    by (intro wrap64_range) (use w in linarith)+
  show ?thesis
    unfolding RatioLimitTokens_def Let_def DefaultAutoCompactRatioPercent_def 1 2 3 add64_def
      ratio_split 4 ..
qed

lemma safe_limit_fitted:
  assumes "in64 (ContextWindowTokens p)" "in64 req" "0 < req"
  defines "w \<equiv> ContextWindowTokens (Normalize p)"
  shows "sub64 (sub64 w (SafetyMargin w)) req = w - SafetyMargin w - req"
proof -
  have w: "0 < w" "w < 2 ^ 63"
    using window_pos [of p] window_in64 [OF assms(1)] by (simp_all add: in64_def w_def)
  have m: "0 \<le> SafetyMargin w" "SafetyMargin w \<le> w"
    using SafetyMargin_bounds [OF w(1)] w(1) by linarith+
  have "sub64 w (SafetyMargin w) = w - SafetyMargin w"
    using w m by (simp add: sub64_def wrap64_range)
  then show ?thesis
    using w m assms(2,3) by (simp add: sub64_def wrap64_range in64_def)
qed

lemma fitted_budget_cases:
  assumes fit: "0 < ModelMaxOutputTokens p" and w64: "in64 (ContextWindowTokens p)"
    and o64: "in64 (MaxOutputTokens p)" and m64: "in64 (budget_minimum ms)"
    and ok: "\<not> HardLimitExceeded (ResolveRequestBudget p input ms)"
  defines "w \<equiv> ContextWindowTokens (Normalize p)"
  defines "req \<equiv> (if 0 < MaxOutputTokens p then MaxOutputTokens p else budget_minimum ms)"
  shows "0 \<le> MaxOutputTokens p" "budget_minimum ms \<le> req" "req \<le> ModelMaxOutputTokens p"
    and "input \<le> w - SafetyMargin w - req" "0 < budget_minimum ms"
proof -
  show pos: "0 < budget_minimum ms"
    by (cases ms) (simp_all add: budget_minimum_def)
  have "in64 req" "0 < req" using o64 m64 pos by (auto simp: req_def)
  then have "sub64 (sub64 w (SafetyMargin w)) req = w - SafetyMargin w - req"
    using safe_limit_fitted [OF w64] by (simp add: w_def)
  with ok fit show "0 \<le> MaxOutputTokens p" "budget_minimum ms \<le> req"
    "req \<le> ModelMaxOutputTokens p" "input \<le> w - SafetyMargin w - req"
    by (auto simp: ResolveRequestBudget_def Let_def w_def req_def)
qed

lemma sub64_window:
  "in64 w \<Longrightarrow> 0 \<le> i \<Longrightarrow> i \<le> w \<Longrightarrow> 0 \<le> m \<Longrightarrow> m \<le> w - i \<Longrightarrow>
   sub64 (sub64 w i) m = w - i - m"
  by (simp add: sub64_def wrap64_range in64_def)

lemma OutputTokens_fitted:
  "0 < ModelMaxOutputTokens p \<Longrightarrow> MaxOutputTokens p = 0 \<Longrightarrow>
   OutputTokens (ResolveRequestBudget p input ms) =
     max 0 (min (ModelMaxOutputTokens p)
       (sub64 (sub64 (ContextWindowTokens (Normalize p)) input)
          (SafetyMargin (ContextWindowTokens (Normalize p)))))"
  by (simp add: ResolveRequestBudget_def Let_def)

lemma OutputTokens_explicit:
  "MaxOutputTokens p \<noteq> 0 \<Longrightarrow> OutputTokens (ResolveRequestBudget p input ms) = MaxOutputTokens p"
  by (simp add: ResolveRequestBudget_def Let_def)

lemma SafetyMarginTokens_fitted:
  "0 < ModelMaxOutputTokens p \<Longrightarrow> SafetyMarginTokens (ResolveRequestBudget p input ms) =
     SafetyMargin (ContextWindowTokens (Normalize p))"
  by (simp add: ResolveRequestBudget_def Let_def)

lemma sum_details_eq:
  "0 \<le> acc \<Longrightarrow> acc \<le> max_int64 \<Longrightarrow>
   sum_details keys acc ds =
     (if distinct (map detail_key ds) \<and> set (map detail_key ds) \<inter> set keys = {}
         \<and> (\<forall>d \<in> set ds. 0 \<le> cd_Characters d)
         \<and> acc + sum_list (map cd_Characters ds) \<le> max_int64
      then Some (acc + sum_list (map cd_Characters ds)) else None)"
proof (induction ds arbitrary: keys acc)
  case Nil
  then show ?case by simp
next
  case (Cons d ds)
  have s: "sub64 max_int64 acc = max_int64 - acc"
    using Cons.prems by (simp add: sub64_def wrap64_range max_int64_def)
  show ?case
  proof (cases "detail_key d \<in> set keys \<or> cd_Characters d < 0 \<or> max_int64 - acc < cd_Characters d")
    case True
    moreover have "\<forall>d \<in> set ds. 0 \<le> cd_Characters d \<Longrightarrow> 0 \<le> sum_list (map cd_Characters ds)"
      by (rule sum_list_nonneg) auto
    ultimately show ?thesis using s by auto
  next
    case False
    then have a: "add64 acc (cd_Characters d) = acc + cd_Characters d"
      using Cons.prems by (simp add: add64_def wrap64_range max_int64_def)
    have "sum_details keys acc (d # ds)
        = sum_details (detail_key d # keys) (acc + cd_Characters d) ds"
      using False s a by simp
    also have "\<dots> = (if distinct (map detail_key ds)
         \<and> set (map detail_key ds) \<inter> set (detail_key d # keys) = {}
         \<and> (\<forall>d \<in> set ds. 0 \<le> cd_Characters d)
         \<and> acc + cd_Characters d + sum_list (map cd_Characters ds) \<le> max_int64
      then Some (acc + cd_Characters d + sum_list (map cd_Characters ds)) else None)"
      by (rule Cons.IH) (use False Cons.prems in simp_all)
    finally show ?thesis using False by (auto simp: add.assoc)
  qed
qed

definition category_ok :: "char_category \<Rightarrow> bool" where
  "category_ok c \<longleftrightarrow>
     cc_Category c \<in> set category_names \<and> 0 \<le> cc_Characters c
   \<and> distinct (map detail_key (cc_Details c)) \<and> (\<forall>d \<in> set (cc_Details c). 0 \<le> cd_Characters d)
   \<and> (cc_Details c \<noteq> [] \<longrightarrow> sum_list (map cd_Characters (cc_Details c)) = cc_Characters c)"

lemma sum_details_category:
  assumes "in64 (cc_Characters c)"
  shows "(case sum_details [] 0 (cc_Details c) of
            None \<Rightarrow> False | Some s \<Rightarrow> cc_Details c = [] \<or> s = cc_Characters c)
     \<longleftrightarrow> distinct (map detail_key (cc_Details c)) \<and> (\<forall>d \<in> set (cc_Details c). 0 \<le> cd_Characters d)
       \<and> (cc_Details c \<noteq> [] \<longrightarrow> sum_list (map cd_Characters (cc_Details c)) = cc_Characters c)"
  using assms by (auto simp: sum_details_eq max_int64_def in64_def)

lemma sum_categories_step:
  assumes "in64 (cc_Characters c)" "0 \<le> acc" "acc \<le> max_int64"
  shows "sum_categories seen acc (c # cs) =
     (if category_ok c \<and> cc_Category c \<notin> set seen \<and> acc + cc_Characters c \<le> max_int64
      then sum_categories (cc_Category c # seen) (acc + cc_Characters c) cs else None)"
proof -
  have s: "sub64 max_int64 acc = max_int64 - acc"
    using assms by (simp add: sub64_def wrap64_range max_int64_def)
  have a: "0 \<le> cc_Characters c \<Longrightarrow> acc + cc_Characters c \<le> max_int64 \<Longrightarrow>
      add64 acc (cc_Characters c) = acc + cc_Characters c"
    using assms by (simp add: add64_def wrap64_range max_int64_def)
  show ?thesis
    using sum_details_category [OF assms(1)] s a
    by (cases "sum_details [] 0 (cc_Details c)") (auto simp: category_ok_def)
qed

lemma sum_categories_eq:
  "0 \<le> acc \<Longrightarrow> acc \<le> max_int64 \<Longrightarrow> \<forall>c \<in> set cs. in64 (cc_Characters c) \<Longrightarrow>
   sum_categories seen acc cs =
     (if (\<forall>c \<in> set cs. category_ok c) \<and> distinct (map cc_Category cs)
         \<and> set (map cc_Category cs) \<inter> set seen = {}
         \<and> acc + sum_list (map cc_Characters cs) \<le> max_int64
      then Some (acc + sum_list (map cc_Characters cs)) else None)"
proof (induction cs arbitrary: seen acc)
  case Nil
  then show ?case by simp
next
  case (Cons c cs)
  have nn: "\<forall>c \<in> set cs. category_ok c \<Longrightarrow> 0 \<le> sum_list (map cc_Characters cs)"
    by (rule sum_list_nonneg) (auto simp: category_ok_def)
  show ?case
  proof (cases "category_ok c \<and> cc_Category c \<notin> set seen \<and> acc + cc_Characters c \<le> max_int64")
    case True
    then have "sum_categories seen acc (c # cs)
        = sum_categories (cc_Category c # seen) (acc + cc_Characters c) cs"
      using Cons.prems by (subst sum_categories_step) auto
    also have "\<dots> = (if (\<forall>c \<in> set cs. category_ok c) \<and> distinct (map cc_Category cs)
         \<and> set (map cc_Category cs) \<inter> set (cc_Category c # seen) = {}
         \<and> acc + cc_Characters c + sum_list (map cc_Characters cs) \<le> max_int64
      then Some (acc + cc_Characters c + sum_list (map cc_Characters cs)) else None)"
      by (rule Cons.IH) (use True Cons.prems in \<open>auto simp: category_ok_def\<close>)
    finally show ?thesis using True by (auto simp: add.assoc)
  next
    case False
    then have "sum_categories seen acc (c # cs) = None"
      using Cons.prems by (subst sum_categories_step) auto
    then show ?thesis using False nn by auto
  qed
qed

lemma check_limitations_eq:
  "check_limitations seen ls \<longleftrightarrow>
     distinct ls \<and> set ls \<inter> set seen = {} \<and> set ls \<subseteq> set limitation_names"
  by (induction ls arbitrary: seen) auto

lemma rune_bytes: "int (length s) \<le> 3 * int (fst (rune_count_split s)) - 2 * int (fst (rune_count_split s))
   + 4 * int (snd (rune_count_split s))"
proof (induction s rule: rune_count_split.induct)
  case (1 s)
  show ?case
  proof (cases s)
    case Nil
    then show ?thesis by simp
  next
    case (Cons c t)
    let ?r = "drop (rune_width s) s"
    have w: "rune_width s \<le> 4" "byte_of c < 128 \<Longrightarrow> rune_width s = 1"
      using Cons by (auto simp: rune_width.simps Let_def split: list.splits)
    have "int (length ?r) \<le> int (fst (rune_count_split ?r)) + 4 * int (snd (rune_count_split ?r))"
      using 1 [OF Cons] by simp
    then show ?thesis
      using w rune_width_le [of s] Cons
      by (auto simp: rune_count_split_Cons split: prod.splits)
  qed
qed

lemma EstimateTextTokens_eq:
  assumes "length s < 2 ^ 62" and "\<not> blank s"
  defines "n \<equiv> rune_count_split (trim_space s)"
  shows "EstimateTextTokens s = (int (fst n) + 2) div 3 + int (snd n)"
    and "0 < fst n + snd n" "fst n + snd n \<le> length (trim_space s)"
    and "int (length (trim_space s)) \<le> int (fst n) + 4 * int (snd n)"
proof -
  have ne: "trim_space s \<noteq> ''''" using assms(2) by (simp add: blank_def)
  show pos: "0 < fst n + snd n" unfolding n_def by (rule rune_count_split_pos [OF ne])
  show le: "fst n + snd n \<le> length (trim_space s)" unfolding n_def by (rule rune_count_split_le)
  show "int (length (trim_space s)) \<le> int (fst n) + 4 * int (snd n)"
    using rune_bytes [of "trim_space s"] by (simp add: n_def)
  have "length (trim_space s) \<le> length s"
    using trim_space_length .
  then have lt: "int (fst n) + int (snd n) < 2 ^ 62"
    using le assms(1) by (simp flip: of_nat_add)
  have c: "ceilDiv (int (fst n)) 3 = (int (fst n) + 2) div 3"
    using lt by (auto simp: ceilDiv_def sub64_def add64_def wrap64_range go_div_nonneg add.commute)
  have a: "add64 ((int (fst n) + 2) div 3) (int (snd n)) = (int (fst n) + 2) div 3 + int (snd n)"
  proof -
    have "0 \<le> (int (fst n) + 2) div 3" "(int (fst n) + 2) div 3 \<le> int (fst n) + 1"
      by linarith+
    with lt show ?thesis by (simp add: add64_def wrap64_range)
  qed
  have "1 \<le> (int (fst n) + 2) div 3 + int (snd n)" using pos by linarith
  then show "EstimateTextTokens s = (int (fst n) + 2) div 3 + int (snd n)"
    using ne c a by (auto simp: EstimateTextTokens_def Let_def n_def split: prod.splits)
qed

section \<open>Properties\<close>

text \<open>
  C19: the 90 percent ratio limit is exact for every 64-bit context window: splitting the
  product into quotient and remainder parts avoids the overflow of the direct product and
  still yields the floor of nine tenths of the window.
\<close>
theorem ratio_limit_exact:
  assumes "in64 (ContextWindowTokens p)"
  shows "RatioLimitTokens p = ContextWindowTokens (Normalize p) * 90 div 100"
  by (rule ratio_limit_eq [OF assms])

definition sample_policy :: policy where
  "sample_policy = \<lparr>ModelMaxOutputTokens = 32000, ContextWindowTokens = 200000,
     MaxOutputTokens = 0, ReservedOutputTokens = 0, ReservedSummaryTokens = 0,
     RecentTailTokens = 0, RecentUserTokens = 0, CompactedContextTargetTokens = 0,
     EstimatorSource = '''', EstimatorMethod = '''', MaxCompactionFailures = 0\<rparr>"

theorem ratio_limit_exact_witness:
  "RatioLimitTokens (sample_policy\<lparr>ContextWindowTokens := 2 ^ 63 - 1\<rparr>) = 8301034833169298226
   \<and> mul64 (2 ^ 63 - 1) 90 = - 90"
  using ratio_limit_exact [of "sample_policy\<lparr>ContextWindowTokens := 2 ^ 63 - 1\<rparr>"]
  by (simp add: ContextWindowTokens_Normalize sample_policy_def in64_def mul64_def wrap64_def)

text \<open>
  C18: a request admitted in the output-fitted mode fits its window: input, the output budget
  sent to the provider and the safety margin together never exceed the context window, the
  output budget is at least the required minimum and at most the model's capability, and an
  explicit output ceiling is never silently reduced.
\<close>
theorem fitted_budget_fits:
  assumes "0 < ModelMaxOutputTokens p" "in64 (ContextWindowTokens p)"
    and "in64 (MaxOutputTokens p)" "in64 (budget_minimum ms)" "0 \<le> input"
    and "\<not> HardLimitExceeded (ResolveRequestBudget p input ms)"
  shows "input + OutputTokens (ResolveRequestBudget p input ms)
           + SafetyMarginTokens (ResolveRequestBudget p input ms)
         \<le> ContextWindowTokens (Normalize p)
       \<and> budget_minimum ms \<le> OutputTokens (ResolveRequestBudget p input ms)
       \<and> OutputTokens (ResolveRequestBudget p input ms) \<le> ModelMaxOutputTokens p
       \<and> (MaxOutputTokens p \<noteq> 0 \<longrightarrow>
            OutputTokens (ResolveRequestBudget p input ms) = MaxOutputTokens p)"
proof -
  let ?w = "ContextWindowTokens (Normalize p)"
  note c = fitted_budget_cases [OF assms(1-4,6)]
  have m: "0 \<le> SafetyMargin ?w" using SafetyMargin_bounds [OF window_pos] by simp
  have w: "in64 ?w" by (rule window_in64 [OF assms(2)])
  show ?thesis
  proof (cases "MaxOutputTokens p = 0")
    case True
    with c m have "sub64 (sub64 ?w input) (SafetyMargin ?w) = ?w - input - SafetyMargin ?w"
      using assms(5) by (intro sub64_window [OF w]) auto
    with True c m show ?thesis
      using assms(1) by (simp add: OutputTokens_fitted SafetyMarginTokens_fitted)
  next
    case False
    with c show ?thesis
      using assms(1) by (simp add: OutputTokens_explicit SafetyMarginTokens_fitted)
  qed
qed

theorem fitted_budget_fits_witness:
  "OutputTokens (ResolveRequestBudget sample_policy 190000 []) = 8000
   \<and> 190000 + OutputTokens (ResolveRequestBudget sample_policy 190000 []) + 2000 \<le> 200000"
proof -
  have b: "\<not> HardLimitExceeded (ResolveRequestBudget sample_policy 190000 [])"
    "OutputTokens (ResolveRequestBudget sample_policy 190000 []) = 8000"
    "SafetyMarginTokens (ResolveRequestBudget sample_policy 190000 []) = 2000"
    by code_simp+
  then show ?thesis
    using fitted_budget_fits [of sample_policy "[]" 190000]
    by (simp add: sample_policy_def in64_def budget_minimum_def ContextWindowTokens_Normalize)
qed

text \<open>
  Pressure decisions are consistent. A valid budget whose hard limit is exceeded always
  asks for compaction too, and both flags are monotone in the projected input, so a larger
  request never looks safer than a smaller one.
\<close>
theorem budget_pressure_consistent:
  "(HardLimitExceeded (ResolveRequestBudget p input ms) \<longrightarrow>
      Invalid (ResolveRequestBudget p input ms) \<or> CompactionNeeded (ResolveRequestBudget p input ms))
   \<and> (\<forall>larger \<ge> input.
        (CompactionNeeded (ResolveRequestBudget p input ms) \<longrightarrow>
           CompactionNeeded (ResolveRequestBudget p larger ms))
      \<and> (HardLimitExceeded (ResolveRequestBudget p input ms) \<longrightarrow>
           HardLimitExceeded (ResolveRequestBudget p larger ms)))"
  by (auto simp: ResolveRequestBudget_def Let_def)

theorem budget_pressure_consistent_witness:
  "HardLimitExceeded (ResolveRequestBudget sample_policy 200000 [])
   \<and> CompactionNeeded (ResolveRequestBudget sample_policy 200000 [])
   \<and> CompactionNeeded (ResolveRequestBudget sample_policy 300000 [])"
proof -
  have b: "HardLimitExceeded (ResolveRequestBudget sample_policy 200000 [])"
    "\<not> Invalid (ResolveRequestBudget sample_policy 200000 [])"
    by code_simp+
  then show ?thesis
    using budget_pressure_consistent [of sample_policy 200000 "[]"] by simp
qed

text \<open>
  The conservative text estimate is zero exactly on blank text and otherwise lies between
  a quarter of the trimmed byte length and the byte length itself.
\<close>
theorem EstimateTextTokens_bounds:
  assumes "length s < 2 ^ 62"
  shows "(EstimateTextTokens s = 0 \<longleftrightarrow> blank s) \<and> 0 \<le> EstimateTextTokens s
       \<and> int (length (trim_space s)) \<le> 4 * EstimateTextTokens s
       \<and> EstimateTextTokens s \<le> int (length (trim_space s))"
proof (cases "blank s")
  case True
  then show ?thesis by (simp add: blank_def EstimateTextTokens_def)
next
  case False
  from EstimateTextTokens_eq [OF assms False] show ?thesis
    using False by linarith
qed

theorem EstimateTextTokens_bounds_witness: "0 < EstimateTextTokens '' hello ''"
proof -
  have "\<not> blank '' hello ''" by code_simp
  then show ?thesis using EstimateTextTokens_bounds [of "'' hello ''"] by simp
qed

text \<open>
  Character attribution is accepted exactly when it adds up: every category is a known
  one, occurs once and has a non-negative count, details are distinct and sum to their
  category, the categories sum to the stated total as mathematical integers (no wrapped sum is
  ever accepted), and the limitations are known and distinct.
\<close>
theorem validate_breakdown_iff:
  assumes "in64 (cb_TotalCharacters b)"
    and "\<forall>c \<in> set (cb_Categories b). in64 (cc_Characters c)"
  shows "validate_breakdown b \<longleftrightarrow>
     cb_Source b = ''prepared_characters_v1'' \<and> cb_Unit b = ''unicode_code_points''
   \<and> 0 \<le> cb_TotalCharacters b
   \<and> (\<forall>c \<in> set (cb_Categories b). category_ok c) \<and> distinct (map cc_Category (cb_Categories b))
   \<and> sum_list (map cc_Characters (cb_Categories b)) = cb_TotalCharacters b
   \<and> distinct (cb_Limitations b) \<and> set (cb_Limitations b) \<subseteq> set limitation_names"
proof -
  have "0 \<le> (0::int)" "(0::int) \<le> max_int64" by (simp_all add: max_int64_def)
  note s = sum_categories_eq [OF this assms(2), of "[]"]
  have "cb_TotalCharacters b \<le> max_int64"
    using assms(1) by (simp add: max_int64_def in64_def)
  then show ?thesis
    unfolding validate_breakdown_def s by (auto simp: check_limitations_eq)
qed

theorem validate_breakdown_iff_witness:
  "validate_breakdown \<lparr>cb_Source = ''prepared_characters_v1'', cb_Unit = ''unicode_code_points'',
     cb_TotalCharacters = 7, cb_Categories = [\<lparr>cc_Category = ''system'', cc_Characters = 7,
       cc_Details = []\<rparr>], cb_Limitations = [''media_input'']\<rparr>"
  (is "validate_breakdown ?b")
proof -
  have "in64 (cb_TotalCharacters ?b)" "\<forall>c \<in> set (cb_Categories ?b). in64 (cc_Characters c)"
    by (simp_all add: in64_def)
  note iff = validate_breakdown_iff [OF this]
  show ?thesis
    unfolding iff by (simp add: category_ok_def category_names_def limitation_names_def)
qed

end
