(* ===== verification/Float64.thy ===== *)
theory Float64
  imports Complex_Main Prelude "HOL-Library.Log_Nat"
begin

text \<open>
  Go's \<open>float64\<close> as the rational it denotes: IEEE 754 rounding to 53 significant bits, to nearest with
  ties to even. The exponent is not bounded: the values rounded in this development stay below
  \<open>2^64\<close>, and what would be subnormal is only added to 1. The conversion to \<open>int64\<close> truncates; the
  result for a value out of range is left open by the language and is a parameter.
\<close>

section \<open>Rounding\<close>

text \<open>The exponent of the largest power of two that is not above a positive number.\<close>

definition scale_of :: "rat \<Rightarrow> int" where
  "scale_of x = (case quotient_of x of (a, b) \<Rightarrow>
     let e = bitlen a - bitlen b in if 2 powi e \<le> x then e else e - 1)"

definition round_even :: "rat \<Rightarrow> int" where
  "round_even x = (let n = \<lfloor>x\<rfloor>; d = x - of_int n in
     if d < 1 / 2 \<or> (d = 1 / 2 \<and> even n) then n else n + 1)"

definition float64 :: "rat \<Rightarrow> rat" where
  "float64 x = (if x = 0 then 0
     else let e = scale_of \<bar>x\<bar> - 52 in sgn x * of_int (round_even (\<bar>x\<bar> / 2 powi e)) * 2 powi e)"

definition trunc_rat :: "rat \<Rightarrow> int" where
  "trunc_rat x = (if 0 \<le> x then \<lfloor>x\<rfloor> else - \<lfloor>- x\<rfloor>)"

definition float_to_int64 :: "(rat \<Rightarrow> int) \<Rightarrow> rat \<Rightarrow> int" where
  "float_to_int64 overflow x = (if in64 (trunc_rat x) then trunc_rat x else overflow x)"

section \<open>The exponent\<close>

lemma bitlen_pos: "0 < n \<Longrightarrow> 0 < bitlen n"
  using bitlen_bounds [of n] bitlen_nonneg [of n] by (cases "bitlen n = 0") auto

lemma scale_of:
  assumes "0 < x" shows "2 powi (scale_of x) \<le> x \<and> x < 2 powi (scale_of x + 1)"
proof -
  obtain a b where ab: "quotient_of x = (a, b)" by fastforce
  have b: "0 < b" by (rule quotient_of_denom_pos [OF ab])
  have x: "x = of_int a / of_int b" by (rule quotient_of_div [OF ab])
  have a: "0 < a" using assms b by (simp add: x zero_less_divide_iff)
  have la: "of_int a < (2::rat) powi (bitlen a)" "(2::rat) powi (bitlen a - 1) \<le> of_int a" if "0 < a" for a :: int
  proof -
    have "(of_int a :: rat) < of_int (2 ^ nat (bitlen a))" using bitlen_bounds [OF that] by (subst of_int_less_iff) simp
    then show "of_int a < (2::rat) powi (bitlen a)" using bitlen_nonneg [of a] by (simp add: power_int_def)
    have "(of_int (2 ^ nat (bitlen a - 1)) :: rat) \<le> of_int a" using bitlen_bounds [OF that] by (subst of_int_le_iff) simp
    then show "(2::rat) powi (bitlen a - 1) \<le> of_int a" using that bitlen_pos [OF that] by (simp add: power_int_def)
  qed
  have up: "x < 2 powi (bitlen a - bitlen b + 1)"
  proof -
    have "of_int a < (2::rat) powi (bitlen a - bitlen b + 1) * 2 powi (bitlen b - 1)"
      using la(1) [OF a] by (simp add: power_int_add [symmetric])
    also have "\<dots> \<le> 2 powi (bitlen a - bitlen b + 1) * of_int b" using la(2) [OF b] by (intro mult_left_mono) auto
    finally show ?thesis using b by (simp add: x divide_less_eq)
  qed
  have low: "2 powi (bitlen a - bitlen b - 1) \<le> x"
  proof -
    have "(2::rat) powi (bitlen a - bitlen b - 1) * of_int b \<le> 2 powi (bitlen a - bitlen b - 1) * 2 powi (bitlen b)"
      using la(1) [OF b] by (intro mult_left_mono) auto
    also have "\<dots> \<le> of_int a" using la(2) [OF a] by (simp add: power_int_add [symmetric])
    finally show ?thesis using b by (simp add: x le_divide_eq)
  qed
  show ?thesis using up low by (simp add: scale_of_def ab Let_def)
qed

lemma powi_less: "(2::rat) powi m < 2 powi n \<Longrightarrow> m < n"
  using power_int_increasing [of n m "2::rat"] by force

lemma scale_mono: "0 < x \<Longrightarrow> x \<le> y \<Longrightarrow> scale_of x \<le> scale_of y"
  using scale_of [of x] scale_of [of y] powi_less [of "scale_of x" "scale_of y + 1"] by force

lemma scale_unique:
  assumes "2 powi e \<le> x" "x < 2 powi (e + 1)" shows "scale_of x = e"
proof -
  have "0 < x" using assms(1) zero_less_power_int [of "2::rat" e] by linarith
  then show ?thesis using assms scale_of [of x] powi_less [of e "scale_of x + 1"] powi_less [of "scale_of x" "e + 1"] by force
qed

section \<open>Rounding is monotone and exact on integers of 53 bits\<close>

lemma round_even_int [simp]: "round_even (of_int n) = n"
  by (simp add: round_even_def)

lemma round_even_mono:
  assumes "x \<le> y" shows "round_even x \<le> round_even y"
proof -
  have "\<lfloor>x\<rfloor> \<le> \<lfloor>y\<rfloor>" using assms by (rule floor_mono)
  then consider "\<lfloor>x\<rfloor> = \<lfloor>y\<rfloor>" | "\<lfloor>x\<rfloor> + 1 \<le> \<lfloor>y\<rfloor>" by linarith
  then show ?thesis
  proof cases
    case 1
    then show ?thesis using assms by (auto simp: round_even_def Let_def)
  qed (auto simp: round_even_def Let_def)
qed

lemma float64_pos: "0 < x \<Longrightarrow> float64 x = of_int (round_even (x / 2 powi (scale_of x - 52))) * 2 powi (scale_of x - 52)"
  by (simp add: float64_def Let_def)

lemma float64_minus: "float64 (- x) = - float64 x"
  by (auto simp: float64_def Let_def sgn_if)

lemma float64_binade:
  assumes "0 < x" shows "2 powi (scale_of x) \<le> float64 x \<and> float64 x \<le> 2 powi (scale_of x + 1)"
proof -
  let ?e = "scale_of x - 52" and ?m = "x / 2 powi (scale_of x - 52)"
  have s: "(2::rat) powi (scale_of x) = 2 ^ 52 * 2 powi ?e" "(2::rat) powi (scale_of x + 1) = 2 ^ 53 * 2 powi ?e"
    by (simp_all add: power_int_diff power_int_add)
  have "2 ^ 52 \<le> ?m" "?m \<le> 2 ^ 53" using scale_of [OF assms] s by (simp_all add: le_divide_eq divide_le_eq)
  then have "round_even (of_int (2 ^ 52)) \<le> round_even ?m" "round_even ?m \<le> round_even (of_int (2 ^ 53))"
    by (intro round_even_mono; simp)+
  then have "(of_int (2 ^ 52) :: rat) \<le> of_int (round_even ?m)" "(of_int (round_even ?m) :: rat) \<le> of_int (2 ^ 53)"
    unfolding round_even_int of_int_le_iff by simp_all
  then show ?thesis unfolding s float64_pos [OF assms] by (simp add: mult_right_mono)
qed

lemma float64_nonneg: "0 \<le> x \<Longrightarrow> 0 \<le> float64 x"
proof (cases "x = 0")
  case False
  moreover assume "0 \<le> x"
  ultimately have "2 powi (scale_of x) \<le> float64 x" using float64_binade [of x] by simp
  then show ?thesis using zero_less_power_int [of "2::rat" "scale_of x"] by linarith
qed (simp add: float64_def)

lemma float64_mono:
  assumes "0 \<le> x" "x \<le> y" shows "float64 x \<le> float64 y"
proof (cases "x = 0")
  case True
  then show ?thesis using float64_nonneg [of y] assms(2) by (simp add: float64_def)
next
  case False
  then have x: "0 < x" "0 < y" using assms by auto
  from scale_mono [OF x(1) assms(2)] consider "scale_of x = scale_of y" | "scale_of x + 1 \<le> scale_of y" by linarith
  then show ?thesis
  proof cases
    case 1
    have "(of_int (round_even (x / 2 powi (scale_of y - 52))) :: rat) \<le> of_int (round_even (y / 2 powi (scale_of y - 52)))"
      unfolding of_int_le_iff by (intro round_even_mono divide_right_mono assms(2)) simp
    then show ?thesis unfolding float64_pos [OF x(1)] float64_pos [OF x(2)] 1 by (intro mult_right_mono) auto
  next
    case 2
    then have "(2::rat) powi (scale_of x + 1) \<le> 2 powi (scale_of y)" by (intro power_int_increasing) auto
    then show ?thesis using float64_binade [OF x(1)] float64_binade [OF x(2)] by linarith
  qed
qed

lemma float64_int:
  assumes "0 \<le> n" "n \<le> 2 ^ 53" shows "float64 (of_int n) = of_int n"
proof (cases "n = 0")
  case False
  then have x: "(0::rat) < of_int n" using assms(1) by simp
  show ?thesis
  proof (cases "n = 2 ^ 53")
    case True
    have "scale_of (of_int n) = 53" by (rule scale_unique) (simp_all add: True)
    then have "float64 (of_int n) = of_int (round_even (of_int (2 ^ 52))) * 2" using float64_pos [OF x] by (simp add: True)
    then show ?thesis unfolding round_even_int by (simp add: True)
  next
    case False
    let ?s = "scale_of (of_int n)"
    have "(of_int n :: rat) < of_int (2 ^ 53)" unfolding of_int_less_iff using False assms(2) by simp
    then have "(2::rat) powi ?s < 2 powi 53" using scale_of [OF x] by simp
    then have "?s \<le> 52" by (drule_tac powi_less) simp
    then have p: "(2::rat) powi (?s - 52) * of_int (2 ^ nat (52 - ?s)) = 1"
      by (simp add: power_int_def power_mult_distrib [symmetric])
    then have q: "(of_int n :: rat) / 2 powi (?s - 52) = of_int (n * 2 ^ nat (52 - ?s))"
      by (simp add: field_simps)
    have "of_int (n * 2 ^ nat (52 - ?s)) * 2 powi (?s - 52) = (of_int n :: rat)" using p by (simp add: ac_simps)
    then show ?thesis unfolding float64_pos [OF x] q round_even_int .
  qed
qed (simp add: float64_def)

lemma float64_le: "x \<le> of_int n \<Longrightarrow> 0 \<le> x \<Longrightarrow> 0 \<le> n \<Longrightarrow> n \<le> 2 ^ 53 \<Longrightarrow> float64 x \<le> of_int n"
  using float64_mono [of x "of_int n"] float64_int [of n] by simp

lemma float64_unit: assumes "\<bar>x\<bar> \<le> 1" shows "\<bar>float64 x\<bar> \<le> 1"
proof (cases "0 \<le> x")
  case True
  then show ?thesis using float64_le [of x 1] float64_nonneg [of x] assms by simp
next
  case False
  then show ?thesis using float64_le [of "- x" 1] float64_nonneg [of "- x"] assms by (simp add: float64_minus)
qed

lemma trunc_rat_bounds:
  "0 \<le> x \<Longrightarrow> x \<le> of_int m \<Longrightarrow> 0 \<le> trunc_rat x \<and> trunc_rat x \<le> m"
  by (simp add: trunc_rat_def floor_le_iff)

end
