(* ===== verification/ProviderRetry.thy ===== *)
theory ProviderRetry
  imports Float64
begin

text \<open>
  The bounded, in-memory recovery of model requests: \<^verbatim>\<open>internal/providerretry/retry.go\<close>.
  Errors are modelled by the list of nodes that \<open>errors.Is\<close> and \<open>errors.As\<close> visit (depth
  first, wrappers before what they wrap). Everything the loop observes from outside, the
  clock, the contexts, the attempts, the random numbers and the wait, is a field of an
  environment record indexed by the attempt number, one field per place where the code looks,
  so two looks at the same context may differ. Jitter is computed in \<open>float64\<close> as the code does,
  one rounding per operation (no fused multiply-add).
\<close>

section \<open>Advice\<close>

datatype category =
    CatNone | Transient | RateLimit | Timeout | Interrupted | Permanent | CatOther string

record advice =
  Category :: category
  NotBefore :: go_time
  Forbidden :: bool

definition no_advice :: advice where
  "no_advice = \<lparr>Category = CatNone, NotBefore = 0, Forbidden = False\<rparr>"

datatype errno = ECONNRESET | ECONNREFUSED | EPIPE | ErrnoOther bool

text \<open>
  One constructor per error the code distinguishes; \<open>NNet\<close> is any other \<open>net.Error\<close> with its
  \<open>Timeout()\<close>, \<open>ErrnoOther\<close> any other \<open>syscall.Errno\<close> with its \<open>Timeout()\<close>.
\<close>

datatype errnode =
    NAdvised advice | NUnknownAuthority | NCertInvalid | NHostname
  | NDNS bool bool | NCanceled | NNet bool | NDeadline | NEOF | NUnexpectedEOF
  | NErrno errno | NJoined | NOther string

type_synonym goerr = "errnode list"

fun as_adviser :: "errnode \<Rightarrow> advice option" where
  "as_adviser (NAdvised a) = Some a"
| "as_adviser _ = None"

fun as_dns :: "errnode \<Rightarrow> (bool \<times> bool) option" where
  "as_dns (NDNS timeout temporary) = Some (timeout, temporary)"
| "as_dns _ = None"

text \<open>\<open>net.Error\<close> is also implemented by DNS errors, errno values and the deadline error.\<close>

fun as_net :: "errnode \<Rightarrow> bool option" where
  "as_net (NDNS timeout temporary) = Some timeout"
| "as_net (NNet timeout) = Some timeout"
| "as_net NDeadline = Some True"
| "as_net (NErrno (ErrnoOther timeout)) = Some timeout"
| "as_net (NErrno _) = Some False"
| "as_net _ = None"

fun first_as :: "('n \<Rightarrow> 'a option) \<Rightarrow> 'n list \<Rightarrow> 'a option" where
  "first_as f [] = None"
| "first_as f (n # ns) = (case f n of Some a \<Rightarrow> Some a | None \<Rightarrow> first_as f ns)"

definition err_is :: "goerr \<Rightarrow> errnode \<Rightarrow> bool" where
  "err_is e n \<longleftrightarrow> n \<in> set e"

definition AdviceFor :: "goerr \<Rightarrow> advice" where
  "AdviceFor err =
    (case first_as as_adviser err of
       Some a \<Rightarrow> a
     | None \<Rightarrow>
       if err_is err NUnknownAuthority \<or> err_is err NCertInvalid \<or> err_is err NHostname
       then no_advice\<lparr>Category := Permanent\<rparr>
       else (case first_as as_dns err of
         Some (timeout, temporary) \<Rightarrow>
           if timeout then no_advice\<lparr>Category := Timeout\<rparr>
           else if temporary then no_advice\<lparr>Category := Transient\<rparr>
           else no_advice\<lparr>Category := Permanent\<rparr>
       | None \<Rightarrow>
         if err_is err NCanceled then no_advice\<lparr>Category := Permanent\<rparr>
         else if first_as as_net err = Some True then no_advice\<lparr>Category := Timeout\<rparr>
         else if err_is err NDeadline then no_advice\<lparr>Category := Timeout\<rparr>
         else if err_is err NEOF \<or> err_is err NUnexpectedEOF
           then no_advice\<lparr>Category := Interrupted\<rparr>
         else if err_is err (NErrno ECONNRESET) \<or> err_is err (NErrno ECONNREFUSED)
              \<or> err_is err (NErrno EPIPE)
           then no_advice\<lparr>Category := Transient\<rparr>
         else no_advice))"

text \<open>A nil error is \<open>None\<close>; \<open>WithAdvice\<close> puts the advised wrapper in front.\<close>

definition WithAdvice :: "goerr option \<Rightarrow> advice \<Rightarrow> goerr option" where
  "WithAdvice err a = (case err of None \<Rightarrow> None | Some e \<Rightarrow> Some (NAdvised a # e))"

section \<open>HTTP advice\<close>

definition permanent_codes :: "string list" where
  "permanent_codes = [''insufficient_quota'', ''quota_exceeded'', ''billing_hard_limit_reached'',
     ''billing_not_active'', ''credit_balance_too_low'', ''insufficient_balance'',
     ''insufficient_funds'', ''billing_error'', ''usage_limit_reached'',
     ''monthly_limit_exceeded'', ''invalid_api_key'', ''authentication_error'',
     ''permission_error'', ''permission_denied'', ''model_not_found'',
     ''invalid_request_error'', ''invalid_argument'', ''content_policy_violation'',
     ''content_filter'', ''unsupported_request'']"

definition rate_limit_codes :: "string list" where
  "rate_limit_codes = [''rate_limit_exceeded'', ''rate_limit_error'', ''too_many_requests'',
     ''concurrency_limit_exceeded'']"

definition transient_codes :: "string list" where
  "transient_codes = [''overloaded_error'', ''server_error'', ''internal_error'',
     ''internal_server_error'', ''service_unavailable'', ''upstream_error'',
     ''upstream_gateway_error'', ''request_conflict'']"

definition timeout_codes :: "string list" where
  "timeout_codes = [''request_timeout'', ''timeout_error'']"

definition code_category :: "string \<Rightarrow> category" where
  "code_category c =
     (if c \<in> set permanent_codes then Permanent
      else if c \<in> set rate_limit_codes then RateLimit
      else if c \<in> set transient_codes then Transient
      else if c \<in> set timeout_codes then Timeout
      else if c = ''basispoints_tool_arguments_stalled'' then Interrupted
      else CatNone)"

definition status_category :: "int \<Rightarrow> category \<Rightarrow> category" where
  "status_category status c0 =
    (let c1 = (if status \<in> {401, 403, 404, 400, 422, 501, 505} then Permanent else c0);
         c2 = (if c1 \<noteq> Permanent \<and> status \<in> {408, 504, 524} then Timeout else c1)
     in if c2 = CatNone then
          (if status \<in> {408, 504, 524} then Timeout
           else if status = 429 then RateLimit
           else if 500 \<le> status \<and> status \<le> 599 then Transient
           else CatNone)
        else c2)"

fun parse_digits :: "int \<Rightarrow> string \<Rightarrow> int option" where
  "parse_digits acc [] = Some acc"
| "parse_digits acc (c # s) =
     (let x = byte_of c in
      if 48 \<le> x \<and> x \<le> 57 then parse_digits (10 * acc + int (x - 48)) s else None)"

text \<open>\<open>strconv.ParseInt(s, 10, bits)\<close>: an optional sign, digits, and the range of the width.\<close>

definition parse_int :: "nat \<Rightarrow> string \<Rightarrow> int option" where
  "parse_int bits s =
    (let body = (case s of c # t \<Rightarrow> if c = CHR ''+'' \<or> c = CHR ''-'' then t else s | [] \<Rightarrow> []);
         neg = (case s of c # _ \<Rightarrow> c = CHR ''-'' | [] \<Rightarrow> False)
     in if body = [] then None
        else (case parse_digits 0 body of
          None \<Rightarrow> None
        | Some v \<Rightarrow>
            let r = (if neg then - v else v)
            in if - (2 ^ (bits - 1)) \<le> r \<and> r < 2 ^ (bits - 1) then Some r else None))"

definition second_ns :: int where "second_ns = 1000000000"
definition millisecond_ns :: int where "millisecond_ns = 1000000"

text \<open>
  \<open>get\<close> is \<open>headers.Get\<close>, \<open>parse_time\<close> is \<open>http.ParseTime\<close> of the standard library.
\<close>

definition HTTPAdvice ::
  "(string \<Rightarrow> go_time option) \<Rightarrow> int \<Rightarrow> string \<Rightarrow> (string \<Rightarrow> string) \<Rightarrow> go_time \<Rightarrow> advice" where
  "HTTPAdvice parse_time status code get received =
    (let cat = status_category status (code_category (to_lower (trim_space code)));
         forbidden = (fold_case (trim_space (get ''x-should-retry'')) = ''false'');
         raw = trim_space (get ''Retry-After'');
         nb0 = (if raw = '''' then 0
                else (case parse_int 32 raw of
                   Some seconds \<Rightarrow>
                     if seconds \<ge> 0 then received + mul64 seconds second_ns
                     else (case parse_time raw of Some date \<Rightarrow> date | None \<Rightarrow> 0)
                 | None \<Rightarrow> (case parse_time raw of Some date \<Rightarrow> date | None \<Rightarrow> 0)));
         nb = (case parse_int 53 (trim_space (get ''retry-after-ms'')) of
                 Some ms \<Rightarrow>
                   if ms \<ge> 0 \<and> ms \<le> go_div max_int64 millisecond_ns then
                     (let date = received + mul64 ms millisecond_ns
                      in if date > nb0 then date else nb0)
                   else nb0
               | None \<Rightarrow> nb0)
     in \<lparr>Category = cat, NotBefore = nb, Forbidden = forbidden\<rparr>)"

section \<open>The policy\<close>

record retry_policy =
  Disabled :: bool
  MaxRetries :: int
  MaxTimeoutRetries :: int
  BaseDelay :: duration
  MaxDelay :: duration
  Jitter :: rat
  RecoveryWindow :: duration
  MaxServerWait :: duration

definition DefaultPolicy :: retry_policy where
  "DefaultPolicy = \<lparr>Disabled = False, MaxRetries = 4, MaxTimeoutRetries = 3,
     BaseDelay = 2 * second_ns, MaxDelay = 10 * second_ns, Jitter = float64 (1 / 5),
     RecoveryWindow = 300 * second_ns, MaxServerWait = 60 * second_ns\<rparr>"

definition zero_policy :: retry_policy where
  "zero_policy = \<lparr>Disabled = False, MaxRetries = 0, MaxTimeoutRetries = 0, BaseDelay = 0,
     MaxDelay = 0, Jitter = 0, RecoveryWindow = 0, MaxServerWait = 0\<rparr>"

definition retry_policy_valid :: "retry_policy \<Rightarrow> bool" where
  "retry_policy_valid p \<longleftrightarrow>
     \<not> (MaxRetries p < 0 \<or> MaxTimeoutRetries p < 0 \<or> Jitter p < 0 \<or> Jitter p > 1
        \<or> BaseDelay p < 0 \<or> MaxDelay p < 0 \<or> RecoveryWindow p < 0 \<or> MaxServerWait p < 0)
   \<and> \<not> (\<not> Disabled p \<and> (BaseDelay p \<le> 0 \<or> MaxDelay p < BaseDelay p \<or> RecoveryWindow p \<le> 0
        \<or> MaxServerWait p \<le> 0 \<or> MaxTimeoutRetries p > MaxRetries p))"

definition normalize_retry :: "retry_policy \<Rightarrow> retry_policy" where
  "normalize_retry p = (if p = zero_policy then DefaultPolicy else p)"

section \<open>The loop\<close>

datatype ctx_err = CtxCanceled | CtxDeadline

fun ctx_node :: "ctx_err \<Rightarrow> errnode" where
  "ctx_node CtxCanceled = NCanceled"
| "ctx_node CtxDeadline = NDeadline"

record retry_info =
  ri_Retry :: int
  ri_MaxRetries :: int
  ri_NextAttemptAt :: go_time
  ri_Reason :: category

text \<open>What the run shows to the outside: attempts, scheduled callbacks and waits.\<close>

datatype retry_event = EvAttempt nat | EvScheduled retry_info | EvWait duration

record 'a retry_env =
  env_now_top :: "nat \<Rightarrow> go_time"
  env_ctx_top :: "nat \<Rightarrow> ctx_err option"
  env_parent_top :: "nat \<Rightarrow> ctx_err option"
  env_attempt :: "nat \<Rightarrow> 'a \<times> goerr option"
  env_ctx_after :: "nat \<Rightarrow> ctx_err option"
  env_parent_after :: "nat \<Rightarrow> ctx_err option"
  env_now_fail :: "nat \<Rightarrow> go_time"
  env_random :: "nat \<Rightarrow> rat"
  env_overflow :: "rat \<Rightarrow> duration"
  env_parent_deadline :: "go_time option"
  env_wait :: "nat \<Rightarrow> duration \<Rightarrow> ctx_err option"
  env_parent_wait :: "nat \<Rightarrow> ctx_err option"

record 'a retry_state =
  rs_n :: nat
  rs_result :: 'a
  rs_lastErr :: "goerr option"
  rs_deadline :: "go_time option"
  rs_timeoutRetries :: int
  rs_trace :: "retry_event list"

datatype 'a retry_outcome =
    RDone 'a "goerr option" "retry_event list"
  | RAgain "'a retry_state"

fun backoff :: "nat \<Rightarrow> duration \<Rightarrow> duration \<Rightarrow> duration" where
  "backoff 0 delay maxDelay = delay"
| "backoff (Suc k) delay maxDelay =
     (if delay < maxDelay
      then backoff k (if delay > go_div maxDelay 2 then maxDelay else mul64 delay 2) maxDelay
      else delay)"

text \<open>
  The delay before attempt \<open>n + 1\<close>; \<open>overflow\<close> is what the platform makes of a number that does not
  fit the duration.
\<close>

definition retry_delay :: "retry_policy \<Rightarrow> (rat \<Rightarrow> duration) \<Rightarrow> nat \<Rightarrow> rat \<Rightarrow> duration" where
  "retry_delay p overflow n u =
    (let delay = min (backoff n (BaseDelay p) (MaxDelay p)) (MaxDelay p);
         spread = float64 (Jitter p * float64 (float64 (2 * u) - 1))
     in float_to_int64 overflow (float64 (float64 (of_int delay) * float64 (1 + spread))))"

text \<open>
  The part of the loop body after the classification admitted a retry: the recovery deadline,
  the delay, the server's wish, the two deadline checks, the callback and the wait.
\<close>

definition schedule_retry ::
  "retry_policy \<Rightarrow> 'a retry_env \<Rightarrow> nat \<Rightarrow> 'a \<Rightarrow> goerr \<Rightarrow> advice \<Rightarrow> go_time option \<Rightarrow> int
   \<Rightarrow> retry_event list \<Rightarrow> 'a retry_outcome" where
  "schedule_retry p env n value err a deadline0 timeouts trace =
    (let current = env_now_fail env n;
         deadline = (case deadline0 of Some d \<Rightarrow> d | None \<Rightarrow> current + RecoveryWindow p);
         next0 = current + retry_delay p (env_overflow env) n (env_random env n)
     in if time_sub (NotBefore a) current > MaxServerWait p then RDone value (Some err) trace
        else (let next = (if NotBefore a > next0 then NotBefore a else next0)
              in if \<not> next < deadline then RDone value (Some err) trace
                 else if (case env_parent_deadline env of
                            None \<Rightarrow> False | Some pd \<Rightarrow> \<not> next < min pd deadline)
                   then RDone value (Some err) trace
                 else (let info = \<lparr>ri_Retry = int n + 1, ri_MaxRetries = MaxRetries p,
                                   ri_NextAttemptAt = next, ri_Reason = Category a\<rparr>;
                           d = time_sub next current;
                           trace' = trace @ [EvScheduled info, EvWait d]
                       in (case env_wait env n d of
                             Some _ \<Rightarrow>
                               (case env_parent_wait env n of
                                  Some pe \<Rightarrow> RDone value (Some [ctx_node pe]) trace'
                                | None \<Rightarrow> RDone value (Some err) trace')
                           | None \<Rightarrow>
                               RAgain \<lparr>rs_n = Suc n, rs_result = value, rs_lastErr = Some err,
                                 rs_deadline = Some deadline, rs_timeoutRetries = timeouts,
                                 rs_trace = trace'\<rparr>))))"

text \<open>
  What happens after a failed attempt: a dead context first (with the three ways to report
  it), then the advice.
\<close>

definition after_failure ::
  "retry_policy \<Rightarrow> 'a retry_env \<Rightarrow> nat \<Rightarrow> 'a \<Rightarrow> goerr \<Rightarrow> goerr option \<Rightarrow> go_time option \<Rightarrow> int
   \<Rightarrow> retry_event list \<Rightarrow> 'a retry_outcome" where
  "after_failure p env n value err previousErr deadline timeouts trace =
    (case env_ctx_after env n of
       Some ce \<Rightarrow>
         (case env_parent_after env n of
            Some pe \<Rightarrow> RDone value (Some [ctx_node pe]) trace
          | None \<Rightarrow>
              (case previousErr of
                 Some prev \<Rightarrow>
                   if err_is err (ctx_node ce) \<and> Category (AdviceFor err) \<noteq> Permanent
                   then RDone value (Some (NJoined # prev @ err)) trace
                   else RDone value (Some err) trace
               | None \<Rightarrow> RDone value (Some err) trace))
     | None \<Rightarrow>
         (let a = AdviceFor err
          in if Disabled p \<or> Forbidden a \<or> int n \<ge> MaxRetries p
             then RDone value (Some err) trace
             else (case Category a of
                Transient \<Rightarrow> schedule_retry p env n value err a deadline timeouts trace
              | RateLimit \<Rightarrow> schedule_retry p env n value err a deadline timeouts trace
              | Interrupted \<Rightarrow> schedule_retry p env n value err a deadline timeouts trace
              | Timeout \<Rightarrow>
                  if timeouts \<ge> MaxTimeoutRetries p then RDone value (Some err) trace
                  else schedule_retry p env n value err a deadline (timeouts + 1) trace
              | _ \<Rightarrow> RDone value (Some err) trace)))"

definition retry_step :: "retry_policy \<Rightarrow> 'a retry_env \<Rightarrow> 'a retry_state \<Rightarrow> 'a retry_outcome" where
  "retry_step p env s =
    (let n = rs_n s in
     if (case rs_deadline s of None \<Rightarrow> False | Some d \<Rightarrow> \<not> env_now_top env n < d)
     then RDone (rs_result s) (rs_lastErr s) (rs_trace s)
     else (case env_ctx_top env n of
        Some ce \<Rightarrow>
          if env_parent_top env n = None \<and> rs_lastErr s \<noteq> None
          then RDone (rs_result s) (rs_lastErr s) (rs_trace s)
          else RDone (rs_result s) (Some [ctx_node ce]) (rs_trace s)
      | None \<Rightarrow>
          (let (value, err) = env_attempt env n;
               trace = rs_trace s @ [EvAttempt n]
           in (case err of
                 None \<Rightarrow> RDone value None trace
               | Some e \<Rightarrow>
                   after_failure p env n value e (rs_lastErr s) (rs_deadline s)
                     (rs_timeoutRetries s) trace))))"

text \<open>Every iteration that continues counted one retry below the limit: the loop ends.\<close>

lemma schedule_retry_RAgain:
  "schedule_retry p env n value err a deadline timeouts trace = RAgain s \<Longrightarrow> rs_n s = Suc n"
  by (auto simp: schedule_retry_def Let_def split: if_splits option.splits)

lemma after_failure_RAgain:
  "after_failure p env n value err prev deadline timeouts trace = RAgain s \<Longrightarrow>
   rs_n s = Suc n \<and> int n < MaxRetries p"
  by (auto simp: after_failure_def Let_def split: if_splits option.splits category.splits
      dest: schedule_retry_RAgain)

lemma retry_step_RAgain:
  "retry_step p env s = RAgain s' \<Longrightarrow> rs_n s' = Suc (rs_n s) \<and> int (rs_n s) < MaxRetries p"
  by (auto simp: retry_step_def Let_def split: if_splits option.splits prod.splits
      dest: after_failure_RAgain)

function retry_loop ::
  "retry_policy \<Rightarrow> 'a retry_env \<Rightarrow> 'a retry_state \<Rightarrow> 'a \<times> goerr option \<times> retry_event list" where
  "retry_loop p env s =
    (case retry_step p env s of
       RDone value err trace \<Rightarrow> (value, err, trace)
     | RAgain s' \<Rightarrow> retry_loop p env s')"
  by pat_completeness auto
termination
proof (relation "measure (\<lambda>(p, env, s). nat (MaxRetries p - int (rs_n s)))", goal_cases)
  case (2 p env s s')
  then show ?case using retry_step_RAgain [of p env s s'] by simp
qed simp

declare retry_loop.simps [simp del]

definition retry_init :: "'a \<Rightarrow> 'a retry_state" where
  "retry_init zero = \<lparr>rs_n = 0, rs_result = zero, rs_lastErr = None, rs_deadline = None,
     rs_timeoutRetries = 0, rs_trace = []\<rparr>"

definition retry_run ::
  "retry_policy \<Rightarrow> 'a \<Rightarrow> 'a retry_env \<Rightarrow> 'a \<times> goerr option \<times> retry_event list" where
  "retry_run p zero env = retry_loop (normalize_retry p) env (retry_init zero)"

section \<open>Facts about the loop\<close>

fun attempts_of :: "retry_event list \<Rightarrow> nat list" where
  "attempts_of [] = []"
| "attempts_of (EvAttempt n # es) = n # attempts_of es"
| "attempts_of (_ # es) = attempts_of es"

fun infos_of :: "retry_event list \<Rightarrow> retry_info list" where
  "infos_of [] = []"
| "infos_of (EvScheduled i # es) = i # infos_of es"
| "infos_of (_ # es) = infos_of es"

lemma attempts_of_append [simp]: "attempts_of (xs @ ys) = attempts_of xs @ attempts_of ys"
  by (induction xs rule: attempts_of.induct) auto

lemma infos_of_append [simp]: "infos_of (xs @ ys) = infos_of xs @ infos_of ys"
  by (induction xs rule: infos_of.induct) auto

definition timeouts_in :: "retry_info list \<Rightarrow> nat" where
  "timeouts_in is = length (filter (\<lambda>i. ri_Reason i = Timeout) is)"

lemma timeouts_in_simps [simp]:
  "timeouts_in [] = 0" "timeouts_in (is @ [i]) = timeouts_in is + (if ri_Reason i = Timeout then 1 else 0)"
  by (simp_all add: timeouts_in_def)

text \<open>What is true of one scheduled replacement, whatever the environment does.\<close>

definition info_ok :: "retry_policy \<Rightarrow> 'a retry_env \<Rightarrow> retry_info \<Rightarrow> bool" where
  "info_ok p env i \<longleftrightarrow>
     \<not> Disabled p
   \<and> ri_Reason i \<in> {Transient, RateLimit, Interrupted, Timeout}
   \<and> 1 \<le> ri_Retry i \<and> ri_Retry i \<le> MaxRetries p
   \<and> ri_NextAttemptAt i < env_now_fail env 0 + RecoveryWindow p
   \<and> (\<forall>pd. env_parent_deadline env = Some pd \<longrightarrow> ri_NextAttemptAt i < pd)
   \<and> (\<exists>v e. env_attempt env (nat (ri_Retry i - 1)) = (v, Some e)
        \<and> Category (AdviceFor e) = ri_Reason i \<and> \<not> Forbidden (AdviceFor e)
        \<and> NotBefore (AdviceFor e) \<le> ri_NextAttemptAt i)"

definition trace_ok :: "retry_policy \<Rightarrow> 'a retry_env \<Rightarrow> retry_event list \<Rightarrow> bool" where
  "trace_ok p env tr \<longleftrightarrow>
     (\<forall>i \<in> set (infos_of tr). info_ok p env i)
   \<and> int (timeouts_in (infos_of tr)) \<le> max 0 (MaxTimeoutRetries p)"

definition retry_inv :: "retry_policy \<Rightarrow> 'a retry_env \<Rightarrow> 'a retry_state \<Rightarrow> bool" where
  "retry_inv p env s \<longleftrightarrow>
     attempts_of (rs_trace s) = [0..<rs_n s]
   \<and> length (infos_of (rs_trace s)) = rs_n s
   \<and> int (rs_n s) \<le> max 0 (MaxRetries p)
   \<and> rs_timeoutRetries s = int (timeouts_in (infos_of (rs_trace s)))
   \<and> trace_ok p env (rs_trace s)
   \<and> (rs_deadline s = None \<longleftrightarrow> rs_n s = 0)
   \<and> (rs_lastErr s = None \<longleftrightarrow> rs_n s = 0)
   \<and> (\<forall>d. rs_deadline s = Some d \<longrightarrow> d = env_now_fail env 0 + RecoveryWindow p)
   \<and> (\<forall>m < rs_n s. snd (env_attempt env m) \<noteq> None)"

text \<open>What holds when the loop returns: the attempts are numbered without gaps.\<close>

definition done_ok ::
  "retry_policy \<Rightarrow> 'a retry_env \<Rightarrow> 'a \<times> goerr option \<times> retry_event list \<Rightarrow> bool" where
  "done_ok p env r \<longleftrightarrow>
     (case r of (value, err, tr) \<Rightarrow>
        (\<exists>k. attempts_of tr = [0..<k] \<and> int k \<le> max 0 (MaxRetries p) + 1
           \<and> length (infos_of tr) \<le> k \<and> int (length (infos_of tr)) \<le> max 0 (MaxRetries p)
           \<and> (err = None \<longrightarrow> 0 < k \<and> env_attempt env (k - 1) = (value, None)
                \<and> (\<forall>m < k - 1. snd (env_attempt env m) \<noteq> None)))
      \<and> trace_ok p env tr)"

lemma schedule_retry_cases:
  assumes "schedule_retry p env n value err a deadline0 timeouts trace = r"
  obtains e where "r = RDone value (Some e) trace"
  | i d where "\<And>m. ri_Reason i = m \<longleftrightarrow> Category a = m" "ri_Retry i = int n + 1"
      "NotBefore a \<le> ri_NextAttemptAt i"
      "ri_NextAttemptAt i < (case deadline0 of Some d \<Rightarrow> d
         | None \<Rightarrow> env_now_fail env n + RecoveryWindow p)"
      "\<And>pd. env_parent_deadline env = Some pd \<Longrightarrow> ri_NextAttemptAt i < pd"
      "(\<exists>e. r = RDone value (Some e) (trace @ [EvScheduled i, EvWait d]))
       \<or> r = RAgain \<lparr>rs_n = Suc n, rs_result = value, rs_lastErr = Some err,
           rs_deadline = Some (case deadline0 of Some d \<Rightarrow> d
             | None \<Rightarrow> env_now_fail env n + RecoveryWindow p),
           rs_timeoutRetries = timeouts, rs_trace = trace @ [EvScheduled i, EvWait d]\<rparr>"
proof -
  let ?current = "env_now_fail env n"
  let ?deadline = "case deadline0 of Some d \<Rightarrow> d | None \<Rightarrow> ?current + RecoveryWindow p"
  let ?next0 = "?current + retry_delay p (env_overflow env) n (env_random env n)"
  let ?next = "if NotBefore a > ?next0 then NotBefore a else ?next0"
  let ?i = "\<lparr>ri_Retry = int n + 1, ri_MaxRetries = MaxRetries p, ri_NextAttemptAt = ?next,
    ri_Reason = Category a\<rparr>"
  show ?thesis
  proof (cases "time_sub (NotBefore a) ?current > MaxServerWait p \<or> \<not> ?next < ?deadline
      \<or> (case env_parent_deadline env of None \<Rightarrow> False | Some pd \<Rightarrow> \<not> ?next < min pd ?deadline)")
    case True
    then have "r = RDone value (Some err) trace"
      using assms by (auto simp: schedule_retry_def Let_def)
    then show ?thesis by (rule that(1))
  next
    case False
    have pd: "ri_NextAttemptAt ?i < pd" if "env_parent_deadline env = Some pd" for pd
      using False that by simp
    show ?thesis
      by (rule that(2) [of ?i "time_sub ?next ?current"])
        (use False assms pd in \<open>auto simp: schedule_retry_def Let_def split: option.splits\<close>)
  qed
qed

lemma after_failure_cases:
  assumes "after_failure p env n value err prev deadline timeouts trace = r"
  obtains e where "r = RDone value (Some e) trace"
  | t where "r = schedule_retry p env n value err (AdviceFor err) deadline t trace"
      "\<not> Disabled p" "\<not> Forbidden (AdviceFor err)" "int n < MaxRetries p"
      "Category (AdviceFor err) \<in> {Transient, RateLimit, Interrupted, Timeout}"
      "t = timeouts + (if Category (AdviceFor err) = Timeout then 1 else 0)"
      "Category (AdviceFor err) = Timeout \<Longrightarrow> timeouts < MaxTimeoutRetries p"
proof (cases "env_ctx_after env n")
  case (Some ce)
  then have "\<exists>e. r = RDone value (Some e) trace"
    using assms by (auto simp: after_failure_def split: option.splits if_splits)
  then show ?thesis using that(1) by blast
next
  case None
  let ?a = "AdviceFor err"
  let ?t = "timeouts + (if Category ?a = Timeout then 1 else 0)"
  show ?thesis
  proof (cases "Disabled p \<or> Forbidden ?a \<or> MaxRetries p \<le> int n
      \<or> Category ?a \<notin> {Transient, RateLimit, Interrupted, Timeout}
      \<or> (Category ?a = Timeout \<and> MaxTimeoutRetries p \<le> timeouts)")
    case True
    with None assms have "r = RDone value (Some err) trace"
      by (auto simp: after_failure_def Let_def split: category.splits if_splits)
    then show ?thesis by (rule that(1))
  next
    case False
    with None assms have "r = schedule_retry p env n value err ?a deadline ?t trace"
      by (auto simp: after_failure_def Let_def)
    then show ?thesis by (rule that(2)) (use False in auto)
  qed
qed

lemma trace_ok_scheduled:
  assumes "trace_ok p env tr" "info_ok p env i"
    and "ri_Reason i = Timeout \<Longrightarrow> int (timeouts_in (infos_of tr)) < MaxTimeoutRetries p"
  shows "trace_ok p env (tr @ [EvScheduled i, EvWait d])"
  using assms by (auto simp: trace_ok_def)

lemma trace_ok_attempt [simp]: "trace_ok p env (tr @ [EvAttempt n]) = trace_ok p env tr"
  by (simp add: trace_ok_def)

text \<open>One failed attempt, from a state that satisfies the invariant.\<close>

lemma after_failure_ok:
  assumes inv: "retry_inv p env s" and att: "env_attempt env (rs_n s) = (value, Some err)"
    and r: "after_failure p env (rs_n s) value err (rs_lastErr s) (rs_deadline s)
              (rs_timeoutRetries s) (rs_trace s @ [EvAttempt (rs_n s)]) = r"
  shows "(\<forall>v e tr. r = RDone v e tr \<longrightarrow> done_ok p env (v, e, tr))
       \<and> (\<forall>s'. r = RAgain s' \<longrightarrow> retry_inv p env s')"
  using r
proof (cases rule: after_failure_cases)
  case (1 e)
  then show ?thesis using inv
    by (auto simp: done_ok_def retry_inv_def intro!: exI [of _ "Suc (rs_n s)"])
next
  case (2 t)
  note adm = 2(2-7)
  let ?n = "rs_n s" and ?a = "AdviceFor err"
  let ?dl = "case rs_deadline s of Some d \<Rightarrow> d | None \<Rightarrow> env_now_fail env ?n + RecoveryWindow p"
  have dl: "?dl = env_now_fail env 0 + RecoveryWindow p"
    using inv by (cases "rs_deadline s") (auto simp: retry_inv_def)
  have tm: "rs_timeoutRetries s = int (timeouts_in (infos_of (rs_trace s)))"
    using inv by (simp add: retry_inv_def)
  from 2(1) [symmetric] show ?thesis
  proof (cases rule: schedule_retry_cases)
    case (1 e)
    then show ?thesis using inv
      by (auto simp: done_ok_def retry_inv_def intro!: exI [of _ "Suc ?n"])
  next
    case (2 i d)
    note sched = this
    have ok: "info_ok p env i"
      using adm sched(1-5) att by (auto simp: info_ok_def dl)
    have "trace_ok p env (rs_trace s @ [EvAttempt ?n])"
      using inv by (simp add: retry_inv_def)
    then have tr: "trace_ok p env ((rs_trace s @ [EvAttempt ?n]) @ [EvScheduled i, EvWait d])"
      by (rule trace_ok_scheduled [OF _ ok])
        (use sched(1) tm adm in auto)
    have reason: "ri_Reason i = Timeout \<longleftrightarrow> Category ?a = Timeout" using sched(1) by simp
    have "\<forall>m < Suc ?n. snd (env_attempt env m) \<noteq> None"
      using inv att by (auto simp: retry_inv_def less_Suc_eq)
    moreover have "int (timeouts_in (infos_of (rs_trace s) @ [i])) = t"
      using tm adm reason by simp
    ultimately have inv': "retry_inv p env \<lparr>rs_n = Suc ?n, rs_result = value, rs_lastErr = Some err,
        rs_deadline = Some ?dl, rs_timeoutRetries = t,
        rs_trace = (rs_trace s @ [EvAttempt ?n]) @ [EvScheduled i, EvWait d]\<rparr>"
      using inv adm tr by (auto simp: retry_inv_def dl)
    then have "done_ok p env (v, Some e, (rs_trace s @ [EvAttempt ?n]) @ [EvScheduled i, EvWait d])"
      for v e
      unfolding done_ok_def retry_inv_def
      by (auto intro!: exI [of _ "Suc ?n"])
    with inv' sched(6) show ?thesis by auto
  qed
qed

lemma retry_step_ok:
  assumes "retry_inv p env s" "retry_step p env s = r"
  shows "(\<forall>v e tr. r = RDone v e tr \<longrightarrow> done_ok p env (v, e, tr))
       \<and> (\<forall>s'. r = RAgain s' \<longrightarrow> retry_inv p env s')"
proof -
  have stop: "done_ok p env (v, Some e, rs_trace s)" for v e
    using assms(1) by (auto simp: done_ok_def retry_inv_def intro!: exI [of _ "rs_n s"])
  have last: "done_ok p env (v, rs_lastErr s, rs_trace s)" if "rs_lastErr s \<noteq> None" for v
    using stop that by auto
  have dl: "rs_deadline s \<noteq> None \<Longrightarrow> rs_lastErr s \<noteq> None"
    using assms(1) by (auto simp: retry_inv_def)
  obtain val err where att: "env_attempt env (rs_n s) = (val, err)"
    by (cases "env_attempt env (rs_n s)")
  have succ: "done_ok p env (val, None, rs_trace s @ [EvAttempt (rs_n s)])" if "err = None"
    using assms(1) att that
    by (auto simp: done_ok_def retry_inv_def intro!: exI [of _ "Suc (rs_n s)"])
  show ?thesis
  proof (cases "(case rs_deadline s of None \<Rightarrow> False | Some d \<Rightarrow> \<not> env_now_top env (rs_n s) < d)
      \<or> env_ctx_top env (rs_n s) \<noteq> None \<or> err = None")
    case True
    then show ?thesis
      using assms(2) stop last dl succ att
      by (auto simp: retry_step_def Let_def split: option.splits if_splits)
  next
    case False
    then obtain e where "err = Some e" by auto
    with False assms(2) att have "after_failure p env (rs_n s) val e (rs_lastErr s)
        (rs_deadline s) (rs_timeoutRetries s) (rs_trace s @ [EvAttempt (rs_n s)]) = r"
      by (auto simp: retry_step_def Let_def split: option.splits)
    from after_failure_ok [OF assms(1) _ this] att \<open>err = Some e\<close> show ?thesis by simp
  qed
qed

lemma retry_loop_ok: "retry_inv p env s \<Longrightarrow> done_ok p env (retry_loop p env s)"
proof (induction p env s rule: retry_loop.induct)
  case (1 p env s)
  show ?case
  proof (cases "retry_step p env s")
    case (RDone v e tr)
    then show ?thesis
      using retry_step_ok [OF "1.prems" RDone] by (simp add: retry_loop.simps [of p env s])
  next
    case (RAgain s')
    then have "retry_inv p env s'" using retry_step_ok [OF "1.prems" RAgain] by simp
    with 1(1) [OF RAgain] RAgain show ?thesis by (simp add: retry_loop.simps [of p env s])
  qed
qed

lemma retry_inv_init: "retry_inv p env (retry_init zero)"
  by (simp add: retry_inv_def retry_init_def trace_ok_def timeouts_in_def)

lemma retry_run_ok: "done_ok (normalize_retry p) env (retry_run p zero env)"
  unfolding retry_run_def by (rule retry_loop_ok [OF retry_inv_init])

lemma backoff_eq:
  "0 < d \<Longrightarrow> d \<le> mx \<Longrightarrow> in64 mx \<Longrightarrow> backoff n d mx = min (d * 2 ^ n) mx"
proof (induction n arbitrary: d)
  case 0
  then show ?case by simp
next
  case (Suc n)
  have half: "go_div mx 2 = mx div 2" using Suc.prems by (simp add: go_div_nonneg)
  show ?case
  proof (cases "d < mx \<and> d \<le> mx div 2")
    case True
    then have dd: "mul64 d 2 = 2 * d" "2 * d \<le> mx"
      using Suc.prems by (auto simp: mul64_def wrap64_range in64_def)
    then have "backoff (Suc n) d mx = backoff n (2 * d) mx"
      using True half by simp
    also have "\<dots> = min (2 * d * 2 ^ n) mx"
      by (rule Suc.IH) (use Suc.prems dd in auto)
    finally show ?thesis by (simp add: mult.commute mult.left_commute)
  next
    case False
    have "mx \<le> d * 2 ^ Suc n"
    proof -
      have "mx \<le> d * 2" using False Suc.prems by auto
      also have "\<dots> \<le> d * 2 ^ Suc n" using Suc.prems by (intro mult_left_mono) auto
      finally show ?thesis .
    qed
    moreover have "backoff (Suc n) d mx = mx"
    proof (cases "d < mx")
      case True
      then have "backoff (Suc n) d mx = backoff n mx mx" using False half by simp
      then show ?thesis by (cases n) simp_all
    qed (use Suc.prems in simp)
    ultimately show ?thesis by simp
  qed
qed

lemma status_permanent:
  "status \<in> {401, 403, 404, 400, 422, 501, 505} \<Longrightarrow> status_category status c = Permanent"
  by (simp add: status_category_def)

lemma status_keeps_permanent: "status_category status Permanent = Permanent"
  by (simp add: status_category_def)

section \<open>Properties\<close>

text \<open>
  C20: the retry loop is bounded. Whatever the clock, the contexts, the attempts and the random
  numbers do, the run makes attempts 0, 1, 2, ... without gaps, at most one more than the
  retries of the effective policy, schedules no more replacements than that, and no more
  timeout replacements than the timeout budget.
\<close>
theorem retry_run_bounded:
  "\<exists>k. attempts_of (snd (snd (retry_run p zero env))) = [0..<k]
     \<and> int k \<le> max 0 (MaxRetries (normalize_retry p)) + 1
     \<and> int (length (infos_of (snd (snd (retry_run p zero env)))))
         \<le> max 0 (MaxRetries (normalize_retry p))
     \<and> int (timeouts_in (infos_of (snd (snd (retry_run p zero env)))))
         \<le> max 0 (MaxTimeoutRetries (normalize_retry p))"
  using retry_run_ok [of p env zero] by (auto simp: done_ok_def trace_ok_def split: prod.splits)

text \<open>
  C21: every scheduled replacement is justified. It follows a failed attempt whose advice is
  retryable and not forbidden, respects the server's earliest time, and starts before both
  the recovery deadline (first failure plus recovery window) and the caller's own deadline.
\<close>
theorem retry_schedule_justified:
  assumes "i \<in> set (infos_of (snd (snd (retry_run p zero env))))"
  shows "\<exists>v e. env_attempt env (nat (ri_Retry i - 1)) = (v, Some e)
       \<and> Category (AdviceFor e) = ri_Reason i
       \<and> ri_Reason i \<in> {Transient, RateLimit, Interrupted, Timeout}
       \<and> \<not> Forbidden (AdviceFor e) \<and> \<not> Disabled (normalize_retry p)
       \<and> NotBefore (AdviceFor e) \<le> ri_NextAttemptAt i
       \<and> ri_NextAttemptAt i < env_now_fail env 0 + RecoveryWindow (normalize_retry p)
       \<and> (\<forall>pd. env_parent_deadline env = Some pd \<longrightarrow> ri_NextAttemptAt i < pd)"
proof -
  have "info_ok (normalize_retry p) env i"
    using retry_run_ok [of p env zero] assms
    by (auto simp: done_ok_def trace_ok_def split: prod.splits)
  then show ?thesis by (auto simp: info_ok_def)
qed

text \<open>A run used by the witnesses: one rate-limited attempt, then success.\<close>

definition sample_env :: "int retry_env" where
  "sample_env = \<lparr>env_now_top = (\<lambda>_. 100), env_ctx_top = (\<lambda>_. None), env_parent_top = (\<lambda>_. None),
     env_attempt = (\<lambda>n. if n = 0 then (0, Some [NAdvised (no_advice\<lparr>Category := RateLimit\<rparr>)])
                        else (42, None)),
     env_ctx_after = (\<lambda>_. None), env_parent_after = (\<lambda>_. None), env_now_fail = (\<lambda>_. 100),
     env_random = (\<lambda>_. 1 / 2), env_overflow = (\<lambda>_. - (2 ^ 63)), env_parent_deadline = None, env_wait = (\<lambda>_ _. None),
     env_parent_wait = (\<lambda>_. None)\<rparr>"

lemma sample_run:
  "retry_run zero_policy 0 sample_env =
     (42, None, [EvAttempt 0,
        EvScheduled \<lparr>ri_Retry = 1, ri_MaxRetries = 4, ri_NextAttemptAt = 2000000100,
          ri_Reason = RateLimit\<rparr>,
        EvWait 2000000000, EvAttempt 1])"
  by code_simp

theorem retry_schedule_justified_witness:
  "(2000000100::int) < 100 + RecoveryWindow DefaultPolicy"
proof -
  let ?i = "\<lparr>ri_Retry = 1, ri_MaxRetries = 4, ri_NextAttemptAt = 2000000100,
    ri_Reason = RateLimit\<rparr>"
  have "?i \<in> set (infos_of (snd (snd (retry_run zero_policy 0 sample_env))))"
    by (simp add: sample_run)
  from retry_schedule_justified [OF this] show ?thesis
    by (simp add: sample_env_def normalize_retry_def)
qed

text \<open>
  Success is genuine and final. A run that returns no error made its last attempt
  successfully, returns exactly that attempt's value, and every earlier attempt had failed.
\<close>
theorem retry_success_final:
  assumes "retry_run p zero env = (value, None, tr)"
  shows "\<exists>k. attempts_of tr = [0..<Suc k] \<and> env_attempt env k = (value, None)
       \<and> (\<forall>m < k. snd (env_attempt env m) \<noteq> None)"
proof -
  from retry_run_ok [of p env zero] assms obtain k where
    "attempts_of tr = [0..<k]" "0 < k" "env_attempt env (k - 1) = (value, None)"
    "\<forall>m < k - 1. snd (env_attempt env m) \<noteq> None"
    by (auto simp: done_ok_def)
  then show ?thesis by (intro exI [of _ "k - 1"]) simp
qed

theorem retry_success_final_witness:
  "\<exists>k. [0, 1] = [0..<Suc k] \<and> env_attempt sample_env k = (42, None)"
  using retry_success_final [OF sample_run] by auto

lemma jitter_factor:
  assumes "0 \<le> j" "j \<le> 1" "0 \<le> u" "u \<le> 1"
  shows "0 \<le> float64 (1 + float64 (j * float64 (float64 (2 * u) - 1)))
    \<and> float64 (1 + float64 (j * float64 (float64 (2 * u) - 1))) \<le> 2"
proof -
  have "0 \<le> float64 (2 * u)" "float64 (2 * u) \<le> 2"
    using float64_nonneg [of "2 * u"] float64_le [of "2 * u" 2] assms by simp_all
  then have "\<bar>float64 (float64 (2 * u) - 1)\<bar> \<le> 1" by (intro float64_unit) auto
  then have "\<bar>j * float64 (float64 (2 * u) - 1)\<bar> \<le> 1"
    unfolding abs_mult by (rule mult_le_one [rotated 2]) (use assms in auto)
  then have "\<bar>float64 (j * float64 (float64 (2 * u) - 1))\<bar> \<le> 1" by (rule float64_unit)
  then have "0 \<le> 1 + float64 (j * float64 (float64 (2 * u) - 1))" "1 + float64 (j * float64 (float64 (2 * u) - 1)) \<le> of_int 2"
    by auto
  then show ?thesis using float64_nonneg float64_le [of "1 + float64 (j * float64 (float64 (2 * u) - 1))" 2] by auto
qed

text \<open>
  C23: The exponential delay is exact and capped. With a positive base delay not above the
  maximum, doubling under the overflow guard yields the smaller of base times two to the n and
  the maximum for every n and every \<open>int64\<close> maximum; and when the maximum is at most 2 to the 52
  nanoseconds (52 days), where \<open>float64\<close> is exact, the jittered delay computed in \<open>float64\<close> fits the
  duration and stays between zero and twice the maximum.
\<close>
theorem backoff_exact:
  assumes "0 < BaseDelay p" "BaseDelay p \<le> MaxDelay p" "in64 (MaxDelay p)"
    and "0 \<le> Jitter p" "Jitter p \<le> 1" "0 \<le> u" "u \<le> 1"
  shows "backoff n (BaseDelay p) (MaxDelay p) = min (BaseDelay p * 2 ^ n) (MaxDelay p)
       \<and> (MaxDelay p \<le> 2 ^ 52 \<longrightarrow> 0 \<le> retry_delay p overflow n u \<and> retry_delay p overflow n u \<le> 2 * MaxDelay p)"
proof (intro conjI impI)
  let ?d = "min (BaseDelay p * 2 ^ n) (MaxDelay p)"
  let ?f = "float64 (1 + float64 (Jitter p * float64 (float64 (2 * u) - 1)))"
  show b: "backoff n (BaseDelay p) (MaxDelay p) = ?d"
    by (rule backoff_eq [OF assms(1-3)])
  assume small: "MaxDelay p \<le> 2 ^ 52"
  have d: "0 \<le> ?d" "?d \<le> MaxDelay p" "?d \<le> 2 ^ 53" using assms(1,2) small by auto
  note f = jitter_factor [OF assms(4-7)]
  have "of_int ?d * ?f \<le> of_int (MaxDelay p) * 2" by (rule mult_mono) (use d f in auto)
  then have "of_int ?d * ?f \<le> of_int (2 * MaxDelay p)" by simp
  moreover have "0 \<le> of_int ?d * ?f" by (rule mult_nonneg_nonneg) (use d f in auto)
  ultimately have "float64 (of_int ?d * ?f) \<le> of_int (2 * MaxDelay p)" "0 \<le> float64 (of_int ?d * ?f)"
    using float64_le [of "of_int ?d * ?f" "2 * MaxDelay p"] float64_nonneg small assms(1,2) by simp_all
  then have t: "0 \<le> trunc_rat (float64 (of_int ?d * ?f))" "trunc_rat (float64 (of_int ?d * ?f)) \<le> 2 * MaxDelay p"
    using trunc_rat_bounds by blast+
  then have "in64 (trunc_rat (float64 (of_int ?d * ?f)))" using small by (simp add: in64_def)
  then have "retry_delay p overflow n u = trunc_rat (float64 (of_int ?d * ?f))"
    unfolding retry_delay_def Let_def b by (simp add: float64_int [OF d(1,3)] float_to_int64_def)
  then show "0 \<le> retry_delay p overflow n u" "retry_delay p overflow n u \<le> 2 * MaxDelay p" using t by simp_all
qed

theorem backoff_exact_witness:
  "backoff 2 (BaseDelay DefaultPolicy) (MaxDelay DefaultPolicy) = 8000000000
   \<and> backoff 60 (BaseDelay DefaultPolicy) (MaxDelay DefaultPolicy) = 10000000000
   \<and> retry_delay DefaultPolicy (\<lambda>_. 0) 60 (3 / 4) \<le> 20000000000"
proof -
  have "0 \<le> Jitter DefaultPolicy" "Jitter DefaultPolicy \<le> 1"
    using float64_nonneg [of "1 / 5"] float64_unit [of "1 / 5"] by (simp_all add: DefaultPolicy_def)
  moreover have "BaseDelay DefaultPolicy = 2000000000" "MaxDelay DefaultPolicy = 10000000000"
    by (simp_all add: DefaultPolicy_def second_ns_def)
  ultimately show ?thesis
    using backoff_exact [of DefaultPolicy "3 / 4" 2] backoff_exact [of DefaultPolicy "3 / 4" 60 "\<lambda>_. 0"]
    by (simp add: in64_def)
qed

text \<open>
  C22: authentication and invalid contracts outrank every retry hint. A response with one of the
  permanent statuses, or with a permanent machine code, ends the run after its first attempt,
  whatever the other headers say, unless the context died first.
\<close>
theorem permanent_http_never_retried:
  assumes "status \<in> {401, 403, 404, 400, 422, 501, 505}
         \<or> to_lower (trim_space code) \<in> set permanent_codes"
    and "env_ctx_top env 0 = None" "env_ctx_after env 0 = None"
    and "env_attempt env 0 = (v, WithAdvice (Some e) (HTTPAdvice pt status code get received))"
  shows "retry_run p zero env =
     (v, WithAdvice (Some e) (HTTPAdvice pt status code get received), [EvAttempt 0])"
proof -
  let ?a = "HTTPAdvice pt status code get received"
  have "Category ?a = Permanent"
    using assms(1) status_keeps_permanent
    by (auto simp: HTTPAdvice_def Let_def code_category_def status_permanent)
  then have "after_failure q env 0 v (NAdvised ?a # e) None None 0 [EvAttempt 0]
      = RDone v (Some (NAdvised ?a # e)) [EvAttempt 0]" for q
    using assms(3) by (simp add: after_failure_def AdviceFor_def Let_def)
  then have "retry_step q env (retry_init zero)
      = RDone v (Some (NAdvised ?a # e)) [EvAttempt 0]" for q
    using assms(2,4) by (simp add: retry_step_def retry_init_def WithAdvice_def)
  then show ?thesis
    by (simp add: retry_run_def retry_loop.simps [of _ env "retry_init zero"] WithAdvice_def)
qed

theorem permanent_http_never_retried_witness:
  "\<exists>err. retry_run zero_policy (0::int)
     (sample_env\<lparr>env_attempt := (\<lambda>_. (7, WithAdvice (Some [])
        (HTTPAdvice (\<lambda>_. None) 401 '''' (\<lambda>_. '''') 0)))\<rparr>)
   = (7, err, [EvAttempt 0])"
proof -
  let ?env = "sample_env\<lparr>env_attempt := (\<lambda>_. (7::int, WithAdvice (Some [])
    (HTTPAdvice (\<lambda>_. None) 401 '''' (\<lambda>_. '''') 0)))\<rparr>"
  have "retry_run zero_policy (0::int) ?env =
      (7, WithAdvice (Some []) (HTTPAdvice (\<lambda>_. None) 401 '''' (\<lambda>_. '''') 0), [EvAttempt 0])"
    by (rule permanent_http_never_retried) (simp_all add: sample_env_def)
  then show ?thesis by blast
qed

text \<open>A valid policy with a maximum above 2 to the 62 can leave the range of a duration.\<close>

definition long_policy :: retry_policy where
  "long_policy = \<lparr>Disabled = False, MaxRetries = 1, MaxTimeoutRetries = 0, BaseDelay = 2 ^ 62 + 2 ^ 12,
     MaxDelay = 2 ^ 62 + 2 ^ 12, Jitter = 1, RecoveryWindow = 1, MaxServerWait = 1\<rparr>"

lemma jitter_overflows:
  "retry_policy_valid long_policy \<and> retry_delay long_policy (\<lambda>_. - (2 ^ 63)) 0 (1 - 1 / 2 ^ 53) = - (2 ^ 63)"
  by code_simp

end
