(* ===== verification/JournalModel.thy ===== *)
theory JournalModel
  imports ContextPolicy "HOL-Library.AList"
begin

text \<open>
  The data of the session tree: \<^verbatim>\<open>internal/session/session.go\<close> (messages) and the types at the
  head of \<^verbatim>\<open>internal/sessiontree/sessiontree.go\<close> (entries, thread metadata, errors).
  Go's string-typed enumerations become datatypes; the empty string is the \<open>Unset\<close>
  constructor where the code tests for it and any string outside the declared constants is
  the \<open>Other\<close> constructor. \<open>map[string]string\<close> is an association list, so that looking up,
  updating and comparing it computes. Go maps that the code ranges over are association
  lists too: the list order is the iteration order Go leaves open.
  The read-only decorations of an entry (\<open>ProjectedText\<close>, body locators) are not part of
  the journal and are left out; activities and the payload of a control signal, which no
  operation here looks into, are opaque strings.
\<close>

section \<open>Errors\<close>

datatype st_error =
    ErrThreadNotFound | ErrEntryNotFound | ErrInvalidParent | ErrActiveTurn | ErrThreadExists
  | ErrInvalidThreadAuthority | ErrThreadAuthorityBusy | ErrThreadClosed | ErrThreadDeleted
  | ErrSubAgentClosing | ErrStaleAuthority | ErrRecoveryTargetResolved | ErrAuthorityCorrupt
  | ErrForkDestinationConflict | ErrAgentTodoVersionConflict | ErrStaleCanonicalTurnCursor
  | ErrRequestConflict | ErrSubAgentInputNotFound | ErrEffectAttemptNotFound
  | ErrEffectOutcomeUnknown | ErrMsg string

type_synonym 'a st_result = "st_error + 'a"

section \<open>Enumerations\<close>

datatype entry_type =
    EntryThreadInfo | EntryTurnMarker | EntryUserMessage | EntryModelContext
  | EntryAssistantMessage | EntryToolCall | EntryToolResult | EntryModelChange
  | EntryActiveTools | EntryCompaction | EntryBranchSummary | EntryRunFailure
  | EntryQueueAdded | EntryQueueReordered | EntryQueueDeleted | EntryQueuePromoted
  | EntryInteractionAsked | EntryInteractionDone | EntryCancelRequested
  | EntryRuntimeRestarted | EntryEffectAttempt | EntryCustom
  | EntryGoal | EntryGoalReview | EntryGoalContext
  | EntryHostWork | EntryHostWorkAdmitted | EntryParentEvent | EntryParentEventsAdmitted
  | EntrySteeringRequested | EntrySteeringApplied | EntrySteeringCancelled
  | EntryOther string

datatype turn_status =
    TurnUnset | TurnStarted | TurnSavePoint | TurnCompleted | TurnWaiting | TurnFailed
  | TurnAborted | TurnStatusOther string

datatype role = System | User | Assistant | Tool | RoleOther string

datatype message_kind =
    MessageKindNormal | MessageKindParentEvents | MessageKindHostWork
  | MessageKindModelContext | MessageKindToolValidationError | MessageKindCompactionSummary
  | MessageKindControlSignal | MessageKindGoalContext | MessageKindGoalReview
  | MessageKindOther string

datatype thread_lifecycle =
    LifecycleUnset | ThreadLifecycleOpen | ThreadLifecycleClosing | ThreadLifecycleClosed
  | ThreadLifecycleDeleted | LifecycleOther string

datatype title_status =
    TitleUnset | ThreadTitlePending | ThreadTitleReady | ThreadTitleFailed
  | TitleStatusOther string

datatype title_source =
    TitleSourceUnset | ThreadTitleSourceFallback | ThreadTitleSourceProvider
  | ThreadTitleSourceHost | TitleSourceOther string

section \<open>Messages\<close>

type_synonym meta_map = "(string \<times> string) list"

text \<open>Go's \<open>m[key]\<close> on a string map: the zero value for a missing key.\<close>

definition mget :: "meta_map \<Rightarrow> string \<Rightarrow> string" where
  "mget m k = (case map_of m k of None \<Rightarrow> '''' | Some v \<Rightarrow> v)"

record text_stats =
  ax_UnicodeCodePointCount :: int
  ax_LogicalLineCount :: int

record message_attachment =
  at_ResourceRef :: string
  at_Name :: string
  at_MIMEType :: string
  at_SizeBytes :: int
  at_TextStats :: "text_stats option"

record message_reference =
  mr_ReferenceID :: string
  mr_Kind :: string
  mr_Label :: string
  mr_Text :: string
  mr_ResourceRef :: string
  mr_Truncated :: bool
  mr_ReferencedThreadID :: string

record context_item =
  ci_Kind :: string
  ci_Title :: string
  ci_Text :: string

text \<open>A model context snapshot; \<open>None\<close> sections are Go's \<open>nil\<close> slice.\<close>

record model_section =
  mc_Key :: string
  mc_Title :: string
  mc_Text :: string

record model_snapshot =
  mc_Sections :: "model_section list option"

record cite_source =
  cr_Title :: string
  cr_URL :: string
  cr_StartIndex :: "int option"
  cr_EndIndex :: "int option"

record control_signal =
  cs_Name :: string
  cs_CallID :: string
  cs_Disposition :: string
  cs_ErrorCode :: string
  cs_OutputText :: string
  cs_ArgsHash :: string
  cs_Payload :: string

record input_request =
  ir_Summary :: string
  ir_Questions :: "string list"

record artifact_ref =
  ar_ID :: string
  ar_SafeLabel :: string
  ar_Kind :: string
  ar_MIME :: string
  ar_SizeBytes :: int
  ar_SHA256 :: string

record tool_result_view =
  tr_ObservedHostWork :: string
  tr_EffectOutcome :: string
  tr_InputRequired :: "input_request option"
  tr_Status :: string
  tr_Truncated :: bool
  tr_OriginalBytes :: int
  tr_VisibleBytes :: int
  tr_OriginalLines :: int
  tr_VisibleLines :: int
  tr_Strategy :: string
  tr_ContentSHA256 :: string
  tr_FullOutput :: "artifact_ref option"
  tr_Attachments :: "message_attachment list"

record message =
  msg_ContentSourceID :: string
  msg_ReasoningSourceID :: string
  msg_GoalContextBaseline :: string
  msg_Sources :: "cite_source list"
  msg_Role :: role
  msg_Content :: string
  msg_Attachments :: "message_attachment list"
  msg_References :: "message_reference list"
  msg_Context :: "context_item list"
  msg_ModelContextSnapshot :: "model_snapshot option"
  msg_Reasoning :: string
  msg_ToolCallID :: string
  msg_ToolName :: string
  msg_ToolArgs :: string
  msg_EntryID :: string
  msg_ParentEntryID :: string
  msg_Kind :: message_kind
  msg_ToolResult :: "tool_result_view option"
  msg_Activity :: "string option"
  msg_ControlSignal :: "control_signal option"
  msg_CompactionID :: string
  msg_CompactionGeneration :: int
  msg_CompactionWindowID :: string

definition zero_message :: message where
  "zero_message = \<lparr>msg_ContentSourceID = '''', msg_ReasoningSourceID = '''',
     msg_GoalContextBaseline = '''', msg_Sources = [], msg_Role = RoleOther '''',
     msg_Content = '''', msg_Attachments = [], msg_References = [], msg_Context = [],
     msg_ModelContextSnapshot = None, msg_Reasoning = '''', msg_ToolCallID = '''',
     msg_ToolName = '''', msg_ToolArgs = '''', msg_EntryID = '''', msg_ParentEntryID = '''',
     msg_Kind = MessageKindNormal, msg_ToolResult = None, msg_Activity = None,
     msg_ControlSignal = None, msg_CompactionID = '''', msg_CompactionGeneration = 0,
     msg_CompactionWindowID = ''''\<rparr>"

section \<open>Entries\<close>

record entry =
  ID :: string
  ThreadID :: string
  ParentID :: string
  PathDepth :: int
  Type :: entry_type
  TurnID :: string
  RunID :: string
  RequestKey :: string
  RequestFingerprint :: string
  Payload :: string
  CreatedAt :: go_time
  Message :: message
  Raw :: string
  RawHash :: string
  TurnStatus :: turn_status
  Provider :: string
  Model :: string
  CompactionID :: string
  PreviousCompactionID :: string
  CompactedThroughEntryID :: string
  SummarySchemaVersion :: string
  CompactionGeneration :: int
  CompactionWindowID :: string
  FirstKeptEntryID :: string
  GoalContextBaseline :: string
  ModelContextBaseline :: "model_snapshot option"
  KeptUserEntryIDs :: "string list"
  Summary :: string
  CompactionTrigger :: string
  CompactionReason :: string
  CompactionPhase :: string
  CompactionOperationID :: string
  CompactionRequestID :: string
  CompactionSource :: string
  TokensBefore :: int
  TokensAfterEstimate :: int
  ContextUsageBefore :: usage
  ContextUsageAfter :: usage
  Error :: string
  Metadata :: meta_map

definition zero_usage :: usage where
  "zero_usage = \<lparr>us_PrefixTokens = 0, us_MessageTokens = 0, us_InputTokens = 0,
     us_ContextWindow = 0, us_ThresholdTokens = 0, us_RatioLimitTokens = 0,
     us_RequestSafeLimit = 0, us_MaxOutputTokens = 0, us_ReservedOutput = 0,
     us_ReservedSummary = 0, us_OutputHeadroom = 0, us_AutoCompactRatio = 0,
     us_RecentTailTokens = 0, us_RecentUserTokens = 0, us_Source = '''', us_Method = '''',
     us_Confidence = '''', us_CompactionNeeded = False, us_HardLimitExceeded = False\<rparr>"

definition zero_entry :: entry where
  "zero_entry = \<lparr>ID = '''', ThreadID = '''', ParentID = '''', PathDepth = 0,
     Type = EntryOther '''', TurnID = '''', RunID = '''', RequestKey = '''',
     RequestFingerprint = '''', Payload = '''', CreatedAt = 0, Message = zero_message,
     Raw = '''', RawHash = '''', TurnStatus = TurnUnset, Provider = '''', Model = '''',
     CompactionID = '''', PreviousCompactionID = '''', CompactedThroughEntryID = '''',
     SummarySchemaVersion = '''', CompactionGeneration = 0, CompactionWindowID = '''',
     FirstKeptEntryID = '''', GoalContextBaseline = '''', ModelContextBaseline = None,
     KeptUserEntryIDs = [], Summary = '''', CompactionTrigger = '''', CompactionReason = '''',
     CompactionPhase = '''', CompactionOperationID = '''', CompactionRequestID = '''',
     CompactionSource = '''', TokensBefore = 0, TokensAfterEstimate = 0,
     ContextUsageBefore = zero_usage, ContextUsageAfter = zero_usage, Error = '''',
     Metadata = []\<rparr>"

section \<open>Threads\<close>

record thread_meta =
  tm_ID :: string
  tm_OriginRequestKey :: string
  tm_OriginFingerprint :: string
  tm_LeafID :: string
  tm_ParentThreadID :: string
  tm_ParentTurnID :: string
  tm_ForkedFromThreadID :: string
  tm_ForkedFromEntryID :: string
  tm_LegacyForkRequestID :: string
  tm_LegacyForkNodeID :: string
  tm_TaskName :: string
  tm_TaskDescription :: string
  tm_AgentPath :: string
  tm_HostProfileRef :: string
  tm_ForkMode :: string
  tm_Lifecycle :: thread_lifecycle
  tm_Archived :: bool
  tm_Title :: string
  tm_TitleStatus :: title_status
  tm_TitleSource :: title_source
  tm_TitleUpdatedAt :: go_time
  tm_TitleError :: string
  tm_TitleGeneration :: int
  tm_TitleToken :: string
  tm_TitleRequestKey :: string
  tm_TitleRequestFingerprint :: string
  tm_CreatedAt :: go_time
  tm_UpdatedAt :: go_time
  tm_LastViewedAt :: go_time

definition zero_meta :: thread_meta where
  "zero_meta = \<lparr>tm_ID = '''', tm_OriginRequestKey = '''', tm_OriginFingerprint = '''',
     tm_LeafID = '''', tm_ParentThreadID = '''', tm_ParentTurnID = '''',
     tm_ForkedFromThreadID = '''', tm_ForkedFromEntryID = '''',
     tm_LegacyForkRequestID = '''', tm_LegacyForkNodeID = '''', tm_TaskName = '''',
     tm_TaskDescription = '''', tm_AgentPath = '''', tm_HostProfileRef = '''',
     tm_ForkMode = '''', tm_Lifecycle = LifecycleUnset, tm_Archived = False, tm_Title = '''',
     tm_TitleStatus = TitleUnset, tm_TitleSource = TitleSourceUnset, tm_TitleUpdatedAt = 0,
     tm_TitleError = '''', tm_TitleGeneration = 0, tm_TitleToken = '''',
     tm_TitleRequestKey = '''', tm_TitleRequestFingerprint = '''', tm_CreatedAt = 0,
     tm_UpdatedAt = 0, tm_LastViewedAt = 0\<rparr>"

record thread_tombstone =
  ts_ThreadID :: string
  ts_RootThreadID :: string
  ts_ParentThreadID :: string
  ts_OriginRequestKey :: string
  ts_OriginFingerprint :: string
  ts_DeleteRequestKey :: string
  ts_DeleteFingerprint :: string
  ts_ForkedFromThreadID :: string
  ts_ForkedFromEntryID :: string
  ts_LegacyCreateIntent :: string
  ts_LegacyForkRequestID :: string
  ts_LegacyForkNodeID :: string
  ts_DeletedAt :: go_time

section \<open>Shared predicates and lookups\<close>

definition terminalTurnMarker :: "turn_status \<Rightarrow> bool" where
  "terminalTurnMarker s \<longleftrightarrow> s = TurnCompleted \<or> s = TurnFailed \<or> s = TurnAborted"

definition isCanonicalUserEntry :: "entry \<Rightarrow> bool" where
  "isCanonicalUserEntry e \<longleftrightarrow> Type e = EntryUserMessage \<and> msg_Role (Message e) = User
     \<and> msg_Kind (Message e) \<noteq> MessageKindControlSignal"

definition findEntry :: "entry list \<Rightarrow> string \<Rightarrow> entry option" where
  "findEntry es i = list_find (\<lambda>e. ID e = i) es"

text \<open>\<open>identity.ParseRunID\<close>: the canonical identity text format.\<close>

definition id_head :: "char \<Rightarrow> bool" where
  "id_head c \<longleftrightarrow> (let x = byte_of c in
     (48 \<le> x \<and> x \<le> 57) \<or> (65 \<le> x \<and> x \<le> 90) \<or> (97 \<le> x \<and> x \<le> 122))"

definition id_tail :: "char \<Rightarrow> bool" where
  "id_tail c \<longleftrightarrow> id_head c \<or> c \<in> set ''._:-''"

definition validate_identity :: "string \<Rightarrow> bool" where
  "validate_identity raw \<longleftrightarrow>
     (case raw of [] \<Rightarrow> False
      | c # cs \<Rightarrow> int (length raw) \<le> 128 \<and> id_head c \<and> list_all id_tail cs)"

definition validateCanonicalEntryRunIdentity :: "entry \<Rightarrow> st_error option" where
  "validateCanonicalEntryRunIdentity e =
    (if RunID e \<noteq> '''' \<and> \<not> validate_identity (RunID e) then Some ErrAuthorityCorrupt
     else if Type e \<noteq> EntryTurnMarker \<or> TurnID e = '''' then None
     else if RunID e = '''' then Some ErrAuthorityCorrupt
     else if mget (Metadata e) ''run_id'' \<noteq> '''' \<and> mget (Metadata e) ''run_id'' \<noteq> RunID e
       then Some ErrAuthorityCorrupt
     else None)"

text \<open>\<open>CurrentRunID\<close> scans the path from its leaf.\<close>

definition CurrentRunID :: "entry list \<Rightarrow> string \<Rightarrow> string st_result" where
  "CurrentRunID path turnID =
    (case list_find (\<lambda>e. \<not> (Type e = EntryCustom \<or> TurnID e \<noteq> turnID \<or> blank (RunID e)))
            (rev path) of
       None \<Rightarrow> Inl ErrAuthorityCorrupt
     | Some e \<Rightarrow> if validate_identity (RunID e) then Inr (RunID e) else Inl ErrAuthorityCorrupt)"

lemma findEntry_Some: "findEntry es i = Some e \<Longrightarrow> e \<in> set es \<and> ID e = i"
  by (auto simp: findEntry_def dest: list_find_Some)

lemma findEntry_None: "findEntry es i = None \<longleftrightarrow> i \<notin> ID ` set es"
  by (auto simp: findEntry_def list_find_None)

lemma mget_Nil [simp]: "mget [] k = ''''"
  by (simp add: mget_def)

lemma mget_update: "mget (AList.update k v m) j = (if j = k then v else mget m j)"
  by (simp add: mget_def update_conv')

end
