(* ===== verification/Guarded.thy ===== *)
theory Guarded
  imports Prelude
begin

text \<open>
  The interface of a guarded update: the pattern by which the repository mutates a stored
  record. A transition returns the new record and whether it changed; the stored record is
  validated before and after, an unchanged result is not written, an error writes nothing.
  The locale states what a transition owes (an unchanged result is the old record, a counter
  never decreases, a frozen record is left alone) and proves once what every sequence of
  guarded updates then keeps.
\<close>

definition guarded_update ::
  "('m \<Rightarrow> bool) \<Rightarrow> 'e \<Rightarrow> ('m \<Rightarrow> 'e + ('m \<times> bool)) \<Rightarrow> 'm \<Rightarrow> 'e + ('m \<times> bool)" where
  "guarded_update valid corrupt update m =
    (if \<not> valid m then Inl corrupt
     else (case update m of
             Inl e \<Rightarrow> Inl e
           | Inr (m', changed) \<Rightarrow>
               if \<not> changed then Inr (m, False)
               else if \<not> valid m' then Inl corrupt
               else Inr (m', True)))"

text \<open>The stored record after the call: errors and unchanged results keep the old one.\<close>

definition stored_after :: "'m \<Rightarrow> 'e + ('m \<times> bool) \<Rightarrow> 'm" where
  "stored_after m r = (case r of Inr (m', True) \<Rightarrow> m' | _ \<Rightarrow> m)"

fun guarded_run ::
  "('m \<Rightarrow> bool) \<Rightarrow> 'e \<Rightarrow> ('r \<Rightarrow> 'm \<Rightarrow> 'e + ('m \<times> bool)) \<Rightarrow> 'r list \<Rightarrow> 'm \<Rightarrow> 'm" where
  "guarded_run valid corrupt update [] m = m"
| "guarded_run valid corrupt update (r # rs) m =
     guarded_run valid corrupt update rs
       (stored_after m (guarded_update valid corrupt (update r) m))"

lemma guarded_update_changed:
  "guarded_update valid corrupt update m = Inr (m', True) \<longleftrightarrow>
     valid m \<and> valid m' \<and> update m = Inr (m', True)"
  by (auto simp: guarded_update_def split: sum.splits prod.splits if_splits)

lemma stored_after_valid:
  "valid m \<Longrightarrow> valid (stored_after m (guarded_update valid corrupt update m))"
  by (auto simp: guarded_update_def stored_after_def split: sum.splits prod.splits if_splits)

lemma guarded_run_valid: "valid m \<Longrightarrow> valid (guarded_run valid corrupt update rs m)"
  by (induction rs arbitrary: m) (auto intro: stored_after_valid)

locale versioned_record =
  fixes valid :: "'m \<Rightarrow> bool"
    and corrupt :: 'e
    and update :: "'r \<Rightarrow> 'm \<Rightarrow> 'e + ('m \<times> bool)"
    and version :: "'m \<Rightarrow> int"
    and frozen :: "'r \<Rightarrow> 'm \<Rightarrow> bool"
  assumes version_mono: "valid m \<Longrightarrow> update r m = Inr (m', True) \<Longrightarrow> version m \<le> version m'"
    and frozen_kept: "valid m \<Longrightarrow> frozen r m \<Longrightarrow> update r m \<noteq> Inr (m', True)"
begin

lemma stored_version_mono:
  "valid m \<Longrightarrow> version m \<le> version (stored_after m (guarded_update valid corrupt (update r) m))"
  by (auto simp: guarded_update_def stored_after_def dest: version_mono
      split: sum.splits prod.splits if_splits bool.splits)

lemma run_version_mono:
  "valid m \<Longrightarrow> version m \<le> version (guarded_run valid corrupt update rs m)"
proof (induction rs arbitrary: m)
  case Nil
  then show ?case by simp
next
  case (Cons r rs)
  let ?m = "stored_after m (guarded_update valid corrupt (update r) m)"
  have "valid ?m" by (rule stored_after_valid [where valid = valid, OF Cons.prems])
  then have "version ?m \<le> version (guarded_run valid corrupt update rs ?m)" by (rule Cons.IH)
  with stored_version_mono [OF Cons.prems, of r] show ?case by simp
qed

lemma stored_frozen:
  "valid m \<Longrightarrow> frozen r m \<Longrightarrow> stored_after m (guarded_update valid corrupt (update r) m) = m"
  by (auto simp: guarded_update_def stored_after_def dest: frozen_kept
      split: sum.splits prod.splits if_splits bool.splits)

lemma run_frozen:
  "valid m \<Longrightarrow> \<forall>r \<in> set rs. frozen r m \<Longrightarrow> guarded_run valid corrupt update rs m = m"
  by (induction rs) (auto simp: stored_frozen)

end

end
