(* ===== verification/ThreadTitle.thy ===== *)
theory ThreadTitle
  imports JournalModel Guarded
begin

text \<open>
  The title authority of a thread: \<^verbatim>\<open>internal/sessiontree/title_authority.go\<close> (request
  validation, the canonical title rules, the four title transitions). A transition maps the
  metadata to the new metadata and whether it changed, or to an error.
  \<open>checked_title_transition\<close> is a request with its validation, \<open>guarded_update\<close> one mutation as
  \<open>mutateThreadTitle\<close> runs it: validate the state, apply the transition, validate the result.
\<close>

section \<open>Canonical titles\<close>

definition MaxThreadTitleRunes :: nat where
  "MaxThreadTitleRunes = 200"

definition rune_count :: "string \<Rightarrow> nat" where
  "rune_count s = fst (rune_count_split s) + snd (rune_count_split s)"

definition ValidateCanonicalThreadTitle :: "string \<Rightarrow> bool" where
  "ValidateCanonicalThreadTitle title \<longleftrightarrow>
     title \<noteq> '''' \<and> title = trim_space title
   \<and> list_all (\<lambda>c. byte_of c \<noteq> 13 \<and> byte_of c \<noteq> 10) title
   \<and> rune_count title \<le> MaxThreadTitleRunes"

record title_projection =
  tp_Title :: string
  tp_Status :: title_status
  tp_Source :: title_source
  tp_UpdatedAt :: go_time
  tp_Error :: string
  tp_Generation :: int

fun ValidateThreadTitleStatus :: "title_status \<Rightarrow> title_projection \<Rightarrow> bool" where
  "ValidateThreadTitleStatus TitleUnset p \<longleftrightarrow>
     \<not> (tp_Title p \<noteq> '''' \<or> tp_Source p \<noteq> TitleSourceUnset \<or> \<not> zero_time (tp_UpdatedAt p)
        \<or> tp_Error p \<noteq> '''' \<or> tp_Generation p \<noteq> 0)"
| "ValidateThreadTitleStatus ThreadTitlePending p \<longleftrightarrow>
     \<not> (tp_Title p = '''' \<or> tp_Source p \<noteq> ThreadTitleSourceFallback
        \<or> zero_time (tp_UpdatedAt p) \<or> tp_Error p \<noteq> '''' \<or> tp_Generation p \<le> 0)
   \<and> ValidateCanonicalThreadTitle (tp_Title p)"
| "ValidateThreadTitleStatus ThreadTitleReady p \<longleftrightarrow>
     \<not> (tp_Title p = ''''
        \<or> (tp_Source p \<noteq> ThreadTitleSourceFallback \<and> tp_Source p \<noteq> ThreadTitleSourceHost
           \<and> tp_Source p \<noteq> ThreadTitleSourceProvider)
        \<or> zero_time (tp_UpdatedAt p) \<or> tp_Error p \<noteq> '''' \<or> tp_Generation p \<le> 0)
   \<and> ValidateCanonicalThreadTitle (tp_Title p)"
| "ValidateThreadTitleStatus ThreadTitleFailed p \<longleftrightarrow>
     \<not> (tp_Title p = '''' \<or> tp_Source p \<noteq> ThreadTitleSourceFallback
        \<or> zero_time (tp_UpdatedAt p) \<or> tp_Error p = '''' \<or> tp_Generation p \<le> 0)
   \<and> ValidateCanonicalThreadTitle (tp_Title p)"
| "ValidateThreadTitleStatus (TitleStatusOther _) p \<longleftrightarrow> False"

definition ValidateThreadTitleProjection :: "title_projection \<Rightarrow> bool" where
  "ValidateThreadTitleProjection p \<longleftrightarrow>
     trim_space (tp_Title p) = tp_Title p \<and> trim_space (tp_Error p) = tp_Error p
   \<and> ValidateThreadTitleStatus (tp_Status p) p"

definition title_projection_of :: "thread_meta \<Rightarrow> title_projection" where
  "title_projection_of m = \<lparr>tp_Title = tm_Title m, tp_Status = tm_TitleStatus m,
     tp_Source = tm_TitleSource m, tp_UpdatedAt = tm_TitleUpdatedAt m,
     tp_Error = tm_TitleError m, tp_Generation = tm_TitleGeneration m\<rparr>"

definition title_token_ok :: "thread_meta \<Rightarrow> bool" where
  "title_token_ok m =
    (case tm_TitleStatus m of
       TitleUnset \<Rightarrow> tm_TitleToken m = ''''
     | ThreadTitlePending \<Rightarrow> tm_TitleToken m \<noteq> ''''
     | ThreadTitleReady \<Rightarrow>
         (case tm_TitleSource m of
            ThreadTitleSourceFallback \<Rightarrow> tm_TitleToken m = ''''
          | ThreadTitleSourceHost \<Rightarrow> tm_TitleToken m = ''''
          | ThreadTitleSourceProvider \<Rightarrow> tm_TitleToken m \<noteq> ''''
          | _ \<Rightarrow> True)
     | ThreadTitleFailed \<Rightarrow> tm_TitleToken m \<noteq> ''''
     | TitleStatusOther _ \<Rightarrow> True)"

text \<open>Every failure is \<open>ErrAuthorityCorrupt\<close>, so the validation is a predicate.\<close>

definition ValidateThreadTitleState :: "thread_meta \<Rightarrow> bool" where
  "ValidateThreadTitleState m \<longleftrightarrow>
     trim_space (tm_TitleToken m) = tm_TitleToken m
   \<and> trim_space (tm_TitleRequestKey m) = tm_TitleRequestKey m
   \<and> trim_space (tm_TitleRequestFingerprint m) = tm_TitleRequestFingerprint m
   \<and> \<not> (tm_TitleRequestKey m = '''' \<and> tm_TitleRequestFingerprint m \<noteq> '''')
   \<and> ValidateThreadTitleProjection (title_projection_of m) \<and> title_token_ok m"

definition SameThreadTitleState :: "thread_meta \<Rightarrow> thread_meta \<Rightarrow> bool" where
  "SameThreadTitleState l r \<longleftrightarrow>
     tm_Title l = tm_Title r \<and> tm_TitleStatus l = tm_TitleStatus r
   \<and> tm_TitleSource l = tm_TitleSource r \<and> tm_TitleUpdatedAt l = tm_TitleUpdatedAt r
   \<and> tm_TitleError l = tm_TitleError r \<and> tm_TitleGeneration l = tm_TitleGeneration r
   \<and> tm_TitleToken l = tm_TitleToken r \<and> tm_TitleRequestKey l = tm_TitleRequestKey r
   \<and> tm_TitleRequestFingerprint l = tm_TitleRequestFingerprint r"

section \<open>Requests\<close>

record set_title_request =
  st_ThreadID :: string
  st_Title :: string
  st_RequestKey :: string
  st_RequestFingerprint :: string
  st_Now :: go_time

record begin_title_request =
  bt_ThreadID :: string
  bt_Token :: string
  bt_Now :: go_time

record complete_title_request =
  ct_ThreadID :: string
  ct_Generation :: int
  ct_Token :: string
  ct_Title :: string
  ct_Now :: go_time

record fail_title_request =
  ft_ThreadID :: string
  ft_Generation :: int
  ft_Token :: string
  ft_Error :: string
  ft_Now :: go_time

definition ValidateSetThreadTitleRequest :: "set_title_request \<Rightarrow> bool" where
  "ValidateSetThreadTitleRequest r \<longleftrightarrow>
     \<not> (blank (st_ThreadID r) \<or> blank (st_Title r) \<or> zero_time (st_Now r))
   \<and> \<not> (\<not> blank (st_RequestKey r) \<and> blank (st_RequestFingerprint r))
   \<and> \<not> (blank (st_RequestKey r) \<and> \<not> blank (st_RequestFingerprint r))"

definition ValidateBeginAutomaticThreadTitleRequest :: "begin_title_request \<Rightarrow> bool" where
  "ValidateBeginAutomaticThreadTitleRequest r \<longleftrightarrow>
     \<not> (blank (bt_ThreadID r) \<or> blank (bt_Token r) \<or> zero_time (bt_Now r))"

definition ValidateCompleteAutomaticThreadTitleRequest :: "complete_title_request \<Rightarrow> bool" where
  "ValidateCompleteAutomaticThreadTitleRequest r \<longleftrightarrow>
     \<not> (blank (ct_ThreadID r) \<or> ct_Generation r \<le> 0 \<or> blank (ct_Token r) \<or> blank (ct_Title r)
        \<or> zero_time (ct_Now r))"

definition ValidateFailAutomaticThreadTitleRequest :: "fail_title_request \<Rightarrow> bool" where
  "ValidateFailAutomaticThreadTitleRequest r \<longleftrightarrow>
     \<not> (blank (ft_ThreadID r) \<or> ft_Generation r \<le> 0 \<or> blank (ft_Token r) \<or> blank (ft_Error r)
        \<or> zero_time (ft_Now r))"

section \<open>Transitions\<close>

definition setThreadTitleTransition ::
  "set_title_request \<Rightarrow> thread_meta \<Rightarrow> (thread_meta \<times> bool) st_result" where
  "setThreadTitleTransition req m =
    (let requestKey = trim_space (st_RequestKey req);
         fingerprint = trim_space (st_RequestFingerprint req);
         title = trim_space (st_Title req)
     in if requestKey \<noteq> '''' \<and> tm_TitleRequestKey m = requestKey then
          (if tm_TitleRequestFingerprint m \<noteq> fingerprint then Inl ErrRequestConflict
           else Inr (m, False))
        else if tm_TitleStatus m = ThreadTitleReady \<and> tm_TitleSource m = ThreadTitleSourceHost
                \<and> tm_Title m = title then Inr (m, False)
        else if tm_TitleGeneration m = max_int64 then Inl ErrAuthorityCorrupt
        else Inr (m\<lparr>tm_Title := title, tm_TitleStatus := ThreadTitleReady,
                    tm_TitleSource := ThreadTitleSourceHost, tm_TitleUpdatedAt := st_Now req,
                    tm_TitleError := '''',
                    tm_TitleGeneration := add64 (tm_TitleGeneration m) 1,
                    tm_TitleToken := '''', tm_TitleRequestKey := requestKey,
                    tm_TitleRequestFingerprint := fingerprint\<rparr>, True))"

definition beginAutomaticThreadTitleTransition ::
  "begin_title_request \<Rightarrow> thread_meta \<Rightarrow> (thread_meta \<times> bool) st_result" where
  "beginAutomaticThreadTitleTransition req m =
    (let token = trim_space (bt_Token req);
         start = (if tm_TitleGeneration m = max_int64 then Inl ErrAuthorityCorrupt
                  else Inr (m\<lparr>tm_TitleStatus := ThreadTitlePending,
                              tm_TitleUpdatedAt := bt_Now req, tm_TitleError := '''',
                              tm_TitleGeneration := add64 (tm_TitleGeneration m) 1,
                              tm_TitleToken := token, tm_TitleRequestKey := '''',
                              tm_TitleRequestFingerprint := ''''\<rparr>, True))
     in case tm_TitleStatus m of
          ThreadTitleReady \<Rightarrow>
            if tm_TitleSource m = ThreadTitleSourceFallback then start else Inr (m, False)
        | ThreadTitlePending \<Rightarrow>
            if tm_TitleToken m = token then Inr (m, False) else Inl ErrRequestConflict
        | ThreadTitleFailed \<Rightarrow> if tm_TitleToken m = token then Inr (m, False) else start
        | _ \<Rightarrow> start)"

definition completeAutomaticThreadTitleTransition ::
  "complete_title_request \<Rightarrow> thread_meta \<Rightarrow> (thread_meta \<times> bool) st_result" where
  "completeAutomaticThreadTitleTransition req m =
    (let token = trim_space (ct_Token req); title = trim_space (ct_Title req)
     in if tm_TitleGeneration m \<noteq> ct_Generation req \<or> tm_TitleToken m \<noteq> token
        then Inl ErrStaleAuthority
        else (case tm_TitleStatus m of
           ThreadTitleReady \<Rightarrow>
             if tm_TitleSource m = ThreadTitleSourceProvider \<and> tm_Title m = title
             then Inr (m, False) else Inl ErrRequestConflict
         | ThreadTitleFailed \<Rightarrow> Inl ErrRequestConflict
         | ThreadTitlePending \<Rightarrow>
             Inr (m\<lparr>tm_Title := title, tm_TitleStatus := ThreadTitleReady,
                    tm_TitleSource := ThreadTitleSourceProvider,
                    tm_TitleUpdatedAt := ct_Now req, tm_TitleError := '''',
                    tm_TitleRequestKey := '''', tm_TitleRequestFingerprint := ''''\<rparr>, True)
         | _ \<Rightarrow> Inl ErrAuthorityCorrupt))"

definition failAutomaticThreadTitleTransition ::
  "fail_title_request \<Rightarrow> thread_meta \<Rightarrow> (thread_meta \<times> bool) st_result" where
  "failAutomaticThreadTitleTransition req m =
    (let token = trim_space (ft_Token req); titleError = trim_space (ft_Error req)
     in if tm_TitleGeneration m \<noteq> ft_Generation req \<or> tm_TitleToken m \<noteq> token
        then Inl ErrStaleAuthority
        else (case tm_TitleStatus m of
           ThreadTitleFailed \<Rightarrow>
             if tm_TitleError m = titleError then Inr (m, False) else Inl ErrRequestConflict
         | ThreadTitleReady \<Rightarrow> Inl ErrRequestConflict
         | ThreadTitlePending \<Rightarrow>
             Inr (m\<lparr>tm_TitleStatus := ThreadTitleFailed, tm_TitleUpdatedAt := ft_Now req,
                    tm_TitleError := titleError, tm_TitleRequestKey := '''',
                    tm_TitleRequestFingerprint := ''''\<rparr>, True)
         | _ \<Rightarrow> Inl ErrAuthorityCorrupt))"

section \<open>The title of a stored thread\<close>

datatype title_request =
    SetTitle set_title_request
  | BeginTitle begin_title_request
  | CompleteTitle complete_title_request
  | FailTitle fail_title_request

fun title_request_valid :: "title_request \<Rightarrow> bool" where
  "title_request_valid (SetTitle r) = ValidateSetThreadTitleRequest r"
| "title_request_valid (BeginTitle r) = ValidateBeginAutomaticThreadTitleRequest r"
| "title_request_valid (CompleteTitle r) = ValidateCompleteAutomaticThreadTitleRequest r"
| "title_request_valid (FailTitle r) = ValidateFailAutomaticThreadTitleRequest r"

fun title_transition :: "title_request \<Rightarrow> thread_meta \<Rightarrow> (thread_meta \<times> bool) st_result" where
  "title_transition (SetTitle r) m = setThreadTitleTransition r m"
| "title_transition (BeginTitle r) m = beginAutomaticThreadTitleTransition r m"
| "title_transition (CompleteTitle r) m = completeAutomaticThreadTitleTransition r m"
| "title_transition (FailTitle r) m = failAutomaticThreadTitleTransition r m"

text \<open>The public operations check the request first (\<open>ErrMsg\<close>), then run the transition.\<close>

definition checked_title_transition ::
  "title_request \<Rightarrow> thread_meta \<Rightarrow> (thread_meta \<times> bool) st_result" where
  "checked_title_transition r m =
     (if title_request_valid r then title_transition r m
      else Inl (ErrMsg ''invalid thread title request''))"

fun automatic_request :: "title_request \<Rightarrow> bool" where
  "automatic_request (SetTitle _) = False"
| "automatic_request _ = True"

definition host_titled :: "thread_meta \<Rightarrow> bool" where
  "host_titled m \<longleftrightarrow>
     tm_TitleStatus m = ThreadTitleReady \<and> tm_TitleSource m = ThreadTitleSourceHost"

lemmas title_transition_defs =
  setThreadTitleTransition_def beginAutomaticThreadTitleTransition_def
  completeAutomaticThreadTitleTransition_def failAutomaticThreadTitleTransition_def

lemma generation_nonneg: "ValidateThreadTitleState m \<Longrightarrow> 0 \<le> tm_TitleGeneration m"
  by (cases "tm_TitleStatus m")
    (auto simp: ValidateThreadTitleState_def ValidateThreadTitleProjection_def
      title_projection_of_def)

lemma add64_next: "0 \<le> g \<Longrightarrow> g < max_int64 \<Longrightarrow> add64 g 1 = g + 1"
  by (simp add: add64_def wrap64_range max_int64_def)

definition title_ok :: "thread_meta \<Rightarrow> bool" where
  "title_ok m \<longleftrightarrow> ValidateThreadTitleState m \<and> in64 (tm_TitleGeneration m)"

lemma generation_step:
  assumes "title_ok m" "title_transition r m = Inr (m', True)"
  shows "tm_TitleGeneration m \<le> tm_TitleGeneration m' \<and>
    ((\<exists>q. r = SetTitle q \<or> (\<exists>b. r = BeginTitle b)) \<longrightarrow>
       tm_TitleGeneration m' = tm_TitleGeneration m + 1)"
proof -
  have g: "0 \<le> tm_TitleGeneration m"
    "tm_TitleGeneration m \<noteq> max_int64 \<Longrightarrow> add64 (tm_TitleGeneration m) 1 = tm_TitleGeneration m + 1"
    using assms(1) generation_nonneg [of m]
    by (auto simp: title_ok_def add64_next max_int64_def in64_def)
  then show ?thesis
    using assms(2)
    by (cases r; cases "tm_TitleStatus m")
      (auto simp: title_transition_defs Let_def split: if_splits)
qed

lemma host_title_kept:
  assumes "title_ok m" "host_titled m" "automatic_request r"
  shows "checked_title_transition r m \<noteq> Inr (m', True)"
proof -
  have "tm_TitleToken m = ''''"
    using assms(1,2) by (simp add: title_ok_def ValidateThreadTitleState_def title_token_ok_def
        host_titled_def)
  with assms(2,3) show ?thesis
    by (cases r) (auto simp: checked_title_transition_def title_transition_defs Let_def
        host_titled_def blank_def ValidateCompleteAutomaticThreadTitleRequest_def
        ValidateFailAutomaticThreadTitleRequest_def)
qed

interpretation title_record: versioned_record title_ok ErrAuthorityCorrupt
  checked_title_transition tm_TitleGeneration
  "\<lambda>r m. host_titled m \<and> automatic_request r"
proof (unfold_locales, goal_cases)
  case (1 m r m')
  then show ?case
    using generation_step [of m r m']
    by (auto simp: checked_title_transition_def split: if_splits)
next
  case (2 m r m')
  then show ?case using host_title_kept by blast
qed

text \<open>Which requests keep a valid title state valid: a title text must be canonical.\<close>

fun canonical_request :: "title_request \<Rightarrow> thread_meta \<Rightarrow> bool" where
  "canonical_request (SetTitle r) m = ValidateCanonicalThreadTitle (trim_space (st_Title r))"
| "canonical_request (BeginTitle r) m = (tm_Title m \<noteq> '''')"
| "canonical_request (CompleteTitle r) m = ValidateCanonicalThreadTitle (trim_space (ct_Title r))"
| "canonical_request (FailTitle r) m = True"

lemma title_status_source:
  "ValidateThreadTitleState m \<Longrightarrow> tm_TitleStatus m = ThreadTitlePending \<or> tm_TitleStatus m = ThreadTitleFailed \<Longrightarrow>
   tm_TitleSource m = ThreadTitleSourceFallback"
  by (auto simp: ValidateThreadTitleState_def ValidateThreadTitleProjection_def
      title_projection_of_def)

lemma titled_canonical:
  "ValidateThreadTitleState m \<Longrightarrow> tm_Title m \<noteq> '''' \<Longrightarrow> ValidateCanonicalThreadTitle (tm_Title m)"
  by (cases "tm_TitleStatus m")
    (auto simp: ValidateThreadTitleState_def ValidateThreadTitleProjection_def
      title_projection_of_def)

lemma titled_source:
  "ValidateThreadTitleState m \<Longrightarrow> tm_Title m \<noteq> '''' \<Longrightarrow> tm_TitleStatus m \<noteq> TitleUnset"
  by (auto simp: ValidateThreadTitleState_def ValidateThreadTitleProjection_def
      title_projection_of_def)

lemma transition_valid_set:
  assumes "ValidateThreadTitleState m" "0 < add64 (tm_TitleGeneration m) 1 \<or> tm_TitleGeneration m = max_int64"
    and "ValidateSetThreadTitleRequest q" "ValidateCanonicalThreadTitle (trim_space (st_Title q))"
    and "setThreadTitleTransition q m = Inr (m', True)"
  shows "ValidateThreadTitleState m'"
  using assms
  by (auto simp: setThreadTitleTransition_def Let_def ValidateThreadTitleState_def
      ValidateThreadTitleProjection_def title_projection_of_def title_token_ok_def
      ValidateSetThreadTitleRequest_def blank_def ValidateCanonicalThreadTitle_def
      split: if_splits)

lemma transition_valid_begin:
  assumes "ValidateThreadTitleState m" "0 < add64 (tm_TitleGeneration m) 1 \<or> tm_TitleGeneration m = max_int64"
    and "ValidateBeginAutomaticThreadTitleRequest q" "tm_Title m \<noteq> ''''"
    and "beginAutomaticThreadTitleTransition q m = Inr (m', True)"
  shows "ValidateThreadTitleState m'"
proof -
  have "ValidateCanonicalThreadTitle (tm_Title m)" "tm_TitleStatus m \<noteq> TitleUnset"
    by (rule titled_canonical [OF assms(1,4)], rule titled_source [OF assms(1,4)])
  moreover have "trim_space (tm_Title m) = tm_Title m"
    using assms(1) by (simp add: ValidateThreadTitleState_def ValidateThreadTitleProjection_def
        title_projection_of_def)
  ultimately show ?thesis
    using assms title_status_source [OF assms(1)]
    by (cases "tm_TitleStatus m")
      (auto simp: beginAutomaticThreadTitleTransition_def Let_def ValidateThreadTitleState_def
        ValidateThreadTitleProjection_def title_projection_of_def title_token_ok_def
        ValidateBeginAutomaticThreadTitleRequest_def blank_def split: if_splits)
qed

lemma transition_valid_complete:
  assumes "ValidateThreadTitleState m" "ValidateCompleteAutomaticThreadTitleRequest q"
    and "ValidateCanonicalThreadTitle (trim_space (ct_Title q))"
    and "completeAutomaticThreadTitleTransition q m = Inr (m', True)"
  shows "ValidateThreadTitleState m'"
  using assms
  by (cases "tm_TitleStatus m")
    (auto simp: completeAutomaticThreadTitleTransition_def Let_def ValidateThreadTitleState_def
      ValidateThreadTitleProjection_def title_projection_of_def title_token_ok_def
      ValidateCompleteAutomaticThreadTitleRequest_def blank_def ValidateCanonicalThreadTitle_def
      split: if_splits)

lemma transition_valid_fail:
  assumes "ValidateThreadTitleState m" "ValidateFailAutomaticThreadTitleRequest q"
    and "failAutomaticThreadTitleTransition q m = Inr (m', True)"
  shows "ValidateThreadTitleState m'"
  using assms
  by (cases "tm_TitleStatus m")
    (auto simp: failAutomaticThreadTitleTransition_def Let_def ValidateThreadTitleState_def
      ValidateThreadTitleProjection_def title_projection_of_def title_token_ok_def
      ValidateFailAutomaticThreadTitleRequest_def blank_def
      split: if_splits)

section \<open>Properties\<close>

text \<open>
  C37: a title chosen by the host is never overwritten by the machinery of automatic titles.
  Whatever begin, complete and fail requests follow, in any number and order and with any
  token and generation, the stored title record stays exactly as it is.
\<close>
theorem host_title_sticky:
  assumes "title_ok m" "host_titled m" "\<forall>r \<in> set rs. automatic_request r"
  shows "guarded_run title_ok ErrAuthorityCorrupt checked_title_transition rs m = m"
  by (rule title_record.run_frozen [OF assms(1)]) (use assms(2,3) in auto)

definition titled_meta :: thread_meta where
  "titled_meta = zero_meta\<lparr>tm_ID := ''t1'', tm_Lifecycle := ThreadLifecycleOpen,
     tm_Title := ''My title'', tm_TitleStatus := ThreadTitleReady,
     tm_TitleSource := ThreadTitleSourceHost, tm_TitleUpdatedAt := 5, tm_TitleGeneration := 3\<rparr>"

lemma titled_meta_ok: "title_ok titled_meta"
  by code_simp

theorem host_title_sticky_witness:
  "guarded_run title_ok ErrAuthorityCorrupt checked_title_transition
     [BeginTitle \<lparr>bt_ThreadID = ''t1'', bt_Token = ''tok'', bt_Now = 9\<rparr>,
      CompleteTitle \<lparr>ct_ThreadID = ''t1'', ct_Generation = 3, ct_Token = ''tok'',
        ct_Title = ''Other'', ct_Now = 10\<rparr>] titled_meta = titled_meta"
  by (rule host_title_sticky [OF titled_meta_ok]) (simp_all add: host_titled_def titled_meta_def)

text \<open>
  C38: title generations order the title history. Along every sequence of title requests the
  stored generation never decreases, and an admitted host title or automatic start raises it by
  exactly one without wrapping, so a completion issued for an older generation is stale.
\<close>
theorem title_generation_orders:
  assumes "title_ok m"
  shows "tm_TitleGeneration m
      \<le> tm_TitleGeneration (guarded_run title_ok ErrAuthorityCorrupt checked_title_transition rs m)
   \<and> (\<forall>q m' c. checked_title_transition (SetTitle q) m = Inr (m', True)
        \<and> ct_Generation c = tm_TitleGeneration m \<longrightarrow>
        tm_TitleGeneration m' = tm_TitleGeneration m + 1
      \<and> completeAutomaticThreadTitleTransition c m' = Inl ErrStaleAuthority)"
proof (intro conjI allI impI; (elim conjE)?)
  show "tm_TitleGeneration m
      \<le> tm_TitleGeneration (guarded_run title_ok ErrAuthorityCorrupt checked_title_transition rs m)"
    by (rule title_record.run_version_mono [OF assms])
next
  fix q m' and c :: complete_title_request
  assume s: "checked_title_transition (SetTitle q) m = Inr (m', True)"
  then have "title_transition (SetTitle q) m = Inr (m', True)"
    by (simp add: checked_title_transition_def split: if_splits)
  from generation_step [OF assms this]
  show g: "tm_TitleGeneration m' = tm_TitleGeneration m + 1" by blast
  assume "ct_Generation c = tm_TitleGeneration m"
  with g show "completeAutomaticThreadTitleTransition c m' = Inl ErrStaleAuthority"
    by (simp add: completeAutomaticThreadTitleTransition_def)
qed

theorem title_generation_orders_witness:
  "3 \<le> tm_TitleGeneration (guarded_run title_ok ErrAuthorityCorrupt checked_title_transition
     [SetTitle \<lparr>st_ThreadID = ''t1'', st_Title = ''New'', st_RequestKey = '''',
        st_RequestFingerprint = '''', st_Now = 7\<rparr>] titled_meta)"
proof -
  have "tm_TitleGeneration titled_meta = 3" by (simp add: titled_meta_def)
  then show ?thesis
    using title_generation_orders [OF titled_meta_ok, THEN conjunct1] by metis
qed

text \<open>
  A valid title state stays valid. Every admitted title request that carries a canonical
  title text (and, for an automatic start, finds a title to fall back on) leads from a valid
  title state to a valid one, so the repository's second validation can only reject title text.
\<close>
theorem title_transition_valid:
  assumes "title_ok m" "canonical_request r m" "checked_title_transition r m = Inr (m', True)"
  shows "ValidateThreadTitleState m'"
proof -
  have v: "ValidateThreadTitleState m" using assms(1) by (simp add: title_ok_def)
  have "tm_TitleGeneration m = max_int64 \<or> 0 < add64 (tm_TitleGeneration m) 1"
    using assms(1) generation_nonneg [OF v]
    by (cases "tm_TitleGeneration m = max_int64") (auto simp: title_ok_def add64_next max_int64_def in64_def)
  with assms v show ?thesis
    by (cases r) (auto simp: checked_title_transition_def split: if_splits
        intro: transition_valid_set transition_valid_begin transition_valid_complete
          transition_valid_fail)
qed

theorem title_transition_valid_witness:
  "\<exists>m'. ValidateThreadTitleState m' \<and> tm_Title m' = ''New''"
proof -
  let ?r = "SetTitle \<lparr>st_ThreadID = ''t1'', st_Title = ''New'', st_RequestKey = '''',
    st_RequestFingerprint = '''', st_Now = 7\<rparr>"
  let ?m = "titled_meta\<lparr>tm_Title := ''New'', tm_TitleUpdatedAt := 7, tm_TitleGeneration := 4\<rparr>"
  have "canonical_request ?r titled_meta" by code_simp
  moreover have "checked_title_transition ?r titled_meta = Inr (?m, True)"
    by code_simp
  ultimately have "ValidateThreadTitleState ?m"
    by (rule title_transition_valid [OF titled_meta_ok])
  then show ?thesis by (intro exI [of _ ?m]) simp
qed

end
