(* ===== verification/ThreadAuthority.thy ===== *)
theory ThreadAuthority
  imports ThreadTitle "HOL-Library.List_Lexorder" "HOL-Library.Char_ord"
begin

text \<open>
  Thread identity and ownership: the lifecycle of a thread (\<^verbatim>\<open>lifecycle.go\<close>), the validation of
  a thread's metadata, the immutable part of it, the parent graph of SubAgent threads and the
  enumeration of an ownership tree (\<^verbatim>\<open>sessiontree.go\<close>). Strings are ordered bytewise
  (\<open>slices.Sort\<close>), which is the list order of \<open>List_Lexorder\<close> on byte characters.
\<close>

section \<open>Lifecycle\<close>

fun lifecycle_Valid :: "thread_lifecycle \<Rightarrow> bool" where
  "lifecycle_Valid ThreadLifecycleOpen = True"
| "lifecycle_Valid ThreadLifecycleClosing = True"
| "lifecycle_Valid ThreadLifecycleClosed = True"
| "lifecycle_Valid ThreadLifecycleDeleted = True"
| "lifecycle_Valid _ = False"

definition normalizeThreadLifecycle :: "thread_meta \<Rightarrow> thread_lifecycle st_result" where
  "normalizeThreadLifecycle m =
    (if tm_Lifecycle m = LifecycleUnset then Inr ThreadLifecycleOpen
     else if \<not> lifecycle_Valid (tm_Lifecycle m) then Inl (ErrMsg ''invalid thread lifecycle'')
     else Inr (tm_Lifecycle m))"

definition IsClosed :: "thread_meta \<Rightarrow> bool" where
  "IsClosed m \<longleftrightarrow> normalizeThreadLifecycle m = Inr ThreadLifecycleClosed"

definition IsClosing :: "thread_meta \<Rightarrow> bool" where
  "IsClosing m \<longleftrightarrow> normalizeThreadLifecycle m = Inr ThreadLifecycleClosing"

definition canonicalThreadLifecycle :: "thread_meta \<Rightarrow> thread_lifecycle st_result" where
  "canonicalThreadLifecycle m =
    (case normalizeThreadLifecycle m of
       Inl e \<Rightarrow> Inl e
     | Inr l \<Rightarrow> if l = ThreadLifecycleDeleted then Inl ErrThreadDeleted else Inr l)"

definition lifecycleRejectsWrite :: "thread_meta \<Rightarrow> st_error option" where
  "lifecycleRejectsWrite m =
    (case canonicalThreadLifecycle m of
       Inl e \<Rightarrow> Some e
     | Inr ThreadLifecycleClosing \<Rightarrow> Some ErrSubAgentClosing
     | Inr ThreadLifecycleClosed \<Rightarrow> Some ErrThreadClosed
     | Inr _ \<Rightarrow> None)"

lemma lifecycleRejectsWrite_None:
  "lifecycleRejectsWrite m = None \<longleftrightarrow>
     tm_Lifecycle m = LifecycleUnset \<or> tm_Lifecycle m = ThreadLifecycleOpen"
  by (cases "tm_Lifecycle m")
    (auto simp: lifecycleRejectsWrite_def canonicalThreadLifecycle_def normalizeThreadLifecycle_def)

section \<open>Ownership metadata\<close>

definition parent_of :: "thread_meta \<Rightarrow> string" where
  "parent_of m = trim_space (tm_ParentThreadID m)"

definition ValidateThreadMetaAuthority :: "thread_meta \<Rightarrow> st_error option" where
  "ValidateThreadMetaAuthority m =
    (if blank (tm_ID m) then Some ErrInvalidThreadAuthority
     else if \<not> ValidateThreadTitleState m then Some ErrAuthorityCorrupt
     else (case normalizeThreadLifecycle m of
        Inl _ \<Rightarrow> Some ErrInvalidThreadAuthority
      | Inr lifecycle \<Rightarrow>
          if lifecycle = ThreadLifecycleDeleted then Some ErrInvalidThreadAuthority
          else if parent_of m = '''' then
            (if \<not> blank (tm_ParentTurnID m) \<or> \<not> blank (tm_TaskName m)
                \<or> \<not> blank (tm_TaskDescription m) \<or> \<not> blank (tm_AgentPath m)
                \<or> \<not> blank (tm_HostProfileRef m) \<or> \<not> blank (tm_ForkMode m)
                \<or> tm_Lifecycle m = ThreadLifecycleClosing \<or> tm_Lifecycle m = ThreadLifecycleClosed
             then Some ErrInvalidThreadAuthority else None)
          else if parent_of m = trim_space (tm_ID m) then Some ErrInvalidThreadAuthority
          else if blank (tm_TaskName m) \<or> blank (tm_HostProfileRef m)
            then Some ErrInvalidThreadAuthority
          else None))"

definition SameThreadAuthority :: "thread_meta \<Rightarrow> thread_meta \<Rightarrow> bool" where
  "SameThreadAuthority l r \<longleftrightarrow>
     tm_OriginRequestKey l = tm_OriginRequestKey r \<and> tm_OriginFingerprint l = tm_OriginFingerprint r
   \<and> tm_ParentThreadID l = tm_ParentThreadID r \<and> tm_ParentTurnID l = tm_ParentTurnID r
   \<and> tm_ForkedFromThreadID l = tm_ForkedFromThreadID r
   \<and> tm_ForkedFromEntryID l = tm_ForkedFromEntryID r
   \<and> tm_TaskName l = tm_TaskName r \<and> tm_TaskDescription l = tm_TaskDescription r
   \<and> tm_AgentPath l = tm_AgentPath r \<and> tm_HostProfileRef l = tm_HostProfileRef r
   \<and> tm_ForkMode l = tm_ForkMode r"

definition prepareNewThreadMeta :: "go_time \<Rightarrow> thread_meta \<Rightarrow> thread_meta st_result" where
  "prepareNewThreadMeta clock m0 =
    (let now = (if zero_time (tm_CreatedAt m0) then clock else tm_CreatedAt m0);
         m1 = m0\<lparr>tm_CreatedAt := now, tm_UpdatedAt := now\<rparr>;
         m2 = (if parent_of m1 \<noteq> '''' \<and> tm_TitleStatus m1 = TitleUnset
                  \<and> ValidateCanonicalThreadTitle (tm_TaskName m1)
               then m1\<lparr>tm_Title := tm_TaskName m1, tm_TitleStatus := ThreadTitleReady,
                       tm_TitleSource := ThreadTitleSourceHost, tm_TitleUpdatedAt := now,
                       tm_TitleGeneration := 1\<rparr>
               else m1);
         m3 = (if tm_Lifecycle m2 = LifecycleUnset
               then m2\<lparr>tm_Lifecycle := ThreadLifecycleOpen\<rparr> else m2)
     in case ValidateThreadMetaAuthority m3 of Some e \<Rightarrow> Inl e | None \<Rightarrow> Inr m3)"

section \<open>The ownership graph\<close>

definition find_meta :: "thread_meta list \<Rightarrow> string \<Rightarrow> thread_meta option" where
  "find_meta ts i = list_find (\<lambda>m. tm_ID m = i) ts"

lemma find_meta_Some: "find_meta ts i = Some m \<Longrightarrow> m \<in> set ts \<and> tm_ID m = i"
  by (auto simp: find_meta_def dest: list_find_Some)

text \<open>The first loop: every thread is valid on its own and no ID occurs twice.\<close>

fun check_threads :: "string list \<Rightarrow> thread_meta list \<Rightarrow> st_error option" where
  "check_threads seen [] = None"
| "check_threads seen (m # ms) =
     (case ValidateThreadMetaAuthority m of
        Some e \<Rightarrow> Some e
      | None \<Rightarrow> if tm_ID m \<in> set seen then Some ErrInvalidThreadAuthority
                else check_threads (tm_ID m # seen) ms)"

text \<open>The second loop, from one thread up its parent chain, with the set of IDs seen.\<close>

function check_chain ::
  "thread_meta list \<Rightarrow> string list \<Rightarrow> thread_meta \<Rightarrow> st_error option" where
  "check_chain ts seen cur =
    (if tm_ID cur \<in> set seen then Some ErrInvalidThreadAuthority
     else if parent_of cur = '''' then None
     else (case find_meta ts (parent_of cur) of
        None \<Rightarrow> Some ErrInvalidThreadAuthority
      | Some parent \<Rightarrow> check_chain ts (tm_ID cur # seen) parent))"
  by pat_completeness auto
termination
proof (relation "measure (\<lambda>(ts, seen, cur).
    (if tm_ID cur \<in> tm_ID ` set ts then 0 else 1) + card (tm_ID ` set ts - set seen))", goal_cases)
  case (2 ts seen cur parent)
  then have p: "tm_ID parent \<in> tm_ID ` set ts" by (auto dest: find_meta_Some)
  show ?case
  proof (cases "tm_ID cur \<in> tm_ID ` set ts")
    case True
    have "tm_ID ` set ts - set (tm_ID cur # seen) \<subset> tm_ID ` set ts - set seen"
      using True 2(1) by auto
    then have "card (tm_ID ` set ts - set (tm_ID cur # seen)) < card (tm_ID ` set ts - set seen)"
      by (intro psubset_card_mono) auto
    with p True show ?thesis by simp
  next
    case False
    have "card (tm_ID ` set ts - set (tm_ID cur # seen)) \<le> card (tm_ID ` set ts - set seen)"
      by (intro card_mono) auto
    with p False show ?thesis by simp
  qed
qed simp

declare check_chain.simps [simp del]

fun check_chains :: "thread_meta list \<Rightarrow> thread_meta list \<Rightarrow> st_error option" where
  "check_chains ts [] = None"
| "check_chains ts (m # ms) =
     (case check_chain ts [] m of Some e \<Rightarrow> Some e | None \<Rightarrow> check_chains ts ms)"

definition ValidateThreadAuthorityGraph :: "thread_meta list \<Rightarrow> st_error option" where
  "ValidateThreadAuthorityGraph ts =
     (case check_threads [] ts of Some e \<Rightarrow> Some e | None \<Rightarrow> check_chains ts ts)"

text \<open>
  The children of a thread in ID order, and the recursive walk. The closure recurses without a
  bound; here it has fuel, and \<open>None\<close> means the fuel ran out.
\<close>

definition children_of :: "thread_meta list \<Rightarrow> string \<Rightarrow> string list" where
  "children_of ts i =
     sort (map tm_ID (filter (\<lambda>m. parent_of m \<noteq> '''' \<and> parent_of m = i) ts))"

fun collect_walks :: "string list option list \<Rightarrow> string list option" where
  "collect_walks [] = Some []"
| "collect_walks (None # _) = None"
| "collect_walks (Some xs # rs) = map_option ((@) xs) (collect_walks rs)"

fun walk_tree :: "nat \<Rightarrow> thread_meta list \<Rightarrow> string \<Rightarrow> string list option" where
  "walk_tree 0 ts i = None"
| "walk_tree (Suc fuel) ts i =
     map_option ((#) i) (collect_walks (map (walk_tree fuel ts) (children_of ts i)))"

text \<open>
  \<open>ThreadAuthorityTreeIDs\<close>; the outer \<open>option\<close> is \<open>None\<close> only when the walk does not end. The
  fuel is the number of threads, enough for every validated graph (\<open>tree_ids_complete\<close>).
\<close>

definition ThreadAuthorityTreeIDs ::
  "thread_meta list \<Rightarrow> string \<Rightarrow> string list st_result option" where
  "ThreadAuthorityTreeIDs ts root0 =
    (let root = trim_space root0 in
     if root = '''' then Some (Inl (ErrMsg ''root thread id is required''))
     else (case ValidateThreadAuthorityGraph ts of
        Some e \<Rightarrow> Some (Inl e)
      | None \<Rightarrow>
          if find_meta ts root = None then Some (Inl ErrThreadNotFound)
          else map_option Inr (walk_tree (length ts) ts root)))"

section \<open>Depth and ownership\<close>

inductive thread_depth :: "thread_meta list \<Rightarrow> string \<Rightarrow> nat \<Rightarrow> bool" for ts where
  depth_root: "m \<in> set ts \<Longrightarrow> parent_of m = '''' \<Longrightarrow> thread_depth ts (tm_ID m) 0"
| depth_child: "m \<in> set ts \<Longrightarrow> parent_of m \<noteq> '''' \<Longrightarrow> thread_depth ts (parent_of m) n \<Longrightarrow>
    thread_depth ts (tm_ID m) (Suc n)"

inductive owned :: "thread_meta list \<Rightarrow> string \<Rightarrow> string \<Rightarrow> bool" for ts r where
  owned_root: "owned ts r r"
| owned_child: "m \<in> set ts \<Longrightarrow> parent_of m \<noteq> '''' \<Longrightarrow> owned ts r (parent_of m) \<Longrightarrow>
    owned ts r (tm_ID m)"

definition valid_graph :: "thread_meta list \<Rightarrow> bool" where
  "valid_graph ts \<longleftrightarrow>
     (\<forall>m \<in> set ts. ValidateThreadMetaAuthority m = None) \<and> distinct (map tm_ID ts)
   \<and> (\<forall>m \<in> set ts. \<exists>n. thread_depth ts (tm_ID m) n)"

lemma check_threads_None:
  "check_threads seen ts = None \<longleftrightarrow>
     (\<forall>m \<in> set ts. ValidateThreadMetaAuthority m = None) \<and> distinct (map tm_ID ts)
   \<and> set (map tm_ID ts) \<inter> set seen = {}"
  by (induction ts arbitrary: seen) (auto split: option.splits)

lemma distinct_ids_eq:
  "distinct (map tm_ID ts) \<Longrightarrow> m \<in> set ts \<Longrightarrow> m' \<in> set ts \<Longrightarrow> tm_ID m = tm_ID m' \<Longrightarrow> m = m'"
  by (metis distinct_map inj_onD)

lemma find_meta_in:
  "distinct (map tm_ID ts) \<Longrightarrow> m \<in> set ts \<Longrightarrow> find_meta ts (tm_ID m) = Some m"
  by (cases "find_meta ts (tm_ID m)")
    (auto simp: find_meta_def list_find_None dest: distinct_ids_eq list_find_Some)

lemma check_chain_depth:
  "check_chain ts seen cur = None \<Longrightarrow> cur \<in> set ts \<Longrightarrow> \<exists>n. thread_depth ts (tm_ID cur) n"
proof (induction ts seen cur rule: check_chain.induct)
  case (1 ts seen cur)
  note rule = "1.prems"(1) [unfolded check_chain.simps [of ts seen cur]]
  show ?case
  proof (cases "parent_of cur = ''''")
    case True
    then show ?thesis using "1.prems"(2) by (auto intro: depth_root)
  next
    case False
    then obtain p where p: "find_meta ts (parent_of cur) = Some p" "tm_ID cur \<notin> set seen"
      "check_chain ts (tm_ID cur # seen) p = None"
      using rule by (auto split: if_splits option.splits)
    from find_meta_Some [OF p(1)] have "p \<in> set ts" "tm_ID p = parent_of cur" by auto
    with "1.IH" [OF p(2) False p(1) p(3)] obtain n where "thread_depth ts (parent_of cur) n" by auto
    then show ?thesis using "1.prems"(2) False by (blast intro: depth_child)
  qed
qed

lemma depth_in: "thread_depth ts i n \<Longrightarrow> i \<in> tm_ID ` set ts"
  by (induction rule: thread_depth.induct) auto

inductive_cases depth_childE: "thread_depth ts i (Suc n)"
inductive_cases depth_rootE: "thread_depth ts i 0"

lemma depth_unique:
  assumes "distinct (map tm_ID ts)"
  shows "thread_depth ts i n \<Longrightarrow> thread_depth ts i k \<Longrightarrow> n = k"
proof (induction arbitrary: k rule: thread_depth.induct)
  case (depth_root m)
  from depth_root(3) show ?case
    by (cases rule: thread_depth.cases) (use depth_root distinct_ids_eq [OF assms] in fastforce)+
next
  case (depth_child m n)
  from depth_child(5) show ?case
  proof (cases rule: thread_depth.cases)
    case (depth_root m')
    then have "m' = m" using depth_child(1) distinct_ids_eq [OF assms] by metis
    with depth_root depth_child(2) show ?thesis by simp
  next
    case (depth_child m' n')
    then have "m' = m"
      using \<open>m \<in> set ts\<close> distinct_ids_eq [OF assms] by metis
    with depth_child have "thread_depth ts (parent_of m) n'" by simp
    then have "n = n'" by (rule \<open>\<And>k. thread_depth ts (parent_of m) k \<Longrightarrow> n = k\<close>)
    with depth_child show ?thesis by simp
  qed
qed

lemma depth_below: "thread_depth ts i n \<Longrightarrow> k \<le> n \<Longrightarrow> \<exists>j. thread_depth ts j k"
proof (induction arbitrary: k rule: thread_depth.induct)
  case (depth_root m)
  then show ?case by (auto intro: thread_depth.depth_root)
next
  case (depth_child m n)
  then show ?case by (cases "k = Suc n") (auto intro: thread_depth.depth_child)
qed

text \<open>A validated chain is shorter than the list: its IDs are all different.\<close>

lemma depth_bound:
  assumes "distinct (map tm_ID ts)" "thread_depth ts i n"
  shows "n < length ts"
proof -
  have "\<forall>k \<le> n. \<exists>j. thread_depth ts j k" using depth_below [OF assms(2)] by blast
  then obtain f where f: "\<And>k. k \<le> n \<Longrightarrow> thread_depth ts (f k) k" by metis
  have "inj_on f {..n}"
    by (rule inj_onI) (metis assms(1) atMost_iff depth_unique f)
  moreover have "f ` {..n} \<subseteq> tm_ID ` set ts" using f depth_in by blast
  ultimately have "card {..n} \<le> card (tm_ID ` set ts)"
    by (intro card_inj_on_le) auto
  also have "\<dots> \<le> length ts" using card_image_le [of "set ts" tm_ID] card_length [of ts] by simp
  finally show ?thesis by simp
qed

lemma validated_graph:
  assumes "ValidateThreadAuthorityGraph ts = None"
  shows "valid_graph ts"
proof -
  have t: "check_threads [] ts = None" and c: "check_chains ts ts = None"
    using assms by (auto simp: ValidateThreadAuthorityGraph_def split: option.splits)
  have "check_chains ts ms = None \<Longrightarrow> \<forall>m \<in> set ms. check_chain ts [] m = None" for ms
    by (induction ms) (auto split: option.splits)
  with c have "\<forall>m \<in> set ts. check_chain ts [] m = None" by blast
  with t show ?thesis
    by (auto simp: valid_graph_def check_threads_None intro: check_chain_depth)
qed

lemma check_chain_accepts:
  assumes v: "valid_graph ts"
  shows "thread_depth ts i n \<Longrightarrow> m \<in> set ts \<Longrightarrow> tm_ID m = i \<Longrightarrow>
    \<forall>s \<in> set seen. \<exists>k. n < k \<and> thread_depth ts s k \<Longrightarrow> check_chain ts seen m = None"
proof (induction arbitrary: m seen rule: thread_depth.induct)
  case (depth_root m0)
  have d: "distinct (map tm_ID ts)" using v by (simp add: valid_graph_def)
  have "m = m0" using depth_root(1,3,4) by (auto intro: distinct_ids_eq [OF d])
  moreover have "tm_ID m \<notin> set seen"
    using depth_root(5) thread_depth.depth_root [OF depth_root(1,2)] depth_unique [OF d] depth_root(4)
    by fastforce
  ultimately show ?case using depth_root(2) by (simp add: check_chain.simps)
next
  case (depth_child m0 n)
  have d: "distinct (map tm_ID ts)" using v by (simp add: valid_graph_def)
  have m: "m = m0" using depth_child(1,5,6) by (auto intro: distinct_ids_eq [OF d])
  have dm: "thread_depth ts (tm_ID m) (Suc n)"
    using thread_depth.depth_child [OF depth_child(1,2,3)] m by simp
  have ns: "tm_ID m \<notin> set seen" using depth_child(7) dm depth_unique [OF d] by fastforce
  obtain p where p: "p \<in> set ts" "tm_ID p = parent_of m0" using depth_in [OF depth_child(3)] by auto
  have f: "find_meta ts (parent_of m0) = Some p" using find_meta_in [OF d p(1)] p(2) by simp
  have "\<forall>s \<in> set (tm_ID m # seen). \<exists>k. n < k \<and> thread_depth ts s k"
    using depth_child(7) dm by (auto intro: Suc_lessD)
  with depth_child(4) [OF p] have "check_chain ts (tm_ID m # seen) p = None" by blast
  with ns f m show ?case by (simp add: check_chain.simps [of ts seen])
qed

lemma valid_graph_validates:
  assumes v: "valid_graph ts"
  shows "ValidateThreadAuthorityGraph ts = None"
proof -
  have "check_chain ts [] m = None" if "m \<in> set ts" for m
    using v that check_chain_accepts [OF v _ that, of "tm_ID m" _ "[]"] by (auto simp: valid_graph_def)
  then have "set ms \<subseteq> set ts \<Longrightarrow> check_chains ts ms = None" for ms
    by (induction ms) auto
  then have "check_chains ts ts = None" by blast
  moreover have "check_threads [] ts = None" using v by (simp add: check_threads_None valid_graph_def)
  ultimately show ?thesis by (simp add: ValidateThreadAuthorityGraph_def)
qed

text \<open>
  C34: The ownership validation accepts exactly the forests: threads valid on their own, with
  unique IDs, each of which reaches a thread without a parent by finitely many parent steps
  through existing threads. Missing parents and cycles of any length are refused.
\<close>

theorem graph_validation_exact:
  "ValidateThreadAuthorityGraph ts = None \<longleftrightarrow> valid_graph ts"
  using validated_graph valid_graph_validates by blast

lemma depth_parent:
  assumes "distinct (map tm_ID ts)" "m \<in> set ts" "parent_of m \<noteq> ''''" "thread_depth ts (tm_ID m) n"
  obtains k where "n = Suc k" "thread_depth ts (parent_of m) k"
  using assms(4)
proof (cases rule: thread_depth.cases)
  case (depth_root m')
  then have "m' = m" using assms(2) distinct_ids_eq [OF assms(1)] by metis
  with depth_root assms(3) show ?thesis by simp
next
  case (depth_child m' n')
  then have "m' = m" using assms(2) distinct_ids_eq [OF assms(1)] by metis
  with depth_child that show ?thesis by simp
qed

lemma owned_depth_le:
  assumes d: "distinct (map tm_ID ts)"
  shows "owned ts r i \<Longrightarrow> thread_depth ts r k \<Longrightarrow> thread_depth ts i n \<Longrightarrow> k \<le> n"
proof (induction arbitrary: n rule: owned.induct)
  case owned_root
  then show ?case using depth_unique [OF d] by blast
next
  case (owned_child m)
  from depth_parent [OF d owned_child(1,2,6)] obtain j
    where "n = Suc j" "thread_depth ts (parent_of m) j" .
  with owned_child(4) [OF owned_child(5), of j] show ?case by simp
qed

lemma owned_same_depth:
  assumes d: "distinct (map tm_ID ts)"
  shows "owned ts a x \<Longrightarrow> owned ts b x \<Longrightarrow> thread_depth ts a k \<Longrightarrow> thread_depth ts b k \<Longrightarrow> thread_depth ts x n \<Longrightarrow> a = b"
proof (induction arbitrary: n rule: owned.induct)
  case owned_root
  from owned_root(1) show ?case
  proof (cases rule: owned.cases)
    case (owned_child m)
    from depth_parent [OF d owned_child(2,3)] owned_root(2) owned_child(1)
    obtain k' where "k = Suc k'" "thread_depth ts (parent_of m) k'" by metis
    with owned_depth_le [OF d owned_child(4) owned_root(3)] show ?thesis by fastforce
  qed simp
next
  case (owned_child m)
  from depth_parent [OF d owned_child(1,2,8)] obtain j
    where j: "n = Suc j" "thread_depth ts (parent_of m) j" .
  from owned_child(5) show ?case
  proof (cases rule: owned.cases)
    case owned_root
    from owned_depth_le [OF d owned_child(3,6) j(2)] have "k \<le> j" .
    moreover have "k = n" using owned_root owned_child(7,8) depth_unique [OF d] by metis
    ultimately show ?thesis using j(1) by simp
  next
    case (owned_child m')
    then have "m' = m" using \<open>m \<in> set ts\<close> distinct_ids_eq [OF d] by metis
    with owned_child have "owned ts b (parent_of m)" by simp
    from \<open>\<And>n. owned ts b (parent_of m) \<Longrightarrow> thread_depth ts a k \<Longrightarrow> thread_depth ts b k \<Longrightarrow>
      thread_depth ts (parent_of m) n \<Longrightarrow> a = b\<close> [OF this \<open>thread_depth ts a k\<close> \<open>thread_depth ts b k\<close> j(2)]
    show ?thesis .
  qed
qed

lemma set_children:
  "c \<in> set (children_of ts i) \<longleftrightarrow>
     (\<exists>m \<in> set ts. parent_of m \<noteq> '''' \<and> parent_of m = i \<and> c = tm_ID m)"
  by (auto simp: children_of_def)

lemma distinct_children: "distinct (map tm_ID ts) \<Longrightarrow> distinct (children_of ts i)"
  by (simp add: children_of_def distinct_map_filter)

lemma owned_trans: "owned ts b c \<Longrightarrow> owned ts a b \<Longrightarrow> owned ts a c"
  by (induction rule: owned.induct) (auto intro: owned.intros)

lemma owned_unfold:
  "owned ts i j \<longleftrightarrow> j = i \<or> (\<exists>c \<in> set (children_of ts i). owned ts c j)"
proof
  show "owned ts i j \<Longrightarrow> j = i \<or> (\<exists>c \<in> set (children_of ts i). owned ts c j)"
  proof (induction rule: owned.induct)
    case (owned_child m)
    then have "parent_of m = i \<Longrightarrow> tm_ID m \<in> set (children_of ts i)" by (auto simp: set_children)
    with owned_child owned.owned_root [of ts "tm_ID m"] owned.owned_child [OF owned_child(1,2)]
    show ?case by blast
  qed simp
next
  show "j = i \<or> (\<exists>c \<in> set (children_of ts i). owned ts c j) \<Longrightarrow> owned ts i j"
    using owned_trans owned_child [OF _ _ owned_root] by (auto simp: set_children intro: owned_root)
qed

lemma collect_walks_Some:
  assumes "\<And>x. x \<in> set cs \<Longrightarrow> \<exists>ids. f x = Some ids \<and> distinct ids \<and> set ids = S x"
    and "\<And>x y. x \<in> set cs \<Longrightarrow> y \<in> set cs \<Longrightarrow> x \<noteq> y \<Longrightarrow> S x \<inter> S y = {}" and "distinct cs"
  shows "\<exists>ids. collect_walks (map f cs) = Some ids \<and> distinct ids \<and> set ids = (\<Union>x \<in> set cs. S x)"
  using assms
proof (induction cs)
  case (Cons c cs)
  from Cons.prems(1) obtain a where a: "f c = Some a" "distinct a" "set a = S c" by auto
  from Cons have "\<exists>ids. collect_walks (map f cs) = Some ids \<and> distinct ids
      \<and> set ids = (\<Union>x \<in> set cs. S x)" by simp
  then obtain b where b: "collect_walks (map f cs) = Some b" "distinct b"
    "set b = (\<Union>x \<in> set cs. S x)" by blast
  have "S c \<inter> (\<Union>x \<in> set cs. S x) = {}" using Cons.prems(2,3) by fastforce
  with a b show ?case by auto
qed simp

lemma walk_tree_complete:
  assumes v: "valid_graph ts"
  shows "thread_depth ts i n \<Longrightarrow> length ts - n \<le> fuel \<Longrightarrow>
    \<exists>ids. walk_tree fuel ts i = Some (i # ids) \<and> distinct (i # ids)
      \<and> set (i # ids) = {j. owned ts i j}"
proof (induction fuel arbitrary: i n)
  case 0
  then show ?case using depth_bound [of ts i n] v by (simp add: valid_graph_def)
next
  case (Suc fuel)
  have d: "distinct (map tm_ID ts)" using v by (simp add: valid_graph_def)
  have child: "thread_depth ts c (Suc n)" if "c \<in> set (children_of ts i)" for c
    using that Suc.prems(1) by (auto simp: set_children intro: depth_child)
  have walk: "\<exists>ids. walk_tree fuel ts c = Some ids \<and> distinct ids \<and> set ids = {j. owned ts c j}"
    if "c \<in> set (children_of ts i)" for c
    using Suc.IH [OF child [OF that]] Suc.prems(2) by fastforce
  have deep: "\<exists>k. thread_depth ts x k" if "c \<in> set (children_of ts i)" "owned ts c x" for c x
    using that(2,1)
  proof (cases rule: owned.cases)
    case owned_root
    then show ?thesis using child that by blast
  next
    case (owned_child m)
    then show ?thesis using v by (auto simp: valid_graph_def)
  qed
  have disj: "{j. owned ts c j} \<inter> {j. owned ts c' j} = {}"
    if "c \<in> set (children_of ts i)" "c' \<in> set (children_of ts i)" "c \<noteq> c'" for c c'
    using that child deep owned_same_depth [OF d, of c _ c'] by blast
  from collect_walks_Some [of "children_of ts i" "walk_tree fuel ts" "\<lambda>c. {j. owned ts c j}",
      OF walk disj distinct_children [OF d]]
  obtain ids where ids: "collect_walks (map (walk_tree fuel ts) (children_of ts i)) = Some ids"
    "distinct ids" "set ids = (\<Union>c \<in> set (children_of ts i). {j. owned ts c j})" by blast
  have "i \<notin> set ids"
    using ids(3) child owned_depth_le [OF d _ child Suc.prems(1)] by fastforce
  with ids show ?case
    by (auto simp: owned_unfold [of ts i])
qed

text \<open>
  C35: On every set of threads that passes the ownership validation (unique IDs, parents present,
  no cycle), enumerating the tree of an existing thread ends and returns exactly the threads
  owned by it, directly or through other threads, each once and the root first.
\<close>

theorem tree_ids_complete:
  assumes "ValidateThreadAuthorityGraph ts = None" "find_meta ts (trim_space root) \<noteq> None"
    "trim_space root \<noteq> ''''"
  shows "\<exists>ids. ThreadAuthorityTreeIDs ts root = Some (Inr (trim_space root # ids))
    \<and> distinct (trim_space root # ids)
    \<and> set (trim_space root # ids) = {i. owned ts (trim_space root) i}"
proof -
  have v: "valid_graph ts" using assms(1) by (rule validated_graph)
  obtain m where m: "m \<in> set ts" "tm_ID m = trim_space root"
    using assms(2) by (auto dest: find_meta_Some)
  with v obtain n where "thread_depth ts (trim_space root) n" by (auto simp: valid_graph_def)
  from walk_tree_complete [OF v this, of "length ts"] assms show ?thesis
    by (auto simp: ThreadAuthorityTreeIDs_def Let_def)
qed

definition tree_example :: "thread_meta list" where
  "tree_example =
    (let t = (\<lambda>i p. zero_meta\<lparr>tm_ID := i, tm_ParentThreadID := p,
                       tm_TaskName := (if p = '''' then '''' else ''job''),
                       tm_HostProfileRef := (if p = '''' then '''' else ''h'')\<rparr>)
     in [t ''a'' '''', t ''c'' ''a'', t ''b'' ''a'', t ''d'' ''c'', t ''z'' ''''])"

theorem tree_ids_complete_witness:
  "ThreadAuthorityTreeIDs tree_example ''a '' = Some (Inr [''a'', ''b'', ''c'', ''d''])
   \<and> {i. owned tree_example ''a'' i} = {''a'', ''b'', ''c'', ''d''}"
proof -
  have "ValidateThreadAuthorityGraph tree_example = None" by code_simp
  moreover have "find_meta tree_example (trim_space ''a '') \<noteq> None" by code_simp
  moreover have t: "trim_space ''a '' = ''a''" by code_simp
  moreover have r: "ThreadAuthorityTreeIDs tree_example ''a '' = Some (Inr [''a'', ''b'', ''c'', ''d''])"
    by code_simp
  ultimately show ?thesis using tree_ids_complete [of tree_example "''a ''"]
    by auto
qed

end
