(* ===== verification/RepoState.thy ===== *)
theory RepoState
  imports ThreadAuthority
begin

text \<open>
  The state of \<^verbatim>\<open>MemoryRepo\<close> (\<^verbatim>\<open>internal/sessiontree/sessiontree.go\<close>) and the map primitives of
  \<^verbatim>\<open>backend_domain_mutation.go\<close>. The mutex makes every exported operation one step on this state.
  The per-thread maps of the repo (\<open>entries\<close>, \<open>entryOrdinals\<close>, \<open>entryDepths\<close>, \<open>pathIndexes\<close>,
  \<open>turnEntryOrdinals\<close>, \<open>turnEntryCounts\<close>, \<open>turnMarkers\<close>, \<open>turnRequests\<close>, \<open>activeTurns\<close> and
  \<open>outputSources\<close>) are grouped by thread into one \<open>journal\<close>, as \<open>domainJournal\<close> does; a thread with
  no journal has the empty one. The inner maps the code tests against \<open>nil\<close> and rebuilds are
  options. Threads and tombstones, over which the code ranges, are association lists in an
  arbitrary order; maps that are only looked up are HOL maps. Entries are resident: body
  fields are never swapped out to the backend.
\<close>

section \<open>The journal of one thread\<close>

record path_node =
  pn_id :: string
  pn_parent :: int
  pn_skip :: int
  pn_depth :: int
  pn_err :: "st_error option"

record turn_position =
  tp_started :: int
  tp_terminal :: int
  tp_identity :: int
  tp_cancellation :: int
  tp_through :: int

record turn_marker =
  tk_at :: turn_position
  tk_positions :: "turn_position list"

text \<open>\<open>turnMarkers\<close>, \<open>turnRequests\<close> and \<open>activeTurns\<close> of a thread are rebuilt and dropped together.\<close>

record turn_index =
  ti_markers :: "string \<rightharpoonup> turn_marker"
  ti_requests :: "string \<rightharpoonup> int list"
  ti_active :: "(string \<times> int) list"

record journal =
  jn_entries :: "entry list"
  jn_ordinals :: "(string \<rightharpoonup> int) option"
  jn_depths :: "string \<rightharpoonup> int"
  jn_path :: "path_node list"
  jn_turnOrdinals :: "string \<rightharpoonup> int list"
  jn_turnCounts :: "string \<rightharpoonup> int"
  jn_turns :: "turn_index option"
  jn_outputs :: "(string \<rightharpoonup> int list) option"

definition zero_position :: turn_position where
  "zero_position = \<lparr>tp_started = 0, tp_terminal = 0, tp_identity = 0, tp_cancellation = 0,
     tp_through = 0\<rparr>"

definition zero_marker :: turn_marker where
  "zero_marker = \<lparr>tk_at = zero_position, tk_positions = []\<rparr>"

definition empty_journal :: journal where
  "empty_journal = \<lparr>jn_entries = [], jn_ordinals = None, jn_depths = Map.empty, jn_path = [],
     jn_turnOrdinals = Map.empty, jn_turnCounts = Map.empty, jn_turns = None, jn_outputs = None\<rparr>"

text \<open>Indexing a slice at a Go \<open>int\<close> that the code has checked to be in range.\<close>

definition at :: "'a list \<Rightarrow> int \<Rightarrow> 'a" where
  "at xs i = xs ! nat i"

definition ordinal_of :: "journal \<Rightarrow> string \<Rightarrow> int option" where
  "ordinal_of j i = (case jn_ordinals j of None \<Rightarrow> None | Some m \<Rightarrow> m i)"

definition list_at :: "(string \<rightharpoonup> 'a list) \<Rightarrow> string \<Rightarrow> 'a list" where
  "list_at m k = (case m k of None \<Rightarrow> [] | Some xs \<Rightarrow> xs)"

definition marker_at :: "turn_index \<Rightarrow> string \<Rightarrow> turn_marker" where
  "marker_at ti k = (case ti_markers ti k of None \<Rightarrow> zero_marker | Some mk \<Rightarrow> mk)"

section \<open>Other records\<close>

datatype todo_status = AgentTodoPending | AgentTodoInProgress | AgentTodoCompleted
  | AgentTodoOther string

record todo_item =
  td_ID :: string
  td_Content :: string
  td_Status :: todo_status

record todo_state =
  tds_ThreadID :: string
  tds_Version :: int
  tds_Items :: "todo_item list"
  tds_UpdatedAt :: go_time
  tds_UpdatedByTurnID :: string
  tds_UpdatedByRunID :: string
  tds_UpdatedByToolCall :: string

definition zero_todo :: todo_state where
  "zero_todo = \<lparr>tds_ThreadID = '''', tds_Version = 0, tds_Items = [], tds_UpdatedAt = 0,
     tds_UpdatedByTurnID = '''', tds_UpdatedByRunID = '''', tds_UpdatedByToolCall = ''''\<rparr>"

record provider_state =
  ps_ReusePolicy :: string
  ps_Kind :: string
  ps_ID :: string
  ps_Attributes :: meta_map

record provider_state_record =
  psr_ThreadID :: string
  psr_LeafEntryID :: string
  psr_CompatibilityKey :: string
  psr_State :: provider_state
  psr_CreatedByRunID :: string
  psr_CreatedByTurnID :: string
  psr_UpdatedAt :: go_time

record artifact_record =
  arr_ThreadID :: string
  arr_Ref :: artifact_ref
  arr_Text :: string
  arr_CanonicalEntryID :: string
  arr_CreatedAt :: go_time

section \<open>The repository\<close>

record repo =
  rp_threads :: "(string \<times> thread_meta) list"
  rp_journal :: "string \<Rightarrow> journal"
  rp_todos :: "string \<rightharpoonup> todo_state"
  rp_tombstones :: "(string \<times> thread_tombstone) list"
  rp_providerStates :: "string \<rightharpoonup> provider_state_record"
  rp_artifacts :: "string \<rightharpoonup> artifact_record"
  rp_seq :: int

definition newMemoryRepo :: repo where
  "newMemoryRepo = \<lparr>rp_threads = [], rp_journal = (\<lambda>_. empty_journal), rp_todos = Map.empty,
     rp_tombstones = [], rp_providerStates = Map.empty, rp_artifacts = Map.empty, rp_seq = 0\<rparr>"

definition thread :: "repo \<Rightarrow> string \<Rightarrow> thread_meta option" where
  "thread r k = map_of (rp_threads r) k"

definition tombstone :: "repo \<Rightarrow> string \<Rightarrow> thread_tombstone option" where
  "tombstone r k = map_of (rp_tombstones r) k"

definition setThread :: "string \<Rightarrow> thread_meta \<Rightarrow> repo \<Rightarrow> repo" where
  "setThread k v r = r\<lparr>rp_threads := AList.update k v (rp_threads r)\<rparr>"

definition deleteThread :: "string \<Rightarrow> repo \<Rightarrow> repo" where
  "deleteThread k r = r\<lparr>rp_threads := AList.delete k (rp_threads r)\<rparr>"

definition setTodo :: "string \<Rightarrow> todo_state \<Rightarrow> repo \<Rightarrow> repo" where
  "setTodo k v r = r\<lparr>rp_todos := (rp_todos r)(k \<mapsto> v)\<rparr>"

definition deleteTodo :: "string \<Rightarrow> repo \<Rightarrow> repo" where
  "deleteTodo k r = r\<lparr>rp_todos := (rp_todos r)(k := None)\<rparr>"

definition setProviderState :: "string \<Rightarrow> provider_state_record \<Rightarrow> repo \<Rightarrow> repo" where
  "setProviderState k v r = r\<lparr>rp_providerStates := (rp_providerStates r)(k \<mapsto> v)\<rparr>"

definition deleteProviderState :: "string \<Rightarrow> repo \<Rightarrow> repo" where
  "deleteProviderState k r = r\<lparr>rp_providerStates := (rp_providerStates r)(k := None)\<rparr>"

definition setTombstone :: "string \<Rightarrow> thread_tombstone \<Rightarrow> repo \<Rightarrow> repo" where
  "setTombstone k v r = r\<lparr>rp_tombstones := AList.update k v (rp_tombstones r)\<rparr>"

text \<open>The loops that delete every artifact of a thread.\<close>

definition deleteThreadArtifacts :: "string \<Rightarrow> repo \<Rightarrow> repo" where
  "deleteThreadArtifacts t r = r\<lparr>rp_artifacts := (\<lambda>k. case rp_artifacts r k of
     None \<Rightarrow> None | Some a \<Rightarrow> if arr_ThreadID a = t then None else Some a)\<rparr>"

definition setJournal :: "string \<Rightarrow> journal \<Rightarrow> repo \<Rightarrow> repo" where
  "setJournal k j r = r\<lparr>rp_journal := (rp_journal r)(k := j)\<rparr>"

definition deleteIndexedEntries :: "string \<Rightarrow> repo \<Rightarrow> repo" where
  "deleteIndexedEntries k = setJournal k empty_journal"

text \<open>The map keys are the IDs stored in the values.\<close>

definition keyed :: "repo \<Rightarrow> bool" where
  "keyed r \<longleftrightarrow> distinct (map fst (rp_threads r)) \<and> (\<forall>(k, m) \<in> set (rp_threads r). tm_ID m = k)
     \<and> distinct (map fst (rp_tombstones r)) \<and> (\<forall>(k, t) \<in> set (rp_tombstones r). ts_ThreadID t = k)"

section \<open>Laws of the primitives\<close>

named_theorems repo_simps

lemma update_same: "map_of xs k = Some v \<Longrightarrow> AList.update k v xs = xs"
  by (induction xs) auto

lemma update_update: "AList.update k v (AList.update k w xs) = AList.update k v xs"
  by (induction xs) auto

lemma delete_update: "map_of xs k = None \<Longrightarrow> AList.delete k (AList.update k v xs) = xs"
  by (induction xs) (auto simp: AList.delete_eq split: if_splits)

lemma thread_setThread [repo_simps]:
  "thread (setThread k v r) i = (if i = k then Some v else thread r i)"
  by (simp add: thread_def setThread_def update_conv')

lemma thread_deleteThread [repo_simps]:
  "thread (deleteThread k r) i = (if i = k then None else thread r i)"
  by (simp add: thread_def deleteThread_def delete_conv')

lemma tombstone_setTombstone [repo_simps]:
  "tombstone (setTombstone k v r) i = (if i = k then Some v else tombstone r i)"
  by (simp add: tombstone_def setTombstone_def update_conv')

lemma frame_simps [repo_simps]:
  "thread (setTodo k d r) = thread r" "thread (deleteTodo k r) = thread r"
  "thread (setProviderState k p r) = thread r" "thread (deleteProviderState k r) = thread r"
  "thread (setTombstone k t r) = thread r" "thread (setJournal k j r) = thread r"
  "thread (deleteIndexedEntries k r) = thread r" "thread (deleteThreadArtifacts k r) = thread r"
  "tombstone (setTodo k d r) = tombstone r" "tombstone (deleteTodo k r) = tombstone r"
  "tombstone (setProviderState k p r) = tombstone r"
  "tombstone (deleteProviderState k r) = tombstone r"
  "tombstone (setThread k m r) = tombstone r" "tombstone (deleteThread k r) = tombstone r"
  "tombstone (setJournal k j r) = tombstone r" "tombstone (deleteIndexedEntries k r) = tombstone r"
  "tombstone (deleteThreadArtifacts k r) = tombstone r"
  by (auto simp: fun_eq_iff thread_def tombstone_def setTodo_def deleteTodo_def
      setProviderState_def deleteProviderState_def setTombstone_def setJournal_def
      deleteIndexedEntries_def deleteThreadArtifacts_def setThread_def deleteThread_def)

end
