(* ===== verification/DomainChanges.thy ===== *)
theory DomainChanges
  imports RepoState
begin

text \<open>
  The undo log of \<^verbatim>\<open>backend_domain_mutation.go\<close>. A mutation writes to the live maps of the
  repository; before each write it captures the value the key had, once per key. Discarding the
  mutation installs the captured values. \<open>domainChanges\<close> is generic in the value type and used
  for threads, todos, tombstones, provider states, artifacts and the journal indexes.
\<close>

text \<open>\<open>domainValue\<close> is the captured value or \<open>None\<close> when the key was absent.\<close>

type_synonym 'v changes = "(string \<times> 'v option) list"

definition capture :: "(string \<rightharpoonup> 'v) \<Rightarrow> string \<Rightarrow> 'v changes \<Rightarrow> 'v changes" where
  "capture vals k c = (if map_of c k = None then c @ [(k, vals k)] else c)"

text \<open>\<open>read\<close> captures the current values of the logged keys, \<open>install\<close> writes the log back.\<close>

definition read_changes :: "(string \<rightharpoonup> 'v) \<Rightarrow> 'v changes \<Rightarrow> 'v changes" where
  "read_changes vals c = foldl (\<lambda>next kv. capture vals (fst kv) next) [] c"

definition install_changes :: "'v changes \<Rightarrow> (string \<rightharpoonup> 'v) \<Rightarrow> (string \<rightharpoonup> 'v)" where
  "install_changes c vals =
     foldl (\<lambda>m kv. case snd kv of Some v \<Rightarrow> m(fst kv \<mapsto> v) | None \<Rightarrow> m(fst kv := None)) vals c"

text \<open>A logged write: the setters and deleters of the mutation.\<close>

datatype 'v log_write = SetKey string 'v | DeleteKey string

fun write_key :: "'v log_write \<Rightarrow> string" where
  "write_key (SetKey k v) = k"
| "write_key (DeleteKey k) = k"

fun apply_write :: "'v log_write \<Rightarrow> (string \<rightharpoonup> 'v) \<Rightarrow> (string \<rightharpoonup> 'v)" where
  "apply_write (SetKey k v) m = m(k \<mapsto> v)"
| "apply_write (DeleteKey k) m = m(k := None)"

definition logged_write ::
  "'v log_write \<Rightarrow> 'v changes \<times> (string \<rightharpoonup> 'v) \<Rightarrow> 'v changes \<times> (string \<rightharpoonup> 'v)" where
  "logged_write w s = (capture (snd s) (write_key w) (fst s), apply_write w (snd s))"

definition run_writes ::
  "'v log_write list \<Rightarrow> 'v changes \<times> (string \<rightharpoonup> 'v) \<Rightarrow> 'v changes \<times> (string \<rightharpoonup> 'v)" where
  "run_writes ws s = foldl (\<lambda>s w. logged_write w s) s ws"

section \<open>The log determines the map it was taken from\<close>

definition installed :: "'v changes \<Rightarrow> (string \<rightharpoonup> 'v) \<Rightarrow> (string \<rightharpoonup> 'v)" where
  "installed c vals = (\<lambda>k. case map_of c k of None \<Rightarrow> vals k | Some saved \<Rightarrow> saved)"

lemma install_changes_map:
  "distinct (map fst c) \<Longrightarrow> install_changes c vals = installed c vals"
proof (induction c arbitrary: vals)
  case (Cons kv c)
  then have "map_of c (fst kv) = None" by (simp add: map_of_eq_None_iff)
  moreover have "install_changes (kv # c) vals = installed c (vals(fst kv := snd kv))"
    using Cons by (simp add: install_changes_def split: option.splits)
  ultimately show ?case
    by (cases kv) (auto simp: installed_def fun_eq_iff split: option.splits)
qed (simp add: install_changes_def installed_def fun_eq_iff)

lemma capture_keys [simp]:
  "fst ` set (capture vals k c) = insert k (fst ` set c)"
  by (cases "map_of c k") (auto simp: capture_def dest: map_of_SomeD intro: rev_image_eqI)

lemma capture_distinct: "distinct (map fst c) \<Longrightarrow> distinct (map fst (capture vals k c))"
  by (auto simp: capture_def map_of_eq_None_iff)

lemma map_of_capture:
  "map_of (capture vals k c) i = (if i = k \<and> map_of c k = None then Some (vals k) else map_of c i)"
  by (auto simp: capture_def map_add_def split: option.splits)

text \<open>The invariant of a mutation: the log over the live map is the map before the mutation.\<close>

definition logs :: "(string \<rightharpoonup> 'v) \<Rightarrow> 'v changes \<times> (string \<rightharpoonup> 'v) \<Rightarrow> bool" where
  "logs original s \<longleftrightarrow> distinct (map fst (fst s)) \<and> installed (fst s) (snd s) = original"

lemma installed_write:
  "installed (capture m (write_key w) c) (apply_write w m) = installed c m"
proof
  fix k
  show "installed (capture m (write_key w) c) (apply_write w m) k = installed c m k"
    by (cases w; cases "map_of c k") (auto simp: installed_def map_of_capture)
qed

lemma logged_write_logs: "logs original s \<Longrightarrow> logs original (logged_write w s)"
  by (simp add: logs_def logged_write_def capture_distinct installed_write)

lemma run_writes_logs: "logs original s \<Longrightarrow> logs original (run_writes ws s)"
  by (induction ws arbitrary: s) (auto simp: run_writes_def logged_write_logs)

lemma read_changes_keys:
  "distinct (map fst c) \<Longrightarrow> map fst (read_changes vals c) = map fst c
     \<and> (\<forall>kv \<in> set (read_changes vals c). snd kv = vals (fst kv))"
proof (induction c rule: rev_induct)
  case (snoc kv c)
  then have "map_of (read_changes vals c) (fst kv) = None"
    by (simp add: map_of_eq_None_iff) (metis list.set_map)
  with snoc show ?case by (auto simp: read_changes_def capture_def)
qed (simp add: read_changes_def)

text \<open>
  C36: Rolling a mutation back is exact: after any sequence of logged sets and deletes on a map,
  installing the log yields the map from before the first write, whatever keys were written,
  overwritten, deleted or created, and in whatever order.
\<close>

theorem rollback_exact:
  "install_changes (fst (run_writes ws ([], m))) (snd (run_writes ws ([], m))) = m"
proof -
  have "logs m ([], m)" by (simp add: logs_def installed_def fun_eq_iff)
  then have "logs m (run_writes ws ([], m))" by (rule run_writes_logs)
  then show ?thesis by (simp add: logs_def install_changes_map)
qed

text \<open>
  Snapshotting a mutation and publishing it later loses nothing: the values read under the
  logged keys, installed into the map the mutation started from, give the map the mutation
  produced.
\<close>

theorem snapshot_publishes:
  "install_changes (read_changes (snd (run_writes ws ([], m))) (fst (run_writes ws ([], m)))) m
   = snd (run_writes ws ([], m))"
proof -
  let ?s = "run_writes ws ([], m)"
  have "logs m ([], m)" by (simp add: logs_def installed_def fun_eq_iff)
  then have l: "logs m ?s" by (rule run_writes_logs)
  then have d: "distinct (map fst (fst ?s))" by (simp add: logs_def)
  note r = read_changes_keys [OF d, of "snd ?s"]
  have "install_changes (read_changes (snd ?s) (fst ?s)) m = installed (read_changes (snd ?s) (fst ?s)) m"
    using r d by (intro install_changes_map) simp
  moreover have "installed (read_changes (snd ?s) (fst ?s)) m k = snd ?s k" for k
  proof (cases "map_of (read_changes (snd ?s) (fst ?s)) k")
    case None
    then have "map_of (fst ?s) k = None" using r by (simp add: map_of_eq_None_iff) (metis list.set_map)
    then have "installed (fst ?s) (snd ?s) k = snd ?s k" by (simp add: installed_def)
    with l None show ?thesis by (simp add: logs_def installed_def)
  next
    case (Some saved)
    with r show ?thesis by (auto simp: installed_def dest!: map_of_SomeD)
  qed
  ultimately show ?thesis by auto
qed

end
