(* ===== verification/FreshId.thy ===== *)
theory FreshId
  imports Prelude
begin

text \<open>
  Generated identities: \<^verbatim>\<open>fmt.Sprintf("%d")\<close> and the loops of \<^verbatim>\<open>sessiontree.go\<close> that count a
  sequence number up until the identity made from it is unused (\<open>createThreadLocked\<close>,
  \<open>nextEntryID\<close>, \<open>forkLocked\<close>). The sequence stays far below \<open>2^63\<close>, so it does not wrap.
\<close>

section \<open>Decimal text\<close>

definition digit :: "nat \<Rightarrow> char" where
  "digit n = ''0123456789'' ! n"

fun digits :: "nat \<Rightarrow> string" where
  "digits n = (if n < 10 then [digit n] else digits (n div 10) @ [digit (n mod 10)])"

declare digits.simps [simp del]

definition show_int :: "int \<Rightarrow> string" where
  "show_int i = (if i < 0 then CHR ''-'' # digits (nat (- i)) else digits (nat i))"

lemma digit_inj: "m < 10 \<Longrightarrow> n < 10 \<Longrightarrow> digit m = digit n \<longleftrightarrow> m = n"
  unfolding digit_def by (subst nth_eq_iff_index_eq) simp_all

lemma digits_nonempty [simp]: "digits n \<noteq> []" "[] \<noteq> digits n"
  by (subst digits.simps, simp)+

lemma digits_inj: "digits m = digits n \<Longrightarrow> m = n"
proof (induction m arbitrary: n rule: less_induct)
  case (less m)
  have short: "digits k @ [c] \<noteq> [d]" for k c d by (cases "digits k") auto
  show ?case
  proof (cases "m < 10 \<or> n < 10")
    case True
    then show ?thesis
      using less.prems short digit_inj [of m n] by (auto simp: digits.simps [of m] digits.simps [of n] split: if_splits)
  next
    case False
    then have "digits (m div 10) = digits (n div 10)" "digit (m mod 10) = digit (n mod 10)"
      using less.prems by (auto simp: digits.simps [of m] digits.simps [of n])
    then have "m div 10 = n div 10" "m mod 10 = n mod 10"
      using less.IH [of "m div 10" "n div 10"] False digit_inj by auto
    then show ?thesis by (metis div_mult_mod_eq)
  qed
qed

lemma show_int_inj: "0 \<le> a \<Longrightarrow> 0 \<le> b \<Longrightarrow> show_int a = show_int b \<longleftrightarrow> a = b"
  using digits_inj [of "nat a" "nat b"] by (auto simp: show_int_def)

section \<open>Counting up to an unused identity\<close>

text \<open>
  The loop; with fuel above the number of used identities it stops at an unused one
  (\<open>fresh_id_unused\<close>), so the value at fuel 0 is never taken.
\<close>

fun fresh_id :: "nat \<Rightarrow> (string \<Rightarrow> bool) \<Rightarrow> (int \<Rightarrow> string) \<Rightarrow> int \<Rightarrow> int \<times> string" where
  "fresh_id 0 used name seq = (seq + 1, name (seq + 1))"
| "fresh_id (Suc fuel) used name seq =
    (if used (name (seq + 1)) then fresh_id fuel used name (seq + 1) else (seq + 1, name (seq + 1)))"

lemma fresh_id_name: "snd (fresh_id fuel used name seq) = name (fst (fresh_id fuel used name seq))"
  by (induction fuel arbitrary: seq) auto

lemma fresh_id_seq: "seq < fst (fresh_id fuel used name seq)"
proof (induction fuel arbitrary: seq)
  case (Suc fuel)
  from Suc [of "seq + 1"] show ?case by auto
qed simp

lemma fresh_id_used:
  "used (snd (fresh_id fuel used name seq)) \<Longrightarrow> i \<le> fuel \<Longrightarrow> used (name (seq + 1 + int i))"
proof (induction fuel arbitrary: seq i)
  case (Suc fuel)
  then have u: "used (name (seq + 1))" by (auto split: if_splits)
  show ?case
  proof (cases i)
    case (Suc j)
    with Suc.IH [of "seq + 1" j] Suc.prems u show ?thesis by (simp add: ac_simps)
  qed (use u in simp)
qed simp

lemma fresh_id_unused:
  assumes "\<And>s. used s \<Longrightarrow> s \<in> set ids" "length ids \<le> fuel" "0 \<le> seq"
    and inj: "\<And>a b. 0 \<le> a \<Longrightarrow> 0 \<le> b \<Longrightarrow> name a = name b \<Longrightarrow> a = b"
  shows "\<not> used (snd (fresh_id fuel used name seq))"
proof
  assume u: "used (snd (fresh_id fuel used name seq))"
  have "(\<lambda>i. name (seq + 1 + int i)) ` {..fuel} \<subseteq> set ids"
    using fresh_id_used [where used = used, OF u] assms(1) by auto
  moreover have "inj_on (\<lambda>i. name (seq + 1 + int i)) {..fuel}"
  proof (rule inj_onI)
    fix x y assume "name (seq + 1 + int x) = name (seq + 1 + int y)"
    then have "seq + 1 + int x = seq + 1 + int y" using assms(3) by (intro inj) auto
    then show "x = y" by simp
  qed
  ultimately have "card {..fuel} \<le> card (set ids)" by (intro card_inj_on_le) auto
  then show False using card_length [of ids] assms(2) by simp
qed

end
