(* ===== verification/ThreadStore.thy ===== *)
theory ThreadStore
  imports RepoState FreshId "HOL-Library.Product_Lexorder"
begin

text \<open>
  The operations of \<^verbatim>\<open>MemoryRepo\<close> on threads: creation, reads, listing with a cursor, metadata
  updates, title mutations (\<^verbatim>\<open>sessiontree.go\<close>, \<^verbatim>\<open>title_authority.go\<close>), deletion of an
  ownership tree with tombstones and provenance lookup (\<^verbatim>\<open>lifecycle.go\<close>). Each is one step under
  the repository mutex. \<open>clock\<close> is the time read from the repository clock. The store
  invariant says that the stored ownership graph passes the validation of \<open>ThreadAuthority\<close> and
  is kept by every operation.
\<close>

section \<open>Creation\<close>

definition generated_thread_id :: "int \<Rightarrow> string" where
  "generated_thread_id n = ''thread-'' @ show_int n"

definition createThread :: "go_time \<Rightarrow> repo \<Rightarrow> thread_meta \<Rightarrow> repo \<times> thread_meta st_result" where
  "createThread clock r0 meta0 =
    (let gen = fresh_id (length (rp_threads r0)) (\<lambda>i. thread r0 i \<noteq> None) generated_thread_id
                 (rp_seq r0);
         r = (if tm_ID meta0 = '''' then r0\<lparr>rp_seq := fst gen\<rparr> else r0);
         meta = (if tm_ID meta0 = '''' then meta0\<lparr>tm_ID := snd gen\<rparr> else meta0)
     in if tm_ID meta0 \<noteq> '''' \<and> thread r (tm_ID meta) \<noteq> None then (r, Inl ErrThreadExists)
        else if tm_ID meta0 \<noteq> '''' \<and> tombstone r (tm_ID meta) \<noteq> None then (r, Inl ErrThreadDeleted)
        else (case prepareNewThreadMeta clock meta of
           Inl e \<Rightarrow> (r, Inl e)
         | Inr m \<Rightarrow>
             (case if parent_of m = '''' then None
                   else (case thread r (parent_of m) of
                      None \<Rightarrow> Some ErrInvalidThreadAuthority
                    | Some parent \<Rightarrow> lifecycleRejectsWrite parent) of
                Some e \<Rightarrow> (r, Inl e)
              | None \<Rightarrow> (setThread (tm_ID m) m r, Inr m))))"

section \<open>Reads and listing\<close>

definition Thread :: "repo \<Rightarrow> string \<Rightarrow> thread_meta st_result" where
  "Thread r t =
    (case thread r t of
       None \<Rightarrow> Inl ErrThreadNotFound
     | Some m \<Rightarrow> (case ValidateThreadMetaAuthority m of Some e \<Rightarrow> Inl e | None \<Rightarrow> Inr m))"

record list_options =
  lo_IncludeArchived :: bool
  lo_RootOnly :: bool
  lo_Limit :: int
  lo_AfterCreatedAt :: go_time
  lo_AfterID :: string

text \<open>Newest first, ties by ID; the comparison function is a total order on these keys.\<close>

definition list_key :: "thread_meta \<Rightarrow> int \<times> string" where
  "list_key m = (- tm_CreatedAt m, tm_ID m)"

definition SortThreadsByCreatedAtDesc :: "thread_meta list \<Rightarrow> thread_meta list" where
  "SortThreadsByCreatedAtDesc ts = sort_key list_key ts"

definition threadAfterListCursor :: "thread_meta \<Rightarrow> list_options \<Rightarrow> bool" where
  "threadAfterListCursor m opts =
    (let afterID = trim_space (lo_AfterID opts) in
     if zero_time (lo_AfterCreatedAt opts) \<or> afterID = '''' then True
     else if tm_CreatedAt m < lo_AfterCreatedAt opts then True
     else if tm_CreatedAt m = lo_AfterCreatedAt opts \<and> tm_ID m > afterID then True
     else False)"

fun list_loop :: "list_options \<Rightarrow> int \<Rightarrow> thread_meta list \<Rightarrow> thread_meta list" where
  "list_loop opts n [] = []"
| "list_loop opts n (m # ms) =
    (if tm_Archived m \<and> \<not> lo_IncludeArchived opts then list_loop opts n ms
     else if lo_RootOnly opts \<and> parent_of m \<noteq> '''' then list_loop opts n ms
     else if \<not> threadAfterListCursor m opts then list_loop opts n ms
     else m # (if lo_Limit opts > 0 \<and> n + 1 \<ge> lo_Limit opts then []
               else list_loop opts (n + 1) ms))"

definition ApplyThreadListOptions :: "thread_meta list \<Rightarrow> list_options \<Rightarrow> thread_meta list" where
  "ApplyThreadListOptions ts opts = list_loop opts 0 (SortThreadsByCreatedAtDesc ts)"

fun first_invalid :: "thread_meta list \<Rightarrow> st_error option" where
  "first_invalid [] = None"
| "first_invalid (m # ms) =
    (case ValidateThreadMetaAuthority m of Some e \<Rightarrow> Some e | None \<Rightarrow> first_invalid ms)"

definition ListThreads :: "repo \<Rightarrow> list_options \<Rightarrow> thread_meta list st_result" where
  "ListThreads r opts =
    (case first_invalid (map snd (rp_threads r)) of
       Some e \<Rightarrow> Inl e
     | None \<Rightarrow> Inr (ApplyThreadListOptions (map snd (rp_threads r)) opts))"

section \<open>Updates\<close>

definition UpdateThread :: "go_time \<Rightarrow> repo \<Rightarrow> thread_meta \<Rightarrow> repo \<times> st_error option" where
  "UpdateThread clock r meta =
    (case thread r (tm_ID meta) of
       None \<Rightarrow> (r, Some ErrThreadNotFound)
     | Some current \<Rightarrow> (case ValidateThreadMetaAuthority meta of
         Some e \<Rightarrow> (r, Some e)
       | None \<Rightarrow>
           if \<not> SameThreadAuthority current meta then (r, Some ErrInvalidThreadAuthority)
           else if \<not> SameThreadTitleState current meta then (r, Some ErrRequestConflict)
           else (case lifecycleRejectsWrite current of
              Some e \<Rightarrow> (r, Some e)
            | None \<Rightarrow>
                (setThread (tm_ID meta)
                   (meta\<lparr>tm_UpdatedAt := (if zero_time (tm_UpdatedAt meta) then clock
                                          else tm_UpdatedAt meta)\<rparr>) r, None))))"

fun title_thread :: "title_request \<Rightarrow> string" where
  "title_thread (SetTitle q) = trim_space (st_ThreadID q)"
| "title_thread (BeginTitle q) = trim_space (bt_ThreadID q)"
| "title_thread (CompleteTitle q) = trim_space (ct_ThreadID q)"
| "title_thread (FailTitle q) = trim_space (ft_ThreadID q)"

definition mutateThreadTitle ::
  "repo \<Rightarrow> string \<Rightarrow> (thread_meta \<Rightarrow> (thread_meta \<times> bool) st_result)
    \<Rightarrow> repo \<times> (thread_meta \<times> bool) st_result" where
  "mutateThreadTitle r t mutate =
    (case thread r t of
       None \<Rightarrow> (r, Inl (if tombstone r t \<noteq> None then ErrThreadDeleted else ErrThreadNotFound))
     | Some meta \<Rightarrow> (case lifecycleRejectsWrite meta of
         Some e \<Rightarrow> (r, Inl e)
       | None \<Rightarrow> (case guarded_update ValidateThreadTitleState ErrAuthorityCorrupt mutate meta of
           Inl e \<Rightarrow> (r, Inl e)
         | Inr (m, changed) \<Rightarrow> ((if changed then setThread t m r else r), Inr (m, changed)))))"

text \<open>\<open>SetThreadTitle\<close>, \<open>BeginAutomaticThreadTitle\<close>, \<open>CompleteAutomaticThreadTitle\<close>, \<open>FailAutomaticThreadTitle\<close>.\<close>

definition titleOperation :: "repo \<Rightarrow> title_request \<Rightarrow> repo \<times> (thread_meta \<times> bool) st_result" where
  "titleOperation r q =
    (if \<not> title_request_valid q then (r, Inl (ErrMsg ''invalid thread title request''))
     else mutateThreadTitle r (title_thread q) (title_transition q))"

definition PendingAutomaticThreadTitles :: "repo \<Rightarrow> thread_meta list st_result" where
  "PendingAutomaticThreadTitles r =
    (if list_ex (\<lambda>m. \<not> ValidateThreadTitleState m) (map snd (rp_threads r)) then Inl ErrAuthorityCorrupt
     else Inr (sort_key (\<lambda>m. (tm_TitleUpdatedAt m, tm_ID m))
                (filter (\<lambda>m. tm_TitleStatus m = ThreadTitlePending) (map snd (rp_threads r)))))"

section \<open>Deletion and provenance\<close>

record delete_result =
  dr_ThreadIDs :: "string list"
  dr_Replayed :: bool

definition tombstone_for ::
  "string \<Rightarrow> string \<Rightarrow> string \<Rightarrow> go_time \<Rightarrow> string \<Rightarrow> thread_meta \<Rightarrow> thread_tombstone" where
  "tombstone_for root key fingerprint now t m =
    \<lparr>ts_ThreadID = t, ts_RootThreadID = root, ts_ParentThreadID = tm_ParentThreadID m,
     ts_OriginRequestKey = tm_OriginRequestKey m, ts_OriginFingerprint = tm_OriginFingerprint m,
     ts_DeleteRequestKey = key, ts_DeleteFingerprint = fingerprint,
     ts_ForkedFromThreadID = tm_ForkedFromThreadID m,
     ts_ForkedFromEntryID = tm_ForkedFromEntryID m, ts_LegacyCreateIntent = '''',
     ts_LegacyForkRequestID = '''', ts_LegacyForkNodeID = '''', ts_DeletedAt = now\<rparr>"

definition delete_one ::
  "string \<Rightarrow> string \<Rightarrow> string \<Rightarrow> go_time \<Rightarrow> string \<Rightarrow> repo \<Rightarrow> repo" where
  "delete_one root key fingerprint now t r =
    (let meta = (case thread r t of None \<Rightarrow> zero_meta | Some m \<Rightarrow> m) in
     deleteThreadArtifacts t (deleteProviderState t (deleteTodo t (deleteIndexedEntries t
       (deleteThread t (setTombstone t (tombstone_for root key fingerprint now t meta) r))))))"

text \<open>\<open>threadTreeIDsLocked\<close> repeats \<open>ThreadAuthorityTreeIDs\<close> on the stored threads, without trimming.\<close>

definition threadTreeIDs :: "repo \<Rightarrow> string \<Rightarrow> string list st_result" where
  "threadTreeIDs r root =
    (let ts = map snd (rp_threads r) in
     case ValidateThreadAuthorityGraph ts of
       Some e \<Rightarrow> Inl e
     | None \<Rightarrow> if thread r root = None then Inl ErrThreadNotFound
               else (case walk_tree (length ts) ts root of
                       None \<Rightarrow> Inl (ErrMsg ''out of fuel'') | Some ids \<Rightarrow> Inr ids))"

definition delete_live ::
  "go_time \<Rightarrow> repo \<Rightarrow> string \<Rightarrow> string \<Rightarrow> string \<Rightarrow> repo \<times> delete_result st_result" where
  "delete_live clock r root key fingerprint =
    (if thread r root = None then (r, Inl ErrThreadNotFound)
     else (case threadTreeIDs r root of
       Inl e \<Rightarrow> (r, Inl e)
     | Inr ids \<Rightarrow>
         if list_ex (\<lambda>t. thread r t = None) ids then (r, Inl ErrThreadNotFound)
         else (fold (delete_one root key fingerprint clock) ids r,
               Inr \<lparr>dr_ThreadIDs = ids, dr_Replayed = False\<rparr>)))"

definition deleted_under :: "repo \<Rightarrow> string \<Rightarrow> string list" where
  "deleted_under r root =
     sort (map fst (filter (\<lambda>kt. ts_RootThreadID (snd kt) = root) (rp_tombstones r)))"

definition deleteRootTree ::
  "go_time \<Rightarrow> repo \<Rightarrow> string \<Rightarrow> string \<Rightarrow> string \<Rightarrow> repo \<times> delete_result st_result" where
  "deleteRootTree clock r root0 key fingerprint =
    (let root = trim_space root0 in
     if root = '''' then (r, Inl (ErrMsg ''root thread id is required''))
     else (case tombstone r root of
       None \<Rightarrow> delete_live clock r root key fingerprint
     | Some ts \<Rightarrow>
         if ts_ThreadID ts = root \<and> ts_RootThreadID ts = root then
           (if key \<noteq> '''' \<and> (ts_DeleteRequestKey ts \<noteq> key \<or> ts_DeleteFingerprint ts \<noteq> fingerprint)
            then (r, Inl ErrRequestConflict)
            else (r, Inr \<lparr>dr_ThreadIDs = deleted_under r root, dr_Replayed = True\<rparr>))
         else delete_live clock r root key fingerprint))"

definition DeleteRootTreeWithRequest ::
  "go_time \<Rightarrow> repo \<Rightarrow> string \<Rightarrow> string \<Rightarrow> string \<Rightarrow> repo \<times> delete_result st_result" where
  "DeleteRootTreeWithRequest clock r root key0 fingerprint0 =
    (let key = trim_space key0; fingerprint = trim_space fingerprint0 in
     if key = '''' \<or> fingerprint = '''' then
       (r, Inl (ErrMsg ''delete request key and fingerprint are required''))
     else deleteRootTree clock r root key fingerprint)"

definition ThreadTombstone :: "repo \<Rightarrow> string \<Rightarrow> thread_tombstone st_result" where
  "ThreadTombstone r t =
    (case tombstone r (trim_space t) of None \<Rightarrow> Inl ErrThreadNotFound | Some ts \<Rightarrow> Inr ts)"

datatype thread_origin = OriginThread thread_meta | OriginTombstone thread_tombstone

text \<open>The two scans of \<open>ThreadOrigin\<close>: a second match of either kind is corruption.\<close>

fun origin_scan :: "thread_origin option \<Rightarrow> thread_origin list \<Rightarrow> thread_origin option st_result" where
  "origin_scan found [] = Inr found"
| "origin_scan found (x # xs) =
    (if found \<noteq> None then Inl ErrAuthorityCorrupt else origin_scan (Some x) xs)"

definition ThreadOrigin :: "repo \<Rightarrow> string \<Rightarrow> thread_origin st_result" where
  "ThreadOrigin r key0 =
    (let key = trim_space key0 in
     if key = '''' then Inl (ErrMsg ''thread origin request key is required'')
     else (case origin_scan None
         (map OriginThread (filter (\<lambda>m. tm_OriginRequestKey m = key) (map snd (rp_threads r)))
          @ map OriginTombstone (filter (\<lambda>t. ts_OriginRequestKey t = key) (map snd (rp_tombstones r)))) of
       Inl e \<Rightarrow> Inl e
     | Inr None \<Rightarrow> Inl ErrThreadNotFound
     | Inr (Some origin) \<Rightarrow> Inr origin))"

section \<open>The store invariant\<close>

definition stored :: "repo \<Rightarrow> thread_meta list" where
  "stored r = map snd (rp_threads r)"

definition store_ok :: "repo \<Rightarrow> bool" where
  "store_ok r \<longleftrightarrow> keyed r \<and> ValidateThreadAuthorityGraph (stored r) = None \<and> 0 \<le> rp_seq r"

lemma keyed_thread:
  assumes "keyed r"
  shows "thread r i = Some m \<longleftrightarrow> m \<in> set (stored r) \<and> tm_ID m = i"
proof -
  have "thread r i = Some m \<longleftrightarrow> (i, m) \<in> set (rp_threads r)"
    using assms by (simp add: thread_def keyed_def)
  also have "\<dots> \<longleftrightarrow> m \<in> set (stored r) \<and> tm_ID m = i"
    using assms by (force simp: keyed_def stored_def)
  finally show ?thesis .
qed

lemma keyed_distinct: "keyed r \<Longrightarrow> distinct (map tm_ID (stored r))"
proof -
  assume k: "keyed r"
  then have "map tm_ID (stored r) = map fst (rp_threads r)" by (auto simp: keyed_def stored_def)
  with k show ?thesis by (simp add: keyed_def)
qed

lemma update_mem:
  "(i, m) \<in> set (AList.update k v xs) \<Longrightarrow> (i = k \<and> m = v) \<or> (i, m) \<in> set xs"
  by (induction xs) (auto split: if_splits)

lemma keyed_setThread: "keyed r \<Longrightarrow> tm_ID m = k \<Longrightarrow> keyed (setThread k m r)"
  by (auto simp: keyed_def setThread_def distinct_update dest!: update_mem)

lemma stored_setThread:
  assumes "keyed r" "tm_ID m = k"
  shows "x \<in> set (stored (setThread k m r)) \<longleftrightarrow> x = m \<or> (x \<in> set (stored r) \<and> tm_ID x \<noteq> k)"
proof -
  have "x \<in> set (stored (setThread k m r)) \<longleftrightarrow> thread (setThread k m r) (tm_ID x) = Some x"
    using keyed_thread [OF keyed_setThread [OF assms]] by blast
  also have "\<dots> \<longleftrightarrow> (if tm_ID x = k then m = x else thread r (tm_ID x) = Some x)"
    by (simp add: repo_simps)
  also have "\<dots> \<longleftrightarrow> x = m \<or> (x \<in> set (stored r) \<and> tm_ID x \<noteq> k)"
    using keyed_thread [OF assms(1)] assms(2) by auto
  finally show ?thesis .
qed

lemma keyed_deleteThread: "keyed r \<Longrightarrow> keyed (deleteThread k r)"
  using distinct_delete [of "rp_threads r" k]
  by (auto simp: keyed_def deleteThread_def AList.delete_eq)

lemma keyed_setTombstone: "keyed r \<Longrightarrow> ts_ThreadID t = k \<Longrightarrow> keyed (setTombstone k t r)"
  by (auto simp: keyed_def setTombstone_def distinct_update dest!: update_mem)

lemma keyed_frame [simp]:
  "keyed (setTodo k d r) = keyed r" "keyed (deleteTodo k r) = keyed r"
  "keyed (setProviderState k p r) = keyed r" "keyed (deleteProviderState k r) = keyed r"
  "keyed (setJournal k j r) = keyed r" "keyed (deleteIndexedEntries k r) = keyed r"
  "keyed (deleteThreadArtifacts k r) = keyed r" "keyed (r\<lparr>rp_seq := n\<rparr>) = keyed r"
  by (simp_all add: keyed_def setTodo_def deleteTodo_def setProviderState_def
      deleteProviderState_def setJournal_def deleteIndexedEntries_def deleteThreadArtifacts_def)

lemma thread_depth_map:
  assumes "\<And>m. m \<in> set ts \<Longrightarrow> P (tm_ID m) \<Longrightarrow>
    \<exists>m' \<in> set ts'. tm_ID m' = tm_ID m \<and> parent_of m' = parent_of m \<and> (parent_of m \<noteq> '''' \<longrightarrow> P (parent_of m))"
  shows "thread_depth ts i n \<Longrightarrow> P i \<Longrightarrow> thread_depth ts' i n"
proof (induction rule: thread_depth.induct)
  case (depth_root m)
  then show ?case using assms by (metis thread_depth.depth_root)
next
  case (depth_child m n)
  then show ?case using assms by (metis thread_depth.depth_child)
qed

lemma store_okD:
  assumes "store_ok r"
  shows "keyed r" "valid_graph (stored r)"
    "\<And>m. m \<in> set (stored r) \<Longrightarrow> ValidateThreadMetaAuthority m = None"
    "\<And>m. m \<in> set (stored r) \<Longrightarrow> \<exists>n. thread_depth (stored r) (tm_ID m) n"
    "0 \<le> rp_seq r"
  using assms validated_graph [of "stored r"] by (auto simp: store_ok_def valid_graph_def)

lemma store_okI:
  assumes "keyed r" "\<And>m. m \<in> set (stored r) \<Longrightarrow> ValidateThreadMetaAuthority m = None"
    "\<And>m. m \<in> set (stored r) \<Longrightarrow> \<exists>n. thread_depth (stored r) (tm_ID m) n"
    "0 \<le> rp_seq r"
  shows "store_ok r"
  using assms keyed_distinct valid_graph_validates by (auto simp: store_ok_def valid_graph_def)

lemma store_ok_replace:
  assumes ok: "store_ok r" and m: "thread r k = Some m"
    and m': "tm_ID m' = k" "parent_of m' = parent_of m" "ValidateThreadMetaAuthority m' = None"
  shows "store_ok (setThread k m' r)"
proof (rule store_okI)
  note r = store_okD [OF ok] and s = stored_setThread [OF store_okD(1) [OF ok] m'(1)]
  show "keyed (setThread k m' r)" using r(1) m'(1) by (rule keyed_setThread)
  show "0 \<le> rp_seq (setThread k m' r)" using r(5) by (simp add: setThread_def)
  show "ValidateThreadMetaAuthority x = None" if "x \<in> set (stored (setThread k m' r))" for x
    using that s r(3) m'(3) by auto
  have old: "m \<in> set (stored r)" "tm_ID m = k" using m keyed_thread [OF r(1)] by auto
  have "\<exists>y \<in> set (stored (setThread k m' r)). tm_ID y = tm_ID x \<and> parent_of y = parent_of x"
    if "x \<in> set (stored r)" for x
  proof (cases "tm_ID x = k")
    case True
    then have "x = m" using that old distinct_ids_eq [OF keyed_distinct [OF r(1)]] by auto
    with s m' old show ?thesis by auto
  qed (use that s in auto)
  note same = this
  have step: "thread_depth (stored r) i n \<Longrightarrow> thread_depth (stored (setThread k m' r)) i n" for i n
    by (rule thread_depth_map [where P = "\<lambda>_. True"]) (use same in auto)
  show "\<exists>n. thread_depth (stored (setThread k m' r)) (tm_ID x) n"
    if "x \<in> set (stored (setThread k m' r))" for x
  proof -
    have "\<exists>n. thread_depth (stored r) (tm_ID x) n" using that s r(4) old m'(1) by metis
    with step show ?thesis by blast
  qed
qed

lemma store_ok_add:
  assumes ok: "store_ok r" and k: "thread r k = None" and m: "tm_ID m = k"
    "ValidateThreadMetaAuthority m = None" "parent_of m = '''' \<or> thread r (parent_of m) \<noteq> None"
  shows "store_ok (setThread k m r)"
proof (rule store_okI)
  note r = store_okD [OF ok] and s = stored_setThread [OF store_okD(1) [OF ok] m(1)]
  show "keyed (setThread k m r)" using r(1) m(1) by (rule keyed_setThread)
  show "0 \<le> rp_seq (setThread k m r)" using r(5) by (simp add: setThread_def)
  show "ValidateThreadMetaAuthority x = None" if "x \<in> set (stored (setThread k m r))" for x
    using that s r(3) m(2) by auto
  have new: "tm_ID x \<noteq> k" if "x \<in> set (stored r)" for x
    using keyed_thread [OF r(1), of k x] k that by auto
  have step: "thread_depth (stored r) i n \<Longrightarrow> thread_depth (stored (setThread k m r)) i n" for i n
    by (rule thread_depth_map [where P = "\<lambda>_. True"]) (use s new in auto)
  have "m \<in> set (stored (setThread k m r))" using s by simp
  moreover have "parent_of m \<noteq> '''' \<Longrightarrow> \<exists>n. thread_depth (stored (setThread k m r)) (parent_of m) n"
    using m(3) r(4) keyed_thread [OF r(1)] step by fastforce
  ultimately have "\<exists>n. thread_depth (stored (setThread k m r)) (tm_ID m) n"
    by (metis thread_depth.depth_root thread_depth.depth_child)
  then show "\<exists>n. thread_depth (stored (setThread k m r)) (tm_ID x) n"
    if "x \<in> set (stored (setThread k m r))" for x
    using that s r(4) step by metis
qed

lemma prepareNewThreadMeta_ok:
  "prepareNewThreadMeta clock meta = Inr m \<Longrightarrow>
    ValidateThreadMetaAuthority m = None \<and> tm_ID m = tm_ID meta \<and> parent_of m = parent_of meta"
  by (auto simp: prepareNewThreadMeta_def Let_def parent_of_def split: option.splits if_splits)

lemma generated_unused:
  assumes "0 \<le> rp_seq r"
  shows "thread r (snd (fresh_id (length (rp_threads r)) (\<lambda>i. thread r i \<noteq> None)
           generated_thread_id (rp_seq r))) = None"
proof -
  have "\<not> (\<lambda>i. thread r i \<noteq> None) (snd (fresh_id (length (rp_threads r)) (\<lambda>i. thread r i \<noteq> None)
           generated_thread_id (rp_seq r)))"
  proof (rule fresh_id_unused [where ids = "map fst (rp_threads r)"])
    show "\<And>s. thread r s \<noteq> None \<Longrightarrow> s \<in> set (map fst (rp_threads r))"
      by (auto simp: thread_def dest: map_of_SomeD intro: rev_image_eqI)
    show "a = b" if "0 \<le> a" "0 \<le> b" "generated_thread_id a = generated_thread_id b" for a b
      using that show_int_inj [of a b] by (simp add: generated_thread_id_def)
  qed (use assms in auto)
  then show ?thesis by simp
qed

lemma store_ok_seq: "store_ok r \<Longrightarrow> 0 \<le> n \<Longrightarrow> store_ok (r\<lparr>rp_seq := n\<rparr>)"
  by (simp add: store_ok_def stored_def)

text \<open>What a creation does when it succeeds, and that a failure changes no thread.\<close>

lemma createThread_cases:
  assumes ok: "store_ok r"
  obtains (created) r' m where "createThread clock r meta = (setThread (tm_ID m) m r', Inr m)"
      "store_ok r'" "rp_threads r' = rp_threads r" "thread r' (tm_ID m) = None"
      "ValidateThreadMetaAuthority m = None"
      "parent_of m = '''' \<or> thread r' (parent_of m) \<noteq> None"
      "tm_ID meta \<noteq> '''' \<longrightarrow> r' = r \<and> tm_ID m = tm_ID meta \<and> tombstone r (tm_ID m) = None"
    | (failed) r' e where "createThread clock r meta = (r', Inl e)" "store_ok r'"
      "rp_threads r' = rp_threads r"
proof -
  define gen where "gen = fresh_id (length (rp_threads r)) (\<lambda>i. thread r i \<noteq> None)
      generated_thread_id (rp_seq r)"
  define r' where "r' = (if tm_ID meta = '''' then r\<lparr>rp_seq := fst gen\<rparr> else r)"
  define m0 where "m0 = (if tm_ID meta = '''' then meta\<lparr>tm_ID := snd gen\<rparr> else meta)"
  have seq: "0 \<le> fst gen"
    using store_okD(5) [OF ok] fresh_id_seq [of "rp_seq r" "length (rp_threads r)"
        "\<lambda>i. thread r i \<noteq> None" generated_thread_id] unfolding gen_def by linarith
  have r': "store_ok r'" "rp_threads r' = rp_threads r" "thread r' = thread r" "tombstone r' = tombstone r"
    using ok seq store_ok_seq by (auto simp: r'_def thread_def tombstone_def fun_eq_iff)
  have c: "createThread clock r meta =
     (if tm_ID meta \<noteq> '''' \<and> thread r' (tm_ID m0) \<noteq> None then (r', Inl ErrThreadExists)
      else if tm_ID meta \<noteq> '''' \<and> tombstone r' (tm_ID m0) \<noteq> None then (r', Inl ErrThreadDeleted)
      else (case prepareNewThreadMeta clock m0 of
         Inl e \<Rightarrow> (r', Inl e)
       | Inr m \<Rightarrow>
           (case if parent_of m = '''' then None
                 else (case thread r' (parent_of m) of
                    None \<Rightarrow> Some ErrInvalidThreadAuthority
                  | Some parent \<Rightarrow> lifecycleRejectsWrite parent) of
              Some e \<Rightarrow> (r', Inl e)
            | None \<Rightarrow> (setThread (tm_ID m) m r', Inr m))))"
    unfolding createThread_def gen_def [symmetric] Let_def r'_def m0_def by (rule refl)
  show thesis
  proof (cases "createThread clock r meta")
    case (Pair r2 res)
    show thesis
    proof (cases res)
      case (Inl e)
      then have "r2 = r'" using Pair c by (auto split: if_splits sum.splits option.splits)
      with failed Pair Inl r' show thesis by simp
    next
      case (Inr m)
      with Pair c have p: "prepareNewThreadMeta clock m0 = Inr m" "r2 = setThread (tm_ID m) m r'"
        "tm_ID meta \<noteq> '''' \<Longrightarrow> thread r' (tm_ID m0) = None \<and> tombstone r' (tm_ID m0) = None"
        "parent_of m = '''' \<or> thread r' (parent_of m) \<noteq> None"
        by (auto split: if_splits sum.splits option.splits)
      note q = prepareNewThreadMeta_ok [OF p(1)]
      have "thread r' (tm_ID m) = None"
        using p(3) q generated_unused [OF store_okD(5) [OF ok]] r'(3)
        by (cases "tm_ID meta = ''''") (auto simp: m0_def gen_def)
      with created Pair Inr p q r' show thesis by (auto simp: m0_def r'_def)
    qed
  qed
qed

lemma createThread_store_ok:
  assumes "store_ok r"
  shows "store_ok (fst (createThread clock r meta))"
proof (cases rule: createThread_cases [OF assms, of clock meta])
  case (1 r' m)
  from store_ok_add [OF 1(2,4) refl 1(5,6)] 1(1) show ?thesis by simp
next
  case (2 r' e)
  then show ?thesis by simp
qed

lemma UpdatedAt_irrelevant:
  "ValidateThreadTitleState (m\<lparr>tm_UpdatedAt := t\<rparr>) = ValidateThreadTitleState m"
  "normalizeThreadLifecycle (m\<lparr>tm_UpdatedAt := t\<rparr>) = normalizeThreadLifecycle m"
  "parent_of (m\<lparr>tm_UpdatedAt := t\<rparr>) = parent_of m"
  "ValidateThreadMetaAuthority (m\<lparr>tm_UpdatedAt := t\<rparr>) = ValidateThreadMetaAuthority m"
proof -
  show t: "ValidateThreadTitleState (m\<lparr>tm_UpdatedAt := t\<rparr>) = ValidateThreadTitleState m"
    by (cases "tm_TitleStatus m"; cases "tm_TitleSource m")
      (simp_all add: ValidateThreadTitleState_def title_token_ok_def title_projection_of_def)
  show l: "normalizeThreadLifecycle (m\<lparr>tm_UpdatedAt := t\<rparr>) = normalizeThreadLifecycle m"
    by (simp add: normalizeThreadLifecycle_def)
  show p: "parent_of (m\<lparr>tm_UpdatedAt := t\<rparr>) = parent_of m" by (simp add: parent_of_def)
  show "ValidateThreadMetaAuthority (m\<lparr>tm_UpdatedAt := t\<rparr>) = ValidateThreadMetaAuthority m"
    unfolding ValidateThreadMetaAuthority_def t l p by (simp cong: sum.case_cong if_cong)
qed

lemma UpdateThread_store_ok:
  assumes "store_ok r"
  shows "store_ok (fst (UpdateThread clock r meta))"
proof -
  have "store_ok (setThread (tm_ID meta) (meta\<lparr>tm_UpdatedAt := t\<rparr>) r)"
    if "thread r (tm_ID meta) = Some m" "ValidateThreadMetaAuthority meta = None"
      "SameThreadAuthority m meta" for m t
    using that store_ok_replace [OF assms that(1), of "meta\<lparr>tm_UpdatedAt := t\<rparr>"]
    by (auto simp: UpdatedAt_irrelevant SameThreadAuthority_def parent_of_def)
  note replaced = this
  have "store_ok (setThread (tm_ID meta) meta r)"
    if "thread r (tm_ID meta) = Some m" "ValidateThreadMetaAuthority meta = None"
      "SameThreadAuthority m meta" for m
    using replaced [OF that, of "tm_UpdatedAt meta"] by simp
  with assms replaced show ?thesis by (auto simp: UpdateThread_def split: option.splits)
qed

lemma title_transition_frame:
  "title_transition q m = Inr (m', c) \<Longrightarrow>
    tm_ID m' = tm_ID m \<and> parent_of m' = parent_of m \<and> tm_Lifecycle m' = tm_Lifecycle m
    \<and> tm_TaskName m' = tm_TaskName m \<and> tm_HostProfileRef m' = tm_HostProfileRef m
    \<and> tm_ParentTurnID m' = tm_ParentTurnID m \<and> tm_TaskDescription m' = tm_TaskDescription m
    \<and> tm_AgentPath m' = tm_AgentPath m \<and> tm_ForkMode m' = tm_ForkMode m"
  by (cases q; cases "tm_TitleStatus m")
    (auto simp: title_transition_defs Let_def parent_of_def split: if_splits)

lemma titleOperation_store_ok:
  assumes ok: "store_ok r"
  shows "store_ok (fst (titleOperation r q))"
proof -
  have "store_ok (setThread t m' r)"
    if t: "thread r t = Some m" "guarded_update ValidateThreadTitleState ErrAuthorityCorrupt
        (title_transition q) m = Inr (m', True)" for t m m'
  proof -
    have u: "ValidateThreadTitleState m'" "title_transition q m = Inr (m', True)"
      using t(2) by (simp_all add: guarded_update_changed)
    note f = title_transition_frame [OF u(2)]
    have "m \<in> set (stored r)" "tm_ID m = t" using t(1) keyed_thread [OF store_okD(1) [OF ok]] by auto
    then have "ValidateThreadMetaAuthority m = None" using store_okD(3) [OF ok] by blast
    then have "ValidateThreadMetaAuthority m' = None"
      using f u(1) by (simp add: ValidateThreadMetaAuthority_def normalizeThreadLifecycle_def split: if_splits)
    with f \<open>tm_ID m = t\<close> show ?thesis by (intro store_ok_replace [OF ok t(1)]) auto
  qed
  with ok show ?thesis
    by (auto simp: titleOperation_def mutateThreadTitle_def split: option.splits sum.splits)
qed

section \<open>Deleting a tree\<close>

definition meta_of :: "repo \<Rightarrow> string \<Rightarrow> thread_meta" where
  "meta_of r t = (case thread r t of None \<Rightarrow> zero_meta | Some m \<Rightarrow> m)"

lemma delete_one_fields:
  "thread (delete_one root key fp now t r) i = (if i = t then None else thread r i)"
  "tombstone (delete_one root key fp now t r) i
     = (if i = t then Some (tombstone_for root key fp now t (meta_of r t)) else tombstone r i)"
  "rp_journal (delete_one root key fp now t r) i = (if i = t then empty_journal else rp_journal r i)"
  "rp_todos (delete_one root key fp now t r) i = (if i = t then None else rp_todos r i)"
  "rp_providerStates (delete_one root key fp now t r) i = (if i = t then None else rp_providerStates r i)"
  "rp_artifacts (delete_one root key fp now t r) k
     = (case rp_artifacts r k of None \<Rightarrow> None | Some a \<Rightarrow> if arr_ThreadID a = t then None else Some a)"
  "rp_seq (delete_one root key fp now t r) = rp_seq r"
  by (simp_all add: delete_one_def Let_def repo_simps meta_of_def)
    (simp_all add: deleteThreadArtifacts_def deleteProviderState_def deleteTodo_def
      deleteIndexedEntries_def setJournal_def deleteThread_def setTombstone_def)

lemma keyed_delete_one: "keyed r \<Longrightarrow> keyed (delete_one root key fp now t r)"
  by (simp add: delete_one_def Let_def keyed_deleteThread keyed_setTombstone tombstone_for_def)

lemma delete_all_fields:
  assumes "distinct ids"
  shows "thread (fold (delete_one root key fp now) ids r) i = (if i \<in> set ids then None else thread r i)"
    "tombstone (fold (delete_one root key fp now) ids r) i
       = (if i \<in> set ids then Some (tombstone_for root key fp now i (meta_of r i)) else tombstone r i)"
    "rp_journal (fold (delete_one root key fp now) ids r) i
       = (if i \<in> set ids then empty_journal else rp_journal r i)"
    "rp_todos (fold (delete_one root key fp now) ids r) i = (if i \<in> set ids then None else rp_todos r i)"
    "rp_providerStates (fold (delete_one root key fp now) ids r) i
       = (if i \<in> set ids then None else rp_providerStates r i)"
    "rp_artifacts (fold (delete_one root key fp now) ids r) k
       = (case rp_artifacts r k of None \<Rightarrow> None
          | Some a \<Rightarrow> if arr_ThreadID a \<in> set ids then None else Some a)"
    "rp_seq (fold (delete_one root key fp now) ids r) = rp_seq r"
  using assms
  by (induction ids arbitrary: r)
    (auto simp: delete_one_fields meta_of_def split: option.splits)

lemma keyed_delete_all: "keyed r \<Longrightarrow> keyed (fold (delete_one root key fp now) ids r)"
  by (induction ids arbitrary: r) (auto simp: keyed_delete_one)

lemma owned_live:
  assumes "keyed r" "thread r root \<noteq> None" "owned (stored r) root i"
  shows "thread r i \<noteq> None"
  using assms(3) assms(1,2) keyed_thread [OF assms(1)]
  by (cases rule: owned.cases) auto

lemma tree_of_live:
  assumes ok: "store_ok r" and live: "thread r root \<noteq> None"
  obtains ids where "threadTreeIDs r root = Inr (root # ids)" "distinct (root # ids)"
    "set (root # ids) = {i. owned (stored r) root i}"
proof -
  obtain m where "m \<in> set (stored r)" "tm_ID m = root"
    using live keyed_thread [OF store_okD(1) [OF ok]] by auto
  then obtain n where "thread_depth (stored r) root n" using store_okD(4) [OF ok] by blast
  from walk_tree_complete [OF store_okD(2) [OF ok] this, of "length (stored r)"] obtain ids where
    "walk_tree (length (stored r)) (stored r) root = Some (root # ids)" "distinct (root # ids)"
    "set (root # ids) = {i. owned (stored r) root i}" by auto
  with that [of ids] ok live show thesis
    by (simp add: threadTreeIDs_def Let_def store_ok_def stored_def)
qed

lemma remaining_store_ok:
  assumes ok: "store_ok r" and d: "distinct ids"
    and owns: "set ids = {i. owned (stored r) root i}"
  shows "store_ok (fold (delete_one root key fp now) ids r)"
proof (rule store_okI)
  let ?r = "fold (delete_one root key fp now) ids r"
  note o = store_okD [OF ok]
  show k: "keyed ?r" using o(1) by (rule keyed_delete_all)
  show "0 \<le> rp_seq ?r" using o(5) by (simp add: delete_all_fields(7) [OF d])
  have mem: "x \<in> set (stored ?r) \<longleftrightarrow> x \<in> set (stored r) \<and> tm_ID x \<notin> set ids" for x
    using keyed_thread [OF k, of "tm_ID x" x] keyed_thread [OF o(1), of "tm_ID x" x]
    by (cases "tm_ID x \<in> set ids") (auto simp: delete_all_fields(1) [OF d])
  show "ValidateThreadMetaAuthority x = None" if "x \<in> set (stored ?r)" for x
    using that mem o(3) by blast
  have step: "thread_depth (stored r) i n \<Longrightarrow> i \<notin> set ids \<Longrightarrow> thread_depth (stored ?r) i n" for i n
  proof (rule thread_depth_map [where P = "\<lambda>i. i \<notin> set ids"])
    fix m assume m: "m \<in> set (stored r)" "tm_ID m \<notin> set ids"
    then have "parent_of m \<noteq> '''' \<Longrightarrow> parent_of m \<notin> set ids" using owns owned_child by blast
    with m mem show "\<exists>m' \<in> set (stored ?r). tm_ID m' = tm_ID m \<and> parent_of m' = parent_of m
        \<and> (parent_of m \<noteq> '''' \<longrightarrow> parent_of m \<notin> set ids)" by blast
  qed
  show "\<exists>n. thread_depth (stored ?r) (tm_ID x) n" if "x \<in> set (stored ?r)" for x
    using that mem o(4) step by blast
qed

text \<open>The three outcomes of a deletion.\<close>

lemma delete_live_exact:
  assumes ok: "store_ok r" and live: "thread r root \<noteq> None"
  obtains ids where "distinct (root # ids)" "set (root # ids) = {i. owned (stored r) root i}"
    "delete_live now r root key fp = (fold (delete_one root key fp now) (root # ids) r,
       Inr \<lparr>dr_ThreadIDs = root # ids, dr_Replayed = False\<rparr>)"
proof -
  from tree_of_live [OF ok live] obtain ids where ids: "threadTreeIDs r root = Inr (root # ids)"
    "distinct (root # ids)" "set (root # ids) = {i. owned (stored r) root i}" .
  then have "\<not> list_ex (\<lambda>t. thread r t = None) (root # ids)"
    using owned_live [OF store_okD(1) [OF ok] live] by (auto simp: list_ex_iff)
  with ids live that [OF ids(2,3)] show thesis by (simp add: delete_live_def)
qed

lemma deleteRootTree_store_ok:
  assumes ok: "store_ok r"
  shows "store_ok (fst (deleteRootTree now r root key fp))"
proof -
  have "store_ok (fst (delete_live now r t key fp))" for t
  proof (cases "thread r t")
    case (Some m)
    from delete_live_exact [OF ok, of t now key fp] Some obtain ids where
      "distinct (t # ids)" "set (t # ids) = {i. owned (stored r) t i}"
      "fst (delete_live now r t key fp) = fold (delete_one t key fp now) (t # ids) r"
      by (metis fst_conv option.distinct(1))
    then show ?thesis using remaining_store_ok [OF ok] by metis
  qed (use ok in \<open>simp add: delete_live_def\<close>)
  with ok show ?thesis by (simp add: deleteRootTree_def Let_def split: option.splits)
qed

section \<open>Every sequence of operations\<close>

datatype store_op =
    CreateOp go_time thread_meta
  | UpdateOp go_time thread_meta
  | TitleOp title_request
  | DeleteOp go_time string string string

fun store_step :: "store_op \<Rightarrow> repo \<Rightarrow> repo" where
  "store_step (CreateOp clock m) r = fst (createThread clock r m)"
| "store_step (UpdateOp clock m) r = fst (UpdateThread clock r m)"
| "store_step (TitleOp q) r = fst (titleOperation r q)"
| "store_step (DeleteOp clock root key fp) r = fst (DeleteRootTreeWithRequest clock r root key fp)"

lemma store_step_ok: "store_ok r \<Longrightarrow> store_ok (store_step op r)"
  by (cases op) (auto simp: createThread_store_ok UpdateThread_store_ok titleOperation_store_ok
      DeleteRootTreeWithRequest_def Let_def deleteRootTree_store_ok)

lemma new_store_ok: "store_ok newMemoryRepo"
  by (simp add: store_ok_def newMemoryRepo_def keyed_def stored_def ValidateThreadAuthorityGraph_def)

text \<open>
  C13: From an empty repository, every sequence of thread creations, metadata updates, title
  operations and tree deletions, whatever their arguments and whichever of them fail, leaves the
  stored threads keyed by their IDs and passing the ownership validation: no operation can
  store an invalid thread, orphan a child or close a cycle.
\<close>

theorem store_invariant:
  "keyed (fold store_step ops newMemoryRepo)
   \<and> ValidateThreadAuthorityGraph (map snd (rp_threads (fold store_step ops newMemoryRepo))) = None"
proof -
  have "store_ok r \<Longrightarrow> store_ok (fold store_step ops r)" for r
    by (induction ops arbitrary: r) (auto intro: store_step_ok)
  from this [OF new_store_ok] show ?thesis by (simp add: store_ok_def stored_def)
qed

text \<open>
  C14: Deleting a tree deletes exactly the threads owned by its root, leaves a tombstone with the
  provenance of each, drops their journals, todos, provider states and artifacts, and touches no
  other thread, tombstone, journal, todo list or provider state.
\<close>

theorem delete_tree_exact:
  assumes "store_ok r" "thread r root \<noteq> None" "tombstone r root = None"
    "trim_space root = root" "root \<noteq> ''''"
  shows "\<exists>ids r'. deleteRootTree now r root key fp = (r', Inr \<lparr>dr_ThreadIDs = ids, dr_Replayed = False\<rparr>)
    \<and> distinct ids \<and> set ids = {i. owned (map snd (rp_threads r)) root i}
    \<and> (\<forall>i. thread r' i = (if i \<in> set ids then None else thread r i)
         \<and> tombstone r' i = (if i \<in> set ids then Some (tombstone_for root key fp now i (meta_of r i))
                             else tombstone r i)
         \<and> rp_journal r' i = (if i \<in> set ids then empty_journal else rp_journal r i)
         \<and> rp_todos r' i = (if i \<in> set ids then None else rp_todos r i)
         \<and> rp_providerStates r' i = (if i \<in> set ids then None else rp_providerStates r i)
         \<and> rp_artifacts r' i = (case rp_artifacts r i of None \<Rightarrow> None
             | Some a \<Rightarrow> if arr_ThreadID a \<in> set ids then None else Some a))"
proof -
  from delete_live_exact [OF assms(1,2), of now key fp] obtain ids where ids:
    "distinct (root # ids)" "set (root # ids) = {i. owned (stored r) root i}"
    "delete_live now r root key fp = (fold (delete_one root key fp now) (root # ids) r,
       Inr \<lparr>dr_ThreadIDs = root # ids, dr_Replayed = False\<rparr>)" .
  have "deleteRootTree now r root key fp = (fold (delete_one root key fp now) (root # ids) r,
       Inr \<lparr>dr_ThreadIDs = root # ids, dr_Replayed = False\<rparr>)"
    using assms(3-5) ids(3) by (simp add: deleteRootTree_def)
  moreover note f = delete_all_fields(1-6) [OF ids(1), of root key fp now r]
  ultimately show ?thesis
    using ids(1,2) [unfolded stored_def]
    by (intro exI [of _ "root # ids"] exI [of _ "fold (delete_one root key fp now) (root # ids) r"])
      (simp only: f simp_thms)
qed

definition delete_example :: repo where
  "delete_example = fold store_step
    [CreateOp 5 (zero_meta\<lparr>tm_ID := ''root'', tm_OriginRequestKey := ''k1'', tm_OriginFingerprint := ''f1''\<rparr>),
     CreateOp 6 (zero_meta\<lparr>tm_ID := ''kid'', tm_ParentThreadID := ''root'', tm_TaskName := ''job'',
                          tm_HostProfileRef := ''h''\<rparr>),
     CreateOp 7 (zero_meta\<lparr>tm_ID := ''other''\<rparr>)] newMemoryRepo"

lemma delete_example_ok: "store_ok delete_example"
  by code_simp

theorem delete_tree_exact_witness:
  "snd (deleteRootTree 9 delete_example ''root'' ''d'' ''f'')
     = Inr \<lparr>dr_ThreadIDs = [''root'', ''kid''], dr_Replayed = False\<rparr>
   \<and> thread (fst (deleteRootTree 9 delete_example ''root'' ''d'' ''f'')) ''kid'' = None"
proof -
  have "thread delete_example ''root'' \<noteq> None" "tombstone delete_example ''root'' = None"
    "trim_space ''root'' = ''root''" by code_simp+
  with delete_tree_exact [OF delete_example_ok, of "''root''" 9 "''d''" "''f''"] obtain ids r' where
    d: "deleteRootTree 9 delete_example ''root'' ''d'' ''f''
          = (r', Inr \<lparr>dr_ThreadIDs = ids, dr_Replayed = False\<rparr>)"
    "\<forall>i. thread r' i = (if i \<in> set ids then None else thread delete_example i)" by auto
  have "snd (deleteRootTree 9 delete_example ''root'' ''d'' ''f'')
     = Inr \<lparr>dr_ThreadIDs = [''root'', ''kid''], dr_Replayed = False\<rparr>" by code_simp
  with d show ?thesis by simp
qed

lemma delete_replayed:
  fixes now :: go_time and key fp :: string
  assumes k: "keyed r" and d: "distinct ids" "root \<in> set ids" and t: "trim_space root = root" "root \<noteq> ''''"
    and fresh: "\<And>i t. tombstone r i = Some t \<Longrightarrow> ts_RootThreadID t \<noteq> root"
  defines "r' \<equiv> fold (delete_one root key fp now) ids r"
  shows "deleteRootTree now' r' root key fp = (r', Inr \<lparr>dr_ThreadIDs = sort ids, dr_Replayed = True\<rparr>)"
proof -
  note f = delete_all_fields(2) [OF d(1), of root key fp now r, folded r'_def]
  have k': "distinct (map fst (rp_tombstones r'))"
    using keyed_delete_all [OF k] by (simp add: r'_def keyed_def)
  have "fst ` {kt \<in> set (rp_tombstones r'). ts_RootThreadID (snd kt) = root} = set ids"
  proof (intro equalityI subsetI)
    fix i assume "i \<in> fst ` {kt \<in> set (rp_tombstones r'). ts_RootThreadID (snd kt) = root}"
    then obtain s where "tombstone r' i = Some s" "ts_RootThreadID s = root"
      using k' by (auto simp: tombstone_def)
    with f fresh show "i \<in> set ids" by (metis option.distinct(1))
  next
    fix i assume "i \<in> set ids"
    then have "tombstone r' i = Some (tombstone_for root key fp now i (meta_of r i))" using f by simp
    then show "i \<in> fst ` {kt \<in> set (rp_tombstones r'). ts_RootThreadID (snd kt) = root}"
      by (force simp: tombstone_def tombstone_for_def dest: map_of_SomeD)
  qed
  then have "set (deleted_under r' root) = set (sort ids)" by (simp add: deleted_under_def)
  moreover have "distinct (deleted_under r' root)"
    using k' by (simp add: deleted_under_def distinct_map_filter)
  ultimately have "deleted_under r' root = sort ids"
    using d(1) by (intro sorted_distinct_set_unique) (simp_all add: deleted_under_def)
  then show ?thesis
    using f [of root] d(2) t by (simp add: deleteRootTree_def tombstone_for_def)
qed

text \<open>
  C31: After the first deletion of a live tree in a sound store, whose root has a name without surrounding space that
  no earlier deletion used, a repeated request is idempotent and final: it changes nothing and reports the same
  threads (sorted), a request with another key or fingerprint is refused, and no deleted identity
  can be created, updated or titled again by a request that names it. (A name the store generates itself is
  another matter: \<open>generated_id_revives_deleted\<close>.)
\<close>

theorem delete_idempotent:
  assumes ok: "store_ok r" and live: "thread r root \<noteq> None" and dead: "tombstone r root = None"
    and t: "trim_space root = root" "root \<noteq> ''''"
    and fresh: "\<forall>i t. tombstone r i = Some t \<longrightarrow> ts_RootThreadID t \<noteq> root"
    and del: "deleteRootTree now r root key fp = (r', Inr res)"
  shows "deleteRootTree now' r' root key fp
      = (r', Inr \<lparr>dr_ThreadIDs = sort (dr_ThreadIDs res), dr_Replayed = True\<rparr>)
    \<and> (key' \<noteq> '''' \<and> (key', fp') \<noteq> (key, fp) \<longrightarrow>
         deleteRootTree now' r' root key' fp' = (r', Inl ErrRequestConflict))
    \<and> (\<forall>m. tm_ID m \<in> set (dr_ThreadIDs res) \<and> tm_ID m \<noteq> '''' \<longrightarrow>
         createThread now' r' m = (r', Inl ErrThreadDeleted)
       \<and> UpdateThread now' r' m = (r', Some ErrThreadNotFound)
       \<and> mutateThreadTitle r' (tm_ID m) mutate = (r', Inl ErrThreadDeleted))"
proof -
  from delete_live_exact [OF ok live, of now key fp] obtain ids where ids:
    "distinct (root # ids)"
    "delete_live now r root key fp = (fold (delete_one root key fp now) (root # ids) r,
       Inr \<lparr>dr_ThreadIDs = root # ids, dr_Replayed = False\<rparr>)" .
  with del dead t have r': "r' = fold (delete_one root key fp now) (root # ids) r"
    and res: "dr_ThreadIDs res = root # ids" by (auto simp: deleteRootTree_def)
  note f = delete_all_fields(1,2) [OF ids(1), of root key fp now r, folded r']
  have "deleteRootTree now' r' root key fp
      = (r', Inr \<lparr>dr_ThreadIDs = sort (root # ids), dr_Replayed = True\<rparr>)"
    unfolding r' by (rule delete_replayed [OF store_okD(1) [OF ok] ids(1) _ t]) (use fresh in auto)
  moreover have "deleteRootTree now' r' root key' fp' = (r', Inl ErrRequestConflict)"
    if "key' \<noteq> ''''" "(key', fp') \<noteq> (key, fp)"
    using that f(2) [of root] t by (auto simp: deleteRootTree_def tombstone_for_def)
  ultimately show ?thesis
    using f res by (auto simp: createThread_def Let_def UpdateThread_def mutateThreadTitle_def)
qed

theorem delete_idempotent_witness:
  "deleteRootTree 11 (fst (deleteRootTree 9 delete_example ''root'' ''d'' ''f'')) ''root'' ''d'' ''f''
     = (fst (deleteRootTree 9 delete_example ''root'' ''d'' ''f''),
        Inr \<lparr>dr_ThreadIDs = [''kid'', ''root''], dr_Replayed = True\<rparr>)"
proof -
  have "thread delete_example ''root'' \<noteq> None" "tombstone delete_example ''root'' = None"
    "trim_space ''root'' = ''root''" "rp_tombstones delete_example = []" by code_simp+
  moreover have "snd (deleteRootTree 9 delete_example ''root'' ''d'' ''f'')
     = Inr \<lparr>dr_ThreadIDs = [''root'', ''kid''], dr_Replayed = False\<rparr>" by code_simp
  moreover have "sort [''root'', ''kid''] = [''kid'', ''root'']" by code_simp
  ultimately show ?thesis
    using delete_idempotent [OF delete_example_ok, of "''root''" 9 "''d''" "''f''"
        "fst (deleteRootTree 9 delete_example ''root'' ''d'' ''f'')"
        "\<lparr>dr_ThreadIDs = [''root'', ''kid''], dr_Replayed = False\<rparr>" 11]
    by (simp add: tombstone_def prod_eq_iff)
qed

text \<open>
  Only a named identity is protected: the loop that generates one looks at live threads, not at
  tombstones, so a generated identity can be one that was deleted.
\<close>

lemma generated_id_revives_deleted:
  "let r = fold store_step
       [CreateOp 1 (zero_meta\<lparr>tm_ID := ''thread-1''\<rparr>), DeleteOp 2 ''thread-1'' ''k'' ''f'',
        CreateOp 3 zero_meta] newMemoryRepo
   in thread r ''thread-1'' \<noteq> None \<and> tombstone r ''thread-1'' \<noteq> None"
  by code_simp

section \<open>Provenance\<close>

definition origins :: "repo \<Rightarrow> string \<Rightarrow> thread_origin list" where
  "origins r key =
     map OriginThread (filter (\<lambda>m. tm_OriginRequestKey m = key) (map snd (rp_threads r)))
     @ map OriginTombstone (filter (\<lambda>t. ts_OriginRequestKey t = key) (map snd (rp_tombstones r)))"

lemma origin_scan_Some: "origin_scan (Some x) xs = (if xs = [] then Inr (Some x) else Inl ErrAuthorityCorrupt)"
  by (cases xs) auto

lemma ThreadOrigin_iff:
  "ThreadOrigin r key = Inr g \<longleftrightarrow> \<not> blank key \<and> origins r (trim_space key) = [g]"
proof (cases "origins r (trim_space key)")
  case Nil
  then show ?thesis by (simp add: ThreadOrigin_def Let_def origins_def [symmetric])
next
  case (Cons x xs)
  then show ?thesis
    by (auto simp: ThreadOrigin_def Let_def origins_def [symmetric] origin_scan_Some blank_def)
qed

lemma filter_single:
  "distinct xs \<Longrightarrow> v \<in> set xs \<Longrightarrow> (\<And>x. x \<in> set xs \<Longrightarrow> P x \<longleftrightarrow> x = v) \<Longrightarrow> filter P xs = [v]"
proof (induction xs)
  case (Cons a xs)
  show ?case
  proof (cases "a = v")
    case True
    then have "filter P xs = []" using Cons.prems by (auto simp: filter_empty_conv)
    with True Cons.prems show ?thesis by simp
  next
    case False
    with Cons show ?thesis by auto
  qed
qed simp

lemma keyed_tombstone:
  assumes "keyed r"
  shows "tombstone r i = Some t \<longleftrightarrow> t \<in> set (map snd (rp_tombstones r)) \<and> ts_ThreadID t = i"
    and "distinct (map snd (rp_tombstones r))"
proof -
  have "tombstone r i = Some t \<longleftrightarrow> (i, t) \<in> set (rp_tombstones r)"
    using assms by (simp add: tombstone_def keyed_def)
  also have "\<dots> \<longleftrightarrow> t \<in> set (map snd (rp_tombstones r)) \<and> ts_ThreadID t = i"
    using assms by (force simp: keyed_def)
  finally show "tombstone r i = Some t \<longleftrightarrow> t \<in> set (map snd (rp_tombstones r)) \<and> ts_ThreadID t = i" .
  have "map ts_ThreadID (map snd (rp_tombstones r)) = map fst (rp_tombstones r)"
    using assms by (auto simp: keyed_def)
  then show "distinct (map snd (rp_tombstones r))"
    using assms by (metis distinct_map keyed_def)
qed

text \<open>
  C32: Provenance survives deletion: if a request key identifies a live thread of the deleted tree,
  then after the deletion the same key identifies that thread's tombstone, with its
  fingerprint, so a repeated create request is recognised instead of recreating the thread.
\<close>

theorem origin_survives_delete:
  assumes ok: "store_ok r" and live: "thread r root \<noteq> None" and dead: "tombstone r root = None"
    and t: "trim_space root = root" "root \<noteq> ''''"
    and del: "deleteRootTree now r root key fp = (r', Inr res)"
    and origin: "ThreadOrigin r origin = Inr (OriginThread m)" "tm_ID m \<in> set (dr_ThreadIDs res)"
  shows "ThreadOrigin r' origin
      = Inr (OriginTombstone (tombstone_for root key fp now (tm_ID m) m))"
proof -
  from delete_live_exact [OF ok live, of now key fp] obtain ids where ids:
    "distinct (root # ids)"
    "delete_live now r root key fp = (fold (delete_one root key fp now) (root # ids) r,
       Inr \<lparr>dr_ThreadIDs = root # ids, dr_Replayed = False\<rparr>)"
    and owns: "set (root # ids) = {i. owned (stored r) root i}" .
  with del dead t have r': "r' = fold (delete_one root key fp now) (root # ids) r"
    and res: "dr_ThreadIDs res = root # ids" by (auto simp: deleteRootTree_def)
  note f = delete_all_fields(1,2) [OF ids(1), of root key fp now r, folded r']
  note k = store_okD(1) [OF ok]
  have k': "keyed r'" unfolding r' using k by (rule keyed_delete_all)
  let ?key = "trim_space origin" and ?t = "tombstone_for root key fp now (tm_ID m) m"
  have o: "\<not> blank origin" "map OriginThread (filter (\<lambda>m. tm_OriginRequestKey m = ?key) (stored r))
     @ map OriginTombstone (filter (\<lambda>t. ts_OriginRequestKey t = ?key) (map snd (rp_tombstones r)))
     = [OriginThread m]"
    using origin(1) by (auto simp: ThreadOrigin_iff origins_def stored_def)
  then have fm: "filter (\<lambda>m. tm_OriginRequestKey m = ?key) (stored r) = [m]"
    and ft: "filter (\<lambda>t. ts_OriginRequestKey t = ?key) (map snd (rp_tombstones r)) = []"
    by (auto simp: append_eq_Cons_conv)
  have sm: "{x \<in> set (stored r). tm_OriginRequestKey x = ?key} = {m}"
    using arg_cong [OF fm, of set] by simp
  then have only: "tm_OriginRequestKey x = ?key \<longleftrightarrow> x = m" if "x \<in> set (stored r)" for x
    using that by auto
  have m: "m \<in> set (stored r)" using sm by auto
  then have mm: "thread r (tm_ID m) = Some m" by (simp add: keyed_thread [OF k])
  have none: "filter (\<lambda>m. tm_OriginRequestKey m = ?key) (stored r') = []"
  proof -
    have "tm_OriginRequestKey x \<noteq> ?key" if "x \<in> set (stored r')" for x
    proof -
      have "thread r' (tm_ID x) = Some x" using that keyed_thread [OF k'] by blast
      then have "tm_ID x \<notin> set (root # ids)" "thread r (tm_ID x) = Some x"
        using f(1) [of "tm_ID x"] by (metis option.distinct(1))+
      then show ?thesis using origin(2) res only keyed_thread [OF k] by metis
    qed
    then show ?thesis by (simp add: filter_empty_conv)
  qed
  have key: "ts_OriginRequestKey x = ?key \<longleftrightarrow> x = ?t" if "x \<in> set (map snd (rp_tombstones r'))" for x
  proof -
    have x: "tombstone r' (ts_ThreadID x) = Some x" using that keyed_tombstone(1) [OF k'] by blast
    show ?thesis
    proof (cases "ts_ThreadID x \<in> set (root # ids)")
      case False
      then have "tombstone r (ts_ThreadID x) = Some x" using x f(2) by simp
      then have "ts_OriginRequestKey x \<noteq> ?key"
        using ft keyed_tombstone(1) [OF k] by (auto simp: filter_empty_conv)
      moreover have "x \<noteq> ?t" using False origin(2) res by (auto simp: tombstone_for_def)
      ultimately show ?thesis by blast
    next
      case True
      then have "owned (stored r) root (ts_ThreadID x)" using owns by blast
      then obtain y where y: "thread r (ts_ThreadID x) = Some y"
        using owned_live [OF k live] by blast
      then have xt: "x = tombstone_for root key fp now (ts_ThreadID x) y"
        using x f(2) True by (simp add: meta_of_def)
      have ty: "tm_ID y = ts_ThreadID x" "y \<in> set (stored r)" using y keyed_thread [OF k] by auto
      have "ts_OriginRequestKey x = tm_OriginRequestKey y"
        by (subst xt) (simp add: tombstone_for_def)
      moreover have "y = m \<longleftrightarrow> x = ?t"
      proof
        assume "x = ?t"
        then have "ts_ThreadID x = tm_ID m" by (simp add: tombstone_for_def)
        with mm y show "y = m" by simp
      qed (use xt ty(1) in simp)
      ultimately show ?thesis using only [OF ty(2)] by simp
    qed
  qed
  have "tombstone r' (tm_ID m) = Some ?t" using f(2) origin(2) res mm by (simp add: meta_of_def)
  then have "?t \<in> set (map snd (rp_tombstones r'))" using keyed_tombstone(1) [OF k'] by blast
  with key have "filter (\<lambda>t. ts_OriginRequestKey t = ?key) (map snd (rp_tombstones r')) = [?t]"
    by (intro filter_single [OF keyed_tombstone(2) [OF k']]) auto
  with none o(1) show ?thesis
    by (simp add: ThreadOrigin_iff origins_def stored_def)
qed

theorem origin_survives_delete_witness:
  "ThreadOrigin delete_example '' k1'' = Inr (OriginThread (meta_of delete_example ''root''))
   \<and> ThreadOrigin (fst (deleteRootTree 9 delete_example ''root'' ''d'' ''f'')) '' k1''
      = Inr (OriginTombstone (tombstone_for ''root'' ''d'' ''f'' 9 ''root'' (meta_of delete_example ''root'')))"
proof -
  have a: "thread delete_example ''root'' \<noteq> None" "tombstone delete_example ''root'' = None"
    "trim_space ''root'' = ''root''" "tm_ID (meta_of delete_example ''root'') = ''root''" by code_simp+
  have d: "snd (deleteRootTree 9 delete_example ''root'' ''d'' ''f'')
     = Inr \<lparr>dr_ThreadIDs = [''root'', ''kid''], dr_Replayed = False\<rparr>" by code_simp
  have o: "ThreadOrigin delete_example '' k1'' = Inr (OriginThread (meta_of delete_example ''root''))"
    by code_simp
  from origin_survives_delete [OF delete_example_ok a(1,2,3) _ _ o, of 9 "''d''" "''f''"
      "fst (deleteRootTree 9 delete_example ''root'' ''d'' ''f'')"
      "\<lparr>dr_ThreadIDs = [''root'', ''kid''], dr_Replayed = False\<rparr>"] a(4) d o
  show ?thesis by (simp add: prod_eq_iff)
qed

section \<open>Listing in pages\<close>

definition listed :: "list_options \<Rightarrow> thread_meta \<Rightarrow> bool" where
  "listed opts m \<longleftrightarrow> \<not> (tm_Archived m \<and> \<not> lo_IncludeArchived opts)
     \<and> \<not> (lo_RootOnly opts \<and> parent_of m \<noteq> '''')"

lemma list_loop_filter:
  "0 < lo_Limit opts \<Longrightarrow> n < lo_Limit opts \<Longrightarrow>
    list_loop opts n ms
      = take (nat (lo_Limit opts - n)) (filter (\<lambda>m. listed opts m \<and> threadAfterListCursor m opts) ms)"
proof (induction ms arbitrary: n)
  case (Cons m ms)
  have "nat (lo_Limit opts - n) = Suc (nat (lo_Limit opts - (n + 1)))" using Cons.prems by simp
  then show ?case
    using Cons.IH [of n] Cons.IH [of "n + 1"] Cons.prems by (auto simp: listed_def)
qed simp

lemma list_loop_all:
  "lo_Limit opts \<le> 0 \<Longrightarrow>
    list_loop opts n ms = filter (\<lambda>m. listed opts m \<and> threadAfterListCursor m opts) ms"
  by (induction ms arbitrary: n) (auto simp: listed_def)

text \<open>A client that follows the cursor until a page comes back empty.\<close>

fun follow_list :: "nat \<Rightarrow> thread_meta list \<Rightarrow> list_options \<Rightarrow> thread_meta list" where
  "follow_list 0 ts opts = []"
| "follow_list (Suc n) ts opts =
    (let page = ApplyThreadListOptions ts opts in
     if page = [] then []
     else page @ follow_list n ts (opts\<lparr>lo_AfterCreatedAt := tm_CreatedAt (last page),
                                       lo_AfterID := tm_ID (last page)\<rparr>))"

definition listable :: "thread_meta list \<Rightarrow> bool" where
  "listable ts \<longleftrightarrow> distinct (map tm_ID ts)
     \<and> (\<forall>m \<in> set ts. \<not> zero_time (tm_CreatedAt m) \<and> trim_space (tm_ID m) = tm_ID m \<and> tm_ID m \<noteq> '''')"

lemma after_cursor:
  assumes "\<not> zero_time (tm_CreatedAt x)" "trim_space (tm_ID x) = tm_ID x" "tm_ID x \<noteq> ''''"
  shows "threadAfterListCursor m (opts\<lparr>lo_AfterCreatedAt := tm_CreatedAt x, lo_AfterID := tm_ID x\<rparr>)
    \<longleftrightarrow> list_key x < list_key m"
  using assms by (auto simp: threadAfterListCursor_def Let_def list_key_def less_prod_def)

lemma sorted_list_distinct:
  assumes "listable ts"
  shows "sorted (map list_key (SortThreadsByCreatedAtDesc ts))"
    "distinct (map list_key (SortThreadsByCreatedAtDesc ts))"
proof -
  show "sorted (map list_key (SortThreadsByCreatedAtDesc ts))"
    by (simp add: SortThreadsByCreatedAtDesc_def)
  have "inj_on list_key (set ts)"
    using assms by (auto simp: listable_def list_key_def inj_on_def distinct_map)
  moreover have "distinct ts" using assms by (simp add: listable_def distinct_map)
  ultimately show "distinct (map list_key (SortThreadsByCreatedAtDesc ts))"
    by (simp add: SortThreadsByCreatedAtDesc_def distinct_map)
qed

lemma filter_after:
  assumes "sorted (map f xs)" "distinct (map (f :: 'a \<Rightarrow> 'b :: linorder) xs)" "xs = pre @ x # suf"
  shows "filter (\<lambda>y. f x < f y) xs = suf"
proof -
  have "\<forall>y \<in> set pre. \<not> f x < f y" using assms by (auto simp: sorted_append not_less)
  moreover have "\<forall>y \<in> set suf. f x < f y"
    using assms by (auto simp: sorted_append order.strict_iff_order)
  ultimately show ?thesis unfolding assms(3) by (simp add: filter_empty_conv)
qed

lemma follow_list_suffix:
  assumes ts: "listable ts" and limit: "0 < lo_Limit opts"
    and v: "filter (listed opts) (SortThreadsByCreatedAtDesc ts) = pre @ suf"
    and cursor: "\<forall>m \<in> set ts. threadAfterListCursor m opts \<longleftrightarrow> pre = [] \<or> list_key (last pre) < list_key m"
    and fuel: "length suf < n"
  shows "follow_list n ts opts = suf"
  using limit v cursor fuel
proof (induction n arbitrary: opts pre suf)
  case (Suc n)
  let ?s = "SortThreadsByCreatedAtDesc ts"
  have set: "set ?s = set ts" by (simp add: SortThreadsByCreatedAtDesc_def)
  have sorted: "sorted (map list_key (pre @ suf))" "distinct (map list_key (pre @ suf))"
    using sorted_list_distinct [OF ts] unfolding Suc.prems(2) [symmetric]
    by (simp_all add: sorted_filter distinct_map_filter)
  have "filter (\<lambda>m. listed opts m \<and> threadAfterListCursor m opts) ?s
      = filter (\<lambda>m. pre = [] \<or> list_key (last pre) < list_key m) (pre @ suf)"
    unfolding Suc.prems(2) [symmetric] filter_filter
    by (intro filter_cong) (use Suc.prems(3) set in auto)
  also have "\<dots> = suf"
  proof (cases pre rule: rev_cases)
    case (snoc p x)
    with filter_after [OF sorted, of p x suf] show ?thesis by simp
  qed simp
  finally have page: "ApplyThreadListOptions ts opts = take (nat (lo_Limit opts)) suf"
    using list_loop_filter [of opts 0] Suc.prems(1) by (simp add: ApplyThreadListOptions_def)
  show ?case
  proof (cases "suf = []")
    case False
    let ?page = "take (nat (lo_Limit opts)) suf" and ?rest = "drop (nat (lo_Limit opts)) suf"
    let ?opts = "opts\<lparr>lo_AfterCreatedAt := tm_CreatedAt (last ?page), lo_AfterID := tm_ID (last ?page)\<rparr>"
    have ne: "?page \<noteq> []" using False Suc.prems(1) by simp
    have "set (pre @ suf) \<subseteq> set ts" using Suc.prems(2) set by (metis filter_is_subset)
    moreover have "last ?page \<in> set suf" using ne by (meson in_set_takeD last_in_set)
    ultimately have "last ?page \<in> set ts" by auto
    then have x: "\<not> zero_time (tm_CreatedAt (last ?page))" "trim_space (tm_ID (last ?page)) = tm_ID (last ?page)"
      "tm_ID (last ?page) \<noteq> ''''"
      using ts by (auto simp: listable_def)
    have "follow_list n ts ?opts = ?rest"
    proof (rule Suc.IH)
      show "0 < lo_Limit ?opts" using Suc.prems(1) by simp
      show "filter (listed ?opts) ?s = (pre @ ?page) @ ?rest"
        using Suc.prems(2) by (simp add: listed_def [abs_def])
      show "\<forall>m \<in> set ts. threadAfterListCursor m ?opts
          \<longleftrightarrow> pre @ ?page = [] \<or> list_key (last (pre @ ?page)) < list_key m"
        using after_cursor [OF x] ne by simp
      have "0 < length suf" "0 < nat (lo_Limit opts)" using False Suc.prems(1) by auto
      then show "length ?rest < n" using Suc.prems(4) unfolding length_drop by linarith
    qed
    with page ne show ?thesis by (simp add: Let_def)
  qed (use page in simp)
qed simp

text \<open>
  C33: Paged listing is complete and free of repeats: a client that passes the creation time and ID of
  the last thread it saw as the next cursor receives exactly the listed threads, newest first and
  ties by ID, each once, whatever the page size and however many share a creation time.
\<close>

theorem listing_pages_complete:
  assumes "listable ts" "0 < lo_Limit opts" "zero_time (lo_AfterCreatedAt opts)"
  shows "follow_list (Suc (length ts)) ts opts = filter (listed opts) (SortThreadsByCreatedAtDesc ts)
    \<and> sorted (map list_key (follow_list (Suc (length ts)) ts opts))
    \<and> distinct (follow_list (Suc (length ts)) ts opts)"
proof -
  have "length (filter (listed opts) (SortThreadsByCreatedAtDesc ts)) < Suc (length ts)"
    by (rule le_imp_less_Suc, rule order_trans [OF length_filter_le]) (simp add: SortThreadsByCreatedAtDesc_def)
  then have "follow_list (Suc (length ts)) ts opts = filter (listed opts) (SortThreadsByCreatedAtDesc ts)"
    using assms by (intro follow_list_suffix [where pre = "[]"]) (auto simp: threadAfterListCursor_def Let_def)
  then show ?thesis
    using sorted_list_distinct [OF assms(1)] by (simp add: sorted_filter distinct_map)
qed

theorem listing_pages_complete_witness:
  "map tm_ID (follow_list 5 (map (\<lambda>(i, c, a). zero_meta\<lparr>tm_ID := i, tm_CreatedAt := c, tm_Archived := a\<rparr>)
     [(''a'', 5, False), (''b'', 7, False), (''c'', 5, False), (''d'', 9, True)])
     \<lparr>lo_IncludeArchived = False, lo_RootOnly = True, lo_Limit = 1, lo_AfterCreatedAt = 0, lo_AfterID = ''''\<rparr>)
   = [''b'', ''a'', ''c'']"
proof -
  define ts where "ts = map (\<lambda>(i, c, a). zero_meta\<lparr>tm_ID := i, tm_CreatedAt := c, tm_Archived := a\<rparr>)
     [(''a'', 5, False), (''b'', 7, False), (''c'', 5, False), (''d'', 9, True)]"
  define opts :: list_options where "opts = \<lparr>lo_IncludeArchived = False, lo_RootOnly = True, lo_Limit = 1,
     lo_AfterCreatedAt = 0, lo_AfterID = ''''\<rparr>"
  have "listable ts" unfolding ts_def by code_simp
  moreover have "map tm_ID (filter (listed opts) (SortThreadsByCreatedAtDesc ts)) = [''b'', ''a'', ''c'']"
    unfolding ts_def opts_def by code_simp
  moreover have "length ts = 4" by (simp add: ts_def)
  ultimately show ?thesis
    using listing_pages_complete [of ts opts] unfolding ts_def [symmetric] opts_def [symmetric]
    by (simp add: opts_def zero_time_def)
qed

end
