(* ===== verification/AgentTodos.thy ===== *)
theory AgentTodos
  imports ThreadStore
begin

text \<open>
  The agent todo list of a thread: validation and the optimistic compare-and-swap of
  \<^verbatim>\<open>sessiontree.go\<close>. The swap is a versioned record in the sense of \<open>Guarded\<close>: the second
  client of that interface, after thread titles.
\<close>

definition MaxAgentTodoItems :: nat where
  "MaxAgentTodoItems = 40"

fun todo_items_loop :: "string list \<Rightarrow> nat \<Rightarrow> todo_item list \<Rightarrow> st_error option" where
  "todo_items_loop seen inProgress [] = None"
| "todo_items_loop seen inProgress (item # items) =
    (let i = trim_space (td_ID item); content = trim_space (td_Content item) in
     case td_Status item of
       AgentTodoOther _ \<Rightarrow> Some (ErrMsg ''agent todo item has unsupported status'')
     | status \<Rightarrow>
         if i = '''' \<or> content = '''' then Some (ErrMsg ''agent todo item requires id and content'')
         else if i \<in> set seen then Some (ErrMsg ''agent todo state repeats item'')
         else if status = AgentTodoInProgress \<and> inProgress + 1 > 1
           then Some (ErrMsg ''agent todo state has more than one in-progress item'')
         else todo_items_loop (i # seen)
                (if status = AgentTodoInProgress then inProgress + 1 else inProgress) items)"

definition ValidateAgentTodoItems :: "todo_item list \<Rightarrow> st_error option" where
  "ValidateAgentTodoItems items =
    (if length items > MaxAgentTodoItems then Some (ErrMsg ''agent todo state has too many items'')
     else todo_items_loop [] 0 items)"

definition ReadAgentTodoState :: "repo \<Rightarrow> string \<Rightarrow> todo_state st_result" where
  "ReadAgentTodoState r t =
    (if thread r t = None then Inl ErrThreadNotFound
     else (case rp_todos r t of
             None \<Rightarrow> Inr (zero_todo\<lparr>tds_ThreadID := t\<rparr>) | Some state \<Rightarrow> Inr state))"

definition stored_todo :: "repo \<Rightarrow> string \<Rightarrow> todo_state" where
  "stored_todo r t = (case rp_todos r t of None \<Rightarrow> zero_todo | Some state \<Rightarrow> state)"

text \<open>The swap on the stored value, after the checks of the thread.\<close>

definition swap_todo ::
  "go_time \<Rightarrow> todo_state \<Rightarrow> int \<Rightarrow> todo_state \<Rightarrow> todo_state st_result" where
  "swap_todo clock state expected current =
    (if tds_Version current \<noteq> expected then Inl ErrAgentTodoVersionConflict
     else Inr (state\<lparr>tds_Version := add64 expected 1,
                     tds_UpdatedAt := (if zero_time (tds_UpdatedAt state) then clock
                                       else tds_UpdatedAt state)\<rparr>))"

definition CompareAndSwapAgentTodoState ::
  "go_time \<Rightarrow> repo \<Rightarrow> todo_state \<Rightarrow> int \<Rightarrow> repo \<times> todo_state st_result" where
  "CompareAndSwapAgentTodoState clock r state expected =
    (case ValidateAgentTodoItems (tds_Items state) of
       Some e \<Rightarrow> (r, Inl e)
     | None \<Rightarrow> (case thread r (tds_ThreadID state) of
         None \<Rightarrow> (r, Inl ErrThreadNotFound)
       | Some meta \<Rightarrow> (case lifecycleRejectsWrite meta of
           Some e \<Rightarrow> (r, Inl e)
         | None \<Rightarrow> (case swap_todo clock state expected (stored_todo r (tds_ThreadID state)) of
             Inl e \<Rightarrow> (r, Inl e)
           | Inr state' \<Rightarrow> (setTodo (tds_ThreadID state) state' r, Inr state')))))"

section \<open>What a valid list is\<close>

definition todo_item_ok :: "todo_item \<Rightarrow> bool" where
  "todo_item_ok item \<longleftrightarrow> td_Status item \<in> {AgentTodoPending, AgentTodoInProgress, AgentTodoCompleted}
     \<and> \<not> blank (td_ID item) \<and> \<not> blank (td_Content item)"

definition in_progress :: "todo_item list \<Rightarrow> nat" where
  "in_progress items = length (filter (\<lambda>i. td_Status i = AgentTodoInProgress) items)"

lemma todo_items_loop_None:
  "n \<le> 1 \<Longrightarrow> todo_items_loop seen n items = None \<longleftrightarrow>
     (\<forall>item \<in> set items. todo_item_ok item) \<and> distinct (map (\<lambda>i. trim_space (td_ID i)) items)
   \<and> set (map (\<lambda>i. trim_space (td_ID i)) items) \<inter> set seen = {} \<and> n + in_progress items \<le> 1"
proof (induction items arbitrary: seen n)
  case (Cons item items)
  have IH: "m \<le> 1 \<Longrightarrow> todo_items_loop (trim_space (td_ID item) # seen) m items = None \<longleftrightarrow>
     (\<forall>item \<in> set items. todo_item_ok item) \<and> distinct (map (\<lambda>i. trim_space (td_ID i)) items)
   \<and> set (map (\<lambda>i. trim_space (td_ID i)) items) \<inter> set (trim_space (td_ID item) # seen) = {}
   \<and> m + in_progress items \<le> 1" for m
    by (rule Cons.IH)
  show ?case
    using Cons.prems
    by (cases "td_Status item")
      (auto simp: IH Let_def todo_item_ok_def blank_def in_progress_def)
qed (simp add: in_progress_def)

text \<open>
  A todo list passes the validation exactly when it has at most 40 items, each with a supported
  status, an ID and a content, no two IDs equal after trimming, and at most one item in progress.
\<close>

theorem validate_todos_iff:
  "ValidateAgentTodoItems items = None \<longleftrightarrow>
     length items \<le> 40 \<and> list_all todo_item_ok items
   \<and> distinct (map (\<lambda>i. trim_space (td_ID i)) items) \<and> in_progress items \<le> 1"
  by (auto simp: ValidateAgentTodoItems_def MaxAgentTodoItems_def todo_items_loop_None list_all_iff)

section \<open>The swap as a versioned record\<close>

definition todo_version_ok :: "todo_state \<Rightarrow> bool" where
  "todo_version_ok s \<longleftrightarrow> 0 \<le> tds_Version s \<and> tds_Version s < max_int64"

text \<open>A request is a time, a new state and the version it expects.\<close>

type_synonym todo_request = "go_time \<times> todo_state \<times> int"

fun todo_update :: "todo_request \<Rightarrow> todo_state \<Rightarrow> (todo_state \<times> bool) st_result" where
  "todo_update (clock, state, expected) current =
     (case swap_todo clock state expected current of Inl e \<Rightarrow> Inl e | Inr s \<Rightarrow> Inr (s, True))"

fun todo_expects :: "todo_request \<Rightarrow> int" where
  "todo_expects (clock, state, expected) = expected"

lemma add64_suc: "todo_version_ok s \<Longrightarrow> add64 (tds_Version s) 1 = tds_Version s + 1"
  using add64_next [of "tds_Version s"] by (simp add: todo_version_ok_def)

interpretation todo_record: versioned_record todo_version_ok ErrAuthorityCorrupt
  todo_update tds_Version "\<lambda>q s. todo_expects q \<noteq> tds_Version s"
proof (unfold_locales, goal_cases)
  case (1 m q m')
  then show ?case
    using add64_suc [of m] by (cases q) (auto simp: swap_todo_def split: if_splits)
next
  case (2 m q m')
  then show ?case by (cases q) (auto simp: swap_todo_def split: if_splits)
qed

lemma todo_run_stale:
  "todo_version_ok s \<Longrightarrow> \<forall>q \<in> set qs. todo_expects q < tds_Version s \<Longrightarrow>
    guarded_run todo_version_ok ErrAuthorityCorrupt todo_update qs s = s"
  by (rule todo_record.run_frozen) auto

lemma CompareAndSwap_Inr:
  "CompareAndSwapAgentTodoState clock r state expected = (r', Inr s) \<longleftrightarrow>
     (\<exists>meta. thread r (tds_ThreadID state) = Some meta \<and> lifecycleRejectsWrite meta = None)
   \<and> ValidateAgentTodoItems (tds_Items state) = None
   \<and> tds_Version (stored_todo r (tds_ThreadID state)) = expected
   \<and> s = state\<lparr>tds_Version := add64 expected 1,
                tds_UpdatedAt := (if zero_time (tds_UpdatedAt state) then clock else tds_UpdatedAt state)\<rparr>
   \<and> r' = setTodo (tds_ThreadID state) s r"
  by (auto simp: CompareAndSwapAgentTodoState_def swap_todo_def split: option.splits sum.splits if_splits)

text \<open>
  C39: No todo update is lost: a swap succeeds only against the stored version, stores a valid list
  one version later and returns what it stored, and from then on every swap that still
  expects the old version is refused and changes nothing, whatever it wants to write.
\<close>

theorem todo_swap_once:
  assumes "CompareAndSwapAgentTodoState clock r state expected = (r1, Inr s)"
    "todo_version_ok (stored_todo r (tds_ThreadID state))"
  shows "ReadAgentTodoState r1 (tds_ThreadID state) = Inr s
    \<and> tds_Version s = tds_Version (stored_todo r (tds_ThreadID state)) + 1
    \<and> ValidateAgentTodoItems (tds_Items s) = None
    \<and> (\<forall>t. t \<noteq> tds_ThreadID state \<longrightarrow> stored_todo r1 t = stored_todo r t)
    \<and> (tds_ThreadID other = tds_ThreadID state \<and> ValidateAgentTodoItems (tds_Items other) = None \<longrightarrow>
         CompareAndSwapAgentTodoState clock' r1 other expected = (r1, Inl ErrAgentTodoVersionConflict))"
proof -
  from assms(1) obtain meta where c: "thread r (tds_ThreadID state) = Some meta"
    "lifecycleRejectsWrite meta = None" "ValidateAgentTodoItems (tds_Items state) = None"
    "tds_Version (stored_todo r (tds_ThreadID state)) = expected"
    "s = state\<lparr>tds_Version := add64 expected 1,
        tds_UpdatedAt := (if zero_time (tds_UpdatedAt state) then clock else tds_UpdatedAt state)\<rparr>"
    "r1 = setTodo (tds_ThreadID state) s r"
    unfolding CompareAndSwap_Inr by blast
  have v: "tds_Version s = expected + 1" using c(4,5) add64_suc [OF assms(2)] by simp
  have st: "stored_todo r1 t = (if t = tds_ThreadID state then s else stored_todo r t)" for t
    by (simp add: c(6) stored_todo_def setTodo_def)
  have th: "thread r1 = thread r" by (simp add: c(6) repo_simps)
  have i: "tds_Items s = tds_Items state" by (simp add: c(5))
  have "ReadAgentTodoState r1 (tds_ThreadID state) = Inr s"
    using c(1) by (simp add: ReadAgentTodoState_def th) (simp add: c(6) setTodo_def)
  then show ?thesis
    using c(1-4) v st th i by (simp add: CompareAndSwapAgentTodoState_def swap_todo_def)
qed

definition todo_example :: todo_state where
  "todo_example = zero_todo\<lparr>tds_ThreadID := ''other'',
     tds_Items := [\<lparr>td_ID = ''1'', td_Content = ''write'', td_Status = AgentTodoInProgress\<rparr>,
                   \<lparr>td_ID = ''2'', td_Content = ''test'', td_Status = AgentTodoPending\<rparr>]\<rparr>"

theorem todo_swap_once_witness:
  "CompareAndSwapAgentTodoState 4 (fst (CompareAndSwapAgentTodoState 3 delete_example todo_example 0))
     todo_example 0
   = (fst (CompareAndSwapAgentTodoState 3 delete_example todo_example 0), Inl ErrAgentTodoVersionConflict)"
proof -
  have "snd (CompareAndSwapAgentTodoState 3 delete_example todo_example 0)
     = Inr (todo_example\<lparr>tds_Version := 1, tds_UpdatedAt := 3\<rparr>)" by code_simp
  moreover have "todo_version_ok (stored_todo delete_example (tds_ThreadID todo_example))" by code_simp
  moreover have "ValidateAgentTodoItems (tds_Items todo_example) = None" by code_simp
  ultimately show ?thesis
    using todo_swap_once [of 3 delete_example todo_example 0
        "fst (CompareAndSwapAgentTodoState 3 delete_example todo_example 0)"
        "todo_example\<lparr>tds_Version := 1, tds_UpdatedAt := 3\<rparr>" todo_example 4]
    by (simp add: prod_eq_iff)
qed

end
