(* ===== verification/Lifecycle.thy ===== *)
theory Lifecycle
  imports Prelude
begin

text \<open>
  Records with a life cycle: the states a record takes one after another in an append-only
  log, each allowed by the one before it. A rank that every allowed step raises makes the life of
  a record finite and its states distinct.
\<close>

fun follows :: "('s option \<Rightarrow> 's \<Rightarrow> bool) \<Rightarrow> 's option \<Rightarrow> 's list \<Rightarrow> bool" where
  "follows allowed p [] = True"
| "follows allowed p (s # ss) = (allowed p s \<and> follows allowed (Some s) ss)"

fun last_state :: "'s option \<Rightarrow> 's list \<Rightarrow> 's option" where
  "last_state p [] = p"
| "last_state p (s # ss) = last_state (Some s) ss"

lemma last_state_append [simp]: "last_state p (xs @ ys) = last_state (last_state p xs) ys"
  by (induction p xs rule: last_state.induct) simp_all

lemma last_state_None: "last_state None xs = None \<longleftrightarrow> xs = []"
proof -
  have "last_state (Some s) ys \<noteq> None" for s and ys :: "'a list" by (induction ys arbitrary: s) simp_all
  then show ?thesis by (cases xs) simp_all
qed

lemma last_state_Some: "last_state p xs = Some s \<Longrightarrow> xs \<noteq> [] \<Longrightarrow> last xs = s"
  by (induction p xs rule: last_state.induct) (auto split: if_splits)

lemma follows_append [simp]:
  "follows allowed p (xs @ ys) = (follows allowed p xs \<and> follows allowed (last_state p xs) ys)"
  by (induction allowed p xs rule: follows.induct) simp_all

locale lifecycle =
  fixes allowed :: "'s option \<Rightarrow> 's \<Rightarrow> bool"
    and rank :: "'s \<Rightarrow> nat"
  assumes progress: "allowed (Some a) b \<Longrightarrow> rank a < rank b"
begin

lemma life_sorted:
  "follows allowed (Some a) ss \<Longrightarrow> (\<forall>s \<in> set ss. rank a < rank s) \<and> sorted_wrt (\<lambda>x y. rank x < rank y) ss"
proof (induction ss arbitrary: a)
  case (Cons s ss)
  with progress [of a s] have "rank a < rank s" "\<forall>x \<in> set ss. rank s < rank x"
    "sorted_wrt (\<lambda>x y. rank x < rank y) ss" by auto
  then show ?case by auto
qed simp

lemma life_distinct:
  assumes "follows allowed p ss"
  shows "distinct ss"
proof (cases ss)
  case (Cons s rest)
  with assms have "\<forall>x \<in> set rest. rank s < rank x" "sorted_wrt (\<lambda>x y. rank x < rank y) rest"
    using life_sorted [of s rest] by auto
  moreover from this(2) have "distinct rest" by (induction rest) auto
  ultimately show ?thesis using Cons by auto
qed simp

text \<open>A state that the record has been in is not taken again.\<close>

lemma never_again: "follows allowed p (xs @ ys) \<Longrightarrow> s \<in> set xs \<Longrightarrow> s \<notin> set ys"
  using life_distinct [of p "xs @ ys"] by auto

end

end
