(* ===== verification/PathIndex.thy ===== *)
theory PathIndex
  imports RepoState "HOL-Library.While_Combinator" "HOL-Library.Word"
begin

text \<open>
  The ancestry index of a journal: \<^verbatim>\<open>path_page.go\<close> and \<^verbatim>\<open>canonical_path.go\<close>. Every entry has
  a node with its parent and one skip link, to the ancestor whose depth clears the lowest set
  bit of its own. \<open>integ\<close> stands for \<open>ValidateEntryIntegrity\<close>; \<open>ctx k\<close> is what the \<open>k\<close>-th
  poll of the context returns. Depths are positions in a list, so the 64-bit additions on
  them do not wrap.
\<close>

section \<open>The index\<close>

definition anc_next :: "path_node list \<Rightarrow> int \<Rightarrow> int \<Rightarrow> int" where
  "anc_next index ordinal depth =
    (let node = at index ordinal in
     if pn_skip node \<ge> 0 \<and> pn_depth (at index (pn_skip node)) \<ge> depth
     then pn_skip node else pn_parent node)"

text \<open>
  The loop of \<open>pathAncestor\<close>. The fuel of one more than the ordinal is enough because both
  links of a node lead to smaller ordinals (\<open>path_ancestor_exact\<close> shows the unbounded loop
  ends with the same value).
\<close>

fun anc_loop :: "nat \<Rightarrow> path_node list \<Rightarrow> int \<Rightarrow> int \<Rightarrow> int" where
  "anc_loop 0 index ordinal depth = ordinal"
| "anc_loop (Suc fuel) index ordinal depth =
    (if ordinal \<ge> 0 \<and> pn_depth (at index ordinal) > depth
     then anc_loop fuel index (anc_next index ordinal depth) depth
     else ordinal)"

definition pathAncestor :: "path_node list \<Rightarrow> int \<Rightarrow> int \<Rightarrow> int" where
  "pathAncestor index ordinal depth = anc_loop (Suc (nat ordinal)) index ordinal depth"

unbundle bit_operations_syntax

definition clear_low_bit :: "int \<Rightarrow> int" where
  "clear_low_bit d = d AND (d - 1)"

definition path_parent :: "path_node list \<Rightarrow> (string \<rightharpoonup> int) \<Rightarrow> string \<Rightarrow> int option" where
  "path_parent index ordinals parentID =
    (case ordinals parentID of
       None \<Rightarrow> None
     | Some p \<Rightarrow> if p < 0 \<or> p \<ge> int (length index) \<or> pn_id (at index p) \<noteq> parentID
                then None else Some p)"

definition path_node_for ::
  "(entry \<Rightarrow> st_error option) \<Rightarrow> path_node list \<Rightarrow> (string \<rightharpoonup> int) \<Rightarrow> entry \<Rightarrow> path_node" where
  "path_node_for integ index ordinals e =
    (let node = \<lparr>pn_id = ID e, pn_parent = - 1, pn_skip = - 1, pn_depth = PathDepth e,
                 pn_err = integ e\<rparr> in
     if ParentID e \<noteq> '''' then
       (case path_parent index ordinals (ParentID e) of
          None \<Rightarrow> node\<lparr>pn_err := Some ErrInvalidParent\<rparr>
        | Some p \<Rightarrow>
            if pn_err (at index p) \<noteq> None then
              node\<lparr>pn_parent := p, pn_err := pn_err (at index p)\<rparr>
            else if pn_depth node \<noteq> pn_depth (at index p) + 1 then
              node\<lparr>pn_parent := p, pn_err := Some ErrAuthorityCorrupt\<rparr>
            else if pn_err node = None then
              node\<lparr>pn_parent := p, pn_skip := pathAncestor index p (clear_low_bit (pn_depth node))\<rparr>
            else node\<lparr>pn_parent := p\<rparr>)
     else if pn_depth node \<noteq> 1 then node\<lparr>pn_err := Some ErrAuthorityCorrupt\<rparr>
     else node)"

definition appendPathIndex ::
  "(entry \<Rightarrow> st_error option) \<Rightarrow> path_node list \<Rightarrow> (string \<rightharpoonup> int) \<Rightarrow> entry \<Rightarrow> path_node list" where
  "appendPathIndex integ index ordinals e = index @ [path_node_for integ index ordinals e]"

definition rebuildPathIndex ::
  "(entry \<Rightarrow> st_error option) \<Rightarrow> (string \<rightharpoonup> int) \<Rightarrow> entry list \<Rightarrow> path_node list" where
  "rebuildPathIndex integ ordinals es =
     foldl (\<lambda>index e. appendPathIndex integ index ordinals e) [] es"

definition ordinals_map :: "journal \<Rightarrow> string \<Rightarrow> int option" where
  "ordinals_map j = (case jn_ordinals j of None \<Rightarrow> Map.empty | Some m \<Rightarrow> m)"

definition ensurePathIndex :: "(entry \<Rightarrow> st_error option) \<Rightarrow> journal \<Rightarrow> journal" where
  "ensurePathIndex integ j =
    (if length (jn_path j) \<noteq> length (jn_entries j)
     then j\<lparr>jn_path := rebuildPathIndex integ (ordinals_map j) (jn_entries j)\<rparr> else j)"

section \<open>Well-formed indexes\<close>

text \<open>The ancestors of a node, nearest first.\<close>

function chain :: "path_node list \<Rightarrow> int \<Rightarrow> int list" where
  "chain index k = (if k < 0 then []
     else if pn_parent (at index k) < k then k # chain index (pn_parent (at index k)) else [k])"
  by pat_completeness auto
termination by (relation "measure (\<lambda>(index, k). nat (k + 1))") auto

declare chain.simps [simp del]

definition node_ok :: "path_node list \<Rightarrow> int \<Rightarrow> bool" where
  "node_ok index i \<longleftrightarrow> (let n = at index i in
     - 1 \<le> pn_parent n \<and> pn_parent n < i \<and> - 1 \<le> pn_skip n \<and> pn_skip n < i
   \<and> (pn_err n = None \<longrightarrow>
        (if pn_parent n < 0 then pn_depth n = 1 \<and> pn_skip n = - 1
         else pn_err (at index (pn_parent n)) = None
            \<and> pn_depth n = pn_depth (at index (pn_parent n)) + 1
            \<and> (pn_skip n \<ge> 0 \<longrightarrow> pn_skip n \<in> set (chain index (pn_parent n))))))"

definition index_ok :: "path_node list \<Rightarrow> bool" where
  "index_ok index \<longleftrightarrow> (\<forall>i. 0 \<le> i \<and> i < int (length index) \<longrightarrow> node_ok index i)"

text \<open>The nearest ancestor, itself included, at most as deep as asked: the plain walk.\<close>

definition ancestor_at :: "path_node list \<Rightarrow> int \<Rightarrow> int \<Rightarrow> int" where
  "ancestor_at index ordinal depth =
    (case list_find (\<lambda>x. pn_depth (at index x) \<le> depth) (chain index ordinal) of
       None \<Rightarrow> - 1 | Some x \<Rightarrow> x)"

lemma at_append: "0 \<le> i \<Longrightarrow> i < int (length xs) \<Longrightarrow> at (xs @ ys) i = at xs i"
  by (simp add: at_def nth_append nat_less_iff)

lemma at_last: "at (xs @ [x]) (int (length xs)) = x"
  by (simp add: at_def)

lemma index_okD:
  assumes "index_ok index" "0 \<le> i" "i < int (length index)"
  shows "- 1 \<le> pn_parent (at index i)" "pn_parent (at index i) < i"
    "- 1 \<le> pn_skip (at index i)" "pn_skip (at index i) < i"
    "pn_err (at index i) = None \<Longrightarrow> pn_parent (at index i) < 0 \<Longrightarrow> pn_depth (at index i) = 1"
    "pn_err (at index i) = None \<Longrightarrow> pn_parent (at index i) < 0 \<Longrightarrow> pn_skip (at index i) = - 1"
    "pn_err (at index i) = None \<Longrightarrow> 0 \<le> pn_parent (at index i) \<Longrightarrow>
       pn_err (at index (pn_parent (at index i))) = None"
    "pn_err (at index i) = None \<Longrightarrow> 0 \<le> pn_parent (at index i) \<Longrightarrow>
       pn_depth (at index i) = pn_depth (at index (pn_parent (at index i))) + 1"
    "pn_err (at index i) = None \<Longrightarrow> 0 \<le> pn_parent (at index i) \<Longrightarrow> 0 \<le> pn_skip (at index i) \<Longrightarrow>
       pn_skip (at index i) \<in> set (chain index (pn_parent (at index i)))"
  using assms by (auto simp: index_ok_def node_ok_def Let_def split: if_splits)

lemma chain_neg [simp]: "k < 0 \<Longrightarrow> chain index k = []"
  by (simp add: chain.simps)

lemma chain_step:
  "index_ok index \<Longrightarrow> 0 \<le> k \<Longrightarrow> k < int (length index) \<Longrightarrow>
    chain index k = k # chain index (pn_parent (at index k))"
  by (subst chain.simps) (simp add: index_okD)

lemma chain_append:
  "index_ok index \<Longrightarrow> k < int (length index) \<Longrightarrow> chain (index @ xs) k = chain index k"
proof (induction "nat (k + 1)" arbitrary: k rule: less_induct)
  case less
  show ?case
  proof (cases "k < 0")
    case False
    then have k: "0 \<le> k" "k < int (length index)" using less by auto
    have p: "pn_parent (at index k) < k" using index_okD(2) less(2) k by blast
    have "chain (index @ xs) (pn_parent (at index k)) = chain index (pn_parent (at index k))"
      using less(1) [of "pn_parent (at index k)"] less(2) p k by auto
    then show ?thesis
      using p k by (simp add: chain.simps [of _ k] at_append)
  qed simp
qed

text \<open>Along a chain without an error the depths count down to 1.\<close>

lemma chain_facts:
  assumes "index_ok index"
  shows "0 \<le> k \<Longrightarrow> k < int (length index) \<Longrightarrow> pn_err (at index k) = None \<Longrightarrow>
    pn_depth (at index k) = int (length (chain index k))
    \<and> (\<forall>x \<in> set (chain index k). 0 \<le> x \<and> x \<le> k \<and> pn_err (at index x) = None)"
proof (induction "nat k" arbitrary: k rule: less_induct)
  case less
  note c = chain_step [OF assms less(2,3)]
  note ok = index_okD [OF assms less(2,3)]
  show ?case
  proof (cases "pn_parent (at index k) < 0")
    case True
    then show ?thesis using c ok(5) less(2-4) by simp
  next
    case False
    with less(1) [of "pn_parent (at index k)"] less(2-4) ok(2,7,8) c show ?thesis
      by fastforce
  qed
qed

lemma chain_suffix:
  assumes "index_ok index"
  shows "0 \<le> k \<Longrightarrow> k < int (length index) \<Longrightarrow> pn_err (at index k) = None \<Longrightarrow>
    x \<in> set (chain index k) \<Longrightarrow>
    \<exists>pre. chain index k = pre @ chain index x
      \<and> (\<forall>y \<in> set pre. pn_depth (at index y) > pn_depth (at index x))"
proof (induction "nat k" arbitrary: k rule: less_induct)
  case less
  note c = chain_step [OF assms less(2,3)]
  note ok = index_okD [OF assms less(2,3)]
  show ?case
  proof (cases "x = k")
    case False
    then have x: "x \<in> set (chain index (pn_parent (at index k)))" using less(5) c by auto
    then have p: "0 \<le> pn_parent (at index k)" by (cases "pn_parent (at index k) < 0") auto
    with less(1) [of "pn_parent (at index k)"] x ok(2,7) less(2-4) obtain pre where
      pre: "chain index (pn_parent (at index k)) = pre @ chain index x"
        "\<forall>y \<in> set pre. pn_depth (at index y) > pn_depth (at index x)" by fastforce
    have "pn_err (at index (pn_parent (at index k))) = None" using ok(7) less(4) p by blast
    moreover have "pn_parent (at index k) < int (length index)" using ok(2) less(3) by linarith
    ultimately have f: "pn_depth (at index (pn_parent (at index k)))
        = int (length (chain index (pn_parent (at index k))))"
      "0 \<le> x" "x \<le> pn_parent (at index k)" "pn_err (at index x) = None"
      using chain_facts [OF assms p] x by auto
    have "pn_depth (at index x) = int (length (chain index x))"
      using chain_facts [OF assms f(2) _ f(4)] f(3) ok(2) less(3) by simp
    then have "pn_depth (at index x) \<le> pn_depth (at index (pn_parent (at index k)))"
      using f(1) pre(1) by simp
    then have "pn_depth (at index k) > pn_depth (at index x)" using ok(8) less(4) p by simp
    with c pre show ?thesis by (intro exI [of _ "k # pre"]) simp
  qed auto
qed

section \<open>The skip walk is the plain walk\<close>

lemma ancestor_at_here:
  "index_ok index \<Longrightarrow> 0 \<le> k \<Longrightarrow> k < int (length index) \<Longrightarrow> pn_depth (at index k) \<le> d \<Longrightarrow>
    ancestor_at index k d = k"
  by (simp add: ancestor_at_def chain_step)

lemma list_find_skip: "\<forall>y \<in> set pre. \<not> P y \<Longrightarrow> list_find P (pre @ xs) = list_find P xs"
  by (induction pre) auto

lemma ancestor_at_next:
  assumes ok: "index_ok index" and k: "0 \<le> k" "k < int (length index)" "pn_err (at index k) = None"
    and d: "d < pn_depth (at index k)"
  shows "ancestor_at index (anc_next index k d) d = ancestor_at index k d
    \<and> - 1 \<le> anc_next index k d \<and> anc_next index k d < k
    \<and> (0 \<le> anc_next index k d \<longrightarrow> pn_err (at index (anc_next index k d)) = None)"
proof -
  note i = index_okD [OF ok k(1,2)]
  let ?p = "pn_parent (at index k)" and ?s = "pn_skip (at index k)"
  have parent: "ancestor_at index ?p d = ancestor_at index k d"
    using d by (simp add: ancestor_at_def chain_step [OF ok k(1,2)])
  show ?thesis
  proof (cases "?s \<ge> 0 \<and> pn_depth (at index ?s) \<ge> d")
    case False
    then have "anc_next index k d = ?p" by (auto simp: anc_next_def Let_def)
    with parent i(1,2,7) k(3) show ?thesis by auto
  next
    case True
    then have n: "anc_next index k d = ?s" by (simp add: anc_next_def Let_def)
    have p: "0 \<le> ?p" using True i(6) k(3) by fastforce
    have pk: "?p < int (length index)" using i(2) k(2) by linarith
    have s: "?s \<in> set (chain index ?p)" using i(9) k(3) p True by blast
    from chain_suffix [OF ok p pk i(7) s] k(3) p obtain pre where
      pre: "chain index ?p = pre @ chain index ?s"
      "\<forall>y \<in> set pre. pn_depth (at index y) > pn_depth (at index ?s)" by blast
    from pre(2) True have "\<forall>y \<in> set pre. \<not> pn_depth (at index y) \<le> d" by fastforce
    with pre(1) have "ancestor_at index ?p d = ancestor_at index ?s d"
      by (simp add: ancestor_at_def list_find_skip)
    moreover have "pn_err (at index ?s) = None"
      using chain_facts [OF ok p pk] i(7) k(3) p s by auto
    ultimately show ?thesis using n parent i(3,4) by simp
  qed
qed

lemma anc_loop_exact:
  assumes "index_ok index"
  shows "- 1 \<le> k \<Longrightarrow> k < int (length index) \<Longrightarrow> (0 \<le> k \<longrightarrow> pn_err (at index k) = None) \<Longrightarrow>
    nat (k + 1) \<le> fuel \<Longrightarrow> anc_loop fuel index k d = ancestor_at index k d"
proof (induction fuel arbitrary: k)
  case 0
  then show ?case by (simp add: ancestor_at_def)
next
  case (Suc fuel)
  show ?case
  proof (cases "0 \<le> k \<and> d < pn_depth (at index k)")
    case True
    then have n: "ancestor_at index (anc_next index k d) d = ancestor_at index k d"
      "- 1 \<le> anc_next index k d" "anc_next index k d < k"
      "0 \<le> anc_next index k d \<longrightarrow> pn_err (at index (anc_next index k d)) = None"
      using ancestor_at_next [OF assms, of k d] Suc.prems(2,3) by auto
    then have "anc_loop fuel index (anc_next index k d) d = ancestor_at index k d"
      using Suc.prems(2,4) n(1) by (subst Suc.IH) auto
    with True show ?thesis by simp
  next
    case False
    then show ?thesis
      using ancestor_at_here [OF assms _ Suc.prems(2)] Suc.prems(1)
      by (cases "k < 0") (auto simp: ancestor_at_def)
  qed
qed

lemma pathAncestor_ok:
  "index_ok index \<Longrightarrow> - 1 \<le> k \<Longrightarrow> k < int (length index) \<Longrightarrow> (0 \<le> k \<longrightarrow> pn_err (at index k) = None) \<Longrightarrow>
    pathAncestor index k d = ancestor_at index k d"
  unfolding pathAncestor_def by (rule anc_loop_exact) auto

lemma ancestor_at_cases:
  assumes "index_ok index" "0 \<le> k" "k < int (length index)" "pn_err (at index k) = None"
  shows "ancestor_at index k d = - 1 \<or> ancestor_at index k d \<in> set (chain index k)"
  by (auto simp: ancestor_at_def split: option.splits dest: list_find_Some)

lemma path_parentD:
  "path_parent index ordinals i = Some p \<Longrightarrow> 0 \<le> p \<and> p < int (length index)"
  by (auto simp: path_parent_def split: option.splits if_splits)

lemma node_ok_append:
  assumes "index_ok index" "0 \<le> i" "i < int (length index)"
  shows "node_ok (index @ xs) i"
proof -
  note k = index_okD [OF assms]
  have p: "0 \<le> pn_parent (at index i) \<Longrightarrow>
      at (index @ xs) (pn_parent (at index i)) = at index (pn_parent (at index i))"
    using k(2) assms(3) by (simp add: at_append)
  have c: "chain (index @ xs) (pn_parent (at index i)) = chain index (pn_parent (at index i))"
    using k(2) assms(1,3) by (intro chain_append) auto
  show ?thesis
    using k p c by (simp add: node_ok_def Let_def at_append [OF assms(2,3)])
qed

lemma new_node_ok:
  assumes ok: "index_ok index"
  shows "node_ok (index @ [path_node_for integ index ordinals e]) (int (length index))"
proof (cases "ParentID e = '''' \<or> path_parent index ordinals (ParentID e) = None")
  case True
  then show ?thesis
    by (auto simp: node_ok_def at_last path_node_for_def Let_def split: option.splits)
next
  case False
  then obtain p where p: "ParentID e \<noteq> ''''" "path_parent index ordinals (ParentID e) = Some p" by auto
  note r = path_parentD [OF p(2)]
  let ?n = "path_node_for integ index ordinals e"
  have a: "at (index @ [?n]) p = at index p" "chain (index @ [?n]) p = chain index p"
    using r ok by (auto simp: at_append chain_append)
  show ?thesis
  proof (cases "pn_err (at index p) = None \<and> PathDepth e = pn_depth (at index p) + 1 \<and> integ e = None")
    case False
    then show ?thesis
      using p r a by (auto simp: node_ok_def at_last path_node_for_def Let_def)
  next
    case True
    let ?s = "pathAncestor index p (clear_low_bit (PathDepth e))"
    have "?s = ancestor_at index p (clear_low_bit (PathDepth e))"
      using ok r True by (intro pathAncestor_ok) auto
    with ancestor_at_cases [OF ok _ _, of p] r True
    have s: "?s = - 1 \<or> ?s \<in> set (chain index p)" by metis
    then have "- 1 \<le> ?s \<and> ?s \<le> p" using chain_facts [OF ok _ _, of p] r True by fastforce
    with s True p r a show ?thesis
      by (auto simp: node_ok_def at_last path_node_for_def Let_def)
  qed
qed

lemma appendPathIndex_ok:
  assumes "index_ok index"
  shows "index_ok (appendPathIndex integ index ordinals e)"
  unfolding index_ok_def
proof (intro allI impI)
  fix i :: int
  assume i: "0 \<le> i \<and> i < int (length (appendPathIndex integ index ordinals e))"
  show "node_ok (appendPathIndex integ index ordinals e) i"
  proof (cases "i < int (length index)")
    case True
    with i show ?thesis using node_ok_append [OF assms, of i] by (simp add: appendPathIndex_def)
  next
    case False
    with i have "i = int (length index)" by (simp add: appendPathIndex_def)
    then show ?thesis using new_node_ok [OF assms] by (simp add: appendPathIndex_def)
  qed
qed

lemma rebuildPathIndex_ok: "index_ok (rebuildPathIndex integ ordinals es)"
proof (induction es rule: rev_induct)
  case Nil
  then show ?case by (auto simp: rebuildPathIndex_def index_ok_def)
next
  case (snoc e es)
  then show ?case by (simp add: rebuildPathIndex_def appendPathIndex_ok)
qed

lemma length_rebuildPathIndex [simp]: "length (rebuildPathIndex integ ordinals es) = length es"
  by (induction es rule: rev_induct) (simp_all add: rebuildPathIndex_def appendPathIndex_def)

lemma while_ancestor:
  assumes "index_ok index"
  shows "- 1 \<le> k \<Longrightarrow> k < int (length index) \<Longrightarrow> (0 \<le> k \<longrightarrow> pn_err (at index k) = None) \<Longrightarrow>
    while_option (\<lambda>i. 0 \<le> i \<and> d < pn_depth (at index i)) (\<lambda>i. anc_next index i d) k
      = Some (ancestor_at index k d)"
proof (induction "nat (k + 1)" arbitrary: k rule: less_induct)
  case less
  show ?case
  proof (cases "0 \<le> k \<and> d < pn_depth (at index k)")
    case True
    then have n: "ancestor_at index (anc_next index k d) d = ancestor_at index k d"
      "- 1 \<le> anc_next index k d" "anc_next index k d < k"
      "0 \<le> anc_next index k d \<longrightarrow> pn_err (at index (anc_next index k d)) = None"
      using ancestor_at_next [OF assms, of k d] less(3,4) by auto
    then show ?thesis
      using True less(1) [of "anc_next index k d"] less(3) by (simp add: while_option_unfold)
  next
    case False
    then show ?thesis
      using ancestor_at_here [OF assms _ less(3)] less(2)
      by (cases "k < 0") (auto simp: ancestor_at_def while_option_unfold)
  qed
qed

text \<open>
  C11: On every index built from a journal, whatever its entries, the ancestor lookup by skip links
  ends on every intact entry and every target depth, and returns the ancestor that walking the
  parents one by one reaches.
\<close>

theorem path_ancestor_exact:
  assumes "index = rebuildPathIndex integ ordinals es" "0 \<le> k" "k < int (length es)"
    "pn_err (at index k) = None"
  shows "while_option (\<lambda>i. 0 \<le> i \<and> d < pn_depth (at index i)) (\<lambda>i. anc_next index i d) k
      = Some (pathAncestor index k d)
    \<and> pathAncestor index k d = ancestor_at index k d"
proof -
  have "index_ok index" using assms(1) by (simp add: rebuildPathIndex_ok)
  moreover have "length index = length es" using assms(1) by simp
  ultimately show ?thesis
    using while_ancestor [of index k d] pathAncestor_ok [of index k d] assms(2-4) by simp
qed

definition line_entries :: "entry list" where
  "line_entries = map (\<lambda>(i, p, d). zero_entry\<lparr>ID := i, ParentID := p, PathDepth := d\<rparr>)
     [(''a'', '''', 1), (''b'', ''a'', 2), (''c'', ''b'', 3), (''d'', ''c'', 4), (''e'', ''d'', 5)]"

definition line_ordinals :: "string \<Rightarrow> int option" where
  "line_ordinals = map_of [(''a'', 0), (''b'', 1), (''c'', 2), (''d'', 3), (''e'', 4)]"

theorem path_ancestor_exact_witness:
  "pathAncestor (rebuildPathIndex (\<lambda>_. None) line_ordinals line_entries) 4 2 = 1
   \<and> ancestor_at (rebuildPathIndex (\<lambda>_. None) line_ordinals line_entries) 4 2 = 1"
proof -
  have "pn_err (at (rebuildPathIndex (\<lambda>_. None) line_ordinals line_entries) 4) = None"
    "4 < int (length line_entries)" by code_simp+
  moreover have "pathAncestor (rebuildPathIndex (\<lambda>_. None) line_ordinals line_entries) 4 2 = 1"
    by code_simp
  ultimately show ?thesis
    using path_ancestor_exact [OF refl, of 4 line_entries "\<lambda>_. None" line_ordinals 2] by simp
qed

end
