(* ===== verification/PathRead.thy ===== *)
theory PathRead
  imports PathIndex "HOL-Library.Sublist"
begin

text \<open>
  Reading the path of a leaf, whole (\<^verbatim>\<open>canonical_path.go\<close>) or in pages from the leaf towards
  the root (\<^verbatim>\<open>path_page.go\<close>), and what both return on a journal whose indexes are up to date.
\<close>

type_synonym ctx_poll = "nat \<Rightarrow> st_error option"

record 'a path_page =
  pp_Entries :: "'a list"
  pp_NextEntryID :: string
  pp_HasMore :: bool
  pp_NewestOrdinal :: int

section \<open>Operations\<close>

definition matches_node :: "path_node list \<Rightarrow> string \<Rightarrow> path_node \<Rightarrow> entry \<Rightarrow> bool" where
  "matches_node index t node e \<longleftrightarrow>
     ID e = pn_id node \<and> ThreadID e = t \<and> PathDepth e = pn_depth node
   \<and> \<not> (pn_parent node < 0 \<and> ParentID e \<noteq> '''')
   \<and> \<not> (pn_parent node \<ge> 0 \<and> ParentID e \<noteq> pn_id (at index (pn_parent node)))"

text \<open>
  The loop of \<open>readCanonicalPathLocked\<close>, leaf first. The fuel is the ordinal plus two; running
  out of it is an error value that no built index reaches (\<open>path_read_exact\<close>).
\<close>

fun read_loop ::
  "nat \<Rightarrow> ctx_poll \<Rightarrow> (entry \<Rightarrow> st_error option) \<Rightarrow> bool \<Rightarrow> path_node list \<Rightarrow> entry list \<Rightarrow> string
    \<Rightarrow> nat \<Rightarrow> int \<Rightarrow> entry list st_result" where
  "read_loop 0 ctx integ complete index es t poll ordinal = Inl (ErrMsg ''out of fuel'')"
| "read_loop (Suc fuel) ctx integ complete index es t poll ordinal =
    (if ordinal < 0 then Inr []
     else (case ctx poll of
        Some e \<Rightarrow> Inl e
      | None \<Rightarrow>
          let node = at index ordinal; e = at es ordinal in
          if \<not> matches_node index t node e then Inl ErrAuthorityCorrupt
          else (case if complete then integ e else None of
             Some err \<Rightarrow> Inl err
           | None \<Rightarrow> (case read_loop fuel ctx integ complete index es t (Suc poll) (pn_parent node) of
                Inl err \<Rightarrow> Inl err
              | Inr rest \<Rightarrow> Inr (e # rest)))))"

text \<open>
  The locator map built for a repository without derived indexes. On a blank or repeated ID the
  code returns with the map filled so far left in place.
\<close>

fun build_ordinals :: "int \<Rightarrow> (string \<rightharpoonup> int) \<Rightarrow> entry list \<Rightarrow> (string \<rightharpoonup> int) \<times> bool" where
  "build_ordinals n m [] = (m, True)"
| "build_ordinals n m (e # es) =
    (if ID e = '''' \<or> m (ID e) \<noteq> None then (m, False)
     else build_ordinals (n + 1) (m(ID e \<mapsto> n)) es)"

definition locate ::
  "journal \<Rightarrow> string \<Rightarrow> int st_result" where
  "locate j leaf =
    (case ordinal_of j leaf of
       None \<Rightarrow> Inl ErrEntryNotFound
     | Some k \<Rightarrow>
         if k < 0 \<or> k \<ge> int (length (jn_path j)) \<or> pn_id (at (jn_path j) k) \<noteq> leaf
         then Inl ErrAuthorityCorrupt else Inr k)"

definition locate_intact :: "journal \<Rightarrow> string \<Rightarrow> int st_result" where
  "locate_intact j leaf =
    (case locate j leaf of
       Inl e \<Rightarrow> Inl e
     | Inr k \<Rightarrow> (case pn_err (at (jn_path j) k) of Some e \<Rightarrow> Inl e | None \<Rightarrow> Inr k))"

definition readCanonicalPath ::
  "ctx_poll \<Rightarrow> (entry \<Rightarrow> st_error option) \<Rightarrow> repo \<Rightarrow> string \<Rightarrow> string \<Rightarrow> bool
    \<Rightarrow> repo \<times> entry list st_result" where
  "readCanonicalPath ctx integ r t leaf0 complete =
    (case ctx 0 of
       Some e \<Rightarrow> (r, Inl e)
     | None \<Rightarrow> (case thread r t of
         None \<Rightarrow> (r, Inl ErrThreadNotFound)
       | Some meta \<Rightarrow>
           let leaf = (if leaf0 = '''' then tm_LeafID meta else leaf0) in
           if leaf = '''' then (r, Inr [])
           else
             let j = rp_journal r t;
                 built = build_ordinals 0 Map.empty (jn_entries j);
                 j1 = (if jn_ordinals j = None then j\<lparr>jn_ordinals := Some (fst built)\<rparr> else j)
             in if jn_ordinals j = None \<and> \<not> snd built
                then (setJournal t j1 r, Inl ErrAuthorityCorrupt)
                else
                  let j2 = ensurePathIndex integ j1;
                      r2 = setJournal t j2 r
                  in (case locate_intact j2 leaf of
                        Inl e \<Rightarrow> (r2, Inl e)
                      | Inr k \<Rightarrow>
                          (case read_loop (nat k + 2) ctx integ complete (jn_path j2) (jn_entries j2)
                                  t 1 k of
                             Inl e \<Rightarrow> (r2, Inl e)
                           | Inr newest_first \<Rightarrow> (r2, Inr (rev newest_first))))))"

definition canonicalPath ::
  "ctx_poll \<Rightarrow> (entry \<Rightarrow> st_error option) \<Rightarrow> repo \<Rightarrow> string \<Rightarrow> string \<Rightarrow> repo \<times> entry list st_result" where
  "canonicalPath ctx integ r t leaf = readCanonicalPath ctx integ r t leaf True"

text \<open>The loop of \<open>visitPathPageLocked\<close>: at most \<open>limit - count\<close> more entries.\<close>

fun visit_loop ::
  "nat \<Rightarrow> ctx_poll \<Rightarrow> (entry \<Rightarrow> 'a st_result) \<Rightarrow> path_node list \<Rightarrow> entry list \<Rightarrow> string \<Rightarrow> nat
    \<Rightarrow> string \<Rightarrow> int \<Rightarrow> ('a list \<times> string \<times> int) st_result" where
  "visit_loop 0 ctx visit index es t poll lastID ordinal = Inr ([], lastID, ordinal)"
| "visit_loop (Suc room) ctx visit index es t poll lastID ordinal =
    (if ordinal < 0 then Inr ([], lastID, ordinal)
     else (case ctx poll of
        Some e \<Rightarrow> Inl e
      | None \<Rightarrow>
          let node = at index ordinal; e = at es ordinal in
          if \<not> matches_node index t node e then Inl ErrAuthorityCorrupt
          else (case visit e of
             Inl err \<Rightarrow> Inl err
           | Inr x \<Rightarrow>
               (case visit_loop room ctx visit index es t (Suc poll) (ID e) (pn_parent node) of
                  Inl err \<Rightarrow> Inl err
                | Inr (xs, lastID', ordinal') \<Rightarrow> Inr (x # xs, lastID', ordinal')))))"

definition empty_page :: "'a path_page" where
  "empty_page = \<lparr>pp_Entries = [], pp_NextEntryID = '''', pp_HasMore = False, pp_NewestOrdinal = 0\<rparr>"

text \<open>Where the page starts: the leaf, or the parent of the cursor entry when it is on the path.\<close>

definition page_start :: "journal \<Rightarrow> int \<Rightarrow> string \<Rightarrow> int st_result" where
  "page_start j k before =
    (if before = '''' then Inr k
     else (case locate j before of
        Inl e \<Rightarrow> Inl e
      | Inr b \<Rightarrow>
          if pathAncestor (jn_path j) k (pn_depth (at (jn_path j) b)) \<noteq> b
          then Inl ErrEntryNotFound else Inr (pn_parent (at (jn_path j) b))))"

definition visitPathPage ::
  "ctx_poll \<Rightarrow> (entry \<Rightarrow> st_error option) \<Rightarrow> (entry \<Rightarrow> 'a st_result) \<Rightarrow> repo \<Rightarrow> string \<Rightarrow> string
    \<Rightarrow> string \<Rightarrow> int \<Rightarrow> repo \<times> 'a path_page st_result" where
  "visitPathPage ctx integ visit r t leaf0 before limit =
    (case ctx 0 of
       Some e \<Rightarrow> (r, Inl e)
     | None \<Rightarrow> (case thread r t of
         None \<Rightarrow> (r, Inl ErrThreadNotFound)
       | Some meta \<Rightarrow>
           let leaf = (if leaf0 = '''' then tm_LeafID meta else leaf0) in
           if leaf = '''' then
             (r, if before \<noteq> '''' then Inl ErrEntryNotFound else Inr empty_page)
           else
             let j = ensurePathIndex integ (rp_journal r t);
                 r1 = setJournal t j r;
                 index = jn_path j
             in (r1, case locate_intact j leaf of
                  Inl e \<Rightarrow> Inl e
                | Inr k \<Rightarrow> (case page_start j k before of
                    Inl e \<Rightarrow> Inl e
                  | Inr s \<Rightarrow>
                      if s < 0 then Inr empty_page
                      else (case visit_loop (nat limit) ctx visit index (jn_entries j) t 1 '''' s of
                          Inl e \<Rightarrow> Inl e
                        | Inr (xs, lastID, rest) \<Rightarrow>
                            Inr \<lparr>pp_Entries = xs,
                                 pp_NextEntryID = (if rest \<ge> 0 then lastID else ''''),
                                 pp_HasMore = (rest \<ge> 0),
                                 pp_NewestOrdinal = pn_depth (at index s)\<rparr>)))))"

definition PathPage ::
  "ctx_poll \<Rightarrow> (entry \<Rightarrow> st_error option) \<Rightarrow> repo \<Rightarrow> string \<Rightarrow> string \<Rightarrow> string \<Rightarrow> int
    \<Rightarrow> repo \<times> entry path_page st_result" where
  "PathPage ctx integ r t leaf before limit =
    (if limit \<le> 0 then (r, Inl (ErrMsg ''path page limit must be positive''))
     else visitPathPage ctx integ
            (\<lambda>e. case integ e of Some err \<Rightarrow> Inl err | None \<Rightarrow> Inr e) r t leaf before limit)"

section \<open>Indexes that are up to date\<close>

definition ids_map :: "entry list \<Rightarrow> string \<rightharpoonup> int" where
  "ids_map es = map_of (zip (map ID es) (map int [0..<length es]))"

definition build_index :: "(entry \<Rightarrow> st_error option) \<Rightarrow> entry list \<Rightarrow> path_node list" where
  "build_index integ es = rebuildPathIndex integ (ids_map es) es"

definition paths_current :: "(entry \<Rightarrow> st_error option) \<Rightarrow> string \<Rightarrow> journal \<Rightarrow> bool" where
  "paths_current integ t j \<longleftrightarrow> distinct (map ID (jn_entries j))
     \<and> '''' \<notin> ID ` set (jn_entries j) \<and> (\<forall>e \<in> set (jn_entries j). ThreadID e = t)
     \<and> jn_ordinals j = Some (ids_map (jn_entries j))
     \<and> jn_path j = build_index integ (jn_entries j)"

text \<open>What a path is, without an index: entries in journal order, each the parent of the next.\<close>

fun linked :: "string \<Rightarrow> int \<Rightarrow> entry list \<Rightarrow> bool" where
  "linked parent d [] = True"
| "linked parent d (e # es) \<longleftrightarrow> ParentID e = parent \<and> PathDepth e = d \<and> linked (ID e) (d + 1) es"

definition path_to :: "(entry \<Rightarrow> st_error option) \<Rightarrow> entry list \<Rightarrow> string \<Rightarrow> entry list \<Rightarrow> bool" where
  "path_to integ es leaf p \<longleftrightarrow> p \<noteq> [] \<and> ID (last p) = leaf \<and> linked '''' 1 p \<and> subseq p es
     \<and> (\<forall>e \<in> set p. integ e = None)"

lemma linked_snoc:
  "linked parent d (p @ [e]) \<longleftrightarrow> linked parent d p
     \<and> ParentID e = (if p = [] then parent else ID (last p)) \<and> PathDepth e = d + int (length p)"
  by (induction p arbitrary: parent d) auto

lemma ids_map_Some:
  assumes "distinct (map ID es)"
  shows "ids_map es i = Some k \<longleftrightarrow> 0 \<le> k \<and> k < int (length es) \<and> ID (at es k) = i"
proof -
  have "ids_map es i = Some k \<longleftrightarrow> (i, k) \<in> set (zip (map ID es) (map int [0..<length es]))"
    unfolding ids_map_def using assms by (intro map_of_eq_Some_iff) simp
  also have "\<dots> \<longleftrightarrow> (\<exists>n < length es. i = ID (es ! n) \<and> k = int n)" (is "?L \<longleftrightarrow> ?R")
  proof
    show "?L \<Longrightarrow> ?R" by (auto simp: in_set_zip)
  next
    assume ?R
    then obtain n where "n < length es" "i = ID (es ! n)" "k = int n" by blast
    then show ?L by (auto simp: in_set_zip intro!: exI [of _ n])
  qed
  also have "\<dots> \<longleftrightarrow> 0 \<le> k \<and> k < int (length es) \<and> ID (at es k) = i"
    by (auto simp: at_def nat_less_iff intro!: exI [of _ "nat k"])
  finally show ?thesis .
qed

lemma ids_map_snoc:
  "ID e \<notin> ID ` set es \<Longrightarrow> ids_map (es @ [e]) = (ids_map es)(ID e \<mapsto> int (length es))"
proof
  fix i
  assume "ID e \<notin> ID ` set es"
  then have "ids_map es (ID e) = None"
    by (simp add: ids_map_def map_of_zip_is_None)
  moreover have "ids_map (es @ [e]) = [ID e \<mapsto> int (length es)] ++ ids_map es"
    by (simp add: ids_map_def)
  ultimately show "ids_map (es @ [e]) i = ((ids_map es)(ID e \<mapsto> int (length es))) i"
    by (simp add: map_add_def split: option.splits)
qed

lemma node_id [simp]: "pn_id (path_node_for integ index ords e) = ID e"
  and node_depth [simp]: "pn_depth (path_node_for integ index ords e) = PathDepth e"
  by (auto simp: path_node_for_def Let_def split: option.splits)

lemma rebuild_nth:
  "n < length es \<Longrightarrow> rebuildPathIndex integ ords es ! n
     = path_node_for integ (rebuildPathIndex integ ords (take n es)) ords (es ! n)"
proof (induction es rule: rev_induct)
  case (snoc e es)
  have r: "rebuildPathIndex integ ords (es @ [e]) = rebuildPathIndex integ ords es
      @ [path_node_for integ (rebuildPathIndex integ ords es) ords e]"
    by (simp add: rebuildPathIndex_def appendPathIndex_def)
  show ?case
  proof (cases "n < length es")
    case True
    with snoc show ?thesis by (simp add: r nth_append)
  next
    case False
    with snoc.prems have "n = length es" by simp
    with r show ?thesis by (simp add: nth_append)
  qed
qed simp

lemma rebuild_take:
  "rebuildPathIndex integ ords (take n es) = take n (rebuildPathIndex integ ords es)"
proof (induction es rule: rev_induct)
  case (snoc e es)
  have r: "rebuildPathIndex integ ords (es @ [e]) = rebuildPathIndex integ ords es
      @ [path_node_for integ (rebuildPathIndex integ ords es) ords e]"
    by (simp add: rebuildPathIndex_def appendPathIndex_def)
  show ?case
  proof (cases "n \<le> length es")
    case True
    with snoc show ?thesis by (simp add: r)
  next
    case False
    then have "take n (es @ [e]) = es @ [e]" by simp
    moreover have "length (rebuildPathIndex integ ords (es @ [e])) \<le> n" using False by simp
    ultimately show ?thesis by (simp only: take_all)
  qed
qed (simp add: rebuildPathIndex_def)

lemma length_build_index [simp]: "length (build_index integ es) = length es"
  by (simp add: build_index_def)

lemma build_index_ok: "index_ok (build_index integ es)"
  by (simp add: build_index_def rebuildPathIndex_ok)

lemma build_at:
  "0 \<le> k \<Longrightarrow> k < int (length es) \<Longrightarrow> at (build_index integ es) k
     = path_node_for integ (take (nat k) (build_index integ es)) (ids_map es) (at es k)"
  by (simp add: at_def build_index_def rebuild_nth rebuild_take nat_less_iff)

lemma build_id: "0 \<le> k \<Longrightarrow> k < int (length es) \<Longrightarrow> pn_id (at (build_index integ es) k) = ID (at es k)"
  and build_depth:
    "0 \<le> k \<Longrightarrow> k < int (length es) \<Longrightarrow> pn_depth (at (build_index integ es) k) = PathDepth (at es k)"
  by (simp_all add: build_at)

lemma at_take: "0 \<le> i \<Longrightarrow> i < k \<Longrightarrow> at (take (nat k) xs) i = at xs i"
  by (simp add: at_def nat_less_iff)

lemma parent_lookup:
  assumes "distinct (map ID es)" "0 \<le> k" "k < int (length es)"
  shows "path_parent (take (nat k) (build_index integ es)) (ids_map es) i
    = (case ids_map es i of None \<Rightarrow> None | Some p \<Rightarrow> if p < k then Some p else None)"
proof (cases "ids_map es i")
  case (Some p)
  then have p: "0 \<le> p" "p < int (length es)" "ID (at es p) = i"
    using ids_map_Some [OF assms(1)] by auto
  show ?thesis
    using Some p assms(2,3) build_id [of p es integ] at_take [of p k "build_index integ es"]
    by (auto simp: path_parent_def)
qed (simp add: path_parent_def)

lemma node_intact:
  assumes d: "distinct (map ID es)" and k: "0 \<le> k" "k < int (length es)"
  shows "pn_err (at (build_index integ es) k) = None \<longleftrightarrow> integ (at es k) = None
    \<and> (if ParentID (at es k) = '''' then PathDepth (at es k) = 1
       else (\<exists>p. ids_map es (ParentID (at es k)) = Some p \<and> p < k
              \<and> pn_err (at (build_index integ es) p) = None
              \<and> PathDepth (at es k) = PathDepth (at es p) + 1))"
  (is "?err \<longleftrightarrow> ?ok")
  and "pn_parent (at (build_index integ es) k)
    = (if ParentID (at es k) = '''' then - 1
       else (case ids_map es (ParentID (at es k)) of
               None \<Rightarrow> - 1 | Some p \<Rightarrow> if p < k then p else - 1))"
    (is "?parent")
proof -
  have p: "at (take (nat k) (build_index integ es)) p = at (build_index integ es) p"
    "pn_depth (at (build_index integ es) p) = PathDepth (at es p)"
    if "ids_map es i = Some p" "p < k" for p i
    using that k at_take [of p k] ids_map_Some [OF d, of i p] by (auto simp: build_depth)
  show "?err \<longleftrightarrow> ?ok" and "?parent"
    using p by (auto simp: build_at [OF k] path_node_for_def Let_def parent_lookup [OF d k]
        split: option.splits if_splits)
qed

lemma intact_links:
  assumes d: "distinct (map ID es)" and k: "0 \<le> k" "k < int (length es)"
    and e: "pn_err (at (build_index integ es) k) = None"
  shows "integ (at es k) = None"
    and "pn_parent (at (build_index integ es) k) < 0 \<longleftrightarrow> ParentID (at es k) = ''''"
    and "0 \<le> pn_parent (at (build_index integ es) k) \<Longrightarrow>
      ID (at es (pn_parent (at (build_index integ es) k))) = ParentID (at es k)"
proof -
  note n = node_intact [OF d k, of integ]
  show "integ (at es k) = None" using n(1) e by blast
  have *: "0 \<le> pn_parent (at (build_index integ es) k)
      \<and> ID (at es (pn_parent (at (build_index integ es) k))) = ParentID (at es k)"
    if nz: "ParentID (at es k) \<noteq> ''''"
  proof -
    obtain p where p: "ids_map es (ParentID (at es k)) = Some p" "p < k"
      using n(1) nz e by auto
    then have "pn_parent (at (build_index integ es) k) = p" using n(2) nz by simp
    then show ?thesis using ids_map_Some [OF d, of "ParentID (at es k)" p] p(1) by simp
  qed
  show "pn_parent (at (build_index integ es) k) < 0 \<longleftrightarrow> ParentID (at es k) = ''''"
    using n(2) * by (cases "ParentID (at es k) = ''''") auto
  show "0 \<le> pn_parent (at (build_index integ es) k) \<Longrightarrow>
      ID (at es (pn_parent (at (build_index integ es) k))) = ParentID (at es k)"
    using n(2) * by (cases "ParentID (at es k) = ''''") auto
qed

section \<open>Chains are paths\<close>

definition chain_path :: "path_node list \<Rightarrow> entry list \<Rightarrow> int \<Rightarrow> entry list" where
  "chain_path index es k = rev (map (at es) (chain index k))"

lemma take_Suc_at: "0 \<le> k \<Longrightarrow> k < int (length es) \<Longrightarrow> take (Suc (nat k)) es = take (nat k) es @ [at es k]"
  by (simp add: at_def take_Suc_conv_app_nth nat_less_iff)

lemma chain_path_step:
  "0 \<le> k \<Longrightarrow> k < int (length es) \<Longrightarrow> chain_path (build_index integ es) es k
     = chain_path (build_index integ es) es (pn_parent (at (build_index integ es) k)) @ [at es k]"
  by (simp add: chain_path_def chain_step [OF build_index_ok])

lemma chain_path_linked:
  assumes d: "distinct (map ID es)"
  shows "0 \<le> k \<Longrightarrow> k < int (length es) \<Longrightarrow> pn_err (at (build_index integ es) k) = None \<Longrightarrow>
    linked '''' 1 (chain_path (build_index integ es) es k)
    \<and> int (length (chain_path (build_index integ es) es k)) = PathDepth (at es k)
    \<and> subseq (chain_path (build_index integ es) es k) (take (Suc (nat k)) es)
    \<and> (\<forall>e \<in> set (chain_path (build_index integ es) es k). integ e = None)"
proof (induction "nat k" arbitrary: k rule: less_induct)
  case less
  let ?I = "build_index integ es" and ?p = "pn_parent (at (build_index integ es) k)"
  note ok = index_okD [OF build_index_ok, of k integ es]
  note i = intact_links [OF d less(2-4)]
  note step = chain_path_step [OF less(2,3), of integ]
  have depth: "int (length (chain_path ?I es k)) = PathDepth (at es k)"
    using chain_facts [OF build_index_ok _ _ less(4)] less(2,3)
    by (simp add: chain_path_def build_depth)
  show ?case
  proof (cases "?p < 0")
    case True
    then have "chain_path ?I es ?p = []" by (simp add: chain_path_def)
    with step have "chain_path ?I es k = [at es k]" by simp
    then show ?thesis using True i(1,2) depth take_Suc_at [OF less(2,3)]
      by (auto simp: subseq_singleton_left)
  next
    case False
    have pk: "?p < k" "?p < int (length es)" "pn_err (at ?I ?p) = None"
      using ok(2,7) False less(2-4) by auto
    from less(1) [of ?p] False pk have ih:
      "linked '''' 1 (chain_path ?I es ?p)"
      "int (length (chain_path ?I es ?p)) = PathDepth (at es ?p)"
      "subseq (chain_path ?I es ?p) (take (Suc (nat ?p)) es)"
      "\<forall>e \<in> set (chain_path ?I es ?p). integ e = None" by auto
    have last: "chain_path ?I es ?p \<noteq> []" "last (chain_path ?I es ?p) = at es ?p"
      using chain_path_step [of ?p es integ] False pk by auto
    have "take (Suc (nat ?p)) es = take (Suc (nat ?p)) (take (nat k) es)"
      using pk False by (simp add: min_def)
    then have "subseq (chain_path ?I es ?p) (take (nat k) es)"
      using ih(3) by (metis subseq_order.trans prefix_imp_subseq take_is_prefix)
    then have "subseq (chain_path ?I es k) (take (Suc (nat k)) es)"
      by (simp add: step take_Suc_at [OF less(2,3)] list_emb_append_mono)
    moreover have "linked '''' 1 (chain_path ?I es k)"
      using ih(1) last i(3) False depth by (simp add: step linked_snoc)
    ultimately show ?thesis using depth ih(4) i(1) by (auto simp: step)
  qed
qed

lemma chain_path_to:
  assumes d: "distinct (map ID es)"
    and k: "0 \<le> k" "k < int (length es)" "pn_err (at (build_index integ es) k) = None"
  shows "path_to integ es (ID (at es k)) (chain_path (build_index integ es) es k)"
proof -
  from chain_path_linked [OF d k] have "subseq (chain_path (build_index integ es) es k) es"
    by (metis subseq_order.trans prefix_imp_subseq take_is_prefix)
  with chain_path_linked [OF d k] chain_path_step [OF k(1,2), of integ]
  show ?thesis by (auto simp: path_to_def)
qed

lemma in_set_at: "e \<in> set es \<longleftrightarrow> (\<exists>k. 0 \<le> k \<and> k < int (length es) \<and> at es k = e)"
proof
  assume "e \<in> set es"
  then obtain n where "n < length es" "es ! n = e" by (auto simp: in_set_conv_nth)
  then show "\<exists>k. 0 \<le> k \<and> k < int (length es) \<and> at es k = e"
    by (intro exI [of _ "int n"]) (simp add: at_def)
qed (auto simp: at_def nat_less_iff)

lemma at_inj:
  fixes es :: "entry list"
  shows "distinct (map ID es) \<Longrightarrow> 0 \<le> k \<Longrightarrow> k < int (length es) \<Longrightarrow> 0 \<le> m \<Longrightarrow> m < int (length es) \<Longrightarrow>
    ID (at es k) = ID (at es m) \<Longrightarrow> k = m"
  using ids_map_Some [of es "ID (at es k)" k] ids_map_Some [of es "ID (at es k)" m] by simp

lemma path_is_chain:
  assumes d: "distinct (map ID es)" and ne: "'''' \<notin> ID ` set es"
  shows "p \<noteq> [] \<Longrightarrow> linked '''' 1 p \<Longrightarrow> subseq p es \<Longrightarrow> \<forall>e \<in> set p. integ e = None \<Longrightarrow>
    \<exists>k. 0 \<le> k \<and> k < int (length es) \<and> at es k = last p
      \<and> pn_err (at (build_index integ es) k) = None \<and> p = chain_path (build_index integ es) es k"
proof (induction p rule: rev_induct)
  case (snoc e q)
  from snoc.prems(3) obtain us vs where uv: "es = us @ vs" "subseq q us" "subseq [e] vs"
    by (auto dest: list_emb_appendD)
  then have "e \<in> set vs" by (simp add: subseq_singleton_left)
  then obtain m where m: "0 \<le> m" "m < int (length vs)" "at vs m = e" by (auto simp: in_set_at)
  define k where "k = int (length us) + m"
  have k: "0 \<le> k" "k < int (length es)" "at es k = e" "int (length us) \<le> k"
    using m uv(1) by (auto simp: k_def at_def nth_append nat_add_distrib)
  let ?I = "build_index integ es"
  show ?case
  proof (cases "q = []")
    case True
    then have "ParentID e = ''''" "PathDepth e = 1" "integ e = None" using snoc.prems by auto
    then have "pn_err (at ?I k) = None \<and> pn_parent (at ?I k) = - 1"
      using node_intact [OF d k(1,2), of integ] k(3) by simp
    then show ?thesis
      using True k chain_path_step [OF k(1,2), of integ] by (intro exI [of _ k]) (simp add: chain_path_def)
  next
    case False
    have "linked '''' 1 q" "ParentID e = ID (last q)" "PathDepth e = 1 + int (length q)" "integ e = None"
      using snoc.prems False by (auto simp: linked_snoc)
    note e = this
    have "subseq q es" using uv(1,2) by (simp add: subseq_rev_drop_many)
    moreover have "\<forall>e \<in> set q. integ e = None" using snoc.prems(4) by simp
    ultimately obtain p where p:
      "0 \<le> p" "p < int (length es)" "at es p = last q" "pn_err (at ?I p) = None"
      "q = chain_path ?I es p" using snoc.IH [OF False e(1)] by blast
    have "last q \<in> set us" using list_emb_set [OF uv(2), of "last q"] False by auto
    then obtain p' where p': "0 \<le> p'" "p' < int (length us)" "at us p' = last q" by (auto simp: in_set_at)
    then have "at es p' = last q" "p' < int (length es)"
      using at_append [of p' us vs] by (simp_all add: uv(1))
    then have "p = p'" by (intro at_inj [OF d p(1,2) p'(1)]) (simp_all add: p(3))
    then have "p < k" using p' k(4) by simp
    have "ids_map es (ParentID e) = Some p" using ids_map_Some [OF d] p(1-3) e(2) by simp
    moreover have "PathDepth e = PathDepth (at es p) + 1"
      using chain_path_linked [OF d p(1,2,4)] p(5) e(3) by simp
    moreover have "ParentID e \<noteq> ''''"
      using ne e(2) p(1-3) in_set_at [of "last q" es] by force
    ultimately have "pn_err (at ?I k) = None \<and> pn_parent (at ?I k) = p"
      using node_intact [OF d k(1,2), of integ] k(3) \<open>p < k\<close> p(4) e(4) by simp
    then show ?thesis
      using k p chain_path_step [OF k(1,2), of integ] by (intro exI [of _ k]) simp
  qed
qed simp

section \<open>What the reads return\<close>

lemma at_mem: "0 \<le> k \<Longrightarrow> k < int (length es) \<Longrightarrow> at es k \<in> set es"
  by (simp add: at_def nat_less_iff)

lemma intact_matches:
  assumes d: "distinct (map ID es)" and t: "\<forall>e \<in> set es. ThreadID e = t"
    and k: "0 \<le> k" "k < int (length es)" "pn_err (at (build_index integ es) k) = None"
  shows "matches_node (build_index integ es) t (at (build_index integ es) k) (at es k)"
proof -
  note i = intact_links [OF d k]
  have "pn_parent (at (build_index integ es) k) < int (length es)"
    using index_okD(2) [OF build_index_ok, of k integ es] k by simp
  with i show ?thesis
    using k t at_mem [OF k(1,2)] by (auto simp: matches_node_def build_id build_depth)
qed

lemma intact_parent:
  assumes "0 \<le> k" "k < int (length es)" "pn_err (at (build_index integ es) k) = None"
  shows "- 1 \<le> pn_parent (at (build_index integ es) k)"
    "pn_parent (at (build_index integ es) k) < int (length es)"
    "pn_parent (at (build_index integ es) k) < k"
    "0 \<le> pn_parent (at (build_index integ es) k) \<Longrightarrow>
      pn_err (at (build_index integ es) (pn_parent (at (build_index integ es) k))) = None"
  using index_okD(1,2,7) [OF build_index_ok, of k integ es] assms by auto

lemma read_loop_exact:
  assumes d: "distinct (map ID es)" and t: "\<forall>e \<in> set es. ThreadID e = t" and c: "\<forall>n. ctx n = None"
  shows "- 1 \<le> k \<Longrightarrow> k < int (length es) \<Longrightarrow>
    (0 \<le> k \<longrightarrow> pn_err (at (build_index integ es) k) = None) \<Longrightarrow> nat (k + 1) < fuel \<Longrightarrow>
    read_loop fuel ctx integ complete (build_index integ es) es t poll k
      = Inr (map (at es) (chain (build_index integ es) k))"
proof (induction fuel arbitrary: k poll)
  case (Suc fuel)
  show ?case
  proof (cases "k < 0")
    case False
    then have k: "0 \<le> k" "k < int (length es)" "pn_err (at (build_index integ es) k) = None"
      using Suc.prems by auto
    note p = intact_parent [OF k]
    have "read_loop fuel ctx integ complete (build_index integ es) es t (Suc poll)
        (pn_parent (at (build_index integ es) k))
      = Inr (map (at es) (chain (build_index integ es) (pn_parent (at (build_index integ es) k))))"
      using p Suc.prems(4) by (intro Suc.IH) auto
    with False show ?thesis
      using spec [OF c, of poll] intact_matches [OF d t k] intact_links(1) [OF d k] chain_step [OF build_index_ok, of k integ es] k
      by (cases complete) (simp_all add: Let_def)
  qed simp
qed simp

lemma visit_loop_exact:
  assumes d: "distinct (map ID es)" and t: "\<forall>e \<in> set es. ThreadID e = t" and c: "\<forall>n. ctx n = None"
    and v: "\<And>e. e \<in> set es \<Longrightarrow> integ e = None \<Longrightarrow> visit e = Inr (f e)"
  shows "- 1 \<le> k \<Longrightarrow> k < int (length es) \<Longrightarrow>
    (0 \<le> k \<longrightarrow> pn_err (at (build_index integ es) k) = None) \<Longrightarrow>
    visit_loop room ctx visit (build_index integ es) es t poll lastID k
      = Inr (map (f \<circ> at es) (take room (chain (build_index integ es) k)),
             (if room = 0 \<or> k < 0 then lastID
              else ID (at es (last (take room (chain (build_index integ es) k))))),
             (if room < length (chain (build_index integ es) k)
              then chain (build_index integ es) k ! room else - 1))"
proof (induction room arbitrary: k poll lastID)
  case 0
  then show ?case
    using chain_step [OF build_index_ok, of k integ es] by (cases "k < 0") auto
next
  case (Suc room)
  show ?case
  proof (cases "k < 0")
    case True
    with Suc.prems(1) show ?thesis by simp
  next
    case False
    then have k: "0 \<le> k" "k < int (length es)" "pn_err (at (build_index integ es) k) = None"
      using Suc.prems by auto
    note p = intact_parent [OF k]
    let ?p = "pn_parent (at (build_index integ es) k)"
    have "visit (at es k) = Inr (f (at es k))"
      using v at_mem [OF k(1,2)] intact_links(1) [OF d k] by blast
    moreover have "chain (build_index integ es) ?p = [] \<longleftrightarrow> ?p < 0"
      using chain_step [OF build_index_ok, of ?p integ es] p(2) by (cases "?p < 0") auto
    ultimately show ?thesis
      using False spec [OF c, of poll] intact_matches [OF d t k] chain_step [OF build_index_ok, of k integ es] k
        Suc.IH [OF p(1,2)] p(4)
      by (cases room) (auto simp: Let_def)
  qed
qed

lemma path_read:
  assumes r: "thread r t = Some meta" and j: "paths_current integ t (rp_journal r t)"
    and c: "\<forall>n. ctx n = None" and leaf: "leaf \<noteq> ''''"
  shows "fst (canonicalPath ctx integ r t leaf) = r
    \<and> (snd (canonicalPath ctx integ r t leaf) = Inr p
         \<longleftrightarrow> path_to integ (jn_entries (rp_journal r t)) leaf p)"
proof -
  let ?j = "rp_journal r t" and ?es = "jn_entries (rp_journal r t)"
  have d: "distinct (map ID ?es)" and t: "\<forall>e \<in> set ?es. ThreadID e = t"
    and o: "jn_ordinals ?j = Some (ids_map ?es)" and i: "jn_path ?j = build_index integ ?es"
    and ne: "'''' \<notin> ID ` set ?es"
    using j by (auto simp: paths_current_def)
  have e: "ensurePathIndex integ ?j = ?j" using i by (simp add: ensurePathIndex_def)
  have s: "setJournal t ?j r = r" by (simp add: setJournal_def)
  show ?thesis
  proof (cases "locate_intact ?j leaf")
    case (Inl err)
    have "\<not> path_to integ ?es leaf p"
    proof
      assume "path_to integ ?es leaf p"
      then obtain k where k: "0 \<le> k" "k < int (length ?es)" "ID (at ?es k) = leaf"
        "pn_err (at (build_index integ ?es) k) = None"
        using path_is_chain [OF d ne, of p integ] unfolding path_to_def by metis
      then have "ids_map ?es leaf = Some k" by (simp add: ids_map_Some [OF d])
      with k o i have "locate_intact ?j leaf = Inr k"
        by (simp add: locate_intact_def locate_def ordinal_of_def build_id)
      with Inl show False by simp
    qed
    with Inl spec [OF c, of 0] r leaf o e s show ?thesis
      by (simp add: canonicalPath_def readCanonicalPath_def Let_def)
  next
    case (Inr k)
    then have k: "0 \<le> k" "k < int (length ?es)" "pn_err (at (build_index integ ?es) k) = None"
      "ids_map ?es leaf = Some k"
      using o i by (auto simp: locate_intact_def locate_def ordinal_of_def split: option.splits if_splits)
    then have lf: "ID (at ?es k) = leaf" using ids_map_Some [OF d] by blast
    have "read_loop (nat k + 2) ctx integ True (build_index integ ?es) ?es t 1 k
        = Inr (map (at ?es) (chain (build_index integ ?es) k))"
      using k by (intro read_loop_exact [OF d t c]) auto
    then have "canonicalPath ctx integ r t leaf = (r, Inr (chain_path (build_index integ ?es) ?es k))"
      using Inr spec [OF c, of 0] r leaf o i e s
      by (simp add: canonicalPath_def readCanonicalPath_def Let_def chain_path_def)
    moreover have "path_to integ ?es leaf p \<longleftrightarrow> p = chain_path (build_index integ ?es) ?es k"
    proof
      assume p: "path_to integ ?es leaf p"
      then obtain m where m: "0 \<le> m" "m < int (length ?es)" "at ?es m = last p"
        "p = chain_path (build_index integ ?es) ?es m"
        using path_is_chain [OF d ne, of p integ] p unfolding path_to_def by blast
      then have "m = k" using at_inj [OF d m(1,2) k(1,2)] lf p by (simp add: path_to_def)
      with m show "p = chain_path (build_index integ ?es) ?es k" by simp
    qed (use chain_path_to [OF d k(1-3)] lf in simp)
    ultimately show ?thesis by auto
  qed
qed

text \<open>
  C12: On a journal whose indexes are up to date, reading the path of a leaf returns \<open>p\<close> exactly when
  \<open>p\<close> is the path to that leaf: entries in journal order, the first without a parent at depth 1, each
  the parent of the next and one less deep, all passing the integrity check. The read ends
  and changes nothing.
\<close>

theorem path_read_exact:
  assumes r: "thread r t = Some meta" and j: "paths_current integ t (rp_journal r t)"
    and c: "\<forall>n. ctx n = None" and leaf: "leaf \<noteq> ''''"
  shows "fst (canonicalPath ctx integ r t leaf) = r
    \<and> (snd (canonicalPath ctx integ r t leaf) = Inr p
         \<longleftrightarrow> path_to integ (jn_entries (rp_journal r t)) leaf p)"
  by (rule path_read [OF assms])

definition fork_entries :: "entry list" where
  "fork_entries = map (\<lambda>(i, p, d). zero_entry\<lparr>ID := i, ThreadID := ''t'', ParentID := p, PathDepth := d\<rparr>)
     [(''a'', '''', 1), (''b'', ''a'', 2), (''c'', ''a'', 2), (''d'', ''b'', 3), (''e'', ''d'', 4)]"

definition fork_repo :: repo where
  "fork_repo = setThread ''t'' (zero_meta\<lparr>tm_ID := ''t'', tm_LeafID := ''e''\<rparr>)
     (setJournal ''t'' (empty_journal\<lparr>jn_entries := fork_entries,
        jn_ordinals := Some (ids_map fork_entries),
        jn_path := build_index (\<lambda>_. None) fork_entries\<rparr>) newMemoryRepo)"

lemma fork_repo_current:
  "thread fork_repo ''t'' = Some (zero_meta\<lparr>tm_ID := ''t'', tm_LeafID := ''e''\<rparr>)"
  "paths_current (\<lambda>_. None) ''t'' (rp_journal fork_repo ''t'')"
  "jn_entries (rp_journal fork_repo ''t'') = fork_entries"
proof -
  show "thread fork_repo ''t'' = Some (zero_meta\<lparr>tm_ID := ''t'', tm_LeafID := ''e''\<rparr>)"
    by (simp add: fork_repo_def repo_simps)
  have j: "rp_journal fork_repo ''t'' = empty_journal\<lparr>jn_entries := fork_entries,
      jn_ordinals := Some (ids_map fork_entries), jn_path := build_index (\<lambda>_. None) fork_entries\<rparr>"
    by (simp add: fork_repo_def setThread_def setJournal_def)
  then show "jn_entries (rp_journal fork_repo ''t'') = fork_entries" by simp
  have "distinct (map ID fork_entries)" by code_simp
  moreover have "'''' \<notin> ID ` set fork_entries" by code_simp
  moreover have "\<forall>e \<in> set fork_entries. ThreadID e = ''t''" by code_simp
  ultimately show "paths_current (\<lambda>_. None) ''t'' (rp_journal fork_repo ''t'')"
    by (simp add: paths_current_def j)
qed

theorem path_read_exact_witness:
  "snd (canonicalPath (\<lambda>_. None) (\<lambda>_. None) fork_repo ''t'' ''e'')
     = Inr (map (at fork_entries) [0, 1, 3, 4])"
proof -
  have "path_to (\<lambda>_. None) fork_entries ''e'' (map (at fork_entries) [0, 1, 3, 4])"
    by code_simp
  with path_read_exact [OF fork_repo_current(1,2), of "\<lambda>_. None" "''e''" "map (at fork_entries) [0, 1, 3, 4]"]
  show ?thesis by (simp add: fork_repo_current(3))
qed

section \<open>Pages\<close>

lemma chain_drop:
  assumes "index_ok index"
  shows "- 1 \<le> k \<Longrightarrow> k < int (length index) \<Longrightarrow> (0 \<le> k \<longrightarrow> pn_err (at index k) = None) \<Longrightarrow>
    n < length (chain index k) \<Longrightarrow> chain index (chain index k ! n) = drop n (chain index k)"
proof (induction n arbitrary: k)
  case 0
  then show ?case using chain_step [OF assms, of k] by (cases "k < 0") auto
next
  case (Suc n)
  then have "\<not> k < 0" by (intro notI) simp
  then have k: "0 \<le> k" "pn_err (at index k) = None" using Suc.prems(3) by auto
  note ok = index_okD [OF assms k(1) Suc.prems(2)]
  have "- 1 \<le> pn_parent (at index k)" "pn_parent (at index k) < int (length index)"
    "0 \<le> pn_parent (at index k) \<longrightarrow> pn_err (at index (pn_parent (at index k))) = None"
    using ok(1,2,7) k Suc.prems(2) by auto
  note ih = Suc.IH [OF this]
  show ?case using ih Suc.prems(4) chain_step [OF assms k(1) Suc.prems(2)] by simp
qed

text \<open>Where a page that follows the first \<open>n\<close> entries starts.\<close>

definition chain_from :: "path_node list \<Rightarrow> int \<Rightarrow> nat \<Rightarrow> int" where
  "chain_from index k n = (if n < length (chain index k) then chain index k ! n else - 1)"

lemma chain_from_facts:
  assumes "0 \<le> k" "k < int (length es)" "pn_err (at (build_index integ es) k) = None"
  defines "I \<equiv> build_index integ es"
  shows "chain I (chain_from I k n) = drop n (chain I k)"
    "- 1 \<le> chain_from I k n" "chain_from I k n < int (length es)"
    "0 \<le> chain_from I k n \<longrightarrow> pn_err (at I (chain_from I k n)) = None"
proof -
  have f: "\<forall>x \<in> set (chain I k). 0 \<le> x \<and> x \<le> k \<and> pn_err (at I x) = None"
    using chain_facts [OF build_index_ok, of k integ es] assms by simp
  have m: "n < length (chain I k) \<Longrightarrow> chain I k ! n \<in> set (chain I k)" by simp
  show "chain I (chain_from I k n) = drop n (chain I k)"
    using chain_drop [OF build_index_ok, of k integ es n] assms by (auto simp: chain_from_def)
  show "- 1 \<le> chain_from I k n" "chain_from I k n < int (length es)"
    "0 \<le> chain_from I k n \<longrightarrow> pn_err (at I (chain_from I k n)) = None"
    using f m assms(2) by (fastforce simp: chain_from_def)+
qed

lemma chain_next:
  assumes "0 \<le> k" "k < int (length es)" "pn_err (at (build_index integ es) k) = None"
    "n < length (chain (build_index integ es) k)"
  shows "pn_parent (at (build_index integ es) (chain (build_index integ es) k ! n))
    = chain_from (build_index integ es) k (Suc n)"
proof -
  let ?I = "build_index integ es" and ?x = "chain (build_index integ es) k ! n"
  have x: "0 \<le> ?x" "?x < int (length es)" "pn_err (at ?I ?x) = None"
    using chain_facts [OF build_index_ok, of k integ es] assms by (auto dest!: nth_mem)
  have "?x # chain ?I (pn_parent (at ?I ?x)) = drop n (chain ?I k)"
    using chain_step [OF build_index_ok, of ?x integ es] x
      chain_drop [OF build_index_ok, of k integ es n] assms by simp
  then have c: "chain ?I (pn_parent (at ?I ?x)) = drop (Suc n) (chain ?I k)"
    by (metis drop_Suc list.sel(3) tl_drop)
  note p = intact_parent [OF x]
  show ?thesis
  proof (cases "pn_parent (at ?I ?x) < 0")
    case True
    with c p(1) show ?thesis by (auto simp: chain_from_def)
  next
    case False
    with c chain_step [OF build_index_ok, of "pn_parent (at ?I ?x)" integ es] p(2)
    have "drop (Suc n) (chain ?I k) = pn_parent (at ?I ?x) # chain ?I (pn_parent (at ?I (pn_parent (at ?I ?x))))"
      by simp
    then have "Suc n < length (chain ?I k)" "chain ?I k ! Suc n = pn_parent (at ?I ?x)"
      by (metis drop_eq_Nil list.distinct(1) not_le, metis hd_drop_conv_nth drop_eq_Nil list.distinct(1) list.sel(1) not_le)
    then show ?thesis by (simp add: chain_from_def)
  qed
qed

lemma ancestor_at_chain:
  assumes "0 \<le> k" "k < int (length es)" "pn_err (at (build_index integ es) k) = None"
    "b \<in> set (chain (build_index integ es) k)"
  shows "pathAncestor (build_index integ es) k (pn_depth (at (build_index integ es) b)) = b"
proof -
  let ?I = "build_index integ es"
  have b: "0 \<le> b" "b < int (length es)"
    using chain_facts [OF build_index_ok, of k integ es] assms by auto
  from chain_suffix [OF build_index_ok, of k integ es b] assms obtain pre where
    "chain ?I k = pre @ chain ?I b" "\<forall>y \<in> set pre. pn_depth (at ?I y) > pn_depth (at ?I b)"
    by auto
  then have "ancestor_at ?I k (pn_depth (at ?I b)) = b"
    using chain_step [OF build_index_ok, of b integ es] b
    by (simp add: ancestor_at_def list_find_skip not_le)
  then show ?thesis using pathAncestor_ok [OF build_index_ok, of k integ es] assms by simp
qed

text \<open>The cursor that names the \<open>n\<close>-th entry from the leaf as the last one seen.\<close>

definition cursor :: "entry list \<Rightarrow> nat \<Rightarrow> string" where
  "cursor newest_first n = (if n = 0 then '''' else ID (newest_first ! (n - 1)))"

text \<open>
  C30: Paging is exact: on a journal whose indexes are up to date, the page of at most \<open>limit\<close>
  entries that follows the first \<open>n\<close> entries of the path, newest first, holds precisely the next
  entries, reports whether more exist, names the last returned entry as the next cursor, and
  starts at path position \<open>length p - n\<close>.
\<close>

theorem path_page_exact:
  assumes r: "thread r t = Some meta" and j: "paths_current integ t (rp_journal r t)"
    and c: "\<forall>n. ctx n = None" and leaf: "leaf \<noteq> ''''" and limit: "0 < limit"
    and p: "path_to integ (jn_entries (rp_journal r t)) leaf p" and n: "n \<le> length p"
  shows "PathPage ctx integ r t leaf (cursor (rev p) n) limit
    = (r, Inr \<lparr>pp_Entries = take (nat limit) (drop n (rev p)),
               pp_NextEntryID = (if n + nat limit < length p then cursor (rev p) (n + nat limit) else ''''),
               pp_HasMore = (n + nat limit < length p),
               pp_NewestOrdinal = int (length p - n)\<rparr>)"
proof -
  let ?j = "rp_journal r t" and ?es = "jn_entries (rp_journal r t)"
  let ?I = "build_index integ ?es"
  have d: "distinct (map ID ?es)" and t: "\<forall>e \<in> set ?es. ThreadID e = t"
    and o: "jn_ordinals ?j = Some (ids_map ?es)" and i: "jn_path ?j = ?I"
    and ne: "'''' \<notin> ID ` set ?es"
    using j by (auto simp: paths_current_def)
  have e: "ensurePathIndex integ ?j = ?j" using i by (simp add: ensurePathIndex_def)
  have s: "setJournal t ?j r = r" by (simp add: setJournal_def)
  obtain k where k: "0 \<le> k" "k < int (length ?es)" "pn_err (at ?I k) = None" "ID (at ?es k) = leaf"
    "p = chain_path ?I ?es k"
    using path_is_chain [OF d ne, of p integ] p unfolding path_to_def by metis
  have rp: "rev p = map (at ?es) (chain ?I k)" and lp: "length p = length (chain ?I k)"
    by (simp_all add: k(5) chain_path_def)
  have "ids_map ?es leaf = Some k" using k by (simp add: ids_map_Some [OF d])
  then have loc: "locate_intact ?j leaf = Inr k"
    using k o i by (simp add: locate_intact_def locate_def ordinal_of_def build_id)
  have mem: "0 \<le> x \<and> x < int (length ?es) \<and> pn_err (at ?I x) = None" if "x \<in> set (chain ?I k)" for x
    using chain_facts [OF build_index_ok, of k integ ?es] k that by auto
  have start: "page_start ?j k (cursor (rev p) n) = Inr (chain_from ?I k n)"
  proof (cases n)
    case 0
    then show ?thesis
      using chain_step [OF build_index_ok, of k integ ?es] k
      by (simp add: page_start_def cursor_def chain_from_def)
  next
    case (Suc m)
    let ?b = "chain ?I k ! m"
    have m: "m < length (chain ?I k)" using Suc n lp by simp
    then have b: "?b \<in> set (chain ?I k)" by simp
    have "cursor (rev p) n = ID (at ?es ?b)" using Suc m by (simp add: cursor_def rp)
    moreover have "at ?es ?b \<in> set ?es" using mem [OF b] by (intro at_mem) auto
    then have "ID (at ?es ?b) \<noteq> ''''" using ne by force
    moreover have "ids_map ?es (ID (at ?es ?b)) = Some ?b"
      using mem [OF b] by (simp add: ids_map_Some [OF d])
    then have "locate ?j (ID (at ?es ?b)) = Inr ?b"
      using mem [OF b] o i by (simp add: locate_def ordinal_of_def build_id)
    moreover have "pathAncestor ?I k (pn_depth (at ?I ?b)) = ?b"
      by (rule ancestor_at_chain [OF k(1-3) b])
    ultimately show ?thesis
      using chain_next [OF k(1-3) m] Suc i by (simp add: page_start_def)
  qed
  note f = chain_from_facts [OF k(1-3)]
  have visit: "visit_loop (nat limit) ctx (\<lambda>e. case integ e of Some err \<Rightarrow> Inl err | None \<Rightarrow> Inr e) ?I ?es t 1 ''''
      (chain_from ?I k n)
    = Inr (map (at ?es) (take (nat limit) (drop n (chain ?I k))),
           (if chain_from ?I k n < 0 then '''' else ID (at ?es (last (take (nat limit) (drop n (chain ?I k)))))),
           (if nat limit < length (chain ?I k) - n then chain ?I k ! (n + nat limit) else - 1))"
    using visit_loop_exact [OF d t c, of integ "\<lambda>e. case integ e of Some err \<Rightarrow> Inl err | None \<Rightarrow> Inr e"
        "\<lambda>e. e" "chain_from ?I k n" "nat limit" 1 "''''"] f limit
    by (auto simp: comp_def)
  show ?thesis
  proof (cases "n < length p")
    case False
    then have "chain_from ?I k n < 0" using lp by (simp add: chain_from_def)
    then show ?thesis
      using False n limit leaf r spec [OF c, of 0] e s i loc start
      by (simp add: PathPage_def visitPathPage_def Let_def empty_page_def)
  next
    case True
    then have ge: "0 \<le> chain_from ?I k n" "chain_from ?I k n = chain ?I k ! n"
      using mem [of "chain ?I k ! n"] lp by (auto simp: chain_from_def)
    have depth: "pn_depth (at ?I (chain_from ?I k n)) = int (length p - n)"
      using chain_facts [OF build_index_ok, of "chain_from ?I k n" integ ?es] f ge(1) lp by simp
    have more: "0 \<le> chain ?I k ! (n + nat limit)" if "n + nat limit < length (chain ?I k)"
      using mem [of "chain ?I k ! (n + nat limit)"] that by simp
    have last: "last (take (nat limit) (drop n (chain ?I k))) = chain ?I k ! (n + nat limit - 1)"
      if "n + nat limit < length (chain ?I k)"
      using that limit by (subst last_conv_nth) (auto simp: min_def)
    have cur: "cursor (rev p) (n + nat limit) = ID (at ?es (chain ?I k ! (n + nat limit - 1)))"
      if "n + nat limit < length (chain ?I k)"
      using that limit by (simp add: cursor_def rp)
    show ?thesis
      using True limit leaf r spec [OF c, of 0] e s i loc start visit ge(1) depth more last cur lp
      by (auto simp: PathPage_def visitPathPage_def Let_def rp drop_map take_map)
  qed
qed

theorem path_page_exact_witness:
  "PathPage (\<lambda>_. None) (\<lambda>_. None) fork_repo ''t'' ''e'' ''d'' 1
     = (fork_repo, Inr \<lparr>pp_Entries = [at fork_entries 1], pp_NextEntryID = ''b'', pp_HasMore = True,
                        pp_NewestOrdinal = 2\<rparr>)"
proof -
  let ?p = "map (at fork_entries) [0, 1, 3, 4]"
  have p: "path_to (\<lambda>_. None) (jn_entries (rp_journal fork_repo ''t'')) ''e'' ?p"
    unfolding fork_repo_current(3) by code_simp
  have c: "cursor (rev ?p) 2 = ''d''" "cursor (rev ?p) 3 = ''b''"
    "take 1 (drop 2 (rev ?p)) = [at fork_entries 1]" by code_simp+
  show ?thesis
    using path_page_exact [OF fork_repo_current(1,2) _ _ _ p, of "\<lambda>_. None" 1 2] c by simp
qed

section \<open>A read that fails half way\<close>

text \<open>
  On a repository without derived indexes a repeated entry ID makes the first read fail, but the
  half-built locator map stays, so the next read finds it and skips the check.
\<close>

definition duplicate_repo :: repo where
  "duplicate_repo = setThread ''t'' (zero_meta\<lparr>tm_ID := ''t'', tm_LeafID := ''b''\<rparr>)
     (setJournal ''t'' (empty_journal\<lparr>jn_entries := take 2 fork_entries @ take 1 fork_entries\<rparr>)
       newMemoryRepo)"

lemma second_read_skips_duplicate_check:
  "snd (canonicalPath (\<lambda>_. None) (\<lambda>_. None) duplicate_repo ''t'' '''') = Inl ErrAuthorityCorrupt"
  "snd (canonicalPath (\<lambda>_. None) (\<lambda>_. None)
     (fst (canonicalPath (\<lambda>_. None) (\<lambda>_. None) duplicate_repo ''t'' '''')) ''t'' '''')
   = Inr (take 2 fork_entries)"
  by code_simp+

end
