(* ===== verification/JsonText.thy ===== *)
theory JsonText
  imports FreshId
begin

text \<open>
  Text as the validators see it: the runes of a Go string, UTF-8 validity, and what
  \<^verbatim>\<open>json.Marshal\<close> writes for strings, numbers, objects and lists (HTML escaping on, as by
  default). The size limits on message payloads are limits on this text.
\<close>

section \<open>Runes\<close>

text \<open>The string cut at its runes; an invalid byte is a piece of its own.\<close>

function runes :: "string \<Rightarrow> string list" where
  "runes s = (if s = [] then [] else take (rune_width s) s # runes (drop (rune_width s) s))"
  by pat_completeness auto
termination
proof (relation "measure length", goal_cases)
  case (2 s)
  then show ?case using rune_width_pos [of s] by simp
qed simp

declare runes.simps [simp del]

lemma runes_Nil [simp]: "runes [] = []"
  by (simp add: runes.simps)

lemma runes_concat: "concat (runes s) = s"
proof (induction s rule: runes.induct)
  case (1 s)
  then show ?case by (cases "s = []") (simp_all add: runes.simps [of s])
qed

definition invalid_rune :: "string \<Rightarrow> bool" where
  "invalid_rune r \<longleftrightarrow> (case r of [c] \<Rightarrow> 128 \<le> byte_of c | _ \<Rightarrow> False)"

definition ValidString :: "string \<Rightarrow> bool" where
  "ValidString s \<longleftrightarrow> list_all (\<lambda>r. \<not> invalid_rune r) (runes s)"

definition RuneCountInString :: "string \<Rightarrow> nat" where
  "RuneCountInString s = length (runes s)"

text \<open>\<open>strings.ContainsAny\<close> against a list of valid runes.\<close>

definition ContainsAny :: "string \<Rightarrow> string list \<Rightarrow> bool" where
  "ContainsAny s chars \<longleftrightarrow> list_ex (\<lambda>r. r \<in> set chars) (runes s)"

definition bytes :: "nat list \<Rightarrow> string" where
  "bytes ns = map char_of ns"

definition line_breaks :: "string list" where
  "line_breaks = map bytes [[13], [10], [194, 133], [226, 128, 168], [226, 128, 169]]"

text \<open>\<open>unicode.IsControl\<close>: U+0000 to U+001F and U+007F to U+009F.\<close>

definition control_rune :: "string \<Rightarrow> bool" where
  "control_rune r \<longleftrightarrow> (case r of
     [a] \<Rightarrow> byte_of a < 32 \<or> byte_of a = 127
   | [a, b] \<Rightarrow> byte_of a = 194 \<and> 128 \<le> byte_of b \<and> byte_of b \<le> 159
   | _ \<Rightarrow> False)"

definition space_rune :: "string \<Rightarrow> bool" where
  "space_rune r \<longleftrightarrow> space_width r = length r \<and> r \<noteq> []"

section \<open>Encoding\<close>

definition hex_digit :: "nat \<Rightarrow> char" where
  "hex_digit n = ''0123456789abcdef'' ! n"

definition json_rune :: "string \<Rightarrow> string" where
  "json_rune r =
    (case r of
       [a] \<Rightarrow>
         let x = byte_of a in
         if 128 \<le> x then bytes [92] @ ''ufffd''
         else if x = 34 \<or> x = 92 then bytes [92, x]
         else if x = 8 then bytes [92] @ ''b'' else if x = 12 then bytes [92] @ ''f''
         else if x = 10 then bytes [92] @ ''n'' else if x = 13 then bytes [92] @ ''r''
         else if x = 9 then bytes [92] @ ''t''
         else if x < 32 \<or> x = 60 \<or> x = 62 \<or> x = 38
           then bytes [92] @ ''u00'' @ [hex_digit (x div 16), hex_digit (x mod 16)]
         else [a]
     | _ \<Rightarrow>
         if r = bytes [226, 128, 168] then bytes [92] @ ''u2028''
         else if r = bytes [226, 128, 169] then bytes [92] @ ''u2029'' else r)"

definition quoted :: "string \<Rightarrow> string" where
  "quoted s = bytes [34] @ s @ bytes [34]"

definition json_string :: "string \<Rightarrow> string" where
  "json_string s = quoted (concat (map json_rune (runes s)))"

fun comma_separated :: "string list \<Rightarrow> string" where
  "comma_separated [] = ''''"
| "comma_separated [x] = x"
| "comma_separated (x # y # ys) = x @ '','' @ comma_separated (y # ys)"

definition json_list :: "string list \<Rightarrow> string" where
  "json_list xs = ''['' @ comma_separated xs @ '']''"

text \<open>An object from its fields in order; \<open>omitempty\<close> fields that are empty are left out before.\<close>

definition json_object :: "(string \<times> string) list \<Rightarrow> string" where
  "json_object fs = ''{'' @ comma_separated (map (\<lambda>(k, v). quoted k @ '':'' @ v) fs) @ ''}''"

definition nonempty_field :: "string \<Rightarrow> string \<Rightarrow> (string \<times> string) list" where
  "nonempty_field k s = (if s = '''' then [] else [(k, json_string s)])"

lemma length_comma_separated:
  "length (comma_separated xs) = sum_list (map length xs) + (length xs - 1)"
  by (induction xs rule: comma_separated.induct) auto

end
