(* ===== verification/MessageContent.thy ===== *)
theory MessageContent
  imports JournalModel JsonText "HOL-Library.List_Lexorder" "HOL-Library.Char_ord"
begin

text \<open>
  What may be inside a message: the validators of attachments, references, host context items and
  model context snapshots (\<^verbatim>\<open>internal/session\<close>), assistant sources (\<^verbatim>\<open>internal/citation\<close>), and the
  rules of \<^verbatim>\<open>sessiontree.go\<close> on which entries may carry them. Every failure is an opaque error, and
  some loops range over a map, so a validator is a predicate.

  The environment holds what the validators take from elsewhere: the clock, JSON (of whole
  entries and of the payloads kept in them), SHA-256, URL and number parsing, and the activity
  presentations and control payloads of the tools package, which are opaque here.
\<close>

record url =
  url_Scheme :: string
  url_Hostname :: string
  url_User :: bool
  url_Opaque :: string

record work_invocation =
  iv_ThreadID :: string
  iv_TurnID :: string
  iv_RunID :: string
  iv_ToolCallID :: string
  iv_ToolName :: string
  iv_ArgumentHash :: string

record host_work =
  hw_Result :: string
  hw_Inherited :: bool
  hw_ID :: string
  hw_ExecutorID :: string
  hw_Invocation :: work_invocation
  hw_State :: string
  hw_Notice :: string
  hw_Notify :: bool
  hw_OutputUnavailable :: bool
  hw_Output :: "artifact_ref option"

record store_env =
  se_now :: go_time
  se_raw :: "entry \<Rightarrow> string"
  se_hash :: "string \<Rightarrow> string"
  se_parse_url :: "string \<Rightarrow> url option"
  se_parse_time :: "string \<Rightarrow> go_time option"
  se_atoi :: "string \<Rightarrow> int option"
  se_json_valid :: "string \<Rightarrow> bool"
  se_work_of_json :: "string \<Rightarrow> host_work option"
  se_json_of_work :: "host_work \<Rightarrow> string"
  se_ids_of_json :: "string \<Rightarrow> string list option"
  se_json_of_ids :: "string list \<Rightarrow> string"
  se_activity_ok :: "string \<Rightarrow> bool"
  se_activity_status :: "string option \<Rightarrow> string"
  se_ask_user_ok :: "string \<Rightarrow> bool"

section \<open>Attachments\<close>

definition MaxMessageAttachmentsPerTurn :: int where "MaxMessageAttachmentsPerTurn = 32"
definition MaxMessageAttachmentResourceBytes :: int where
  "MaxMessageAttachmentResourceBytes = 16 * 1024"
definition MaxMessageAttachmentNameRunes :: int where "MaxMessageAttachmentNameRunes = 1024"
definition MaxMessageAttachmentMIMETypeBytes :: int where "MaxMessageAttachmentMIMETypeBytes = 512"
definition MaxMessageAttachmentSizeBytes :: int where
  "MaxMessageAttachmentSizeBytes = 64 * 1024 * 1024"
definition MaxMessageAttachmentsTotalBytes :: int where
  "MaxMessageAttachmentsTotalBytes = 256 * 1024 * 1024"
definition MaxMessageAttachmentsPayloadBytes :: int where
  "MaxMessageAttachmentsPayloadBytes = 512 * 1024"

definition containsAttachmentControl :: "string \<Rightarrow> bool" where
  "containsAttachmentControl s = ContainsAny s (bytes [0] # line_breaks)"

definition validateMessageAttachmentTextStats :: "int \<Rightarrow> text_stats option \<Rightarrow> bool" where
  "validateMessageAttachmentTextStats sizeBytes stats =
    (case stats of
       None \<Rightarrow> True
     | Some s \<Rightarrow>
         \<not> (ax_UnicodeCodePointCount s < 0 \<or> ax_LogicalLineCount s < 0)
       \<and> \<not> (sizeBytes = 0 \<and> (ax_UnicodeCodePointCount s \<noteq> 0 \<or> ax_LogicalLineCount s \<noteq> 0))
       \<and> \<not> (ax_LogicalLineCount s = 0 \<and> ax_UnicodeCodePointCount s \<noteq> 0))"

definition attachment_Validate :: "message_attachment \<Rightarrow> bool" where
  "attachment_Validate a \<longleftrightarrow>
     list_all (\<lambda>s. ValidString s \<and> s \<noteq> '''' \<and> s = trim_space s \<and> \<not> containsAttachmentControl s)
       [at_ResourceRef a, at_Name a, at_MIMEType a]
   \<and> int (length (at_ResourceRef a)) \<le> MaxMessageAttachmentResourceBytes
   \<and> int (RuneCountInString (at_Name a)) \<le> MaxMessageAttachmentNameRunes
   \<and> int (length (at_MIMEType a)) \<le> MaxMessageAttachmentMIMETypeBytes
   \<and> 0 \<le> at_SizeBytes a \<and> at_SizeBytes a \<le> MaxMessageAttachmentSizeBytes
   \<and> validateMessageAttachmentTextStats (at_SizeBytes a) (at_TextStats a)"

definition json_attachment :: "message_attachment \<Rightarrow> string" where
  "json_attachment a = json_object
    ([(''resource_ref'', json_string (at_ResourceRef a)), (''name'', json_string (at_Name a)),
      (''mime_type'', json_string (at_MIMEType a))]
     @ (if at_SizeBytes a = 0 then [] else [(''size_bytes'', show_int (at_SizeBytes a))])
     @ (case at_TextStats a of
          None \<Rightarrow> []
        | Some s \<Rightarrow> [(''text_stats'', json_object
            [(''unicode_code_points'', show_int (ax_UnicodeCodePointCount s)),
             (''logical_lines'', show_int (ax_LogicalLineCount s))])]))"

text \<open>The loop over the attachments, with the resources seen and the bytes counted so far.\<close>

fun attachment_loop :: "string list \<Rightarrow> int \<Rightarrow> message_attachment list \<Rightarrow> bool" where
  "attachment_loop seen totalSize [] = True"
| "attachment_loop seen totalSize (a # as) =
    (attachment_Validate a \<and> at_ResourceRef a \<notin> set seen
   \<and> \<not> at_SizeBytes a > sub64 MaxMessageAttachmentsTotalBytes totalSize
   \<and> attachment_loop (at_ResourceRef a # seen) (add64 totalSize (at_SizeBytes a)) as)"

definition ValidateMessageAttachments :: "message_attachment list \<Rightarrow> bool" where
  "ValidateMessageAttachments as \<longleftrightarrow>
     int (length as) \<le> MaxMessageAttachmentsPerTurn \<and> attachment_loop [] 0 as
   \<and> int (length (json_list (map json_attachment as))) \<le> MaxMessageAttachmentsPayloadBytes"

definition ValidateStoredMessageAttachments :: "message_attachment list \<Rightarrow> bool" where
  "ValidateStoredMessageAttachments as \<longleftrightarrow>
     list_all (\<lambda>a. \<not> (blank (at_ResourceRef a) \<or> blank (at_Name a) \<or> blank (at_MIMEType a))
       \<and> 0 \<le> at_SizeBytes a
       \<and> validateMessageAttachmentTextStats (at_SizeBytes a) (at_TextStats a)) as"

section \<open>References\<close>

definition MaxMessageReferencesPerTurn :: int where "MaxMessageReferencesPerTurn = 128"
definition MaxMessageReferenceIDBytes :: int where "MaxMessageReferenceIDBytes = 128"
definition MaxMessageReferenceLabelRunes :: int where "MaxMessageReferenceLabelRunes = 256"
definition MaxMessageReferenceTextRunes :: int where "MaxMessageReferenceTextRunes = 12000"
definition MaxMessageReferenceResourceRefBytes :: int where
  "MaxMessageReferenceResourceRefBytes = 8192"
definition MaxMessageReferencesPayloadBytes :: int where
  "MaxMessageReferencesPayloadBytes = 256 * 1024"

definition containsReferenceLineBreak :: "string \<Rightarrow> bool" where
  "containsReferenceLineBreak s = ContainsAny s line_breaks"

definition reference_kind_ok :: "message_reference \<Rightarrow> bool" where
  "reference_kind_ok r =
    (if mr_Kind r = ''thread'' then
       validate_identity (mr_ReferencedThreadID r) \<and> \<not> (blank (mr_Text r) \<or> mr_ResourceRef r \<noteq> '''')
     else if mr_Kind r = ''text'' \<or> mr_Kind r = ''terminal'' \<or> mr_Kind r = ''process'' then
       \<not> blank (mr_Text r) \<and> mr_ResourceRef r = ''''
     else if mr_Kind r = ''file'' \<or> mr_Kind r = ''directory'' then \<not> blank (mr_ResourceRef r)
     else False)"

definition reference_Validate :: "message_reference \<Rightarrow> bool" where
  "reference_Validate r \<longleftrightarrow>
     list_all ValidString [mr_ReferenceID r, mr_Label r, mr_Text r, mr_ResourceRef r]
   \<and> \<not> (mr_ReferenceID r = '''' \<or> mr_ReferenceID r \<noteq> trim_space (mr_ReferenceID r)
        \<or> containsReferenceLineBreak (mr_ReferenceID r))
   \<and> int (length (mr_ReferenceID r)) \<le> MaxMessageReferenceIDBytes
   \<and> \<not> (mr_Label r = '''' \<or> mr_Label r \<noteq> trim_space (mr_Label r)
        \<or> containsReferenceLineBreak (mr_Label r))
   \<and> int (RuneCountInString (mr_Label r)) \<le> MaxMessageReferenceLabelRunes
   \<and> int (RuneCountInString (mr_Text r)) \<le> MaxMessageReferenceTextRunes
   \<and> int (length (mr_ResourceRef r)) \<le> MaxMessageReferenceResourceRefBytes
   \<and> \<not> (mr_Kind r \<noteq> ''thread'' \<and> mr_ReferencedThreadID r \<noteq> '''')
   \<and> reference_kind_ok r \<and> \<not> (mr_Truncated r \<and> mr_Text r = '''')"

definition json_reference :: "message_reference \<Rightarrow> string" where
  "json_reference r = json_object
    ([(''reference_id'', json_string (mr_ReferenceID r)), (''kind'', json_string (mr_Kind r)),
      (''label'', json_string (mr_Label r))]
     @ nonempty_field ''text'' (mr_Text r) @ nonempty_field ''resource_ref'' (mr_ResourceRef r)
     @ (if mr_Truncated r then [(''truncated'', ''true'')] else [])
     @ nonempty_field ''referenced_thread_id'' (mr_ReferencedThreadID r))"

fun reference_loop :: "string list \<Rightarrow> message_reference list \<Rightarrow> bool" where
  "reference_loop seen [] = True"
| "reference_loop seen (r # rs) =
    (reference_Validate r \<and> mr_ReferenceID r \<notin> set seen
   \<and> reference_loop (mr_ReferenceID r # seen) rs)"

definition ValidateMessageReferences :: "message_reference list \<Rightarrow> bool" where
  "ValidateMessageReferences rs \<longleftrightarrow>
     int (length rs) \<le> MaxMessageReferencesPerTurn \<and> reference_loop [] rs
   \<and> int (length (json_list (map json_reference rs))) \<le> MaxMessageReferencesPayloadBytes"

section \<open>Host context items and model context\<close>

definition context_field_ok :: "bool \<Rightarrow> string \<Rightarrow> int \<Rightarrow> bool" where
  "context_field_ok text s limit \<longleftrightarrow>
     ValidString s \<and> \<not> blank s \<and> int (RuneCountInString s) \<le> limit
   \<and> (text \<or> s = trim_space s \<and> \<not> containsReferenceLineBreak s)"

definition context_item_Validate :: "context_item \<Rightarrow> bool" where
  "context_item_Validate i \<longleftrightarrow>
     context_field_ok False (ci_Kind i) 128 \<and> context_field_ok False (ci_Title i) 256
   \<and> context_field_ok True (ci_Text i) 64000"

definition json_context_item :: "context_item \<Rightarrow> string" where
  "json_context_item i = json_object [(''kind'', json_string (ci_Kind i)),
     (''title'', json_string (ci_Title i)), (''text'', json_string (ci_Text i))]"

definition ValidateMessageContext :: "context_item list \<Rightarrow> bool" where
  "ValidateMessageContext items \<longleftrightarrow>
     int (length items) \<le> 128 \<and> list_all context_item_Validate items
   \<and> int (length (json_list (map json_context_item items))) \<le> 256 * 1024"

definition json_section :: "model_section \<Rightarrow> string" where
  "json_section s = json_object [(''key'', json_string (mc_Key s)),
     (''title'', json_string (mc_Title s)), (''text'', json_string (mc_Text s))]"

definition section_Validate :: "model_section \<Rightarrow> bool" where
  "section_Validate s \<longleftrightarrow>
     context_item_Validate \<lparr>ci_Kind = mc_Key s, ci_Title = mc_Title s, ci_Text = mc_Text s\<rparr>
   \<and> ValidString (mc_Key s) \<and> \<not> ContainsAny (mc_Key s) [bytes [0]]"

fun adjacent_duplicate :: "string list \<Rightarrow> bool" where
  "adjacent_duplicate (x # y # ys) = (x = y \<or> adjacent_duplicate (y # ys))"
| "adjacent_duplicate _ = False"

definition context_sections :: "model_snapshot \<Rightarrow> model_section list" where
  "context_sections m = (case mc_Sections m of None \<Rightarrow> [] | Some ss \<Rightarrow> ss)"

text \<open>
  The sort is not stable in the code; it decides nothing, because sections with equal keys are
  refused right after it. The outer option is the error, the inner one the \<open>nil\<close> snapshot.
\<close>

definition NormalizeModelContext :: "model_snapshot option \<Rightarrow> model_snapshot option option" where
  "NormalizeModelContext input =
    (case input of
       None \<Rightarrow> Some None
     | Some m \<Rightarrow>
         let ss = context_sections m; ordered = sort_key mc_Key ss in
         if int (length ss) > 128 \<or> \<not> list_all section_Validate ss
            \<or> adjacent_duplicate (map mc_Key ordered)
            \<or> int (length (json_object [(''sections'', json_list (map json_section ordered))])) > 256 * 1024
         then None else Some (Some \<lparr>mc_Sections = Some ordered\<rparr>))"

definition CurrentModelContext :: "message list \<Rightarrow> model_snapshot option" where
  "CurrentModelContext history =
    foldl (\<lambda>current m. if msg_ModelContextSnapshot m \<noteq> None then msg_ModelContextSnapshot m else current)
      None history"

definition snapshot_sections :: "model_snapshot option \<Rightarrow> model_section list" where
  "snapshot_sections m = (case m of None \<Rightarrow> [] | Some s \<Rightarrow> context_sections s)"

text \<open>The map \<open>old\<close> is an association list without its overwritten entries.\<close>

definition section_map :: "model_section list \<Rightarrow> (string \<times> model_section) list" where
  "section_map ss = foldl (\<lambda>m s. AList.update (mc_Key s) s m) [] ss"

fun context_diff ::
  "(string \<times> model_section) list \<Rightarrow> model_section list \<Rightarrow> string list \<times> (string \<times> model_section) list"
where
  "context_diff old [] = ([], old)"
| "context_diff old (s # ss) =
    (case context_diff (AList.delete (mc_Key s) old) ss of
       (changed, rest) \<Rightarrow>
         (if map_of old (mc_Key s) = Some s then changed else mc_Key s # changed, rest))"

definition ModelContextChanges ::
  "model_snapshot option \<Rightarrow> model_snapshot option \<Rightarrow> string list \<times> string list" where
  "ModelContextChanges previous next =
    (case context_diff (section_map (snapshot_sections previous)) (snapshot_sections next) of
       (changed, old) \<Rightarrow> (changed, sort (map fst old)))"

section \<open>Assistant sources\<close>

definition SafeURL :: "store_env \<Rightarrow> string \<Rightarrow> bool" where
  "SafeURL env s \<longleftrightarrow>
     \<not> list_ex (\<lambda>r. space_rune r \<or> control_rune r) (runes s)
   \<and> (case se_parse_url env s of
        None \<Rightarrow> False
      | Some u \<Rightarrow> (url_Scheme u = ''https'' \<or> url_Scheme u = ''http'') \<and> url_Hostname u \<noteq> ''''
                 \<and> \<not> url_User u \<and> url_Opaque u = '''')"

text \<open>\<open>Equal\<close> compares every field, so it is equality of the records.\<close>

definition clean_source :: "cite_source \<Rightarrow> cite_source" where
  "clean_source s0 =
    (let s = s0\<lparr>cr_URL := trim_space (cr_URL s0), cr_Title := trim_space (cr_Title s0)\<rparr> in
     case (cr_StartIndex s, cr_EndIndex s) of
       (Some a, Some b) \<Rightarrow>
         if a < 0 \<or> b \<le> a then s\<lparr>cr_StartIndex := None, cr_EndIndex := None\<rparr> else s
     | _ \<Rightarrow> s\<lparr>cr_StartIndex := None, cr_EndIndex := None\<rparr>)"

definition citation_Normalize :: "store_env \<Rightarrow> cite_source list \<Rightarrow> cite_source list" where
  "citation_Normalize env ss =
    foldl (\<lambda>out s0.
      let s = clean_source s0 in
      if \<not> SafeURL env (cr_URL s) then out else if s \<in> set out then out else out @ [s]) [] ss"

definition crosses :: "string \<Rightarrow> cite_source \<Rightarrow> int \<Rightarrow> bool" where
  "crosses txt s boundary \<longleftrightarrow>
    (let p = int (RuneCountInString (take (nat boundary) txt)) in
     case (cr_StartIndex s, cr_EndIndex s) of
       (Some a, Some b) \<Rightarrow> a < p \<and> b > p | _ \<Rightarrow> False)"

definition fragment_source ::
  "string \<Rightarrow> int \<Rightarrow> int \<Rightarrow> bool \<Rightarrow> int list \<Rightarrow> cite_source \<Rightarrow> cite_source option" where
  "fragment_source txt lo hi last_part boundaries s =
    (let runes_n = int (RuneCountInString txt);
         detached = (if last_part then Some (s\<lparr>cr_StartIndex := None, cr_EndIndex := None\<rparr>) else None)
     in case (cr_StartIndex s, cr_EndIndex s) of
          (Some a, Some b) \<Rightarrow>
            if b \<le> runes_n \<and> \<not> list_ex (crosses txt s) boundaries then
              (if a < lo \<or> b > hi then None
               else Some (s\<lparr>cr_StartIndex := Some (a - lo), cr_EndIndex := Some (b - lo)\<rparr>))
            else detached
        | _ \<Rightarrow> detached)"

definition citation_Fragment ::
  "store_env \<Rightarrow> cite_source list \<Rightarrow> string \<Rightarrow> int \<Rightarrow> int \<Rightarrow> bool \<Rightarrow> int list \<Rightarrow> cite_source list" where
  "citation_Fragment env ss txt start stop last_part boundaries =
    (let lo = int (RuneCountInString (take (nat start) txt));
         hi = int (RuneCountInString (take (nat stop) txt))
     in List.map_filter (fragment_source txt lo hi last_part boundaries) (citation_Normalize env ss))"

section \<open>Control signals\<close>

datatype control_class = ControlOther | WaitingInput | WaitingControl | ControlFailed | ControlInvalid

definition Classify :: "store_env \<Rightarrow> control_signal option \<Rightarrow> control_class" where
  "Classify env signal =
    (case signal of
       None \<Rightarrow> ControlOther
     | Some s \<Rightarrow>
         if trim_space (cs_ErrorCode s) = ''control_error'' \<or> trim_space (cs_Disposition s) = ''failed''
         then ControlFailed
         else if \<not> blank (cs_ErrorCode s) then ControlInvalid
         else if trim_space (cs_Disposition s) \<noteq> ''waiting'' then ControlOther
         else if trim_space (cs_Name s) \<noteq> ''ask_user'' then WaitingControl
         else if \<not> blank (cs_CallID s) \<and> se_ask_user_ok env (cs_Payload s) then WaitingInput
         else ControlInvalid)"

definition OwnsResult :: "store_env \<Rightarrow> message \<Rightarrow> bool" where
  "OwnsResult env m =
    (case msg_ControlSignal m of
       None \<Rightarrow> False
     | Some s \<Rightarrow>
         msg_Kind m = MessageKindControlSignal \<and> msg_ToolCallID m \<noteq> ''''
       \<and> msg_ToolCallID m = cs_CallID s \<and> msg_ToolName m = cs_Name s
       \<and> (Classify env (Some s) = ControlFailed \<or> Classify env (Some s) = WaitingInput
          \<or> trim_space (cs_Disposition s) = ''terminal'' \<or> trim_space (cs_Disposition s) = ''continue''))"

section \<open>Which entries may carry what\<close>

definition canonical_context :: "model_snapshot \<Rightarrow> bool" where
  "canonical_context m \<longleftrightarrow> NormalizeModelContext (Some m) = Some (Some m)"

definition user_input_entry :: "entry \<Rightarrow> bool" where
  "user_input_entry e \<longleftrightarrow>
     (Type e = EntryUserMessage \<or> Type e = EntrySteeringRequested) \<and> msg_Role (Message e) = User"

definition context_record_ok :: "entry \<Rightarrow> bool" where
  "context_record_ok e \<longleftrightarrow> (let msg = Message e in
     \<not> (Type e = EntryModelContext
        \<and> (ThreadID e = '''' \<or> TurnID e = '''' \<or> RunID e = '''' \<or> msg_Kind msg \<noteq> MessageKindModelContext
           \<or> msg_ModelContextSnapshot msg = None \<or> msg_Content msg \<noteq> '''' \<or> msg_ToolCallID msg \<noteq> ''''
           \<or> msg_Context msg \<noteq> [] \<or> msg_Attachments msg \<noteq> [] \<or> msg_References msg \<noteq> [])))"

definition sources_ok :: "store_env \<Rightarrow> entry \<Rightarrow> bool" where
  "sources_ok env e \<longleftrightarrow> (let msg = Message e in
     msg_Sources msg = []
   \<or> Type e = EntryAssistantMessage \<and> msg_Role msg = Assistant
     \<and> citation_Fragment env (msg_Sources msg) (msg_Content msg) 0 (int (length (msg_Content msg))) True []
        = msg_Sources msg)"

definition ValidateEntryMessageReferences :: "store_env \<Rightarrow> entry \<Rightarrow> bool" where
  "ValidateEntryMessageReferences env e \<longleftrightarrow> (let msg = Message e in
     (case ModelContextBaseline e of
        None \<Rightarrow> True | Some b \<Rightarrow> Type e = EntryCompaction \<and> canonical_context b)
   \<and> (case msg_ModelContextSnapshot msg of
        None \<Rightarrow> True
      | Some s \<Rightarrow> (Type e = EntryUserMessage \<or> Type e = EntrySteeringRequested \<or> Type e = EntryModelContext)
          \<and> msg_Role msg = User \<and> canonical_context s)
   \<and> context_record_ok e \<and> sources_ok env e
   \<and> (msg_Kind msg = MessageKindToolValidationError \<longrightarrow>
        \<not> ((Type e \<noteq> EntryToolCall \<and> Type e \<noteq> EntryToolResult) \<or> msg_ToolCallID msg = ''''
           \<or> msg_ControlSignal msg \<noteq> None \<or> msg_Activity msg \<noteq> None))
   \<and> (msg_Context msg \<noteq> [] \<longrightarrow> user_input_entry e \<and> ValidateMessageContext (msg_Context msg))
   \<and> (msg_References msg \<noteq> [] \<longrightarrow>
        user_input_entry e \<and> ValidateMessageReferences (msg_References msg)))"

definition validateEntryMessageAttachmentPlacement :: "entry \<Rightarrow> bool" where
  "validateEntryMessageAttachmentPlacement e \<longleftrightarrow>
     (msg_Attachments (Message e) \<noteq> [] \<longrightarrow> user_input_entry e)"

definition ValidateEntryMessageAttachments :: "entry \<Rightarrow> bool" where
  "ValidateEntryMessageAttachments e \<longleftrightarrow>
     validateEntryMessageAttachmentPlacement e
   \<and> ValidateStoredMessageAttachments (msg_Attachments (Message e))"

definition ValidateNewEntryMessageAttachments :: "entry \<Rightarrow> bool" where
  "ValidateNewEntryMessageAttachments e \<longleftrightarrow>
     validateEntryMessageAttachmentPlacement e \<and> ValidateMessageAttachments (msg_Attachments (Message e))"

end
