(* ===== verification/HostWork.thy ===== *)
theory HostWork
  imports MessageContent
begin

text \<open>
  Host work, work a tool call leaves running outside the engine (\<^verbatim>\<open>host_work.go\<close>): decoding its
  journal facts, reducing a path to the state of every piece of work, and the entries that admit
  notices or stop work. With the timing (\<^verbatim>\<open>output_timing.go\<close>) and hosted-tool (\<^verbatim>\<open>hosted_tool.go\<close>)
  checks this gives the integrity check of an entry (\<open>ValidateEntryIntegrity\<close>).
\<close>

section \<open>Facts of one piece of work\<close>

definition HostWorkNoticeMaxBytes :: int where "HostWorkNoticeMaxBytes = 2048"

definition validateEffectInvocation :: "work_invocation \<Rightarrow> bool" where
  "validateEffectInvocation i \<longleftrightarrow>
     \<not> (blank (iv_ThreadID i) \<or> blank (iv_TurnID i) \<or> blank (iv_RunID i) \<or> blank (iv_ToolCallID i)
        \<or> blank (iv_ToolName i) \<or> blank (iv_ArgumentHash i))"

definition hostWorkEntryID :: "store_env \<Rightarrow> string \<Rightarrow> bool \<Rightarrow> string" where
  "hostWorkEntryID env i final =
    (if final then ''host-work-final:'' else ''host-work:'') @ take 32 (se_hash env i)"

definition work_state_ok :: "store_env \<Rightarrow> host_work \<Rightarrow> bool" where
  "work_state_ok env w \<longleftrightarrow>
     (hw_State w = ''bound'' \<or> hw_State w = ''completed'' \<or> hw_State w = ''unknown'')
   \<and> \<not> (int (length (hw_Result w)) > 16384
        \<or> hw_Result w \<noteq> '''' \<and> \<not> se_json_valid env (hw_Result w)
        \<or> hw_Output w \<noteq> None \<and> hw_OutputUnavailable w
        \<or> hw_State w = ''bound'' \<and> (hw_Result w \<noteq> '''' \<or> hw_Notice w \<noteq> '''' \<or> hw_Notify w
             \<or> hw_Output w \<noteq> None \<or> hw_OutputUnavailable w)
        \<or> hw_State w = ''unknown'' \<and> (hw_Output w \<noteq> None \<or> \<not> hw_OutputUnavailable w))
   \<and> \<not> (\<not> ValidString (hw_Notice w) \<or> int (length (hw_Notice w)) > HostWorkNoticeMaxBytes
        \<or> hw_State w \<noteq> ''bound'' \<and> blank (hw_Notice w) \<or> hw_State w = ''unknown'' \<and> hw_Notify w)"

definition work_activity_ok :: "store_env \<Rightarrow> entry \<Rightarrow> host_work \<Rightarrow> bool" where
  "work_activity_ok env e w \<longleftrightarrow> (let msg = Message e in
     case msg_Activity msg of
       None \<Rightarrow> True
     | Some a \<Rightarrow>
         (case msg_ToolResult msg of
            None \<Rightarrow> False
          | Some view \<Rightarrow>
              \<not> (hw_State w = ''bound'' \<or> msg_ToolName msg \<noteq> iv_ToolName (hw_Invocation w)
                 \<or> msg_ToolCallID msg \<noteq> iv_ToolCallID (hw_Invocation w))
            \<and> se_activity_ok env a
            \<and> \<not> (se_activity_status env (Some a) = ''running'' \<or> se_activity_status env (Some a) = ''pending''
                 \<or> se_activity_status env (Some a) \<noteq> tr_Status view)))"

definition decodeHostWork :: "store_env \<Rightarrow> entry \<Rightarrow> host_work st_result" where
  "decodeHostWork env e =
    (case (if Type e = EntryHostWork then se_work_of_json env (Payload e) else None) of
       None \<Rightarrow> Inl ErrAuthorityCorrupt
     | Some w \<Rightarrow>
         if hw_ID w = '''' \<or> hw_ExecutorID w = '''' \<or> \<not> validateEffectInvocation (hw_Invocation w)
            \<or> iv_ThreadID (hw_Invocation w) \<noteq> ThreadID e \<or> iv_TurnID (hw_Invocation w) \<noteq> TurnID e
            \<or> iv_RunID (hw_Invocation w) \<noteq> RunID e
            \<or> \<not> work_state_ok env w
            \<or> ID e \<noteq> hostWorkEntryID env (hw_ID w) (hw_State w \<noteq> ''bound'')
            \<or> \<not> work_activity_ok env e w
            \<or> hw_Output w \<noteq> None
                \<and> (case msg_ToolResult (Message e) of
                     None \<Rightarrow> True | Some view \<Rightarrow> tr_FullOutput view \<noteq> hw_Output w)
         then Inl ErrAuthorityCorrupt else Inr w)"

definition validateHostWorkEntry :: "store_env \<Rightarrow> entry \<Rightarrow> st_error option" where
  "validateHostWorkEntry env e =
    (if Type e = EntryHostWork then
       (case decodeHostWork env e of Inl err \<Rightarrow> Some err | Inr _ \<Rightarrow> None)
     else if Type e = EntryHostWorkAdmitted then
       (case se_ids_of_json env (Payload e) of
          None \<Rightarrow> Some ErrAuthorityCorrupt
        | Some ids \<Rightarrow>
            if ids = [] \<or> msg_Kind (Message e) \<noteq> MessageKindHostWork \<or> msg_Role (Message e) \<noteq> User
               \<or> ThreadID e = '''' \<or> TurnID e = '''' \<or> RunID e = '''' \<or> msg_Content (Message e) = ''''
               \<or> int (length (msg_Content (Message e))) > 8192
               \<or> ID e \<noteq> ''host-work-admitted:'' @ take 32 (se_hash env (se_json_of_ids env ids))
               \<or> '''' \<in> set ids \<or> \<not> distinct ids
            then Some ErrAuthorityCorrupt else None)
     else None)"

section \<open>The works of a path\<close>

text \<open>
  \<open>works\<close> is the slice \<open>out\<close>; the map \<open>positions\<close> is its index by ID. \<open>admitted\<close> is the set of IDs
  whose notice or result the model has seen.
\<close>

record work_board =
  wb_works :: "host_work list"
  wb_admitted :: "string list"

definition empty_board :: work_board where
  "empty_board = \<lparr>wb_works = [], wb_admitted = []\<rparr>"

definition find_work :: "host_work list \<Rightarrow> string \<Rightarrow> host_work option" where
  "find_work ws i = list_find (\<lambda>w. hw_ID w = i) ws"

definition replace_work :: "host_work \<Rightarrow> host_work list \<Rightarrow> host_work list" where
  "replace_work w ws = map (\<lambda>v. if hw_ID v = hw_ID w then w else v) ws"

definition hostWorkNotice :: "host_work \<Rightarrow> string" where
  "hostWorkNotice w =
    hw_Notice w @ (if hw_OutputUnavailable w then '' Retained output is unavailable.'' else '''')
      @ bytes [10, 10]"

text \<open>The loop over the IDs of an admission, with the text they must spell out.\<close>

fun admit_works ::
  "host_work list \<Rightarrow> string list \<Rightarrow> string \<Rightarrow> string list \<Rightarrow> (string list \<times> string) option" where
  "admit_works ws admitted expected [] = Some (admitted, expected)"
| "admit_works ws admitted expected (i # ids) =
    (case find_work ws i of
       None \<Rightarrow> None
     | Some w \<Rightarrow>
         if i \<in> set admitted \<or> hw_State w = ''bound'' then None
         else admit_works ws (i # admitted) (expected @ hostWorkNotice w) ids)"

definition observed_work :: "entry \<Rightarrow> string" where
  "observed_work e = (if Type e = EntryToolResult
     then (case msg_ToolResult (Message e) of None \<Rightarrow> '''' | Some v \<Rightarrow> tr_ObservedHostWork v) else '''')"

definition observe_work :: "entry \<Rightarrow> work_board \<Rightarrow> work_board st_result" where
  "observe_work e b =
    (if observed_work e = '''' then Inr b
     else if find_work (wb_works b) (observed_work e) = None then Inl ErrAuthorityCorrupt
     else Inr (b\<lparr>wb_admitted := observed_work e # wb_admitted b\<rparr>))"

definition admission_step :: "store_env \<Rightarrow> entry \<Rightarrow> work_board \<Rightarrow> work_board st_result" where
  "admission_step env e b =
    (case validateHostWorkEntry env e of
       Some err \<Rightarrow> Inl err
     | None \<Rightarrow> (case se_ids_of_json env (Payload e) of
         None \<Rightarrow> Inl ErrAuthorityCorrupt
       | Some ids \<Rightarrow> (case admit_works (wb_works b) (wb_admitted b) '''' ids of
           None \<Rightarrow> Inl ErrAuthorityCorrupt
         | Some (admitted, expected) \<Rightarrow>
             if expected \<noteq> msg_Content (Message e) then Inl ErrAuthorityCorrupt
             else Inr (b\<lparr>wb_admitted := admitted\<rparr>))))"

definition work_step :: "host_work \<Rightarrow> work_board \<Rightarrow> work_board st_result" where
  "work_step w b =
    (case find_work (wb_works b) (hw_ID w) of
       Some previous \<Rightarrow>
         if hw_State previous \<noteq> ''bound'' \<or> hw_State w = ''bound''
            \<or> hw_Invocation previous \<noteq> hw_Invocation w \<or> hw_ExecutorID previous \<noteq> hw_ExecutorID w
            \<or> hw_Inherited previous \<noteq> hw_Inherited w
         then Inl ErrAuthorityCorrupt
         else Inr (b\<lparr>wb_works := replace_work w (wb_works b)\<rparr>)
     | None \<Rightarrow>
         if hw_State w \<noteq> ''bound'' then Inl ErrAuthorityCorrupt
         else Inr (b\<lparr>wb_works := wb_works b @ [w]\<rparr>))"

definition board_step :: "store_env \<Rightarrow> entry \<Rightarrow> work_board \<Rightarrow> work_board st_result" where
  "board_step env e b0 =
    (case observe_work e b0 of
       Inl err \<Rightarrow> Inl err
     | Inr b \<Rightarrow>
         if Type e = EntryHostWorkAdmitted then admission_step env e b
         else if Type e \<noteq> EntryHostWork then Inr b
         else (case decodeHostWork env e of Inl err \<Rightarrow> Inl err | Inr w \<Rightarrow> work_step w b))"

fun board_run :: "store_env \<Rightarrow> work_board \<Rightarrow> entry list \<Rightarrow> work_board st_result" where
  "board_run env b [] = Inr b"
| "board_run env b (e # es) =
    (case board_step env e b of Inl err \<Rightarrow> Inl err | Inr b' \<Rightarrow> board_run env b' es)"

definition hostWorksFromPath :: "store_env \<Rightarrow> entry list \<Rightarrow> work_board st_result" where
  "hostWorksFromPath env path = board_run env empty_board path"

section \<open>Stops, admissions, continuations\<close>

definition stop_entry :: "store_env \<Rightarrow> string \<Rightarrow> work_invocation \<Rightarrow> entry" where
  "stop_entry env t i = zero_entry
    \<lparr>ID := ''host-work-stop:'' @ take 32 (se_hash env (iv_TurnID i)), ThreadID := t,
     TurnID := iv_TurnID i, RunID := iv_RunID i, Type := EntryCancelRequested,
     Metadata := [(''cancellation_source'', ''user_stop''), (''cancellation_mode'', ''immediate'')]\<rparr>"

fun stop_loop ::
  "store_env \<Rightarrow> string \<Rightarrow> string list \<Rightarrow> string list \<Rightarrow> host_work list \<Rightarrow> entry list" where
  "stop_loop env t admitted stopped [] = []"
| "stop_loop env t admitted stopped (w # ws) =
    (if hw_Inherited w \<or> hw_ID w \<in> set admitted \<or> iv_TurnID (hw_Invocation w) \<in> set stopped
     then stop_loop env t admitted stopped ws
     else stop_entry env t (hw_Invocation w)
            # stop_loop env t admitted (iv_TurnID (hw_Invocation w) # stopped) ws)"

definition cancelled_turns :: "entry list \<Rightarrow> string list" where
  "cancelled_turns path = map TurnID (filter (\<lambda>e. Type e = EntryCancelRequested) path)"

definition hostWorkStops :: "store_env \<Rightarrow> entry list \<Rightarrow> string \<Rightarrow> entry list st_result" where
  "hostWorkStops env path t =
    (case hostWorksFromPath env path of
       Inl err \<Rightarrow> Inl err
     | Inr b \<Rightarrow> Inr (stop_loop env t (wb_admitted b) (cancelled_turns path) (wb_works b)))"

text \<open>The notices that fit, in the order of the works; the first that does not fit ends the loop.\<close>

fun admission_loop ::
  "string list \<Rightarrow> string \<Rightarrow> host_work list \<Rightarrow> string list \<times> string" where
  "admission_loop admitted txt [] = ([], txt)"
| "admission_loop admitted txt (w # ws) =
    (if hw_State w = ''bound'' \<or> hw_ID w \<in> set admitted then admission_loop admitted txt ws
     else if int (length txt + length (hostWorkNotice w)) > 8192 then ([], txt)
     else (case admission_loop admitted (txt @ hostWorkNotice w) ws of
             (ids, final) \<Rightarrow> (hw_ID w # ids, final)))"

definition admission_entry ::
  "store_env \<Rightarrow> string \<Rightarrow> string \<Rightarrow> string \<Rightarrow> string list \<Rightarrow> string \<Rightarrow> entry" where
  "admission_entry env t turn run ids txt =
    (let raw = se_json_of_ids env ids in
     zero_entry\<lparr>ID := ''host-work-admitted:'' @ take 32 (se_hash env raw), ThreadID := t,
       TurnID := turn, RunID := run, Type := EntryHostWorkAdmitted, Payload := raw,
       Message := zero_message\<lparr>msg_Role := User, msg_Kind := MessageKindHostWork,
                               msg_Content := txt\<rparr>\<rparr>)"

text \<open>\<open>None\<close> is the zero entry the code returns when there is nothing to admit.\<close>

definition hostWorkAdmission ::
  "store_env \<Rightarrow> entry list \<Rightarrow> string \<Rightarrow> string \<Rightarrow> string \<Rightarrow> entry option st_result" where
  "hostWorkAdmission env path t turn run =
    (case hostWorksFromPath env path of
       Inl err \<Rightarrow> Inl err
     | Inr b \<Rightarrow> (case admission_loop (wb_admitted b) '''' (wb_works b) of
         (ids, txt) \<Rightarrow>
           Inr (if ids = [] then None else Some (admission_entry env t turn run ids txt))))"

fun turn_open :: "bool \<Rightarrow> entry list \<Rightarrow> bool" where
  "turn_open active [] = active"
| "turn_open active (e # es) =
    turn_open (if Type e \<noteq> EntryTurnMarker then active
               else if TurnStatus e = TurnStarted then True
               else if terminalTurnMarker (TurnStatus e) then False else active) es"

definition wakes :: "entry list \<Rightarrow> work_board \<Rightarrow> host_work \<Rightarrow> bool" where
  "wakes path b w \<longleftrightarrow> \<not> hw_Inherited w \<and> hw_State w = ''completed'' \<and> hw_Notify w
     \<and> hw_ID w \<notin> set (wb_admitted b) \<and> iv_TurnID (hw_Invocation w) \<notin> set (cancelled_turns path)"

definition HostWorkContinuation :: "store_env \<Rightarrow> entry list \<Rightarrow> string option st_result" where
  "HostWorkContinuation env path =
    (case hostWorksFromPath env path of
       Inl err \<Rightarrow> Inl err
     | Inr b \<Rightarrow>
         if turn_open False path then Inr None
         else Inr (map_option (\<lambda>w. ''host-work-continuation:'' @ take 32 (se_hash env (hw_ID w)))
                     (list_find (wakes path b) (wb_works b))))"

section \<open>The integrity of an entry\<close>

definition has_key :: "meta_map \<Rightarrow> string \<Rightarrow> bool" where
  "has_key m k \<longleftrightarrow> map_of m k \<noteq> None"

definition OutputTiming :: "store_env \<Rightarrow> entry \<Rightarrow> (go_time \<times> go_time) option st_result" where
  "OutputTiming env e =
    (let hasStart = has_key (Metadata e) ''output_started_at'';
         hasEnd = has_key (Metadata e) ''output_ended_at''
     in if \<not> hasStart \<and> \<not> hasEnd then Inr None
        else if \<not> hasStart \<or> \<not> hasEnd \<or> Type e \<noteq> EntryAssistantMessage
             \<or> (msg_ContentSourceID (Message e) = '''') = (msg_ReasoningSourceID (Message e) = '''')
        then Inl ErrAuthorityCorrupt
        else (case (se_parse_time env (mget (Metadata e) ''output_started_at''),
                    se_parse_time env (mget (Metadata e) ''output_ended_at'')) of
          (Some a, Some b) \<Rightarrow>
            if zero_time a \<or> zero_time b \<or> b < a then Inl ErrAuthorityCorrupt else Inr (Some (a, b))
        | _ \<Rightarrow> Inl ErrAuthorityCorrupt))"

definition EntryOccurrenceTime :: "store_env \<Rightarrow> entry \<Rightarrow> go_time st_result" where
  "EntryOccurrenceTime env e =
    (let txt = mget (Metadata e) ''occurred_at'' in
     if txt = '''' then Inr (CreatedAt e)
     else (case se_parse_time env txt of None \<Rightarrow> Inl ErrAuthorityCorrupt | Some at' \<Rightarrow> Inr at'))"

definition hosted_tool_entry :: "entry \<Rightarrow> bool" where
  "hosted_tool_entry e \<longleftrightarrow> Type e = EntryCustom \<and> mget (Metadata e) ''kind'' = ''hosted_tool''"

text \<open>\<open>HostedToolObservation\<close>, as the integrity check uses it: whether it succeeds.\<close>

definition HostedToolObservation :: "store_env \<Rightarrow> entry \<Rightarrow> bool" where
  "HostedToolObservation env e \<longleftrightarrow> (let typ = mget (Metadata e) ''type''; msg = Message e in
     \<not> (\<not> hosted_tool_entry e \<or> (typ \<noteq> ''hosted_tool_call'' \<and> typ \<noteq> ''hosted_tool_result'')
        \<or> blank (ThreadID e) \<or> blank (TurnID e) \<or> blank (RunID e)
        \<or> blank (msg_ToolCallID msg) \<or> blank (msg_ToolName msg) \<or> msg_Role msg \<noteq> RoleOther '''')
   \<and> (case msg_Activity msg of None \<Rightarrow> True | Some a \<Rightarrow> se_activity_ok env a)
   \<and> (mget (Metadata e) ''error_present'' \<noteq> '''' \<longrightarrow>
        mget (Metadata e) ''error_present'' = ''true'' \<and> typ = ''hosted_tool_result'')
   \<and> (mget (Metadata e) ''result_count'' \<noteq> '''' \<longrightarrow>
        (case se_atoi env (mget (Metadata e) ''result_count'') of None \<Rightarrow> False | Some n \<Rightarrow> n > 0))
   \<and> EntryOccurrenceTime env e \<noteq> Inl ErrAuthorityCorrupt)"

definition ValidateEntryIntegrity :: "store_env \<Rightarrow> entry \<Rightarrow> st_error option" where
  "ValidateEntryIntegrity env e =
    (case validateHostWorkEntry env e of
       Some err \<Rightarrow> Some err
     | None \<Rightarrow> (case OutputTiming env e of
         Inl err \<Rightarrow> Some err
       | Inr _ \<Rightarrow>
           if (hosted_tool_entry e \<and> \<not> HostedToolObservation env e)
              \<or> \<not> ValidateEntryMessageAttachments e \<or> \<not> ValidateEntryMessageReferences env e
              \<or> blank (Raw e) \<or> blank (RawHash e) \<or> se_hash env (Raw e) \<noteq> RawHash e
              \<or> se_raw env e \<noteq> Raw e
           then Some ErrAuthorityCorrupt else None))"

end
