(* ===== verification/JournalStore.thy ===== *)
theory JournalStore
  imports PathRead ThreadStore HostWork
begin

text \<open>
  The journal of a thread: the turn index (\<^verbatim>\<open>turn_marker_index.go\<close>), the output source index
  (\<^verbatim>\<open>output_source_index.go\<close>, \<^verbatim>\<open>output_sources.go\<close>), appending entries and facts
  (\<^verbatim>\<open>sessiontree.go\<close>) and undoing an append transaction (\<^verbatim>\<open>journal_append.go\<close>).
\<close>

section \<open>The turn index\<close>

definition empty_turns :: turn_index where
  "empty_turns = \<lparr>ti_markers = Map.empty, ti_requests = Map.empty, ti_active = []\<rparr>"

definition push_at :: "string \<Rightarrow> 'a \<Rightarrow> (string \<rightharpoonup> 'a list) \<Rightarrow> (string \<rightharpoonup> 'a list)" where
  "push_at k x m = m(k \<mapsto> list_at m k @ [x])"

definition turn_started :: "entry \<Rightarrow> bool" where
  "turn_started e \<longleftrightarrow> Type e = EntryTurnMarker \<and> TurnStatus e = TurnStarted"

definition marker_position :: "int \<Rightarrow> entry \<Rightarrow> turn_position \<Rightarrow> turn_position" where
  "marker_position ordinal e p =
    \<lparr>tp_started = (if turn_started e then ordinal + 1 else tp_started p),
     tp_terminal = (if Type e = EntryTurnMarker \<and> terminalTurnMarker (TurnStatus e)
                    then ordinal + 1 else tp_terminal p),
     tp_identity = (if \<not> blank (RunID e) then ordinal + 1 else tp_identity p),
     tp_cancellation = (if Type e = EntryTurnMarker then tp_cancellation p else ordinal + 1),
     tp_through = ordinal + 1\<rparr>"

definition active_after :: "int \<Rightarrow> entry \<Rightarrow> (string \<times> int) list \<Rightarrow> (string \<times> int) list" where
  "active_after ordinal e active =
    (if Type e \<noteq> EntryTurnMarker then active
     else (case TurnStatus e of
        TurnStarted \<Rightarrow> AList.update (TurnID e) (ordinal + 1) active
      | TurnSavePoint \<Rightarrow> AList.update (TurnID e) (ordinal + 1) active
      | TurnWaiting \<Rightarrow> AList.update (TurnID e) (ordinal + 1) active
      | TurnCompleted \<Rightarrow> AList.delete (TurnID e) active
      | TurnFailed \<Rightarrow> AList.delete (TurnID e) active
      | TurnAborted \<Rightarrow> AList.delete (TurnID e) active
      | _ \<Rightarrow> active))"

definition marked :: "entry \<Rightarrow> bool" where
  "marked e \<longleftrightarrow> \<not> ((Type e \<noteq> EntryTurnMarker \<and> Type e \<noteq> EntryCancelRequested) \<or> blank (TurnID e))"

definition observeTurnMarker :: "int \<Rightarrow> entry \<Rightarrow> turn_index \<Rightarrow> turn_index" where
  "observeTurnMarker ordinal e ti =
    (let requests = (if turn_started e then push_at (RequestKey e) ordinal (ti_requests ti)
                     else ti_requests ti);
         marker = marker_at ti (TurnID e);
         p = marker_position ordinal e (tk_at marker)
     in if \<not> marked e then ti\<lparr>ti_requests := requests\<rparr>
        else \<lparr>ti_markers = (ti_markers ti)(TurnID e \<mapsto>
                \<lparr>tk_at = p, tk_positions = tk_positions marker @ [p]\<rparr>),
              ti_requests = requests,
              ti_active = active_after ordinal e (ti_active ti)\<rparr>)"

fun observe_turns :: "int \<Rightarrow> entry list \<Rightarrow> turn_index \<Rightarrow> turn_index" where
  "observe_turns n [] ti = ti"
| "observe_turns n (e # es) ti = observe_turns (n + 1) es (observeTurnMarker n e ti)"

definition rebuildTurnMarkers :: "entry list \<Rightarrow> turn_index" where
  "rebuildTurnMarkers es = observe_turns 0 es empty_turns"

definition ensureTurnMarkers :: "journal \<Rightarrow> journal" where
  "ensureTurnMarkers j = (case jn_turns j of
     None \<Rightarrow> j\<lparr>jn_turns := Some (rebuildTurnMarkers (jn_entries j))\<rparr> | Some _ \<Rightarrow> j)"

text \<open>The index after \<open>ensureTurnMarkersLocked\<close>, and the reads of it.\<close>

definition turns_of :: "journal \<Rightarrow> turn_index" where
  "turns_of j = (case jn_turns j of None \<Rightarrow> rebuildTurnMarkers (jn_entries j) | Some ti \<Rightarrow> ti)"

definition turn_at :: "journal \<Rightarrow> string \<Rightarrow> turn_position" where
  "turn_at j turnID = tk_at (marker_at (turns_of j) turnID)"

definition runtimeActiveTurn :: "journal \<Rightarrow> string option" where
  "runtimeActiveTurn j = (case ti_active (turns_of j) of [(turnID, _)] \<Rightarrow> Some turnID | _ \<Rightarrow> None)"

definition activeRunIdentity :: "journal \<Rightarrow> string \<Rightarrow> string st_result" where
  "activeRunIdentity j turnID =
    (let position = tp_identity (turn_at j turnID) in
     if position = 0 then Inl ErrAuthorityCorrupt
     else Inr (trim_space (RunID (at (jn_entries j) (position - 1)))))"

definition turnCancellationRequested :: "journal \<Rightarrow> string \<Rightarrow> bool" where
  "turnCancellationRequested j turnID \<longleftrightarrow> tp_cancellation (turn_at j turnID) \<noteq> 0"

definition turnTerminal :: "journal \<Rightarrow> string \<Rightarrow> entry option" where
  "turnTerminal j turnID =
    (let ordinal = tp_terminal (turn_at j turnID) in
     if ordinal = 0 then None else Some (at (jn_entries j) (ordinal - 1)))"

definition hasTurnStarted :: "journal \<Rightarrow> string \<Rightarrow> bool" where
  "hasTurnStarted j turnID \<longleftrightarrow> tp_started (turn_at j turnID) \<noteq> 0"

section \<open>The output source index\<close>

definition output_sources :: "entry \<Rightarrow> string list" where
  "output_sources e = [msg_ContentSourceID (Message e), msg_ReasoningSourceID (Message e)]"

definition observeOutputSources ::
  "int \<Rightarrow> entry \<Rightarrow> (string \<rightharpoonup> int list) \<Rightarrow> (string \<rightharpoonup> int list)" where
  "observeOutputSources ordinal e m =
     fold (\<lambda>source m. if source = '''' then m else push_at source ordinal m) (output_sources e) m"

fun observe_outputs :: "int \<Rightarrow> entry list \<Rightarrow> (string \<rightharpoonup> int list) \<Rightarrow> (string \<rightharpoonup> int list)" where
  "observe_outputs n [] m = m"
| "observe_outputs n (e # es) m = observe_outputs (n + 1) es (observeOutputSources n e m)"

definition ensureOutputSources :: "store_env \<Rightarrow> journal \<Rightarrow> journal" where
  "ensureOutputSources env j = (case jn_outputs j of
     Some _ \<Rightarrow> j
   | None \<Rightarrow> (ensurePathIndex (ValidateEntryIntegrity env) j)
               \<lparr>jn_outputs := Some (observe_outputs 0 (jn_entries j) Map.empty)\<rparr>)"

definition outputSourceAncestor :: "journal \<Rightarrow> string \<Rightarrow> int \<Rightarrow> bool" where
  "outputSourceAncestor j parentID ordinal \<longleftrightarrow>
    (case ordinal_of j parentID of
       None \<Rightarrow> False
     | Some parent \<Rightarrow>
         0 \<le> ordinal \<and> ordinal < int (length (jn_path j)) \<and> 0 \<le> parent
       \<and> parent < int (length (jn_path j))
       \<and> pathAncestor (jn_path j) parent (pn_depth (at (jn_path j) ordinal)) = ordinal)"

definition control_output :: "store_env \<Rightarrow> control_signal \<Rightarrow> string" where
  "control_output env s =
    (if Classify env (Some s) \<noteq> ControlFailed \<and> Classify env (Some s) \<noteq> WaitingInput
        \<and> Classify env (Some s) \<noteq> ControlInvalid
     then (if blank (cs_OutputText s) then ''The agent emitted a historical control signal.''
           else trim_space (cs_OutputText s))
     else '''')"

definition outputContent :: "store_env \<Rightarrow> entry \<Rightarrow> string" where
  "outputContent env e =
    (if Type e = EntryAssistantMessage then msg_Content (Message e)
     else if Type e = EntryToolCall \<and> msg_Kind (Message e) = MessageKindControlSignal
     then (case msg_ControlSignal (Message e) of None \<Rightarrow> '''' | Some s \<Rightarrow> control_output env s)
     else '''')"

definition admitOutputSources :: "store_env \<Rightarrow> entry \<Rightarrow> entry" where
  "admitOutputSources env e =
    (if (Type e \<noteq> EntryAssistantMessage \<and> Type e \<noteq> EntryToolCall)
        \<or> msg_Role (Message e) \<noteq> Assistant then e
     else
       let msg = Message e;
           content = (if outputContent env e \<noteq> '''' \<and> msg_ContentSourceID msg = ''''
                      then ''assistant:entry:'' @ ID e else msg_ContentSourceID msg);
           reasoning = (if msg_Reasoning msg \<noteq> '''' \<and> msg_ReasoningSourceID msg = ''''
                        then ''thinking:entry:'' @ ID e else msg_ReasoningSourceID msg)
       in e\<lparr>Message := msg\<lparr>msg_ContentSourceID := content, msg_ReasoningSourceID := reasoning\<rparr>\<rparr>)"

text \<open>A fact is a turn, a run, whether it is reasoning, and the digest of the reasoning.\<close>

record output_fact =
  of_turn :: string
  of_run :: string
  of_reasoning :: bool
  of_body :: "string \<times> nat"

definition output_part ::
  "store_env \<Rightarrow> entry \<Rightarrow> bool \<Rightarrow> (string \<times> output_fact) list
    \<Rightarrow> (string \<times> output_fact) list st_result" where
  "output_part env e reasoning facts =
    (let msg = Message e;
         content = outputContent env e;
         source = (if reasoning then msg_ReasoningSourceID msg else msg_ContentSourceID msg);
         txt = (if reasoning then msg_Reasoning msg else content);
         required = (msg_Role msg = Assistant
           \<and> (Type e = EntryAssistantMessage
              \<or> Type e = EntryToolCall \<and> (reasoning \<or> content \<noteq> '''')) \<and> txt \<noteq> '''')
     in if required \<and> source = '''' then Inl ErrAuthorityCorrupt
        else if source = '''' then Inr facts
        else if \<not> required \<or> trim_space source \<noteq> source then Inl ErrAuthorityCorrupt
        else if map_of facts source \<noteq> None then Inl ErrAuthorityCorrupt
        else Inr (facts @ [(source, \<lparr>of_turn = TurnID e, of_run = RunID e, of_reasoning = reasoning,
               of_body = (if reasoning then (se_hash env txt, length txt) else ('''', 0))\<rparr>)]))"

definition outputSourceFacts ::
  "store_env \<Rightarrow> entry \<Rightarrow> (string \<times> output_fact) list st_result" where
  "outputSourceFacts env e = rbind (output_part env e False []) (output_part env e True)"

definition matchesStoredOutputSource ::
  "store_env \<Rightarrow> entry \<Rightarrow> string \<Rightarrow> output_fact \<Rightarrow> bool" where
  "matchesStoredOutputSource env previous source next \<longleftrightarrow>
    (let msg = Message previous in
     TurnID previous = of_turn next \<and> RunID previous = of_run next \<and> msg_Role msg = Assistant
   \<and> (if \<not> of_reasoning next
      then msg_ContentSourceID msg = source \<and> msg_ReasoningSourceID msg \<noteq> source
      else msg_ReasoningSourceID msg = source \<and> msg_ContentSourceID msg \<noteq> source
         \<and> (se_hash env (msg_Reasoning msg), length (msg_Reasoning msg)) = of_body next))"

text \<open>Only the first stored occurrence on the path of the new entry decides.\<close>

definition source_conflicts ::
  "store_env \<Rightarrow> journal \<Rightarrow> entry \<Rightarrow> string \<times> output_fact \<Rightarrow> bool" where
  "source_conflicts env j e sf =
    (case list_find (outputSourceAncestor j (ParentID e))
            (list_at (case jn_outputs j of None \<Rightarrow> Map.empty | Some m \<Rightarrow> m) (fst sf)) of
       None \<Rightarrow> False
     | Some ordinal \<Rightarrow>
         \<not> matchesStoredOutputSource env (at (jn_entries j) ordinal) (fst sf) (snd sf))"

definition validateNewOutputSources ::
  "store_env \<Rightarrow> journal \<Rightarrow> entry \<Rightarrow> journal \<times> st_error option" where
  "validateNewOutputSources env j e =
    (case outputSourceFacts env e of
       Inl err \<Rightarrow> (j, Some err)
     | Inr [] \<Rightarrow> (j, None)
     | Inr facts \<Rightarrow>
         let j' = ensureOutputSources env j in
         (j', if list_ex (source_conflicts env j' e) facts then Some ErrAuthorityCorrupt else None))"

section \<open>Appending to the indexes\<close>

definition depth_under :: "journal \<Rightarrow> string \<Rightarrow> int" where
  "depth_under j parentID =
    (if parentID = '''' then 1
     else (case jn_depths j parentID of None \<Rightarrow> 0 | Some d \<Rightarrow> d) + 1)"

definition append_indexed :: "store_env \<Rightarrow> entry \<Rightarrow> journal \<Rightarrow> journal" where
  "append_indexed env e j =
    (let ordinal = int (length (jn_entries j));
         copy = e\<lparr>PathDepth := depth_under j (ParentID e)\<rparr>;
         ordinals = (ordinals_map j)(ID e \<mapsto> ordinal);
         in_turn = (\<not> blank (TurnID e))
     in \<lparr>jn_entries = jn_entries j @ [copy],
         jn_ordinals = Some ordinals,
         jn_depths = (jn_depths j)(ID e \<mapsto> PathDepth copy),
         jn_path = appendPathIndex (ValidateEntryIntegrity env) (jn_path j) ordinals copy,
         jn_turnOrdinals = (if in_turn then push_at (TurnID e) ordinal (jn_turnOrdinals j)
                            else jn_turnOrdinals j),
         jn_turnCounts = (if in_turn then (jn_turnCounts j)(TurnID e \<mapsto>
             (case jn_turnCounts j (TurnID e) of None \<Rightarrow> 0 | Some c \<Rightarrow> c) + 1)
           else jn_turnCounts j),
         jn_turns = map_option (observeTurnMarker ordinal copy) (jn_turns j),
         jn_outputs = map_option (observeOutputSources ordinal copy) (jn_outputs j)\<rparr>)"

definition appendIndexedEntries :: "store_env \<Rightarrow> entry list \<Rightarrow> journal \<Rightarrow> journal" where
  "appendIndexedEntries env es j =
    (if es = [] then j
     else fold (append_indexed env) es
            (ensurePathIndex (ValidateEntryIntegrity env) (ensureOutputSources env (ensureTurnMarkers j))))"

section \<open>Appending a fact\<close>

record append_options =
  ao_ID :: string
  ao_ParentID :: string
  ao_Now :: go_time

definition no_options :: append_options where
  "no_options = \<lparr>ao_ID = '''', ao_ParentID = '''', ao_Now = 0\<rparr>"

definition isCanonicalPostTerminalTurnEntry :: "store_env \<Rightarrow> entry \<Rightarrow> bool" where
  "isCanonicalPostTerminalTurnEntry env e \<longleftrightarrow>
    (if Type e = EntryCancelRequested \<and> ID e = ''host-work-stop:'' @ take 32 (se_hash env (TurnID e))
     then mget (Metadata e) ''cancellation_source'' = ''user_stop''
        \<and> mget (Metadata e) ''cancellation_mode'' = ''immediate''
     else if Type e = EntryHostWork then validateHostWorkEntry env e = None
     else Type e = EntryCustom
        \<and> mget (Metadata e) ''authority_kind'' = ''pending_tool_settlement''
        \<and> \<not> blank (mget (Metadata e) ''authority_fingerprint'')
        \<and> \<not> blank (msg_ToolCallID (Message e)) \<and> \<not> blank (msg_ToolName (Message e)))"

text \<open>The checks before placement; a started turn gets its run identity in the metadata.\<close>

definition admission_error :: "store_env \<Rightarrow> entry \<Rightarrow> st_error option" where
  "admission_error env e =
    (if \<not> ValidateNewEntryMessageAttachments e then Some (ErrMsg ''invalid message attachments'')
     else if \<not> ValidateEntryMessageReferences env e then Some (ErrMsg ''invalid message references'')
     else None)"

definition admit_fact ::
  "store_env \<Rightarrow> bool \<Rightarrow> journal \<Rightarrow> entry \<Rightarrow> journal \<times> entry st_result" where
  "admit_fact env allow j0 e =
    (let turnID = trim_space (TurnID e);
         j = (if turnID \<noteq> '''' then ensureTurnMarkers j0 else j0)
     in if turnID \<noteq> '''' \<and> turnTerminal j turnID \<noteq> None
           \<and> \<not> (allow \<and> isCanonicalPostTerminalTurnEntry env e) then (j, Inl ErrStaleAuthority)
        else (case admission_error env e of
           Some err \<Rightarrow> (j, Inl err)
         | None \<Rightarrow> (case validateCanonicalEntryRunIdentity e of
             Some err \<Rightarrow> (j, Inl err)
           | None \<Rightarrow>
               if \<not> turn_started e then (j, Inr e)
               else if blank (RunID e) then (j, Inl ErrInvalidThreadAuthority)
               else
                 let j' = ensureTurnMarkers j in
                 if hasTurnStarted j' (TurnID e) then (j', Inl ErrRequestConflict)
                 else (j', Inr (e\<lparr>Metadata :=
                        AList.update ''run_id'' (trim_space (RunID e)) (Metadata e)\<rparr>)))))"

definition generated_entry_id :: "string \<Rightarrow> int \<Rightarrow> string" where
  "generated_entry_id t n = t @ ''-entry-'' @ show_int n"

definition nextEntryID :: "journal \<Rightarrow> string \<Rightarrow> int \<Rightarrow> int \<times> string" where
  "nextEntryID j t seq =
     fresh_id (length (jn_entries j)) (\<lambda>i. ordinal_of j i \<noteq> None) (generated_entry_id t) seq"

text \<open>Parent, identity, time and depth; the sequence number moves even when a later step fails.\<close>

definition place_fact ::
  "store_env \<Rightarrow> append_options \<Rightarrow> thread_meta \<Rightarrow> journal \<Rightarrow> int \<Rightarrow> entry \<Rightarrow> int \<times> entry st_result" where
  "place_fact env opts meta j seq e =
    (let parent = (if ao_ParentID opts \<noteq> '''' then ao_ParentID opts
                   else if ParentID e = '''' then tm_LeafID meta else ParentID e);
         wanted = (if ao_ID opts \<noteq> '''' then ao_ID opts else ID e);
         gen = nextEntryID j (ThreadID e) seq;
         seq' = (if wanted = '''' then fst gen else seq);
         i = (if wanted = '''' then snd gen else wanted);
         created0 = (if zero_time (CreatedAt e) then ao_Now opts else CreatedAt e);
         created = (if zero_time created0 then se_now env else created0)
     in if parent \<noteq> '''' \<and> ordinal_of j parent = None then (seq, Inl ErrInvalidParent)
        else if wanted \<noteq> '''' \<and> ordinal_of j wanted \<noteq> None then
          (seq, Inl (ErrMsg ''session tree entry id already exists''))
        else if parent \<noteq> '''' \<and> (case jn_depths j parent of None \<Rightarrow> True | Some d \<Rightarrow> d \<le> 0) then
          (seq', Inl ErrAuthorityCorrupt)
        else (seq', Inr (e\<lparr>ID := i, ParentID := parent, CreatedAt := created,
                           PathDepth := depth_under j parent\<rparr>)))"

definition observes_host_work :: "entry \<Rightarrow> bool" where
  "observes_host_work e \<longleftrightarrow> Type e = EntryToolResult
     \<and> (case msg_ToolResult (Message e) of None \<Rightarrow> False | Some v \<Rightarrow> tr_ObservedHostWork v \<noteq> '''')"

definition check_observed ::
  "ctx_poll \<Rightarrow> store_env \<Rightarrow> repo \<Rightarrow> entry \<Rightarrow> repo \<times> st_error option" where
  "check_observed ctx env r e =
    (if observes_host_work e
     then (case canonicalPath ctx (ValidateEntryIntegrity env) r (ThreadID e) (ParentID e) of
        (r', Inl err) \<Rightarrow> (r', Some err)
      | (r', Inr path) \<Rightarrow>
          (r', case hostWorksFromPath env (path @ [e]) of Inl err \<Rightarrow> Some err | Inr _ \<Rightarrow> None))
     else (r, None))"

definition sealed_entry :: "store_env \<Rightarrow> entry \<Rightarrow> entry" where
  "sealed_entry env e = e\<lparr>Raw := se_raw env e, RawHash := se_hash env (se_raw env e)\<rparr>"

definition commit_fact :: "store_env \<Rightarrow> thread_meta \<Rightarrow> repo \<Rightarrow> entry \<Rightarrow> repo" where
  "commit_fact env meta r e =
    setThread (ThreadID e) (meta\<lparr>tm_LeafID := ID e, tm_UpdatedAt := CreatedAt e\<rparr>)
      (setJournal (ThreadID e) (appendIndexedEntries env [e] (rp_journal r (ThreadID e))) r)"

definition appendFact ::
  "ctx_poll \<Rightarrow> store_env \<Rightarrow> repo \<Rightarrow> entry \<Rightarrow> append_options \<Rightarrow> bool \<Rightarrow> repo \<times> entry st_result" where
  "appendFact ctx env r e0 opts allow =
    (let t = ThreadID e0 in
     case thread r t of
       None \<Rightarrow> (r, Inl ErrThreadNotFound)
     | Some meta \<Rightarrow> (case lifecycleRejectsWrite meta of
         Some err \<Rightarrow> (r, Inl err)
       | None \<Rightarrow> (case admit_fact env allow (rp_journal r t) e0 of
           (j1, Inl err) \<Rightarrow> (setJournal t j1 r, Inl err)
         | (j1, Inr e1) \<Rightarrow> (case place_fact env opts meta j1 (rp_seq r) e1 of
             (seq, Inl err) \<Rightarrow> (setJournal t j1 r\<lparr>rp_seq := seq\<rparr>, Inl err)
           | (seq, Inr e2) \<Rightarrow>
               let e3 = admitOutputSources env e2 in
               (case validateNewOutputSources env j1 e3 of
                  (j2, Some err) \<Rightarrow> (setJournal t j2 r\<lparr>rp_seq := seq\<rparr>, Inl err)
                | (j2, None) \<Rightarrow>
                    (case check_observed ctx env (setJournal t j2 r\<lparr>rp_seq := seq\<rparr>) e3 of
                       (r3, Some err) \<Rightarrow> (r3, Inl err)
                     | (r3, None) \<Rightarrow>
                         (commit_fact env meta r3 (sealed_entry env e3), Inr (sealed_entry env e3))))))))"

definition Append ::
  "ctx_poll \<Rightarrow> store_env \<Rightarrow> repo \<Rightarrow> entry \<Rightarrow> append_options \<Rightarrow> repo \<times> entry st_result" where
  "Append ctx env r e opts = appendFact ctx env r e opts False"

definition MoveLeaf :: "store_env \<Rightarrow> repo \<Rightarrow> string \<Rightarrow> string \<Rightarrow> repo \<times> st_error option" where
  "MoveLeaf env r t entryID =
    (case thread r t of
       None \<Rightarrow> (r, Some ErrThreadNotFound)
     | Some meta \<Rightarrow> (case lifecycleRejectsWrite meta of
         Some e \<Rightarrow> (r, Some e)
       | None \<Rightarrow>
           if entryID \<noteq> '''' \<and> findEntry (jn_entries (rp_journal r t)) entryID = None
           then (r, Some ErrEntryNotFound)
           else (setThread t (meta\<lparr>tm_LeafID := entryID, tm_UpdatedAt := se_now env\<rparr>) r, None)))"

section \<open>Undoing an append transaction\<close>

record append_checkpoint =
  ck_thread :: string
  ck_journal :: journal
  ck_meta :: "thread_meta option"
  ck_provider :: "provider_state_record option"
  ck_seq :: int

definition checkpointJournalAppend :: "repo \<Rightarrow> string \<Rightarrow> append_checkpoint" where
  "checkpointJournalAppend r t = \<lparr>ck_thread = t, ck_journal = rp_journal r t, ck_meta = thread r t,
     ck_provider = rp_providerStates r t, ck_seq = rp_seq r\<rparr>"

text \<open>Dropping the tail of a list of locators, and the key when nothing is left.\<close>

definition drop_late :: "('a \<Rightarrow> bool) \<Rightarrow> 'a list \<Rightarrow> 'a list" where
  "drop_late late xs = rev (dropWhile late (rev xs))"

definition undo_key :: "('a \<Rightarrow> bool) \<Rightarrow> string \<Rightarrow> (string \<rightharpoonup> 'a list) \<Rightarrow> (string \<rightharpoonup> 'a list)" where
  "undo_key late k m =
    (let kept = drop_late late (list_at m k) in if kept = [] then m(k := None) else m(k \<mapsto> kept))"

definition undo_marker :: "int \<Rightarrow> string \<Rightarrow> (string \<rightharpoonup> turn_marker) \<Rightarrow> (string \<rightharpoonup> turn_marker)" where
  "undo_marker n k m =
    (let marker = (case m k of None \<Rightarrow> zero_marker | Some mk \<Rightarrow> mk);
         kept = drop_late (\<lambda>p. tp_through p > n) (tk_positions marker)
     in if kept = [] then m(k := None)
        else m(k \<mapsto> \<lparr>tk_at = last kept, tk_positions = kept\<rparr>))"

text \<open>
  One appended entry is taken out of the maps; \<open>n\<close> is the number of entries before. The sizes
  follow the truncated ordinals.
\<close>

definition undo_entry :: "int \<Rightarrow> entry \<Rightarrow> journal \<Rightarrow> journal" where
  "undo_entry n e j =
    (let late = (\<lambda>o'. o' \<ge> n);
         kept = drop_late late (list_at (jn_turnOrdinals j) (TurnID e));
         turns = map_option (\<lambda>ti. ti
           \<lparr>ti_requests := (if turn_started e then undo_key late (RequestKey e) (ti_requests ti)
                            else ti_requests ti),
            ti_markers := (if TurnID e = '''' then ti_markers ti
                           else undo_marker n (TurnID e) (ti_markers ti))\<rparr>) (jn_turns j);
         outputs = map_option (\<lambda>m. fold (undo_key late) (output_sources e) m) (jn_outputs j)
     in j\<lparr>jn_ordinals := map_option (\<lambda>m. m(ID e := None)) (jn_ordinals j),
          jn_depths := (jn_depths j)(ID e := None),
          jn_turns := turns,
          jn_outputs := outputs,
          jn_turnOrdinals := (if TurnID e = '''' then jn_turnOrdinals j
                              else undo_key late (TurnID e) (jn_turnOrdinals j)),
          jn_turnCounts := (if TurnID e = '''' then jn_turnCounts j
                            else if kept = [] then (jn_turnCounts j)(TurnID e := None)
                            else (jn_turnCounts j)(TurnID e \<mapsto> int (length kept)))\<rparr>)"

text \<open>
  \<open>install\<close> puts the checkpointed headers back: slices and the copied active set by value, maps
  as the (now undone) objects they were, absent where they were absent.
\<close>

definition install_journal :: "journal \<Rightarrow> journal \<Rightarrow> journal" where
  "install_journal previous undone =
    undone\<lparr>jn_entries := jn_entries previous, jn_path := jn_path previous,
      jn_ordinals := (if jn_ordinals previous = None then None else jn_ordinals undone),
      jn_turns := (case jn_turns previous of
         None \<Rightarrow> None
       | Some before \<Rightarrow> map_option (\<lambda>ti. ti\<lparr>ti_active := ti_active before\<rparr>) (jn_turns undone)),
      jn_outputs := (if jn_outputs previous = None then None else jn_outputs undone)\<rparr>"

definition restore_checkpoint :: "append_checkpoint \<Rightarrow> repo \<Rightarrow> repo" where
  "restore_checkpoint ck r =
    (let t = ck_thread ck; previous = ck_journal ck; current = rp_journal r t;
         n = length (jn_entries previous);
         undone = fold (undo_entry (int n)) (drop n (jn_entries current)) current;
         r1 = setJournal t (install_journal previous undone) r;
         r2 = (case ck_meta ck of Some m \<Rightarrow> setThread t m r1 | None \<Rightarrow> deleteThread t r1);
         r3 = (case ck_provider ck of
                 Some p \<Rightarrow> setProviderState t p r2 | None \<Rightarrow> deleteProviderState t r2)
     in r3\<lparr>rp_seq := ck_seq ck\<rparr>)"

section \<open>Appending runtime facts\<close>

text \<open>The first loop of \<open>AppendRuntimeFacts\<close>: stable identities, and the facts already stored.\<close>

fun scan_facts ::
  "journal \<Rightarrow> string \<Rightarrow> string list \<Rightarrow> entry list \<Rightarrow> entry list st_result" where
  "scan_facts j t seen [] = Inr []"
| "scan_facts j t seen (e # es) =
    (if blank (ID e) \<or> (ThreadID e \<noteq> '''' \<and> ThreadID e \<noteq> t)
     then Inl (ErrMsg ''runtime journal fact requires stable matching identity'')
     else if ID e \<in> set seen then Inl ErrRequestConflict
     else (case ordinal_of j (ID e) of
        None \<Rightarrow> scan_facts j t (ID e # seen) es
      | Some k \<Rightarrow>
          if k < 0 \<or> k \<ge> int (length (jn_entries j)) \<or> ID (at (jn_entries j) k) \<noteq> ID e
          then Inl ErrAuthorityCorrupt
          else
            let existing = at (jn_entries j) k in
            if ID existing \<noteq> ID e \<or> Type existing \<noteq> Type e
               \<or> RequestFingerprint existing \<noteq> RequestFingerprint e \<or> Payload existing \<noteq> Payload e
            then Inl ErrRequestConflict
            else (case scan_facts j t (ID e # seen) es of
                    Inl err \<Rightarrow> Inl err | Inr replayed \<Rightarrow> Inr (existing # replayed))))"

definition steering_fact :: "entry \<Rightarrow> bool" where
  "steering_fact e \<longleftrightarrow> Type e = EntrySteeringRequested \<or> Type e = EntrySteeringApplied
     \<or> Type e = EntryModelContext"

text \<open>Steering facts and model context need the running turn they name, not yet cancelled.\<close>

definition steering_allowed :: "journal \<Rightarrow> entry \<Rightarrow> bool" where
  "steering_allowed j e \<longleftrightarrow> runtimeActiveTurn j = Some (TurnID e)
     \<and> activeRunIdentity j (TurnID e) = Inr (RunID e) \<and> \<not> turnCancellationRequested j (TurnID e)"

definition queue_fact :: "entry \<Rightarrow> bool" where
  "queue_fact e \<longleftrightarrow> Type e = EntryQueueAdded \<or> Type e = EntryQueueReordered
     \<or> Type e = EntryQueueDeleted \<or> Type e = EntryModelContext"

definition reanchor :: "string \<Rightarrow> entry \<Rightarrow> repo \<Rightarrow> repo" where
  "reanchor t saved r =
    (if queue_fact saved
     then (case rp_providerStates r t of
        None \<Rightarrow> r
      | Some p \<Rightarrow> if psr_LeafEntryID p = ParentID saved
                 then setProviderState t (p\<lparr>psr_LeafEntryID := ID saved, psr_UpdatedAt := CreatedAt saved\<rparr>) r
                 else r)
     else r)"

fun append_facts ::
  "ctx_poll \<Rightarrow> store_env \<Rightarrow> string \<Rightarrow> repo \<Rightarrow> entry list \<Rightarrow> repo \<times> entry list st_result" where
  "append_facts ctx env t r [] = (r, Inr [])"
| "append_facts ctx env t r (e # es) =
    (case appendFact ctx env r (e\<lparr>ThreadID := t\<rparr>)
            \<lparr>ao_ID = ID e, ao_ParentID = '''', ao_Now = 0\<rparr> False of
       (r1, Inl err) \<Rightarrow> (r1, Inl err)
     | (r1, Inr saved) \<Rightarrow> (case append_facts ctx env t (reanchor t saved r1) es of
         (r2, Inl err) \<Rightarrow> (r2, Inl err)
       | (r2, Inr rest) \<Rightarrow> (r2, Inr (saved # rest))))"

definition AppendRuntimeFacts ::
  "ctx_poll \<Rightarrow> store_env \<Rightarrow> repo \<Rightarrow> string \<Rightarrow> entry list \<Rightarrow> repo \<times> entry list st_result" where
  "AppendRuntimeFacts ctx env r t0 es =
    (let t = trim_space t0 in
     if t = '''' \<or> es = [] then
       (r, Inl (ErrMsg ''runtime journal append requires thread and entries''))
     else if thread r t = None then
       (r, Inl (if tombstone r t \<noteq> None then ErrThreadDeleted else ErrThreadNotFound))
     else (case scan_facts (rp_journal r t) t [] es of
        Inl err \<Rightarrow> (r, Inl err)
      | Inr replayed \<Rightarrow>
          if replayed \<noteq> [] then
            (r, if length replayed \<noteq> length es then Inl ErrAuthorityCorrupt else Inr replayed)
          else
            let r1 = (if list_ex steering_fact es
                      then setJournal t (ensureTurnMarkers (rp_journal r t)) r else r)
            in if list_ex (\<lambda>e. steering_fact e \<and> \<not> steering_allowed (rp_journal r1 t) e) es
               then (r1, Inl ErrStaleAuthority)
               else (case append_facts ctx env t r1 es of
                  (r2, Inl err) \<Rightarrow> (restore_checkpoint (checkpointJournalAppend r1 t) r2, Inl err)
                | (r2, Inr saved) \<Rightarrow> (r2, Inr saved))))"

end
