(* ===== verification/Artifacts.thy ===== *)
theory Artifacts
  imports RepoState MessageContent
begin

text \<open>
  Artifacts: the full text of a tool result, kept beside the journal and bound to the entry that
  refers to it. References are built in \<^verbatim>\<open>internal/session/artifact/artifact.go\<close>; who may read one is
  decided in \<^verbatim>\<open>internal/sessiontree/artifact_reader.go\<close> and \<^verbatim>\<open>artifact_authority.go\<close>. The reader's
  accessors of a \<open>MemoryRepo\<close> never fail, so they are the maps of the repository.
\<close>

section \<open>References\<close>

definition DefaultKind :: string where "DefaultKind = ''tool_output''"
definition DefaultMIME :: string where "DefaultMIME = ''text/plain; charset=utf-8''"
definition DefaultSafeLabelMaxChars :: int where "DefaultSafeLabelMaxChars = 80"

record full_output =
  fo_Text :: string
  fo_Kind :: string
  fo_MIME :: string

definition or_default :: "string \<Rightarrow> string \<Rightarrow> string" where
  "or_default standard s = (if blank s then standard else trim_space s)"

definition NormalizeFullOutput :: "full_output \<Rightarrow> full_output" where
  "NormalizeFullOutput f = f\<lparr>fo_Kind := or_default DefaultKind (fo_Kind f),
     fo_MIME := or_default DefaultMIME (fo_MIME f)\<rparr>"

text \<open>
  \<open>unsafeLabelChars\<close> matches maximal runs outside \<open>[A-Za-z0-9._-]\<close>. Every byte of a longer rune is
  outside too, so the runs are runs of bytes.
\<close>

definition safe_char :: "char \<Rightarrow> bool" where
  "safe_char c \<longleftrightarrow> id_head c \<or> c \<in> set ''._-''"

fun replace_runs :: "bool \<Rightarrow> string \<Rightarrow> string" where
  "replace_runs matched [] = []"
| "replace_runs matched (c # cs) =
    (if safe_char c then c # replace_runs False cs
     else if matched then replace_runs True cs else CHR ''-'' # replace_runs True cs)"

definition trim_chars :: "string \<Rightarrow> string \<Rightarrow> string" where
  "trim_chars cutset s =
     rev (dropWhile (\<lambda>c. c \<in> set cutset) (rev (dropWhile (\<lambda>c. c \<in> set cutset) s)))"

definition SafeLabel :: "string \<Rightarrow> int \<Rightarrow> string" where
  "SafeLabel s maxChars =
    (let v = trim_chars ''.-_'' (replace_runs False (or_default ''artifact'' s));
         label = (if v = '''' then ''artifact'' else v);
         limit = (if maxChars \<le> 0 then DefaultSafeLabelMaxChars else maxChars)
     in if int (RuneCountInString label) \<le> limit then label
        else concat (take (nat limit) (runes label)))"

definition ValidateRef :: "artifact_ref \<Rightarrow> bool" where
  "ValidateRef ref \<longleftrightarrow> \<not> blank (ar_ID ref) \<and> \<not> blank (ar_SafeLabel ref) \<and> \<not> blank (ar_Kind ref)
     \<and> \<not> blank (ar_MIME ref) \<and> 0 \<le> ar_SizeBytes ref \<and> int (length (trim_space (ar_SHA256 ref))) = 64"

text \<open>\<open>TextSHA256\<close> is the same hexadecimal SHA-256 as \<open>stableHash\<close>.\<close>

definition RefForEffect :: "store_env \<Rightarrow> string \<Rightarrow> string \<Rightarrow> full_output \<Rightarrow> artifact_ref st_result" where
  "RefForEffect env attempt0 tool0 full0 =
    (let attempt = trim_space attempt0; tool = trim_space tool0; full = NormalizeFullOutput full0;
         ref = \<lparr>ar_ID = SafeLabel (''tool-output-'' @ attempt) DefaultSafeLabelMaxChars,
           ar_SafeLabel = SafeLabel (tool @ ''-'' @ attempt @ ''.log'') DefaultSafeLabelMaxChars,
           ar_Kind = fo_Kind full, ar_MIME = fo_MIME full, ar_SizeBytes = int (length (fo_Text full)),
           ar_SHA256 = se_hash env (fo_Text full)\<rparr>
     in if attempt = '''' \<or> tool = '''' then
          Inl (ErrMsg ''artifact reference requires effect attempt and tool name'')
        else if \<not> ValidateRef ref then Inl (ErrMsg ''artifact reference is incomplete'')
        else Inr ref)"

section \<open>Records\<close>

definition artifactRecordKey :: "string \<Rightarrow> string \<Rightarrow> string" where
  "artifactRecordKey t a = trim_space t @ bytes [0] @ trim_space a"

definition setArtifact :: "string \<Rightarrow> artifact_record \<Rightarrow> repo \<Rightarrow> repo" where
  "setArtifact k v r = r\<lparr>rp_artifacts := (rp_artifacts r)(k \<mapsto> v)\<rparr>"

definition memoryEntryByID :: "entry list \<Rightarrow> string \<Rightarrow> entry option" where
  "memoryEntryByID es i = list_find (\<lambda>e. ID e = i) es"

definition full_output_of :: "entry \<Rightarrow> artifact_ref option" where
  "full_output_of e = (case msg_ToolResult (Message e) of None \<Rightarrow> None | Some v \<Rightarrow> tr_FullOutput v)"

definition validateArtifactRecord :: "store_env \<Rightarrow> repo \<Rightarrow> artifact_record \<Rightarrow> st_error option" where
  "validateArtifactRecord env r a =
    (if arr_ThreadID a = '''' \<or> arr_CanonicalEntryID a = '''' \<or> zero_time (arr_CreatedAt a)
        \<or> \<not> ValidateRef (arr_Ref a) \<or> ar_SHA256 (arr_Ref a) \<noteq> se_hash env (arr_Text a)
        \<or> ar_SizeBytes (arr_Ref a) \<noteq> int (length (arr_Text a))
     then Some ErrAuthorityCorrupt
     else (case memoryEntryByID (jn_entries (rp_journal r (arr_ThreadID a))) (arr_CanonicalEntryID a) of
        None \<Rightarrow> Some ErrAuthorityCorrupt
      | Some e \<Rightarrow>
          if ThreadID e \<noteq> arr_ThreadID a \<or> (Type e \<noteq> EntryToolResult \<and> Type e \<noteq> EntryHostWork)
             \<or> full_output_of e \<noteq> Some (arr_Ref a)
          then Some ErrAuthorityCorrupt else None))"

section \<open>Who may read\<close>

definition validateMemoryArtifactThread :: "thread_meta \<Rightarrow> string \<Rightarrow> bool" where
  "validateMemoryArtifactThread m expected \<longleftrightarrow> tm_ID m = trim_space expected
     \<and> tm_ID m = trim_space (tm_ID m) \<and> ValidateThreadMetaAuthority m = None"

definition validateMemoryArtifactTombstone :: "thread_tombstone \<Rightarrow> string \<Rightarrow> bool" where
  "validateMemoryArtifactTombstone ts expected \<longleftrightarrow>
    (let t = trim_space expected; parent = trim_space (ts_ParentThreadID ts);
         root = trim_space (ts_RootThreadID ts)
     in \<not> (ts_ThreadID ts \<noteq> t \<or> ts_ThreadID ts \<noteq> trim_space (ts_ThreadID ts)
         \<or> ts_ParentThreadID ts \<noteq> parent \<or> ts_RootThreadID ts \<noteq> root \<or> root = ''''
         \<or> zero_time (ts_DeletedAt ts) \<or> parent = t \<or> (parent = '''' \<and> root \<noteq> t)
         \<or> (parent \<noteq> '''' \<and> root = t)))"

text \<open>
  The walks up the parent chain, with the IDs seen so far. Each step consumes a stored ID that
  was not seen, so they end on every repository.
\<close>

lemma seen_step:
  assumes "map_of xs k = Some v" "k \<notin> set seen"
  shows "card (fst ` set xs - set (k # seen)) < card (fst ` set xs - set seen)"
proof -
  have "k \<in> fst ` set xs" using assms(1) by (force dest: map_of_SomeD)
  then show ?thesis using assms(2) by (intro psubset_card_mono) auto
qed

function live_descendant ::
  "(string \<times> thread_meta) list \<Rightarrow> string \<Rightarrow> string list \<Rightarrow> thread_meta \<Rightarrow> st_error option" where
  "live_descendant ts parent seen cur =
    (let ancestor = parent_of cur in
     if ancestor = '''' then Some (ErrMsg ''session tree subagent not found'')
     else if ancestor = parent then None
     else if ancestor \<in> set seen then Some ErrAuthorityCorrupt
     else (case map_of ts ancestor of
        None \<Rightarrow> Some ErrAuthorityCorrupt
      | Some m \<Rightarrow> if \<not> validateMemoryArtifactThread m ancestor then Some ErrAuthorityCorrupt
                  else live_descendant ts parent (ancestor # seen) m))"
  by pat_completeness auto
termination
proof (relation "measure (\<lambda>(ts, parent, seen, cur). card (fst ` set ts - set seen))", goal_cases)
  case (2 ts parent seen cur a m)
  then show ?case using seen_step [of ts a m seen] by simp
qed simp

declare live_descendant.simps [simp del]

function live_root :: "(string \<times> thread_meta) list \<Rightarrow> string list \<Rightarrow> string \<Rightarrow> string st_result" where
  "live_root ts seen t =
    (if t \<in> set seen then Inl ErrAuthorityCorrupt
     else (case map_of ts t of
        None \<Rightarrow> Inl ErrAuthorityCorrupt
      | Some m \<Rightarrow> if \<not> validateMemoryArtifactThread m t then Inl ErrAuthorityCorrupt
                  else if parent_of m = '''' then Inr t
                  else live_root ts (t # seen) (parent_of m)))"
  by pat_completeness auto
termination
proof (relation "measure (\<lambda>(ts, seen, t). card (fst ` set ts - set seen))", goal_cases)
  case (2 ts seen t m)
  then show ?case using seen_step [of ts t m seen] by simp
qed simp

declare live_root.simps [simp del]

text \<open>
  \<open>tombstoneDescendsFromLocked\<close>: the walk needs the identity and the parent of the current thread
  only, and goes through tombstones and live threads.
\<close>

definition known :: "repo \<Rightarrow> (string \<times> unit) list" where
  "known r = map (\<lambda>(k, _). (k, ())) (rp_threads r) @ map (\<lambda>(k, _). (k, ())) (rp_tombstones r)"

lemma known_step:
  assumes "thread r k \<noteq> None \<or> tombstone r k \<noteq> None" "k \<notin> set seen"
  shows "card (fst ` set (known r) - set (k # seen)) < card (fst ` set (known r) - set seen)"
proof -
  have "k \<in> fst ` set (known r)"
    using assms(1) by (force simp: known_def thread_def tombstone_def image_Un dest: map_of_SomeD)
  then show ?thesis using assms(2) by (intro psubset_card_mono) auto
qed

function tombstone_descends ::
  "repo \<Rightarrow> string \<Rightarrow> string \<Rightarrow> string list \<Rightarrow> string \<times> string \<Rightarrow> bool st_result" where
  "tombstone_descends r parent root seen cur =
    (let ancestor = trim_space (snd cur) in
     if ancestor = '''' then (if fst cur \<noteq> root then Inl ErrAuthorityCorrupt else Inr False)
     else if ancestor = parent then
       (case live_root (rp_threads r) [] parent of
          Inl err \<Rightarrow> Inl err
        | Inr parent_root \<Rightarrow> if root \<noteq> parent_root then Inl ErrAuthorityCorrupt else Inr True)
     else if ancestor \<in> set seen then Inl ErrAuthorityCorrupt
     else (case tombstone r ancestor of
        Some ts \<Rightarrow>
          if \<not> validateMemoryArtifactTombstone ts ancestor \<or> ts_RootThreadID ts \<noteq> root
          then Inl ErrAuthorityCorrupt
          else tombstone_descends r parent root (ancestor # seen) (ts_ThreadID ts, ts_ParentThreadID ts)
      | None \<Rightarrow> (case thread r ancestor of
          None \<Rightarrow> Inl ErrAuthorityCorrupt
        | Some m \<Rightarrow> if \<not> validateMemoryArtifactThread m ancestor then Inl ErrAuthorityCorrupt
                    else tombstone_descends r parent root (ancestor # seen) (tm_ID m, tm_ParentThreadID m))))"
  by pat_completeness auto
termination
proof (relation "measure (\<lambda>(r, parent, root, seen, cur). card (fst ` set (known r) - set seen))", goal_cases)
  case (2 r parent root seen cur a)
  then show ?case using known_step [of r a seen] by simp
next
  case (3 r parent root seen cur a)
  then show ?case using known_step [of r a seen] by simp
qed simp

declare tombstone_descends.simps [simp del]

definition deleted_or :: "repo \<Rightarrow> string \<Rightarrow> st_error \<Rightarrow> st_error" where
  "deleted_or r t missing =
    (case tombstone r t of
       None \<Rightarrow> missing
     | Some ts \<Rightarrow> if validateMemoryArtifactTombstone ts t then ErrThreadDeleted else ErrAuthorityCorrupt)"

definition subagent_not_found :: st_error where
  "subagent_not_found = ErrMsg ''session tree subagent not found''"

definition read_deleted_child :: "repo \<Rightarrow> string \<Rightarrow> string \<Rightarrow> st_error" where
  "read_deleted_child r parent t =
    (case tombstone r t of
       None \<Rightarrow> subagent_not_found
     | Some ts \<Rightarrow>
         if \<not> validateMemoryArtifactTombstone ts t then ErrAuthorityCorrupt
         else (case tombstone_descends r parent (ts_RootThreadID ts) [ts_ThreadID ts]
                      (ts_ThreadID ts, ts_ParentThreadID ts) of
             Inl err \<Rightarrow> err
           | Inr descendant \<Rightarrow> if descendant then ErrThreadDeleted else subagent_not_found))"

definition validateArtifactReadAuthority :: "repo \<Rightarrow> string \<Rightarrow> string \<Rightarrow> st_error option" where
  "validateArtifactReadAuthority r parent0 t0 =
    (let parent = trim_space parent0; t = trim_space t0 in
     if parent = '''' then
       (case thread r t of
          None \<Rightarrow> Some (deleted_or r t ErrThreadNotFound)
        | Some m \<Rightarrow>
            if \<not> validateMemoryArtifactThread m t then Some ErrAuthorityCorrupt
            else if parent_of m \<noteq> '''' then
              Some (ErrMsg ''session tree subagent requires parent authority'')
            else None)
     else (case thread r parent of
          None \<Rightarrow> Some (deleted_or r parent subagent_not_found)
        | Some p \<Rightarrow>
            if \<not> validateMemoryArtifactThread p parent then Some ErrAuthorityCorrupt
            else if t = parent then Some subagent_not_found
            else (case thread r t of
                Some m \<Rightarrow> if \<not> validateMemoryArtifactThread m t then Some ErrAuthorityCorrupt
                          else live_descendant (rp_threads r) parent [tm_ID m] m
              | None \<Rightarrow> Some (read_deleted_child r parent t))))"

definition ReadArtifact ::
  "store_env \<Rightarrow> repo \<Rightarrow> string \<Rightarrow> string \<Rightarrow> string \<Rightarrow> (artifact_ref \<times> string) st_result" where
  "ReadArtifact env r parent t0 a0 =
    (let t = trim_space t0; a = trim_space a0 in
     if t = '''' \<or> a = '''' then
       Inl (ErrMsg ''artifact read requires thread and artifact identities'')
     else (case validateArtifactReadAuthority r parent t of
        Some err \<Rightarrow> Inl err
      | None \<Rightarrow> (case rp_artifacts r (artifactRecordKey t a) of
          None \<Rightarrow> Inl (ErrMsg ''session tree artifact not found'')
        | Some rec \<Rightarrow>
            if arr_ThreadID rec \<noteq> t \<or> ar_ID (arr_Ref rec) \<noteq> a then Inl ErrAuthorityCorrupt
            else (case validateArtifactRecord env r rec of
                Some err \<Rightarrow> Inl err | None \<Rightarrow> Inr (arr_Ref rec, arr_Text rec)))))"

section \<open>Reading gives back what was stored, to its owner\<close>

lemma live_descendant_owned:
  "live_descendant ts parent seen cur = None \<Longrightarrow> cur \<in> snd ` set ts \<Longrightarrow>
    owned (map snd ts) parent (tm_ID cur)"
proof (induction ts parent seen cur rule: live_descendant.induct)
  case (1 ts parent seen cur)
  note rule = "1.prems"(1) [unfolded live_descendant.simps [of ts parent seen cur] Let_def]
  have p: "parent_of cur \<noteq> ''''" using rule by (auto split: if_splits)
  have "owned (map snd ts) parent (parent_of cur)"
  proof (cases "parent_of cur = parent")
    case False
    then obtain m where m: "parent_of cur \<notin> set seen" "map_of ts (parent_of cur) = Some m"
      "validateMemoryArtifactThread m (parent_of cur)"
      "live_descendant ts parent (parent_of cur # seen) m = None"
      using rule by (auto split: if_splits option.splits)
    have "(parent_of cur, m) \<in> set ts" using m(2) by (rule map_of_SomeD)
    then have "m \<in> snd ` set ts" "tm_ID m = parent_of cur"
      using m(3) by (force, simp add: validateMemoryArtifactThread_def parent_of_def)
    with "1.IH" [OF refl p False m(1,2)] m(3,4) show ?thesis by simp
  qed (simp add: owned_root)
  then show ?case using "1.prems"(2) p by (intro owned_child) simp_all
qed

lemma read_authority_None:
  assumes "validateArtifactReadAuthority r parent t = None"
  shows "\<exists>m. thread r (trim_space t) = Some m \<and> tm_ID m = trim_space t
    \<and> (if blank parent then parent_of m = ''''
       else owned (map snd (rp_threads r)) (trim_space parent) (trim_space t) \<and> trim_space t \<noteq> trim_space parent)"
proof (cases "blank parent")
  case True
  then show ?thesis using assms
    by (auto simp: validateArtifactReadAuthority_def Let_def blank_def validateMemoryArtifactThread_def
        split: if_splits option.splits)
next
  case False
  then obtain m where m: "thread r (trim_space t) = Some m" "validateMemoryArtifactThread m (trim_space t)"
    "live_descendant (rp_threads r) (trim_space parent) [tm_ID m] m = None" "trim_space t \<noteq> trim_space parent"
    using assms by (auto simp: validateArtifactReadAuthority_def Let_def blank_def split: if_splits option.splits)
  have "m \<in> snd ` set (rp_threads r)" using m(1) by (force simp: thread_def dest: map_of_SomeD)
  from live_descendant_owned [OF m(3) this] m False show ?thesis
    by (simp add: validateMemoryArtifactThread_def)
qed

text \<open>
  C24: A successful read returns exactly the text its reference describes: the digest and the size
  match, the reference has the requested identity, and a tool result or host work entry
  in the journal of the thread carries it. The thread is live; without a parent it is
  a root, and with one it is a thread the parent owns.
\<close>

theorem read_artifact_exact:
  assumes "ReadArtifact env r parent t a = Inr (ref, content)"
  shows "ar_SHA256 ref = se_hash env content \<and> ar_SizeBytes ref = int (length content)
    \<and> ar_ID ref = trim_space a
    \<and> (\<exists>e. memoryEntryByID (jn_entries (rp_journal r (trim_space t))) (ID e) = Some e
         \<and> (Type e = EntryToolResult \<or> Type e = EntryHostWork) \<and> full_output_of e = Some ref)
    \<and> (\<exists>m. thread r (trim_space t) = Some m \<and> tm_ID m = trim_space t
         \<and> (if blank parent then parent_of m = ''''
            else owned (map snd (rp_threads r)) (trim_space parent) (trim_space t)
              \<and> trim_space t \<noteq> trim_space parent))"
proof -
  from assms obtain rec where auth: "validateArtifactReadAuthority r parent (trim_space t) = None"
    and rec: "arr_ThreadID rec = trim_space t" "ar_ID (arr_Ref rec) = trim_space a"
      "validateArtifactRecord env r rec = None" "ref = arr_Ref rec" "content = arr_Text rec"
    by (auto simp: ReadArtifact_def Let_def split: if_splits option.splits)
  obtain e where e: "memoryEntryByID (jn_entries (rp_journal r (trim_space t))) (arr_CanonicalEntryID rec) = Some e"
    "Type e = EntryToolResult \<or> Type e = EntryHostWork" "full_output_of e = Some ref"
    "ar_SHA256 ref = se_hash env content" "ar_SizeBytes ref = int (length content)"
    using rec by (auto simp: validateArtifactRecord_def split: if_splits option.splits)
  then have "ID e = arr_CanonicalEntryID rec" by (auto simp: memoryEntryByID_def dest: list_find_Some)
  with e have "memoryEntryByID (jn_entries (rp_journal r (trim_space t))) (ID e) = Some e
      \<and> (Type e = EntryToolResult \<or> Type e = EntryHostWork) \<and> full_output_of e = Some ref" by simp
  with e(4,5) rec read_authority_None [OF auth] show ?thesis by auto
qed

section \<open>An example\<close>

text \<open>A root thread whose child ran a tool with retained output.\<close>

definition digest_env :: store_env where
  "digest_env = \<lparr>se_now = 7, se_raw = (\<lambda>e. ''raw''), se_hash = (\<lambda>s. replicate 64 CHR ''0''),
     se_parse_url = (\<lambda>_. None), se_parse_time = (\<lambda>_. None), se_atoi = (\<lambda>_. None),
     se_json_valid = (\<lambda>_. True), se_work_of_json = (\<lambda>_. None), se_json_of_work = (\<lambda>_. ''''),
     se_ids_of_json = (\<lambda>_. None), se_json_of_ids = concat, se_activity_ok = (\<lambda>_. True),
     se_activity_status = (\<lambda>_. ''''), se_ask_user_ok = (\<lambda>_. False)\<rparr>"

definition log_ref :: artifact_ref where
  "log_ref = \<lparr>ar_ID = ''log'', ar_SafeLabel = ''log'', ar_Kind = ''tool_output'', ar_MIME = ''text/plain'',
     ar_SizeBytes = 2, ar_SHA256 = replicate 64 CHR ''0''\<rparr>"

definition tool_view :: tool_result_view where
  "tool_view = \<lparr>tr_ObservedHostWork = '''', tr_EffectOutcome = '''', tr_InputRequired = None,
     tr_Status = ''success'', tr_Truncated = False, tr_OriginalBytes = 0, tr_VisibleBytes = 0,
     tr_OriginalLines = 0, tr_VisibleLines = 0, tr_Strategy = '''', tr_ContentSHA256 = '''',
     tr_FullOutput = None, tr_Attachments = []\<rparr>"

definition artifact_repo :: repo where
  "artifact_repo =
    setArtifact (artifactRecordKey ''c'' ''log'') \<lparr>arr_ThreadID = ''c'', arr_Ref = log_ref, arr_Text = ''ok'',
        arr_CanonicalEntryID = ''e'', arr_CreatedAt = 3\<rparr>
      (setJournal ''c'' (empty_journal\<lparr>jn_entries := [zero_entry\<lparr>ID := ''e'', ThreadID := ''c'',
          Type := EntryToolResult,
          Message := zero_message\<lparr>msg_ToolResult := Some (tool_view\<lparr>tr_FullOutput := Some log_ref\<rparr>)\<rparr>\<rparr>]\<rparr>)
        (setThread ''c'' (zero_meta\<lparr>tm_ID := ''c'', tm_ParentThreadID := ''p'', tm_TaskName := ''k'',
            tm_HostProfileRef := ''h'', tm_Lifecycle := ThreadLifecycleOpen\<rparr>)
          (setThread ''p'' (zero_meta\<lparr>tm_ID := ''p'', tm_Lifecycle := ThreadLifecycleOpen\<rparr>) newMemoryRepo)))"

theorem read_artifact_exact_witness:
  "ReadArtifact digest_env artifact_repo ''p'' '' c'' ''log'' = Inr (log_ref, ''ok'')
   \<and> owned (map snd (rp_threads artifact_repo)) ''p'' ''c''"
proof -
  have r: "ReadArtifact digest_env artifact_repo ''p'' '' c'' ''log'' = Inr (log_ref, ''ok'')" by code_simp
  have t: "trim_space ''p'' = ''p''" "trim_space '' c'' = ''c''" "\<not> blank ''p''" by code_simp+
  from read_artifact_exact [OF r] r t show ?thesis by auto
qed

end
