(* ===== verification/EffectAttempts.thy ===== *)
theory EffectAttempts
  imports Lifecycle JournalStore Artifacts
begin

text \<open>
  The effect authority (\<^verbatim>\<open>internal/sessiontree/effect_authority.go\<close>): before a tool with side effects
  runs, an attempt is prepared in the journal of its thread; it is rejected or dispatched, and a
  dispatched attempt is finished together with its result entry and retained output. Every
  change of state is one more entry, and the last one with the identity of the attempt counts.
\<close>

datatype effect_state =
    EffectAttemptPrepared | EffectAttemptDispatching | EffectAttemptCompleted | EffectAttemptFailed
  | EffectAttemptRejected | EffectAttemptUnknown | EffectAttemptCancelled | EffectStateOther string

definition state_text :: "effect_state \<Rightarrow> string" where
  "state_text s = (case s of
     EffectAttemptPrepared \<Rightarrow> ''prepared'' | EffectAttemptDispatching \<Rightarrow> ''dispatching''
   | EffectAttemptCompleted \<Rightarrow> ''completed'' | EffectAttemptFailed \<Rightarrow> ''failed''
   | EffectAttemptRejected \<Rightarrow> ''rejected'' | EffectAttemptUnknown \<Rightarrow> ''unknown''
   | EffectAttemptCancelled \<Rightarrow> ''cancelled'' | EffectStateOther s \<Rightarrow> s)"

record effect_attempt =
  ea_ID :: string
  ea_Invocation :: work_invocation
  ea_RequestFingerprint :: string
  ea_State :: effect_state
  ea_RejectionCode :: string
  ea_TerminalFingerprint :: string
  ea_ResultEntryID :: string
  ea_CreatedAt :: go_time
  ea_UpdatedAt :: go_time

text \<open>JSON of an attempt is a parameter, next to the environment of the journal.\<close>

record effect_env =
  ee_store :: store_env
  ee_json :: "effect_attempt \<Rightarrow> string"
  ee_attempt :: "string \<Rightarrow> effect_attempt option"

section \<open>Identities and entries\<close>

definition effectInvocationKey :: "work_invocation \<Rightarrow> string" where
  "effectInvocationKey ivk = trim_space (iv_ThreadID ivk) @ bytes [0] @ trim_space (iv_TurnID ivk)
     @ bytes [0] @ trim_space (iv_RunID ivk) @ bytes [0] @ trim_space (iv_ToolCallID ivk)"

definition effectAttemptID :: "effect_env \<Rightarrow> work_invocation \<Rightarrow> string" where
  "effectAttemptID env ivk = ''effect-'' @ take 24 (se_hash (ee_store env) (effectInvocationKey ivk))"

definition effectAttemptEntryID :: "string \<Rightarrow> effect_state \<Rightarrow> string" where
  "effectAttemptEntryID a s = ''effect-attempt:'' @ trim_space a @ '':'' @ state_text s"

definition effectAttemptEntry :: "effect_env \<Rightarrow> effect_attempt \<Rightarrow> string \<Rightarrow> entry" where
  "effectAttemptEntry env att parentID = sealed_entry (ee_store env)
     (zero_entry\<lparr>ID := effectAttemptEntryID (ea_ID att) (ea_State att),
        ThreadID := iv_ThreadID (ea_Invocation att), ParentID := parentID,
        TurnID := iv_TurnID (ea_Invocation att), RunID := iv_RunID (ea_Invocation att),
        Type := EntryEffectAttempt, RequestKey := ea_ID att,
        RequestFingerprint := ea_RequestFingerprint att, Payload := ee_json env att,
        CreatedAt := ea_UpdatedAt att\<rparr>)"

definition decodeEffectAttempt :: "effect_env \<Rightarrow> entry \<Rightarrow> effect_attempt st_result" where
  "decodeEffectAttempt env e =
    (if Type e \<noteq> EntryEffectAttempt then Inl ErrEffectAttemptNotFound
     else (case ee_attempt env (Payload e) of
        None \<Rightarrow> Inl ErrAuthorityCorrupt
      | Some att \<Rightarrow>
          let ivk = ea_Invocation att in
          if ea_ID att = '''' \<or> iv_ThreadID ivk \<noteq> ThreadID e \<or> iv_TurnID ivk \<noteq> TurnID e
             \<or> iv_RunID ivk \<noteq> RunID e \<or> ea_RequestFingerprint att \<noteq> RequestFingerprint e
             \<or> effectAttemptEntryID (ea_ID att) (ea_State att) \<noteq> ID e
          then Inl ErrAuthorityCorrupt else Inr att))"

text \<open>\<open>None\<close> stands for not found.\<close>

definition latestEffectAttempt ::
  "effect_env \<Rightarrow> entry list \<Rightarrow> string \<Rightarrow> effect_attempt st_result option" where
  "latestEffectAttempt env es a =
     map_option (decodeEffectAttempt env)
       (list_find (\<lambda>e. \<not> (Type e \<noteq> EntryEffectAttempt \<or> RequestKey e \<noteq> trim_space a)) (rev es))"

definition effectAttemptByInvocation ::
  "effect_env \<Rightarrow> entry list \<Rightarrow> work_invocation \<Rightarrow> effect_attempt st_result option" where
  "effectAttemptByInvocation env es ivk =
    (case latestEffectAttempt env es (effectAttemptID env ivk) of
       Some (Inr att) \<Rightarrow>
         if effectInvocationKey (ea_Invocation att) \<noteq> effectInvocationKey ivk
         then Some (Inl ErrRequestConflict) else Some (Inr att)
     | found \<Rightarrow> found)"

definition commit_at :: "store_env \<Rightarrow> thread_meta \<Rightarrow> repo \<Rightarrow> entry \<Rightarrow> repo" where
  "commit_at env meta r e =
     setThread (tm_ID meta) (meta\<lparr>tm_LeafID := ID e, tm_UpdatedAt := CreatedAt e\<rparr>)
       (setJournal (tm_ID meta) (appendIndexedEntries env [e] (rp_journal r (tm_ID meta))) r)"

definition appendEffectAttempt ::
  "effect_env \<Rightarrow> thread_meta \<Rightarrow> effect_attempt \<Rightarrow> repo \<Rightarrow> repo \<times> st_error option" where
  "appendEffectAttempt env meta att r =
    (let e = effectAttemptEntry env att (tm_LeafID meta) in
     case findEntry (jn_entries (rp_journal r (tm_ID meta))) (ID e) of
       Some existing \<Rightarrow> (r, case decodeEffectAttempt env existing of
           Inl err \<Rightarrow> Some err
         | Inr decoded \<Rightarrow> if decoded \<noteq> att then Some ErrRequestConflict else None)
     | None \<Rightarrow> (commit_at (ee_store env) meta r e, None))"

text \<open>
  The code ranges over the journals and takes the first in which the attempt occurs; a journal
  exists for stored threads only, in an arbitrary order.
\<close>

definition entriesByEffectAttempt :: "effect_env \<Rightarrow> repo \<Rightarrow> string \<Rightarrow> entry list" where
  "entriesByEffectAttempt env r a =
    (case list_find (\<lambda>t. latestEffectAttempt env (jn_entries (rp_journal r t)) a \<noteq> None)
            (map fst (rp_threads r)) of
       None \<Rightarrow> [] | Some t \<Rightarrow> jn_entries (rp_journal r t))"

definition find_attempt :: "effect_env \<Rightarrow> repo \<Rightarrow> string \<Rightarrow> effect_attempt st_result" where
  "find_attempt env r a =
    (case latestEffectAttempt env (entriesByEffectAttempt env r a) a of
       None \<Rightarrow> Inl ErrEffectAttemptNotFound | Some found \<Rightarrow> found)"

definition EffectAttempt :: "effect_env \<Rightarrow> repo \<Rightarrow> string \<Rightarrow> string \<Rightarrow> effect_attempt st_result" where
  "EffectAttempt env r t a =
    (if thread r (trim_space t) = None then Inl ErrThreadNotFound
     else (case latestEffectAttempt env (jn_entries (rp_journal r (trim_space t))) a of
        None \<Rightarrow> Inl ErrEffectAttemptNotFound | Some found \<Rightarrow> found))"

section \<open>The operations\<close>

text \<open>\<open>canonicalTime\<close>: the time zone of a time is not modelled.\<close>

definition canonicalTime :: "effect_env \<Rightarrow> go_time \<Rightarrow> go_time" where
  "canonicalTime env t = (if \<not> zero_time t then t else se_now (ee_store env))"

definition canceled :: st_error where
  "canceled = ErrMsg ''context canceled''"

definition ensured :: "string \<Rightarrow> repo \<Rightarrow> repo" where
  "ensured t r = setJournal t (ensureTurnMarkers (rp_journal r t)) r"

text \<open>A repository without a thread has the zero metadata for it.\<close>

definition meta_of :: "repo \<Rightarrow> string \<Rightarrow> thread_meta" where
  "meta_of r t = (case thread r t of None \<Rightarrow> zero_meta | Some m \<Rightarrow> m)"

record prepare_request =
  pe_Invocation :: work_invocation
  pe_RequestFingerprint :: string
  pe_Now :: go_time

definition prepared :: "effect_env \<Rightarrow> prepare_request \<Rightarrow> effect_attempt" where
  "prepared env req =
    (let now = canonicalTime env (pe_Now req) in
     \<lparr>ea_ID = effectAttemptID env (pe_Invocation req), ea_Invocation = pe_Invocation req,
      ea_RequestFingerprint = trim_space (pe_RequestFingerprint req), ea_State = EffectAttemptPrepared,
      ea_RejectionCode = '''', ea_TerminalFingerprint = '''', ea_ResultEntryID = '''',
      ea_CreatedAt = now, ea_UpdatedAt = now\<rparr>)"

definition same_request :: "prepare_request \<Rightarrow> effect_attempt \<Rightarrow> bool" where
  "same_request req existing \<longleftrightarrow>
     \<not> (ea_RequestFingerprint existing \<noteq> trim_space (pe_RequestFingerprint req)
        \<or> iv_ToolName (ea_Invocation existing) \<noteq> trim_space (iv_ToolName (pe_Invocation req))
        \<or> iv_ArgumentHash (ea_Invocation existing) \<noteq> trim_space (iv_ArgumentHash (pe_Invocation req)))"

text \<open>The result is the attempt and whether the request was a replay.\<close>

definition PrepareEffectAttempt ::
  "effect_env \<Rightarrow> repo \<Rightarrow> prepare_request \<Rightarrow> repo \<times> (effect_attempt \<times> bool) st_result" where
  "PrepareEffectAttempt env r req =
    (let ivk = pe_Invocation req; t = iv_ThreadID ivk in
     if \<not> validateEffectInvocation ivk then
       (r, Inl (ErrMsg ''effect invocation requires complete thread, turn, run, tool call, tool name, and argument identities''))
     else if blank (pe_RequestFingerprint req) then
       (r, Inl (ErrMsg ''effect attempt request fingerprint is required''))
     else (case thread r t of
        None \<Rightarrow> (r, Inl ErrThreadNotFound)
      | Some meta \<Rightarrow> (case lifecycleRejectsWrite meta of
          Some err \<Rightarrow> (r, Inl err)
        | None \<Rightarrow>
            let r1 = ensured t r; j = rp_journal r1 t in
            if turnCancellationRequested j (iv_TurnID ivk) then (r1, Inl canceled)
            else if runtimeActiveTurn (rp_journal r1 (tm_ID meta)) \<noteq> Some (iv_TurnID ivk)
            then (r1, Inl ErrStaleAuthority)
            else (case effectAttemptByInvocation env (jn_entries (rp_journal r1 (tm_ID meta))) ivk of
                Some (Inl err) \<Rightarrow> (r1, Inl err)
              | Some (Inr existing) \<Rightarrow>
                  (r1, if \<not> same_request req existing then Inl ErrRequestConflict
                       else Inr (existing, True))
              | None \<Rightarrow> (case appendEffectAttempt env meta (prepared env req) r1 of
                    (r2, Some err) \<Rightarrow> (r2, Inl err)
                  | (r2, None) \<Rightarrow> (r2, Inr (prepared env req, False)))))))"

record reject_request =
  rj_EffectAttemptID :: string
  rj_RequestFingerprint :: string
  rj_RejectionCode :: string
  rj_RejectionFingerprint :: string
  rj_Now :: go_time

definition commit_attempt ::
  "effect_env \<Rightarrow> effect_attempt \<Rightarrow> repo \<Rightarrow> repo \<times> effect_attempt st_result" where
  "commit_attempt env att r =
    (case appendEffectAttempt env (meta_of r (iv_ThreadID (ea_Invocation att))) att r of
       (r', Some err) \<Rightarrow> (r', Inl err) | (r', None) \<Rightarrow> (r', Inr att))"

definition RejectEffectAttempt ::
  "effect_env \<Rightarrow> repo \<Rightarrow> reject_request \<Rightarrow> repo \<times> effect_attempt st_result" where
  "RejectEffectAttempt env r req =
    (let code = trim_space (rj_RejectionCode req);
         fingerprint = trim_space (rj_RejectionFingerprint req)
     in if code = '''' \<or> fingerprint = '''' then
          (r, Inl (ErrMsg ''effect rejection requires code and fingerprint''))
        else (case find_attempt env r (rj_EffectAttemptID req) of
           Inl err \<Rightarrow> (r, Inl err)
         | Inr att \<Rightarrow>
             if ea_RequestFingerprint att \<noteq> trim_space (rj_RequestFingerprint req)
             then (r, Inl ErrRequestConflict)
             else if ea_State att = EffectAttemptRejected then
               (r, if ea_RejectionCode att \<noteq> code \<or> ea_TerminalFingerprint att \<noteq> fingerprint
                   then Inl ErrRequestConflict else Inr att)
             else if ea_State att \<noteq> EffectAttemptPrepared then (r, Inl ErrRequestConflict)
             else commit_attempt env (att\<lparr>ea_State := EffectAttemptRejected, ea_RejectionCode := code,
                    ea_TerminalFingerprint := fingerprint,
                    ea_UpdatedAt := canonicalTime env (rj_Now req)\<rparr>) r))"

record begin_request =
  bg_EffectAttemptID :: string
  bg_RequestFingerprint :: string
  bg_AuthorizationProofHash :: string
  bg_Now :: go_time

definition BeginEffectDispatch ::
  "effect_env \<Rightarrow> repo \<Rightarrow> begin_request \<Rightarrow> repo \<times> effect_attempt st_result" where
  "BeginEffectDispatch env r req =
    (if blank (bg_AuthorizationProofHash req) then
       (r, Inl (ErrMsg ''effect dispatch requires authorization proof''))
     else (case find_attempt env r (bg_EffectAttemptID req) of
        Inl err \<Rightarrow> (r, Inl err)
      | Inr att \<Rightarrow>
          let t = iv_ThreadID (ea_Invocation att); turn = iv_TurnID (ea_Invocation att);
              r1 = ensured t r; j = rp_journal r1 t
          in if ea_RequestFingerprint att \<noteq> trim_space (bg_RequestFingerprint req)
             then (r, Inl ErrRequestConflict)
             else if turnCancellationRequested j turn then (r1, Inl canceled)
             else if runtimeActiveTurn j \<noteq> Some turn then (r1, Inl ErrStaleAuthority)
             else if ea_State att \<noteq> EffectAttemptPrepared then
               (r1, Inl (if ea_State att = EffectAttemptDispatching \<or> ea_State att = EffectAttemptUnknown
                         then ErrEffectOutcomeUnknown else ErrRequestConflict))
             else commit_attempt env (att\<lparr>ea_State := EffectAttemptDispatching,
                    ea_UpdatedAt := canonicalTime env (bg_Now req)\<rparr>) r1))"

record finish_request =
  fi_EffectAttemptID :: string
  fi_RequestFingerprint :: string
  fi_OutcomeFingerprint :: string
  fi_Failed :: bool
  fi_Result :: entry
  fi_FullOutput :: "full_output option"
  fi_Now :: go_time

record finish_result =
  fr_Attempt :: effect_attempt
  fr_Result :: entry
  fr_Artifact :: "artifact_ref option"
  fr_Replayed :: bool

definition without_output :: "message \<Rightarrow> message" where
  "without_output m = m\<lparr>msg_ToolResult := map_option (tr_FullOutput_update (\<lambda>_. None)) (msg_ToolResult m)\<rparr>"

text \<open>Metadata is compared as a map.\<close>

definition same_map :: "meta_map \<Rightarrow> meta_map \<Rightarrow> bool" where
  "same_map a b \<longleftrightarrow> list_all (\<lambda>k. map_of a k = map_of b k) (map fst a @ map fst b)"

definition EffectResultRequestMatches :: "entry \<Rightarrow> entry \<Rightarrow> string \<Rightarrow> bool" where
  "EffectResultRequestMatches committed requested a \<longleftrightarrow>
     \<not> (Type committed \<noteq> EntryToolResult \<or> Type requested \<noteq> EntryToolResult
        \<or> ThreadID committed \<noteq> ThreadID requested \<or> TurnID committed \<noteq> TurnID requested
        \<or> without_output (Message committed) \<noteq> without_output (Message requested)
        \<or> Error committed \<noteq> Error requested)
   \<and> same_map (Metadata committed) (AList.update ''effect_attempt_id'' a (Metadata requested))"

text \<open>
  A finish that was committed before: the request must match the stored result, and its output
  the stored artifact. A tool result without a view would be a nil dereference; a committed
  result always has one (\<open>finish_check\<close>).
\<close>

definition validateEffectArtifactReplay ::
  "effect_env \<Rightarrow> repo \<Rightarrow> effect_attempt \<Rightarrow> entry \<Rightarrow> finish_request \<Rightarrow> artifact_ref option st_result" where
  "validateEffectArtifactReplay env r att e req =
    (if \<not> EffectResultRequestMatches e (fi_Result req) (ea_ID att) then Inl ErrRequestConflict
     else (case fi_FullOutput req of
        None \<Rightarrow> if full_output_of e \<noteq> None then Inl ErrRequestConflict else Inr None
      | Some output \<Rightarrow> (case full_output_of e of
          None \<Rightarrow> Inl ErrAuthorityCorrupt
        | Some committedRef \<Rightarrow>
            (case RefForEffect (ee_store env) (ea_ID att) (iv_ToolName (ea_Invocation att)) output of
               Inl err \<Rightarrow> Inl err
             | Inr expected \<Rightarrow>
                 if committedRef \<noteq> expected then Inl ErrRequestConflict
                 else (case rp_artifacts r (artifactRecordKey (iv_ThreadID (ea_Invocation att)) (ar_ID expected)) of
                    None \<Rightarrow> Inl ErrAuthorityCorrupt
                  | Some rec \<Rightarrow>
                      if arr_Text rec \<noteq> fo_Text (NormalizeFullOutput output) \<or> arr_Ref rec \<noteq> expected
                         \<or> arr_CanonicalEntryID rec \<noteq> ID e
                      then Inl ErrRequestConflict
                      else (case validateArtifactRecord (ee_store env) r rec of
                          Some err \<Rightarrow> Inl err | None \<Rightarrow> Inr (Some expected)))))))"

definition want_state :: "finish_request \<Rightarrow> effect_state" where
  "want_state req =
    (if fi_Failed req then EffectAttemptFailed
     else (case msg_ToolResult (Message (fi_Result req)) of
        None \<Rightarrow> EffectAttemptCompleted
      | Some v \<Rightarrow> if tr_Status v = ''canceled'' then EffectAttemptCancelled else EffectAttemptCompleted))"

definition replay_finish ::
  "effect_env \<Rightarrow> repo \<Rightarrow> effect_attempt \<Rightarrow> finish_request \<Rightarrow> finish_result st_result" where
  "replay_finish env r att req =
    (if ea_TerminalFingerprint att \<noteq> trim_space (fi_OutcomeFingerprint req) then Inl ErrRequestConflict
     else (case memoryEntryByID (jn_entries (rp_journal r (iv_ThreadID (ea_Invocation att)))) (ea_ResultEntryID att) of
        None \<Rightarrow> Inl ErrAuthorityCorrupt
      | Some e \<Rightarrow> (case validateEffectArtifactReplay env r att e req of
          Inl err \<Rightarrow> Inl err
        | Inr ref \<Rightarrow> Inr \<lparr>fr_Attempt = att, fr_Result = e, fr_Artifact = ref, fr_Replayed = True\<rparr>)))"

definition finish_check :: "effect_attempt \<Rightarrow> entry \<Rightarrow> bool" where
  "finish_check att e \<longleftrightarrow> (let ivk = ea_Invocation att in
     \<not> (Type e \<noteq> EntryToolResult \<or> ThreadID e \<noteq> iv_ThreadID ivk \<or> TurnID e \<noteq> iv_TurnID ivk
        \<or> msg_ToolCallID (Message e) \<noteq> iv_ToolCallID ivk \<or> msg_ToolName (Message e) \<noteq> iv_ToolName ivk
        \<or> msg_ToolResult (Message e) = None \<or> full_output_of e \<noteq> None))"

definition result_entry ::
  "effect_env \<Rightarrow> thread_meta \<Rightarrow> effect_attempt \<Rightarrow> finish_request \<Rightarrow> string \<Rightarrow> entry" where
  "result_entry env meta att req i = (fi_Result req)
     \<lparr>RunID := iv_RunID (ea_Invocation att),
      Metadata := AList.update ''effect_attempt_id'' (ea_ID att) (Metadata (fi_Result req)),
      ID := i, ParentID := tm_LeafID meta, CreatedAt := canonicalTime env (fi_Now req)\<rparr>"

definition with_output :: "artifact_ref \<Rightarrow> entry \<Rightarrow> entry" where
  "with_output ref e = e\<lparr>Message := (Message e)\<lparr>msg_ToolResult :=
     map_option (tr_FullOutput_update (\<lambda>_. Some ref)) (msg_ToolResult (Message e))\<rparr>\<rparr>"

text \<open>The retained output: its reference goes into the entry, its text into the artifacts.\<close>

definition retain_output ::
  "effect_env \<Rightarrow> thread_meta \<Rightarrow> effect_attempt \<Rightarrow> full_output option \<Rightarrow> entry \<Rightarrow> repo
    \<Rightarrow> (repo \<times> entry \<times> artifact_ref option) st_result" where
  "retain_output env meta att out e r =
    (case out of
       None \<Rightarrow> Inr (r, e, None)
     | Some output \<Rightarrow>
         (case RefForEffect (ee_store env) (ea_ID att) (iv_ToolName (ea_Invocation att)) output of
            Inl err \<Rightarrow> Inl err
          | Inr ref \<Rightarrow>
              let key = artifactRecordKey (tm_ID meta) (ar_ID ref) in
              if rp_artifacts r key \<noteq> None then Inl ErrAuthorityCorrupt
              else Inr (setArtifact key \<lparr>arr_ThreadID = tm_ID meta, arr_Ref = ref,
                          arr_Text = fo_Text (NormalizeFullOutput output),
                          arr_CanonicalEntryID = ID e, arr_CreatedAt = CreatedAt e\<rparr> r,
                        with_output ref e, Some ref)))"

text \<open>
  The commit of a finish: a new entry identity, the retained output, the result entry, and the
  attempt in its terminal state, in this order and without a rollback between them.
\<close>

definition commit_finish ::
  "effect_env \<Rightarrow> effect_attempt \<Rightarrow> finish_request \<Rightarrow> repo \<Rightarrow> repo \<times> finish_result st_result" where
  "commit_finish env att req r =
    (let meta = meta_of r (iv_ThreadID (ea_Invocation att)); t = tm_ID meta;
         gen = nextEntryID (rp_journal r t) t (rp_seq r);
         r1 = r\<lparr>rp_seq := fst gen\<rparr>;
         e0 = result_entry env meta att req (snd gen)
     in (case retain_output env meta att (fi_FullOutput req) e0 r1 of
           Inl err \<Rightarrow> (r1, Inl err)
         | Inr (r2, e1, ref) \<Rightarrow>
             let e = sealed_entry (ee_store env) e1;
                 r3 = commit_at (ee_store env) meta r2 e;
                 meta' = meta\<lparr>tm_LeafID := ID e, tm_UpdatedAt := CreatedAt e\<rparr>;
                 att' = att\<lparr>ea_State := want_state req,
                   ea_TerminalFingerprint := trim_space (fi_OutcomeFingerprint req),
                   ea_ResultEntryID := ID e, ea_UpdatedAt := CreatedAt e\<rparr>
             in (case appendEffectAttempt env meta' att' r3 of
                   (r4, Some err) \<Rightarrow> (r4, Inl err)
                 | (r4, None) \<Rightarrow>
                     (r4, Inr \<lparr>fr_Attempt = att', fr_Result = e, fr_Artifact = ref, fr_Replayed = False\<rparr>))))"

definition FinishEffectDispatch ::
  "effect_env \<Rightarrow> repo \<Rightarrow> finish_request \<Rightarrow> repo \<times> finish_result st_result" where
  "FinishEffectDispatch env r req =
    (if blank (fi_OutcomeFingerprint req) then
       (r, Inl (ErrMsg ''effect finish outcome fingerprint is required''))
     else (case find_attempt env r (fi_EffectAttemptID req) of
        Inl err \<Rightarrow> (r, Inl err)
      | Inr att \<Rightarrow>
          let t = iv_ThreadID (ea_Invocation att); r1 = ensured t r in
          if ea_RequestFingerprint att \<noteq> trim_space (fi_RequestFingerprint req)
          then (r, Inl ErrRequestConflict)
          else if ea_State att = want_state req then (r, replay_finish env r att req)
          else if runtimeActiveTurn (rp_journal r1 t) \<noteq> Some (iv_TurnID (ea_Invocation att))
          then (r1, Inl ErrStaleAuthority)
          else if ea_State att \<noteq> EffectAttemptDispatching then (r1, Inl ErrRequestConflict)
          else if \<not> finish_check att (fi_Result req) then (r1, Inl ErrInvalidThreadAuthority)
          else commit_finish env att req r1))"

text \<open>The attempts of a turn, the latest state of each, in an order the code leaves open.\<close>

definition canonicalEffectAttemptsIn :: "effect_env \<Rightarrow> entry list \<Rightarrow> string \<Rightarrow> effect_attempt list" where
  "canonicalEffectAttemptsIn env es turnID =
     map snd (fold (\<lambda>e latest.
       if Type e \<noteq> EntryEffectAttempt \<or> TurnID e \<noteq> trim_space turnID then latest
       else (case decodeEffectAttempt env e of
         Inl _ \<Rightarrow> latest | Inr att \<Rightarrow> AList.update (ea_ID att) att latest)) es [])"

definition effectAttemptTerminalSafe :: "effect_state \<Rightarrow> bool" where
  "effectAttemptTerminalSafe s \<longleftrightarrow> s \<in> {EffectAttemptCompleted, EffectAttemptFailed,
     EffectAttemptRejected, EffectAttemptCancelled, EffectAttemptUnknown}"

end
