(* ===== verification/HostWorkFacts.thy ===== *)
theory HostWorkFacts
  imports HostWork
begin

text \<open>
  What the reduction of a path to its host work guarantees: identities are unique and never
  change, settled work stays as it is, an admission the code builds is accepted when it is read
  back and admits exactly its own notices.
\<close>

lemma find_work_Some: "find_work ws i = Some w \<Longrightarrow> w \<in> set ws \<and> hw_ID w = i"
  by (auto simp: find_work_def dest: list_find_Some)

lemma find_work_None: "find_work ws i = None \<longleftrightarrow> i \<notin> hw_ID ` set ws"
  by (auto simp: find_work_def list_find_None)

lemma find_work_in: "distinct (map hw_ID ws) \<Longrightarrow> w \<in> set ws \<Longrightarrow> find_work ws (hw_ID w) = Some w"
proof -
  assume d: "distinct (map hw_ID ws)" and w: "w \<in> set ws"
  then obtain v where v: "find_work ws (hw_ID w) = Some v" using find_work_None [of ws "hw_ID w"] by auto
  from find_work_Some [OF v] d w have "v = w" by (metis distinct_map inj_onD)
  with v show ?thesis by simp
qed

lemma replace_ids: "map hw_ID (replace_work w ws) = map hw_ID ws"
  by (simp add: replace_work_def)

definition board_ok :: "work_board \<Rightarrow> bool" where
  "board_ok b \<longleftrightarrow> distinct (map hw_ID (wb_works b)) \<and> set (wb_admitted b) \<subseteq> hw_ID ` set (wb_works b)"

text \<open>How a work may evolve: settle once, under the same identity.\<close>

definition work_kept :: "host_work \<Rightarrow> host_work \<Rightarrow> bool" where
  "work_kept w v \<longleftrightarrow> hw_ID v = hw_ID w \<and> hw_Invocation v = hw_Invocation w
     \<and> hw_ExecutorID v = hw_ExecutorID w \<and> hw_Inherited v = hw_Inherited w
     \<and> (hw_State w \<noteq> ''bound'' \<longrightarrow> v = w)"

definition board_later :: "work_board \<Rightarrow> work_board \<Rightarrow> bool" where
  "board_later b b' \<longleftrightarrow> set (wb_admitted b) \<subseteq> set (wb_admitted b')
     \<and> (\<forall>w \<in> set (wb_works b). \<exists>v \<in> set (wb_works b'). work_kept w v)"

lemma work_kept_refl [simp]: "work_kept w w"
  by (simp add: work_kept_def)

lemma work_kept_trans: "work_kept u v \<Longrightarrow> work_kept v w \<Longrightarrow> work_kept u w"
  by (auto simp: work_kept_def)

lemma board_later_refl: "board_later b b"
  by (auto simp: board_later_def intro: work_kept_refl)

lemma board_later_trans: "board_later a b \<Longrightarrow> board_later b c \<Longrightarrow> board_later a c"
  unfolding board_later_def by (meson subset_trans work_kept_trans)

lemma admit_works_Some:
  "admit_works ws ad text0 ids = Some (ad', final) \<Longrightarrow>
    set ad' = set ad \<union> set ids \<and> set ids \<subseteq> hw_ID ` set ws
    \<and> (\<forall>i \<in> set ids. \<exists>w \<in> set ws. hw_ID w = i \<and> hw_State w \<noteq> ''bound'')"
proof (induction ws ad text0 ids rule: admit_works.induct)
  case (2 ws ad text0 i ids)
  from "2.prems" obtain w where w: "find_work ws i = Some w" "i \<notin> set ad" "hw_State w \<noteq> ''bound''"
    and r: "admit_works ws (i # ad) (text0 @ hostWorkNotice w) ids = Some (ad', final)"
    by (auto split: option.splits if_splits)
  from find_work_Some [OF w(1)] "2.IH" [OF w(1) _ r] w(2,3) show ?case by auto
qed simp

lemma observe_work_later:
  "observe_work e b = Inr b' \<Longrightarrow> board_ok b \<Longrightarrow> board_ok b' \<and> board_later b b'"
  using find_work_None [of "wb_works b" "observed_work e"]
  by (auto simp: observe_work_def board_ok_def board_later_def split: if_splits intro: work_kept_refl)

lemma admission_step_later:
  "admission_step env e b = Inr b' \<Longrightarrow> board_ok b \<Longrightarrow> board_ok b' \<and> board_later b b'"
  by (auto simp: admission_step_def board_ok_def board_later_def dest!: admit_works_Some
      split: option.splits prod.splits if_splits intro: work_kept_refl)

lemma work_step_later:
  assumes "work_step w b = Inr b'" "board_ok b"
  shows "board_ok b' \<and> board_later b b'"
proof (cases "find_work (wb_works b) (hw_ID w)")
  case None
  with assms show ?thesis
    by (auto simp: work_step_def board_ok_def board_later_def find_work_None intro: work_kept_refl split: if_splits)
next
  case (Some p)
  with assms have p: "hw_State p = ''bound''" "work_kept p w"
    and b': "b' = b\<lparr>wb_works := replace_work w (wb_works b)\<rparr>"
    using find_work_Some [OF Some] by (auto simp: work_step_def work_kept_def split: if_splits)
  have "\<exists>v \<in> set (replace_work w (wb_works b)). work_kept u v" if u: "u \<in> set (wb_works b)" for u
  proof (cases "hw_ID u = hw_ID w")
    case True
    then have "u = p" using u Some assms(2) find_work_in [of "wb_works b" u] by (simp add: board_ok_def)
    with p u True show ?thesis by (auto simp: replace_work_def)
  next
    case False
    with u have "u \<in> set (replace_work w (wb_works b))" by (force simp: replace_work_def)
    then show ?thesis by (auto intro: work_kept_refl)
  qed
  moreover have "hw_ID ` set (replace_work w (wb_works b)) = hw_ID ` set (wb_works b)"
    using arg_cong [OF replace_ids [of w "wb_works b"], of set] by simp
  ultimately show ?thesis using assms(2) b' by (simp add: board_ok_def board_later_def replace_ids)
qed

lemma board_step_later:
  assumes "board_step env e b = Inr b'" "board_ok b"
  shows "board_ok b' \<and> board_later b b'"
proof -
  obtain c where c: "observe_work e b = Inr c" "board_ok c" "board_later b c"
    using assms observe_work_later by (cases "observe_work e b") (auto simp: board_step_def)
  then show ?thesis
    using assms(1) admission_step_later [of env e c b'] work_step_later board_later_trans [of b c b']
    by (auto simp: board_step_def split: if_splits sum.splits)
qed

lemma board_run_later:
  "board_run env b es = Inr b' \<Longrightarrow> board_ok b \<Longrightarrow> board_ok b' \<and> board_later b b'"
proof (induction es arbitrary: b)
  case (Cons e es)
  then obtain c where "board_step env e b = Inr c" "board_run env c es = Inr b'"
    by (auto split: sum.splits)
  with Cons board_step_later [of env e b c] board_later_trans [of b c b'] show ?case by blast
qed (simp add: board_later_refl)

lemma board_run_append:
  "board_run env b (es @ fs) = (case board_run env b es of Inl err \<Rightarrow> Inl err | Inr b' \<Rightarrow> board_run env b' fs)"
  by (induction es arbitrary: b) (auto split: sum.splits)

lemma empty_board_ok: "board_ok empty_board"
  by (simp add: board_ok_def empty_board_def)

text \<open>
  C15: The host work of a path has a consistent history. If a path reduces to a board, every
  prefix of it does; along the way no work is lost and none changes its invocation, executor or
  origin; settled work never changes again; admissions are never forgotten, concern only known
  work; and no two works share an ID.
\<close>

theorem work_history:
  assumes "hostWorksFromPath env (past @ rest) = Inr b'"
  shows "\<exists>b. hostWorksFromPath env past = Inr b \<and> board_later b b' \<and> board_ok b \<and> board_ok b'"
proof -
  from assms obtain b where b: "board_run env empty_board past = Inr b" "board_run env b rest = Inr b'"
    by (auto simp: hostWorksFromPath_def board_run_append split: sum.splits)
  with board_run_later [OF b(1) empty_board_ok] board_run_later [OF b(2)] show ?thesis
    by (auto simp: hostWorksFromPath_def)
qed

section \<open>An example\<close>

text \<open>An environment whose JSON knows two pieces of work and one list of IDs.\<close>

definition sample_invocation :: work_invocation where
  "sample_invocation = \<lparr>iv_ThreadID = ''t'', iv_TurnID = ''u'', iv_RunID = ''r'',
     iv_ToolCallID = ''c'', iv_ToolName = ''shell'', iv_ArgumentHash = ''h''\<rparr>"

definition bound_work :: host_work where
  "bound_work = \<lparr>hw_Result = '''', hw_Inherited = False, hw_ID = ''w'', hw_ExecutorID = ''x'',
     hw_Invocation = sample_invocation, hw_State = ''bound'', hw_Notice = '''', hw_Notify = False,
     hw_OutputUnavailable = False, hw_Output = None\<rparr>"

definition done_work :: host_work where
  "done_work = bound_work\<lparr>hw_State := ''completed'', hw_Notice := ''built'', hw_Notify := True\<rparr>"

definition host_env :: store_env where
  "host_env = \<lparr>se_now = 7, se_raw = (\<lambda>e. ''raw''), se_hash = (\<lambda>s. s),
     se_parse_url = (\<lambda>_. None), se_parse_time = (\<lambda>_. None), se_atoi = (\<lambda>_. None),
     se_json_valid = (\<lambda>_. True),
     se_work_of_json = (\<lambda>s. if s = ''bound'' then Some bound_work
                           else if s = ''done'' then Some done_work else None),
     se_json_of_work = hw_State,
     se_ids_of_json = (\<lambda>s. if s = ''w'' then Some [''w''] else if s = '''' then Some [] else None),
     se_json_of_ids = concat, se_activity_ok = (\<lambda>_. True), se_activity_status = (\<lambda>_. ''''),
     se_ask_user_ok = (\<lambda>_. False)\<rparr>"

definition work_path :: "entry list" where
  "work_path =
     [zero_entry\<lparr>ID := ''host-work:w'', ThreadID := ''t'', TurnID := ''u'', RunID := ''r'',
        Type := EntryHostWork, Payload := ''bound''\<rparr>,
      zero_entry\<lparr>ID := ''host-work-final:w'', ThreadID := ''t'', TurnID := ''u'', RunID := ''r'',
        Type := EntryHostWork, Payload := ''done''\<rparr>]"

lemma work_path_board:
  "hostWorksFromPath host_env work_path = Inr \<lparr>wb_works = [done_work], wb_admitted = []\<rparr>"
  by code_simp

theorem work_history_witness:
  "hostWorksFromPath host_env (work_path @ []) = Inr \<lparr>wb_works = [done_work], wb_admitted = []\<rparr>
   \<and> (\<exists>b. hostWorksFromPath host_env work_path = Inr b
        \<and> board_later b \<lparr>wb_works = [done_work], wb_admitted = []\<rparr>)"
proof -
  have "hostWorksFromPath host_env (work_path @ []) = Inr \<lparr>wb_works = [done_work], wb_admitted = []\<rparr>"
    by (simp add: work_path_board)
  with work_history [OF this] show ?thesis by blast
qed

section \<open>Admissions are read back\<close>

lemma admission_loop_props:
  "admission_loop ad text0 ws = (ids, final) \<Longrightarrow> distinct (map hw_ID ws) \<Longrightarrow>
    distinct ids \<and> set ids \<subseteq> hw_ID ` set ws \<and> set ids \<inter> set ad = {}
    \<and> (length text0 \<le> 8192 \<longrightarrow> length final \<le> 8192) \<and> length text0 \<le> length final
    \<and> (ids \<noteq> [] \<longrightarrow> length text0 < length final)"
proof (induction ad text0 ws arbitrary: ids final rule: admission_loop.induct)
  case (2 ad text0 w ws)
  obtain k where ne: "length (hostWorkNotice w) = Suc k" by (simp add: hostWorkNotice_def bytes_def)
  show ?case
  proof (cases "hw_State w = ''bound'' \<or> hw_ID w \<in> set ad \<or> length text0 + length (hostWorkNotice w) > 8192")
    case True
    then show ?thesis using "2.IH"(1) "2.prems" by (auto split: if_splits)
  next
    case False
    then obtain ids' where i: "admission_loop ad (text0 @ hostWorkNotice w) ws = (ids', final)" "ids = hw_ID w # ids'"
      using "2.prems"(1) by (auto split: prod.splits)
    have "distinct (map hw_ID ws)" using "2.prems"(2) by simp
    with "2.IH"(2) [OF _ _ i(1)] False ne i(2) "2.prems"(2) show ?thesis
      by (cases ids') (auto simp: admission_loop.simps split: prod.splits)
  qed
qed auto

lemma admit_admission:
  "admission_loop ad text0 ws = (ids, final) \<Longrightarrow> distinct (map hw_ID ws) \<Longrightarrow> set ws \<subseteq> set all_works \<Longrightarrow>
    distinct (map hw_ID all_works) \<Longrightarrow> set extra \<inter> hw_ID ` set ws = {} \<Longrightarrow>
    admit_works all_works (extra @ ad) text0 ids = Some (rev ids @ extra @ ad, final)"
proof (induction ad text0 ws arbitrary: ids final extra rule: admission_loop.induct)
  case (2 ad text0 w ws)
  show ?case
  proof (cases "hw_State w = ''bound'' \<or> hw_ID w \<in> set ad \<or> length text0 + length (hostWorkNotice w) > 8192")
    case True
    then show ?thesis using "2.IH"(1) "2.prems" by (auto split: if_splits)
  next
    case False
    then obtain ids' where i: "admission_loop ad (text0 @ hostWorkNotice w) ws = (ids', final)" "ids = hw_ID w # ids'"
      using "2.prems"(1) by (auto split: prod.splits)
    have f: "find_work all_works (hw_ID w) = Some w" using "2.prems"(3,4) by (intro find_work_in) auto
    have "admit_works all_works ((hw_ID w # extra) @ ad) (text0 @ hostWorkNotice w) ids'
        = Some (rev ids' @ (hw_ID w # extra) @ ad, final)"
      using "2.prems" False by (intro "2.IH"(2) [OF _ _ i(1)]) auto
    with f False i(2) "2.prems"(5) show ?thesis by auto
  qed
qed auto

text \<open>What may be admitted: works that have ended and whose notice was not admitted before.\<close>

definition to_admit :: "work_board \<Rightarrow> host_work list" where
  "to_admit b = filter (\<lambda>w. hw_State w \<noteq> ''bound'' \<and> hw_ID w \<notin> set (wb_admitted b)) (wb_works b)"

lemma admission_loop_selects:
  "admission_loop ad start ws = (ids, final) \<Longrightarrow>
    \<exists>taken rest. filter (\<lambda>w. hw_State w \<noteq> ''bound'' \<and> hw_ID w \<notin> set ad) ws = taken @ rest
      \<and> ids = map hw_ID taken \<and> final = start @ concat (map hostWorkNotice taken)
      \<and> (rest = [] \<or> 8192 < length final + length (hostWorkNotice (hd rest)))"
proof (induction ad start ws arbitrary: ids final rule: admission_loop.induct)
  case (2 ad start w ws)
  let ?ok = "\<lambda>w. hw_State w \<noteq> ''bound'' \<and> hw_ID w \<notin> set ad"
  consider (passed) "\<not> ?ok w" | (over) "?ok w" "length start + length (hostWorkNotice w) > 8192"
    | (fits) "?ok w" "\<not> length start + length (hostWorkNotice w) > 8192" by blast
  then show ?case
  proof cases
    case passed
    then show ?thesis using "2.IH"(1) "2.prems" by auto
  next
    case over
    then show ?thesis using "2.prems" by (intro exI [of _ "[]"] exI [of _ "w # filter ?ok ws"]) (auto split: if_splits)
  next
    case fits
    then obtain ids' where i: "admission_loop ad (start @ hostWorkNotice w) ws = (ids', final)" "ids = hw_ID w # ids'"
      using "2.prems" by (auto split: prod.splits)
    with "2.IH"(2) [OF _ _ i(1)] fits obtain taken rest where
      "filter ?ok ws = taken @ rest" "ids' = map hw_ID taken" "final = (start @ hostWorkNotice w) @ concat (map hostWorkNotice taken)"
      "rest = [] \<or> 8192 < length final + length (hostWorkNotice (hd rest))" by auto
    then show ?thesis using fits i(2) by (intro exI [of _ "w # taken"] exI [of _ rest]) simp
  qed
qed simp

text \<open>
  C40: An admission of notices the code builds is read back as built. It selects the longest prefix of
  the works that have ended and were not admitted before, in their order, whose notices fit in 8192
  bytes together, and carries those notices. When JSON round-trips lists of these IDs, the entry passes
  its own validation, and reducing the path with the entry appended succeeds, admits exactly the
  selected works and leaves the works alone.
\<close>

theorem admission_roundtrip:
  assumes path: "hostWorksFromPath env path = Inr b"
    and adm: "hostWorkAdmission env path t turn run = Inr (Some e)"
    and json: "\<forall>ids. distinct ids \<and> set ids \<subseteq> hw_ID ` set (wb_works b)
        \<longrightarrow> se_ids_of_json env (se_json_of_ids env ids) = Some ids"
    and ids: "t \<noteq> ''''" "turn \<noteq> ''''" "run \<noteq> ''''"
    and named: "\<forall>w \<in> set (wb_works b). hw_ID w \<noteq> ''''"
  shows "validateHostWorkEntry env e = None \<and> length (msg_Content (Message e)) \<le> 8192
    \<and> (\<exists>taken rest. to_admit b = taken @ rest \<and> taken \<noteq> []
         \<and> msg_Content (Message e) = concat (map hostWorkNotice taken)
         \<and> (rest = [] \<or> 8192 < length (msg_Content (Message e)) + length (hostWorkNotice (hd rest)))
         \<and> hostWorksFromPath env (path @ [e])
             = Inr \<lparr>wb_works = wb_works b, wb_admitted = rev (map hw_ID taken) @ wb_admitted b\<rparr>)"
proof -
  obtain new final where l: "admission_loop (wb_admitted b) '''' (wb_works b) = (new, final)" by fastforce
  with path adm have e: "new \<noteq> []" "e = admission_entry env t turn run new final"
    by (auto simp: hostWorkAdmission_def split: if_splits)
  have ok: "board_ok b" using path board_run_later [OF _ empty_board_ok] by (auto simp: hostWorksFromPath_def)
  then have d: "distinct (map hw_ID (wb_works b))" by (simp add: board_ok_def)
  note p = admission_loop_props [OF l d]
  have f: "Type e = EntryHostWorkAdmitted" "Payload e = se_json_of_ids env new" "msg_Content (Message e) = final"
    "observed_work e = ''''"
    by (simp_all add: e(2) admission_entry_def observed_work_def Let_def)
  have new: "'''' \<notin> set new" "distinct new" "length final \<le> 8192" "final \<noteq> ''''"
    using p e(1) named by fastforce+
  have j: "se_ids_of_json env (se_json_of_ids env new) = Some new" using json p by blast
  have v: "validateHostWorkEntry env e = None"
    using e new ids j by (simp add: validateHostWorkEntry_def admission_entry_def Let_def)
  have a: "admit_works (wb_works b) (wb_admitted b) '''' new = Some (rev new @ wb_admitted b, final)"
    using admit_admission [OF l d, of "wb_works b" "[]"] d by simp
  have "board_step env e b = Inr \<lparr>wb_works = wb_works b, wb_admitted = rev new @ wb_admitted b\<rparr>"
    using f v a j by (cases b) (simp add: board_step_def observe_work_def admission_step_def)
  then have "hostWorksFromPath env (path @ [e])
      = Inr \<lparr>wb_works = wb_works b, wb_admitted = rev new @ wb_admitted b\<rparr>"
    using path by (simp add: hostWorksFromPath_def board_run_append)
  moreover obtain taken rest where "to_admit b = taken @ rest" "new = map hw_ID taken" "final = concat (map hostWorkNotice taken)"
      "rest = [] \<or> 8192 < length final + length (hostWorkNotice (hd rest))"
    using admission_loop_selects [OF l] by (auto simp: to_admit_def)
  ultimately show ?thesis using v e(1) new(3) f(3) by (intro conjI exI [of _ taken] exI [of _ rest]) simp_all
qed

theorem admission_roundtrip_witness:
  "hostWorkAdmission host_env work_path ''t'' ''u2'' ''r2''
     = Inr (Some (admission_entry host_env ''t'' ''u2'' ''r2'' [''w''] (hostWorkNotice done_work)))
   \<and> validateHostWorkEntry host_env
       (admission_entry host_env ''t'' ''u2'' ''r2'' [''w''] (hostWorkNotice done_work)) = None"
proof -
  note b = work_path_board
  have "admission_loop [] '''' [done_work] = ([''w''], hostWorkNotice done_work)" by code_simp
  then have a: "hostWorkAdmission host_env work_path ''t'' ''u2'' ''r2''
     = Inr (Some (admission_entry host_env ''t'' ''u2'' ''r2'' [''w''] (hostWorkNotice done_work)))"
    by (simp add: hostWorkAdmission_def b)
  have w: "wb_works \<lparr>wb_works = [done_work], wb_admitted = []\<rparr> = [done_work]" "hw_ID done_work = ''w''"
    by (simp_all add: done_work_def bound_work_def)
  have "se_ids_of_json host_env (se_json_of_ids host_env ids) = Some ids"
    if "distinct ids" "set ids \<subseteq> {''w''}" for ids
  proof -
    have "ids = [] \<or> ids = [''w'']" using that by (cases ids rule: remdups_adj.cases) auto
    then show ?thesis by (elim disjE) (simp_all add: host_env_def)
  qed
  then have "\<forall>ids. distinct ids \<and> set ids \<subseteq> hw_ID ` set (wb_works \<lparr>wb_works = [done_work], wb_admitted = []\<rparr>)
      \<longrightarrow> se_ids_of_json host_env (se_json_of_ids host_env ids) = Some ids"
    using w by simp
  with admission_roundtrip [OF b a] a w show ?thesis by simp
qed

end

