(* ===== verification/JournalRollback.thy ===== *)
theory JournalRollback
  imports JournalStore HostWorkFacts
begin

text \<open>
  Undoing an append transaction (\<^verbatim>\<open>journal_append.go\<close>) gives back the repository from before it,
  and with that \<open>AppendRuntimeFacts\<close> is atomic. The argument is per index: appending only adds
  late locators under the keys of the appended entries, undoing an entry removes them.
\<close>

section \<open>Maps of locators\<close>

definition all_early :: "('a \<Rightarrow> bool) \<Rightarrow> (string \<rightharpoonup> 'a list) \<Rightarrow> bool" where
  "all_early late m \<longleftrightarrow> (\<forall>k xs. m k = Some xs \<longrightarrow> xs \<noteq> [] \<and> (\<forall>x \<in> set xs. \<not> late x))"

definition grown ::
  "('a \<Rightarrow> bool) \<Rightarrow> (string \<rightharpoonup> 'a list) \<Rightarrow> string set \<Rightarrow> (string \<rightharpoonup> 'a list) \<Rightarrow> bool" where
  "grown late m0 keys m \<longleftrightarrow>
     (\<forall>k. (k \<notin> keys \<longrightarrow> m k = m0 k)
        \<and> (\<exists>ys. list_at m k = list_at m0 k @ ys \<and> (\<forall>y \<in> set ys. late y)))"

lemma drop_late_append:
  "\<forall>x \<in> set xs. \<not> late x \<Longrightarrow> \<forall>y \<in> set ys. late y \<Longrightarrow> drop_late late (xs @ ys) = xs"
proof -
  assume x: "\<forall>x \<in> set xs. \<not> late x" and y: "\<forall>y \<in> set ys. late y"
  have "dropWhile late (zs @ rev xs) = dropWhile late (rev xs)" if "\<forall>z \<in> set zs. late z" for zs
    using that by (induction zs) simp_all
  from this [of "rev ys"] y have "dropWhile late (rev ys @ rev xs) = dropWhile late (rev xs)" by simp
  also have "\<dots> = rev xs" using x by (cases xs rule: rev_cases) simp_all
  finally show ?thesis by (simp add: drop_late_def)
qed

lemma all_early_weaken: "all_early lt m \<Longrightarrow> (\<And>x. lt' x \<Longrightarrow> lt x) \<Longrightarrow> all_early lt' m"
  by (auto simp: all_early_def)

lemma grown_refl: "grown late m {} m"
  by (simp add: grown_def)

lemma grown_mono: "grown late m0 K m \<Longrightarrow> K \<subseteq> K' \<Longrightarrow> grown late m0 K' m"
  by (auto simp: grown_def)

lemma list_at_push: "list_at (push_at k x m) i = (if i = k then list_at m k @ [x] else list_at m i)"
  by (simp add: list_at_def push_at_def)

lemma all_early_push: "all_early lt m \<Longrightarrow> \<not> lt x \<Longrightarrow> all_early lt (push_at k x m)"
  by (cases "m k") (auto simp: all_early_def push_at_def list_at_def)

lemma grown_push: "grown late m0 K m \<Longrightarrow> late x \<Longrightarrow> grown late m0 (insert k K) (push_at k x m)"
  unfolding grown_def
proof (intro allI conjI impI)
  fix i
  assume g: "\<forall>i. (i \<notin> K \<longrightarrow> m i = m0 i) \<and> (\<exists>ys. list_at m i = list_at m0 i @ ys \<and> (\<forall>y \<in> set ys. late y))"
    and x: "late x"
  show "i \<notin> insert k K \<Longrightarrow> push_at k x m i = m0 i" using g by (simp add: push_at_def)
  from g obtain ys where "list_at m i = list_at m0 i @ ys" "\<forall>y \<in> set ys. late y" by blast
  then show "\<exists>ys. list_at (push_at k x m) i = list_at m0 i @ ys \<and> (\<forall>y \<in> set ys. late y)"
    using x by (cases "i = k") (auto simp: list_at_push intro!: exI [of _ "ys @ [x]"])
qed

lemma undo_key_exact:
  assumes "all_early late m0" "grown late m0 K m"
  shows "undo_key late k m = m(k := m0 k)"
proof -
  from assms(2) obtain ys where ys: "list_at m k = list_at m0 k @ ys" "\<forall>y \<in> set ys. late y"
    by (auto simp: grown_def)
  have "\<forall>x \<in> set (list_at m0 k). \<not> late x"
    using assms(1) by (cases "m0 k") (auto simp: all_early_def list_at_def)
  then have d: "drop_late late (list_at m k) = list_at m0 k" using ys by (simp add: drop_late_append)
  show ?thesis
  proof (cases "m0 k")
    case None
    with d show ?thesis by (simp add: undo_key_def list_at_def fun_eq_iff)
  next
    case (Some xs)
    moreover from this have "xs \<noteq> []" using assms(1) by (simp add: all_early_def)
    ultimately show ?thesis using d by (simp add: undo_key_def list_at_def [of m0])
  qed
qed

lemma grown_undo:
  assumes "all_early late m0" "grown late m0 (insert k K) m"
  shows "grown late m0 K (undo_key late k m)"
proof -
  have u: "undo_key late k m = m(k := m0 k)" by (rule undo_key_exact [OF assms])
  show ?thesis
    unfolding u grown_def
  proof (intro allI conjI impI)
    fix i
    show "i \<notin> K \<Longrightarrow> (m(k := m0 k)) i = m0 i" using assms(2) by (auto simp: grown_def)
    show "\<exists>ys. list_at (m(k := m0 k)) i = list_at m0 i @ ys \<and> (\<forall>y \<in> set ys. late y)"
      using assms(2) by (cases "i = k") (auto simp: grown_def list_at_def)
  qed
qed

lemma grown_undo_fold:
  "all_early late m0 \<Longrightarrow> grown late m0 (set ks \<union> K) m \<Longrightarrow> grown late m0 K (fold (undo_key late) ks m)"
proof (induction ks arbitrary: m)
  case (Cons k ks)
  have "grown late m0 (insert k (set ks \<union> K)) m" using Cons.prems(2) by simp
  from Cons.IH [OF Cons.prems(1) grown_undo [OF Cons.prems(1) this]] show ?case by simp
qed simp

lemma grown_none: "grown late m0 {} m \<Longrightarrow> m = m0"
  by (auto simp: grown_def)

section \<open>Turn markers as positions\<close>

definition positions_of :: "(string \<rightharpoonup> turn_marker) \<Rightarrow> (string \<rightharpoonup> turn_position list)" where
  "positions_of m = (\<lambda>k. map_option tk_positions (m k))"

definition markers_ok :: "(string \<rightharpoonup> turn_marker) \<Rightarrow> bool" where
  "markers_ok m \<longleftrightarrow> (\<forall>k mk. m k = Some mk \<longrightarrow> tk_positions mk \<noteq> [] \<and> tk_at mk = last (tk_positions mk))"

lemma markers_eq:
  assumes "markers_ok m" "markers_ok m'" "positions_of m = positions_of m'"
  shows "m = m'"
proof
  fix k
  have p: "map_option tk_positions (m k) = map_option tk_positions (m' k)"
    using fun_cong [OF assms(3), of k] by (simp add: positions_of_def)
  show "m k = m' k"
  proof (cases "m k")
    case (Some a)
    with p obtain b where b: "m' k = Some b" "tk_positions a = tk_positions b" by (cases "m' k") auto
    then have "tk_at a = tk_at b" using Some assms(1,2) by (auto simp: markers_ok_def)
    with b Some show ?thesis by (cases a; cases b) simp
  qed (use p in \<open>cases "m' k"; simp\<close>)
qed

lemma positions_undo:
  "positions_of (undo_marker n k m) = undo_key (\<lambda>p. tp_through p > n) k (positions_of m)"
  by (auto simp: positions_of_def undo_marker_def undo_key_def Let_def list_at_def zero_marker_def
      fun_eq_iff split: option.splits)

lemma undo_marker_ok: "markers_ok m \<Longrightarrow> markers_ok (undo_marker n k m)"
  by (auto simp: markers_ok_def undo_marker_def Let_def split: option.splits)

lemma marker_at_tk: "tk_positions (marker_at ti k) = list_at (positions_of (ti_markers ti)) k"
  by (simp add: marker_at_def list_at_def positions_of_def zero_marker_def split: option.splits)

lemma observe_positions:
  "positions_of (ti_markers (observeTurnMarker n e ti))
     = (if marked e
        then push_at (TurnID e) (marker_position n e (tk_at (marker_at ti (TurnID e)))) (positions_of (ti_markers ti))
        else positions_of (ti_markers ti))"
  by (auto simp: observeTurnMarker_def Let_def positions_of_def push_at_def fun_eq_iff
      marker_at_tk list_at_def)

lemma observe_markers_ok: "markers_ok (ti_markers ti) \<Longrightarrow> markers_ok (ti_markers (observeTurnMarker n e ti))"
  by (auto simp: markers_ok_def observeTurnMarker_def Let_def)

lemma observe_requests:
  "ti_requests (observeTurnMarker n e ti)
     = (if turn_started e then push_at (RequestKey e) n (ti_requests ti) else ti_requests ti)"
  by (simp add: observeTurnMarker_def Let_def)

section \<open>The journal inside an append transaction\<close>

abbreviation late :: "int \<Rightarrow> int \<Rightarrow> bool" where
  "late n \<equiv> (\<lambda>i. n \<le> i)"

abbreviation late_position :: "int \<Rightarrow> turn_position \<Rightarrow> bool" where
  "late_position n \<equiv> (\<lambda>p. n < tp_through p)"

definition turns_ok :: "int \<Rightarrow> turn_index \<Rightarrow> bool" where
  "turns_ok n ti \<longleftrightarrow> all_early (late n) (ti_requests ti)
     \<and> all_early (late_position n) (positions_of (ti_markers ti)) \<and> markers_ok (ti_markers ti)"

text \<open>
  The maps of a journal are consistent with its entries: a depth only for a located entry,
  locators below the number of entries, no empty list, counts as long as their lists.
\<close>

definition journal_ok :: "journal \<Rightarrow> bool" where
  "journal_ok j \<longleftrightarrow> (let n = int (length (jn_entries j)) in
      (jn_ordinals j = None \<longrightarrow> jn_entries j = [])
    \<and> (\<forall>i. jn_depths j i \<noteq> None \<longrightarrow> ordinal_of j i \<noteq> None)
    \<and> all_early (late n) (jn_turnOrdinals j)
    \<and> jn_turnCounts j = (\<lambda>k. map_option (\<lambda>xs. int (length xs)) (jn_turnOrdinals j k))
    \<and> (case jn_turns j of None \<Rightarrow> True | Some ti \<Rightarrow> turns_ok n ti)
    \<and> (case jn_outputs j of None \<Rightarrow> True | Some m \<Rightarrow> all_early (late n) m))"

definition turns_grew :: "int \<Rightarrow> turn_index \<Rightarrow> entry set \<Rightarrow> turn_index \<Rightarrow> bool" where
  "turns_grew n t0 K t \<longleftrightarrow> grown (late n) (ti_requests t0) (RequestKey ` {e \<in> K. turn_started e}) (ti_requests t)
     \<and> grown (late_position n) (positions_of (ti_markers t0)) (TurnID ` {e \<in> K. TurnID e \<noteq> ''''})
         (positions_of (ti_markers t))
     \<and> markers_ok (ti_markers t)"

definition sources_of :: "entry set \<Rightarrow> string set" where
  "sources_of K = (\<Union>e \<in> K. set (output_sources e))"

text \<open>\<open>j\<close> differs from \<open>j0\<close> by the index entries of \<open>K\<close> (and by indexes built in between).\<close>

definition grew :: "journal \<Rightarrow> entry set \<Rightarrow> journal \<Rightarrow> bool" where
  "grew j0 K j \<longleftrightarrow> (let n = int (length (jn_entries j0)); T = TurnID ` {e \<in> K. TurnID e \<noteq> ''''} in
      (\<forall>e \<in> K. ordinal_of j0 (ID e) = None)
    \<and> (\<forall>i. i \<notin> ID ` K \<longrightarrow> jn_depths j i = jn_depths j0 i)
    \<and> (case jn_ordinals j0 of None \<Rightarrow> True
       | Some m0 \<Rightarrow> (\<exists>m. jn_ordinals j = Some m \<and> (\<forall>i. i \<notin> ID ` K \<longrightarrow> m i = m0 i)))
    \<and> grown (late n) (jn_turnOrdinals j0) T (jn_turnOrdinals j)
    \<and> (\<forall>k. k \<notin> T \<longrightarrow> jn_turnCounts j k = jn_turnCounts j0 k)
    \<and> (case jn_turns j0 of None \<Rightarrow> True | Some t0 \<Rightarrow> (\<exists>t. jn_turns j = Some t \<and> turns_grew n t0 K t))
    \<and> (case jn_outputs j0 of None \<Rightarrow> True
       | Some m0 \<Rightarrow> (\<exists>m. jn_outputs j = Some m \<and> grown (late n) m0 (sources_of K) m)))"

lemma grew_refl: "journal_ok j \<Longrightarrow> grew j {} j"
  by (auto simp: grew_def journal_ok_def Let_def turns_grew_def turns_ok_def grown_refl sources_of_def
      split: option.splits)

lemma grew_ensure_turns: "grew j0 K j \<Longrightarrow> grew j0 K (ensureTurnMarkers j)"
  by (auto simp: grew_def Let_def ensureTurnMarkers_def split: option.splits)

lemma grew_ensure_path: "grew j0 K j \<Longrightarrow> grew j0 K (ensurePathIndex integ j)"
  by (auto simp: grew_def Let_def ensurePathIndex_def split: option.splits)

lemma grew_ensure_outputs: "grew j0 K j \<Longrightarrow> grew j0 K (ensureOutputSources env j)"
proof -
  assume "grew j0 K j"
  then have "grew j0 K (ensurePathIndex (ValidateEntryIntegrity env) j)" by (rule grew_ensure_path)
  then show ?thesis using \<open>grew j0 K j\<close>
    by (auto simp: grew_def Let_def ensureOutputSources_def ensurePathIndex_def split: option.splits if_splits)
qed

lemma grew_locators:
  "grew j0 K j \<Longrightarrow> jn_ordinals j = None \<Longrightarrow> grew j0 K (j\<lparr>jn_ordinals := Some m\<rparr>)"
  by (auto simp: grew_def Let_def split: option.splits)

lemma grown_outputs:
  assumes "grown (late n) m0 (sources_of K) m" "n \<le> ordinal"
  shows "grown (late n) m0 (sources_of (insert e K)) (observeOutputSources ordinal e m)"
proof -
  have 1: "grown (late n) m0 (set ss \<union> S)
      (fold (\<lambda>source m. if source = '''' then m else push_at source ordinal m) ss m)"
    if "grown (late n) m0 S m" for S m ss
    using that
  proof (induction ss arbitrary: m S)
    case (Cons s ss)
    have "grown (late n) m0 (insert s S) (if s = '''' then m else push_at s ordinal m)"
      using grown_push [OF Cons.prems assms(2), of s] grown_mono [OF Cons.prems, of "insert s S"] by auto
    from Cons.IH [OF this] show ?case by simp
  qed simp
  have s: "sources_of (insert e K) = set (output_sources e) \<union> sources_of K"
    by (simp add: sources_of_def)
  show ?thesis unfolding s observeOutputSources_def by (rule 1 [OF assms(1)])
qed

lemma turns_grew_observe:
  assumes g: "turns_grew n t0 K t" and n: "n \<le> ordinal"
  shows "turns_grew n t0 (insert e K) (observeTurnMarker ordinal e t)"
proof -
  have "grown (late n) (ti_requests t0) (RequestKey ` {e' \<in> insert e K. turn_started e'})
      (ti_requests (observeTurnMarker ordinal e t))"
  proof (cases "turn_started e")
    case True
    then have "{e' \<in> insert e K. turn_started e'} = insert e {e \<in> K. turn_started e}" by auto
    then show ?thesis using True g n by (simp add: observe_requests turns_grew_def grown_push)
  next
    case False
    then have "{e' \<in> insert e K. turn_started e'} = {e \<in> K. turn_started e}" by auto
    then show ?thesis using False g by (simp add: observe_requests turns_grew_def)
  qed
  moreover have "grown (late_position n) (positions_of (ti_markers t0))
      (TurnID ` {e' \<in> insert e K. TurnID e' \<noteq> ''''})
      (positions_of (ti_markers (observeTurnMarker ordinal e t)))"
  proof (cases "marked e")
    case True
    then have "{e' \<in> insert e K. TurnID e' \<noteq> ''''} = insert e {e \<in> K. TurnID e \<noteq> ''''}"
      by (auto simp: marked_def blank_def trim_space_def)
    then show ?thesis using True g n
      by (simp add: observe_positions turns_grew_def grown_push marker_position_def)
  next
    case False
    have "TurnID ` {e' \<in> K. TurnID e' \<noteq> ''''} \<subseteq> TurnID ` {e' \<in> insert e K. TurnID e' \<noteq> ''''}" by auto
    then show ?thesis using False g by (auto simp: observe_positions turns_grew_def elim: grown_mono)
  qed
  ultimately show ?thesis using g by (simp add: turns_grew_def observe_markers_ok)
qed

lemma observe_depth [simp]:
  "observeTurnMarker n (e\<lparr>PathDepth := d\<rparr>) t = observeTurnMarker n e t"
  "observeOutputSources n (e\<lparr>PathDepth := d\<rparr>) m = observeOutputSources n e m"
  by (simp_all add: observeTurnMarker_def Let_def turn_started_def marked_def marker_position_def
      active_after_def observeOutputSources_def output_sources_def cong: turn_status.case_cong)

definition stored_copy :: "journal \<Rightarrow> entry \<Rightarrow> entry" where
  "stored_copy j e = e\<lparr>PathDepth := depth_under j (ParentID e)\<rparr>"

lemma stored_copy_simps [simp]:
  "ID (stored_copy j e) = ID e" "TurnID (stored_copy j e) = TurnID e"
  by (simp_all add: stored_copy_def)

lemma append_indexed_entries [simp]:
  "jn_entries (append_indexed env e j) = jn_entries j @ [stored_copy j e]"
  by (simp add: append_indexed_def Let_def stored_copy_def)

lemma append_indexed_turns:
  "jn_turns (append_indexed env e j)
     = map_option (observeTurnMarker (int (length (jn_entries j))) (stored_copy j e)) (jn_turns j)"
  "jn_outputs (append_indexed env e j)
     = map_option (observeOutputSources (int (length (jn_entries j))) (stored_copy j e)) (jn_outputs j)"
  by (simp_all add: append_indexed_def Let_def stored_copy_def)

lemma append_indexed_locators:
  "jn_ordinals (append_indexed env e j) = Some ((ordinals_map j)(ID e \<mapsto> int (length (jn_entries j))))"
  "jn_depths (append_indexed env e j) = (jn_depths j)(ID e \<mapsto> depth_under j (ParentID e))"
  "jn_turnOrdinals (append_indexed env e j) =
     (if blank (TurnID e) then jn_turnOrdinals j
      else push_at (TurnID e) (int (length (jn_entries j))) (jn_turnOrdinals j))"
  "jn_turnCounts (append_indexed env e j) =
     (if blank (TurnID e) then jn_turnCounts j
      else (jn_turnCounts j)(TurnID e \<mapsto>
        (case jn_turnCounts j (TurnID e) of None \<Rightarrow> 0 | Some c \<Rightarrow> c) + 1))"
  by (simp_all add: append_indexed_def Let_def)

lemma grew_append:
  assumes g: "grew j0 K j" and n: "length (jn_entries j0) \<le> length (jn_entries j)"
    and fresh: "ordinal_of j (ID e) = None"
  shows "grew j0 (insert (stored_copy j e) K) (append_indexed env e j)"
proof -
  let ?e = "stored_copy j e" and ?n = "int (length (jn_entries j0))" and ?k = "int (length (jn_entries j))"
  let ?T = "\<lambda>K. TurnID ` {e \<in> K. TurnID e \<noteq> ''''}"
  note d = g [unfolded grew_def Let_def]
  have late: "?n \<le> ?k" using n by simp
  have f: "ordinal_of j0 (ID e) = None"
  proof (cases "ID e \<in> ID ` K")
    case True then show ?thesis using d by force
  next
    case False then show ?thesis using d fresh
      by (auto simp: ordinal_of_def split: option.splits)
  qed
  have "{e' \<in> insert ?e K. TurnID e' \<noteq> ''''}
      = (if TurnID e = '''' then {e \<in> K. TurnID e \<noteq> ''''} else insert ?e {e \<in> K. TurnID e \<noteq> ''''})"
    by auto
  then have T: "?T (insert ?e K) = (if TurnID e = '''' then ?T K else insert (TurnID e) (?T K))" by simp
  have 1: "grown (late ?n) (jn_turnOrdinals j0) (?T (insert ?e K)) (jn_turnOrdinals (append_indexed env e j))"
    unfolding T append_indexed_locators
    using d late by (auto intro: grown_push elim: grown_mono simp: blank_def trim_space_def)
  have 2: "\<forall>i. i \<notin> ?T (insert ?e K) \<longrightarrow> jn_turnCounts (append_indexed env e j) i = jn_turnCounts j0 i"
    unfolding T append_indexed_locators using d by auto
  have 3: "case jn_turns j0 of None \<Rightarrow> True
      | Some t0 \<Rightarrow> (\<exists>t. jn_turns (append_indexed env e j) = Some t \<and> turns_grew ?n t0 (insert ?e K) t)"
    using d by (auto simp: append_indexed_turns intro: turns_grew_observe [OF _ late] split: option.splits)
  have 4: "case jn_outputs j0 of None \<Rightarrow> True
      | Some m0 \<Rightarrow> (\<exists>m. jn_outputs (append_indexed env e j) = Some m \<and> grown (late ?n) m0 (sources_of (insert ?e K)) m)"
    using d by (auto simp: append_indexed_turns intro: grown_outputs [OF _ late] split: option.splits)
  have 5: "\<forall>i. i \<notin> ID ` insert ?e K \<longrightarrow> jn_depths (append_indexed env e j) i = jn_depths j0 i"
    using d by (auto simp: append_indexed_locators)
  have 6: "case jn_ordinals j0 of None \<Rightarrow> True
      | Some m0 \<Rightarrow> (\<exists>m. jn_ordinals (append_indexed env e j) = Some m \<and> (\<forall>i. i \<notin> ID ` insert ?e K \<longrightarrow> m i = m0 i))"
    using d by (auto simp: append_indexed_locators ordinals_map_def split: option.splits)
  have 7: "\<forall>e \<in> insert ?e K. ordinal_of j0 (ID e) = None" using d f by auto
  show ?thesis unfolding grew_def Let_def using 1 2 3 4 5 6 7 by blast
qed

lemma undo_fold_outputs:
  assumes "all_early (late n) m0" "grown (late n) m0 (sources_of (insert e K)) m"
  shows "grown (late n) m0 (sources_of K) (fold (undo_key (late n)) (output_sources e) m)"
  using assms by (intro grown_undo_fold) (simp_all add: sources_of_def)

definition undo_turns :: "int \<Rightarrow> entry \<Rightarrow> turn_index \<Rightarrow> turn_index" where
  "undo_turns n e t = t
     \<lparr>ti_requests := (if turn_started e then undo_key (late n) (RequestKey e) (ti_requests t)
                      else ti_requests t),
      ti_markers := (if TurnID e = '''' then ti_markers t
                     else undo_marker n (TurnID e) (ti_markers t))\<rparr>"

lemma turns_grew_undo:
  assumes ok: "turns_ok n t0" and g: "turns_grew n t0 (insert e K) t"
  shows "turns_grew n t0 K (undo_turns n e t)"
proof -
  have r: "{e' \<in> insert e K. turn_started e'}
      = (if turn_started e then insert e {e \<in> K. turn_started e} else {e \<in> K. turn_started e})" by auto
  have m: "{e' \<in> insert e K. TurnID e' \<noteq> ''''}
      = (if TurnID e = '''' then {e \<in> K. TurnID e \<noteq> ''''} else insert e {e \<in> K. TurnID e \<noteq> ''''})" by auto
  show ?thesis
    using ok g unfolding turns_grew_def turns_ok_def undo_turns_def r m
    by (auto simp: positions_undo undo_marker_ok intro: grown_undo)
qed

lemma map_length_undo:
  assumes "all_early lt m0" "grown lt m0 K m"
  shows "(let kept = drop_late lt (list_at m k) in if kept = [] then c(k := None) else c(k \<mapsto> int (length kept)))
    = c(k := map_option (\<lambda>xs. int (length xs)) (m0 k))"
proof -
  have u: "undo_key lt k m k = m0 k" using undo_key_exact [OF assms] by simp
  show ?thesis
  proof (cases "drop_late lt (list_at m k) = []")
    case True
    then have "m0 k = None" using u by (simp add: undo_key_def)
    with True show ?thesis by simp
  next
    case False
    then have "m0 k = Some (drop_late lt (list_at m k))" using u by (simp add: undo_key_def Let_def)
    with False show ?thesis by simp
  qed
qed

lemma undo_entry_turnCounts:
  "jn_turnCounts (undo_entry n e j) = (if TurnID e = '''' then jn_turnCounts j
     else (let kept = drop_late (late n) (list_at (jn_turnOrdinals j) (TurnID e)) in
       if kept = [] then (jn_turnCounts j)(TurnID e := None) else (jn_turnCounts j)(TurnID e \<mapsto> int (length kept))))"
  by (simp add: undo_entry_def Let_def)

lemma undo_entry_fields:
  "jn_entries (undo_entry n e j) = jn_entries j" "jn_path (undo_entry n e j) = jn_path j"
  "jn_ordinals (undo_entry n e j) = map_option (\<lambda>m. m(ID e := None)) (jn_ordinals j)"
  "jn_depths (undo_entry n e j) = (jn_depths j)(ID e := None)"
  "jn_outputs (undo_entry n e j) = map_option (\<lambda>m. fold (undo_key (late n)) (output_sources e) m) (jn_outputs j)"
  "jn_turnOrdinals (undo_entry n e j) = (if TurnID e = '''' then jn_turnOrdinals j
     else undo_key (late n) (TurnID e) (jn_turnOrdinals j))"
  "jn_turns (undo_entry n e j) = map_option (undo_turns n e) (jn_turns j)"
  by (simp_all add: undo_entry_def Let_def undo_turns_def [abs_def])

lemma grew_undo:
  assumes ok: "journal_ok j0" and g: "grew j0 (insert e K) j"
  shows "grew j0 K (undo_entry (int (length (jn_entries j0))) e j)"
proof -
  let ?n = "int (length (jn_entries j0))" and ?T = "\<lambda>K. TurnID ` {e \<in> K. TurnID e \<noteq> ''''}"
  let ?j = "undo_entry ?n e j"
  note d = g [unfolded grew_def Let_def] and w = ok [unfolded journal_ok_def Let_def]
  have T: "?T (insert e K) = (if TurnID e = '''' then ?T K else insert (TurnID e) (?T K))" by auto
  have early: "all_early (late ?n) (jn_turnOrdinals j0)" using w by blast
  have turnOrd: "grown (late ?n) (jn_turnOrdinals j0) (?T (insert e K)) (jn_turnOrdinals j)" using d by blast
  have 1: "grown (late ?n) (jn_turnOrdinals j0) (?T K) (jn_turnOrdinals ?j)"
    using turnOrd [unfolded T] grown_undo [OF early] by (simp add: undo_entry_fields split: if_splits)
  have c: "\<forall>k. k \<notin> ?T (insert e K) \<longrightarrow> jn_turnCounts j k = jn_turnCounts j0 k" using d by blast
  have c0: "jn_turnCounts j0 = (\<lambda>k. map_option (\<lambda>xs. int (length xs)) (jn_turnOrdinals j0 k))" using w by blast
  have 2: "\<forall>k. k \<notin> ?T K \<longrightarrow> jn_turnCounts ?j k = jn_turnCounts j0 k"
    using c unfolding T undo_entry_turnCounts map_length_undo [OF early turnOrd] by (auto simp: c0)
  have 3: "case jn_turns j0 of None \<Rightarrow> True
      | Some t0 \<Rightarrow> (\<exists>t. jn_turns ?j = Some t \<and> turns_grew ?n t0 K t)"
    using d w turns_grew_undo [of ?n _ e K] by (auto simp: undo_entry_fields split: option.splits)
  have 4: "case jn_outputs j0 of None \<Rightarrow> True
      | Some m0 \<Rightarrow> (\<exists>m. jn_outputs ?j = Some m \<and> grown (late ?n) m0 (sources_of K) m)"
    using d w undo_fold_outputs [of ?n _ e K] by (auto simp: undo_entry_fields split: option.splits)
  have e: "ordinal_of j0 (ID e) = None" using d by blast
  then have "jn_depths j0 (ID e) = None" using w by blast
  then have 5: "\<forall>i. i \<notin> ID ` K \<longrightarrow> jn_depths ?j i = jn_depths j0 i"
    using d by (auto simp: undo_entry_fields)
  have 6: "case jn_ordinals j0 of None \<Rightarrow> True
      | Some m0 \<Rightarrow> (\<exists>m. jn_ordinals ?j = Some m \<and> (\<forall>i. i \<notin> ID ` K \<longrightarrow> m i = m0 i))"
    using d e by (auto simp: undo_entry_fields ordinal_of_def split: option.splits)
  have 7: "\<forall>e \<in> K. ordinal_of j0 (ID e) = None" using d by auto
  show ?thesis unfolding grew_def Let_def using 1 2 3 4 5 6 7 by blast
qed

lemma grew_undo_all:
  "journal_ok j0 \<Longrightarrow> grew j0 (set es \<union> K) j \<Longrightarrow>
    grew j0 K (fold (undo_entry (int (length (jn_entries j0)))) es j)"
proof (induction es arbitrary: j)
  case (Cons e es)
  have "grew j0 (insert e (set es \<union> K)) j" using Cons.prems(2) by simp
  from Cons.IH [OF Cons.prems(1) grew_undo [OF Cons.prems(1) this]] show ?case by simp
qed simp

lemma turns_grew_none:
  assumes "turns_ok n t0" "turns_grew n t0 {} t"
  shows "t\<lparr>ti_active := ti_active t0\<rparr> = t0"
proof -
  have "ti_requests t = ti_requests t0" "positions_of (ti_markers t) = positions_of (ti_markers t0)"
    using assms(2) by (auto simp: turns_grew_def dest: grown_none)
  moreover from this have "ti_markers t = ti_markers t0"
    using assms by (intro markers_eq) (auto simp: turns_grew_def turns_ok_def)
  ultimately show ?thesis by (cases t; cases t0) simp
qed

lemma install_undone:
  assumes ok: "journal_ok j0" and g: "grew j0 {} j"
  shows "install_journal j0 j = j0"
proof -
  note d = g [unfolded grew_def Let_def] and w = ok [unfolded journal_ok_def Let_def]
  have "jn_depths j = jn_depths j0" using d by (auto simp: fun_eq_iff)
  moreover have "jn_turnOrdinals j = jn_turnOrdinals j0" using d by (auto dest: grown_none)
  moreover have "jn_turnCounts j = jn_turnCounts j0" using d by (auto simp: fun_eq_iff)
  moreover have "jn_ordinals j0 \<noteq> None \<Longrightarrow> jn_ordinals j = jn_ordinals j0"
    using d by (auto simp: fun_eq_iff)
  moreover have "jn_outputs j0 \<noteq> None \<Longrightarrow> jn_outputs j = jn_outputs j0"
    using d by (auto simp: sources_of_def dest: grown_none)
  moreover have "(case jn_turns j0 of None \<Rightarrow> None
       | Some before \<Rightarrow> map_option (\<lambda>ti. ti\<lparr>ti_active := ti_active before\<rparr>) (jn_turns j)) = jn_turns j0"
    using d w turns_grew_none by (auto split: option.splits)
  ultimately show ?thesis by (cases j0) (simp add: install_journal_def)
qed

text \<open>\<open>j\<close> is \<open>j0\<close> with more entries, as an append transaction leaves it.\<close>

definition within :: "journal \<Rightarrow> journal \<Rightarrow> bool" where
  "within j0 j \<longleftrightarrow> (jn_ordinals j = None \<longrightarrow> jn_entries j = [])
     \<and> take (length (jn_entries j0)) (jn_entries j) = jn_entries j0
     \<and> grew j0 (set (drop (length (jn_entries j0)) (jn_entries j))) j"

lemma undo_within:
  assumes "journal_ok j0" "within j0 j"
  shows "install_journal j0 (fold (undo_entry (int (length (jn_entries j0))))
    (drop (length (jn_entries j0)) (jn_entries j)) j) = j0"
  using assms grew_undo_all [of j0 _ "{}" j] install_undone by (simp add: within_def)

lemma within_refl: "journal_ok j \<Longrightarrow> within j j"
  by (auto simp: within_def grew_refl) (simp add: journal_ok_def Let_def)

lemma within_append:
  assumes "within j0 j" "ordinal_of j (ID e) = None"
  shows "within j0 (append_indexed env e j)"
proof -
  have p: "take (length (jn_entries j0)) (jn_entries j) = jn_entries j0" using assms(1) by (simp add: within_def)
  then have n: "length (jn_entries j0) \<le> length (jn_entries j)" by (metis length_take min.cobounded1)
  have "grew j0 (insert (stored_copy j e) (set (drop (length (jn_entries j0)) (jn_entries j)))) (append_indexed env e j)"
    using grew_append [OF _ n assms(2)] assms(1) by (simp add: within_def)
  then show ?thesis using p n by (simp add: within_def append_indexed_locators)
qed

section \<open>Building an index on the way\<close>

definition caught_up :: "journal \<Rightarrow> journal \<Rightarrow> bool" where
  "caught_up j j' \<longleftrightarrow> jn_entries j' = jn_entries j
     \<and> (\<forall>j0. within j0 j \<longrightarrow> within j0 j' \<and> ordinal_of j' = ordinal_of j)"

lemma caught_up_refl [simp]: "caught_up j j"
  by (simp add: caught_up_def)

lemma caught_up_trans: "caught_up a b \<Longrightarrow> caught_up b c \<Longrightarrow> caught_up a c"
  by (auto simp: caught_up_def)

lemma caught_up_turns: "caught_up j (ensureTurnMarkers j)"
proof -
  have "jn_entries (ensureTurnMarkers j) = jn_entries j" "ordinal_of (ensureTurnMarkers j) = ordinal_of j"
    "jn_ordinals (ensureTurnMarkers j) = jn_ordinals j"
    by (simp_all add: ensureTurnMarkers_def ordinal_of_def fun_eq_iff split: option.splits)
  then show ?thesis by (simp add: caught_up_def within_def grew_ensure_turns)
qed

lemma caught_up_path: "caught_up j (ensurePathIndex integ j)"
proof -
  have "jn_entries (ensurePathIndex integ j) = jn_entries j" "ordinal_of (ensurePathIndex integ j) = ordinal_of j"
    "jn_ordinals (ensurePathIndex integ j) = jn_ordinals j"
    by (simp_all add: ensurePathIndex_def ordinal_of_def fun_eq_iff)
  then show ?thesis by (simp add: caught_up_def within_def grew_ensure_path)
qed

lemma caught_up_outputs: "caught_up j (ensureOutputSources env j)"
proof -
  have "jn_entries (ensureOutputSources env j) = jn_entries j" "ordinal_of (ensureOutputSources env j) = ordinal_of j"
    "jn_ordinals (ensureOutputSources env j) = jn_ordinals j"
    by (simp_all add: ensureOutputSources_def ensurePathIndex_def ordinal_of_def fun_eq_iff split: option.splits)
  then show ?thesis by (simp add: caught_up_def within_def grew_ensure_outputs)
qed

lemma caught_up_locators:
  "jn_ordinals j = None \<Longrightarrow> caught_up j (j\<lparr>jn_ordinals := Some (fst (build_ordinals 0 Map.empty (jn_entries j)))\<rparr>)"
  by (auto simp: caught_up_def within_def ordinal_of_def fun_eq_iff intro: grew_locators)

lemma ensure_turns_idem [simp]: "ensureTurnMarkers (ensureTurnMarkers j) = ensureTurnMarkers j"
  by (simp add: ensureTurnMarkers_def split: option.splits)

lemma fst_sum:
  "(\<And>k. fst (g k) = r) \<Longrightarrow> fst (case x of Inl e \<Rightarrow> (r, f e) | Inr k \<Rightarrow> g k) = r"
  by (cases x) simp_all

definition located_journal :: "journal \<Rightarrow> journal" where
  "located_journal j = (if jn_ordinals j = None
     then j\<lparr>jn_ordinals := Some (fst (build_ordinals 0 Map.empty (jn_entries j)))\<rparr> else j)"

text \<open>A read leaves the repository as it is, or with the locators or the path index built.\<close>

lemma read_shape:
  "fst (canonicalPath ctx integ r t leaf) = r
   \<or> fst (canonicalPath ctx integ r t leaf) = setJournal t (located_journal (rp_journal r t)) r
   \<or> fst (canonicalPath ctx integ r t leaf)
       = setJournal t (ensurePathIndex integ (located_journal (rp_journal r t))) r"
  unfolding canonicalPath_def readCanonicalPath_def Let_def located_journal_def [symmetric]
  by (cases "ctx 0"; cases "thread r t"; simp add: fst_sum)

lemma read_journal:
  "fst (canonicalPath ctx integ r t leaf) = r
   \<or> (\<exists>j. fst (canonicalPath ctx integ r t leaf) = setJournal t j r \<and> caught_up (rp_journal r t) j)"
proof -
  let ?j = "rp_journal r t"
  have "caught_up ?j (located_journal ?j)" using caught_up_locators by (simp add: located_journal_def)
  moreover from this have "caught_up ?j (ensurePathIndex integ (located_journal ?j))"
    using caught_up_path by (rule caught_up_trans)
  ultimately show ?thesis using read_shape [of ctx integ r t leaf] by blast
qed

text \<open>
  The journals that differ by indexes an operation has built on the way: every operation leaves one of
  these or appends to one.
\<close>

inductive built :: "store_env \<Rightarrow> journal \<Rightarrow> journal \<Rightarrow> bool" for env j where
  built_refl: "built env j j"
| built_turns: "built env j k \<Longrightarrow> built env j (ensureTurnMarkers k)"
| built_path: "built env j k \<Longrightarrow> built env j (ensurePathIndex (ValidateEntryIntegrity env) k)"
| built_outputs: "built env j k \<Longrightarrow> built env j (ensureOutputSources env k)"
| built_located: "built env j k \<Longrightarrow> built env j (located_journal k)"

lemmas built_step = built_turns [OF built_refl] built_path [OF built_refl] built_outputs [OF built_refl]
  built_located [OF built_refl] built_path [OF built_located [OF built_refl]]

lemma built_trans: "built env b c \<Longrightarrow> built env a b \<Longrightarrow> built env a c"
  by (induction rule: built.induct) (auto intro: built.intros)

lemma built_caught_up: "built env j k \<Longrightarrow> caught_up j k"
  by (induction rule: built.induct)
    (auto simp: located_journal_def intro: caught_up_trans caught_up_turns caught_up_path caught_up_outputs caught_up_locators)

lemma built_admit: "built env j (fst (admit_fact env allow j e))"
proof -
  have "fst (admit_fact env allow j e) \<in> {j, ensureTurnMarkers j}"
    by (auto simp: admit_fact_def Let_def split: option.splits)
  then show ?thesis using built_refl built_step(1) by auto
qed

lemma built_sources: "built env j (fst (validateNewOutputSources env j e))"
  using built_refl built_step(3)
  by (auto simp: validateNewOutputSources_def Let_def split: sum.splits list.splits)

lemma read_built:
  "fst (canonicalPath ctx (ValidateEntryIntegrity env) r t leaf) = r
   \<or> (\<exists>j. fst (canonicalPath ctx (ValidateEntryIntegrity env) r t leaf) = setJournal t j r \<and> built env (rp_journal r t) j)"
  using read_shape [of ctx "ValidateEntryIntegrity env" r t leaf] built_step(4,5) by metis

lemma observed_built:
  "fst (check_observed ctx env r e) = r
   \<or> (\<exists>j. fst (check_observed ctx env r e) = setJournal (ThreadID e) j r \<and> built env (rp_journal r (ThreadID e)) j)"
proof -
  have "fst (check_observed ctx env r e) = r
      \<or> fst (check_observed ctx env r e) = fst (canonicalPath ctx (ValidateEntryIntegrity env) r (ThreadID e) (ParentID e))"
    by (auto simp: check_observed_def split: prod.splits sum.splits)
  then show ?thesis using read_built [of ctx env r "ThreadID e" "ParentID e"] by auto
qed

section \<open>The repository inside an append transaction\<close>

definition touched :: "string \<Rightarrow> repo \<Rightarrow> repo \<Rightarrow> bool" where
  "touched t r r' \<longleftrightarrow> within (rp_journal r t) (rp_journal r' t)
     \<and> (\<forall>k. k \<noteq> t \<longrightarrow> rp_journal r' k = rp_journal r k \<and> rp_providerStates r' k = rp_providerStates r k)
     \<and> (\<exists>m. rp_threads r' = AList.update t m (rp_threads r))
     \<and> rp_todos r' = rp_todos r \<and> rp_tombstones r' = rp_tombstones r \<and> rp_artifacts r' = rp_artifacts r"

lemma touched_refl: "journal_ok (rp_journal r t) \<Longrightarrow> thread r t \<noteq> None \<Longrightarrow> touched t r r"
  by (auto simp: touched_def within_refl thread_def dest: update_same [symmetric])

lemma touched_journal:
  "touched t r r' \<Longrightarrow> within (rp_journal r t) j \<Longrightarrow> touched t r (setJournal t j r')"
  by (simp add: touched_def setJournal_def)

lemma touched_caught_up:
  "touched t r r' \<Longrightarrow> caught_up (rp_journal r' t) j \<Longrightarrow> touched t r (setJournal t j r')"
  by (rule touched_journal) (auto simp: touched_def caught_up_def)

lemma touched_seq: "touched t r r' \<Longrightarrow> touched t r (r'\<lparr>rp_seq := n\<rparr>)"
  by (simp add: touched_def)

lemma touched_thread: "touched t r r' \<Longrightarrow> touched t r (setThread t m r')"
  by (auto simp: touched_def setThread_def update_update)

lemma touched_provider: "touched t r r' \<Longrightarrow> touched t r (setProviderState t p r')"
  by (simp add: touched_def setProviderState_def)

lemma rollback_touched:
  assumes "journal_ok (rp_journal r t)" "thread r t \<noteq> None" "touched t r r'"
  shows "restore_checkpoint (checkpointJournalAppend r t) r' = r"
proof -
  obtain m where m: "map_of (rp_threads r) t = Some m" using assms(2) by (auto simp: thread_def)
  obtain m' where m': "rp_threads r' = AList.update t m' (rp_threads r)" using assms(3) by (auto simp: touched_def)
  have w: "within (rp_journal r t) (rp_journal r' t)" using assms(3) by (simp add: touched_def)
  have "(rp_journal r')(t := rp_journal r t) = rp_journal r"
    "(rp_providerStates r')(t := rp_providerStates r t) = rp_providerStates r"
    using assms(3) by (auto simp: touched_def fun_eq_iff)
  moreover have "AList.update t m (rp_threads r') = rp_threads r"
    using m m' by (simp add: update_update update_same)
  ultimately show ?thesis
    using assms(3) m undo_within [OF assms(1) w]
    by (cases "rp_providerStates r t"; cases r)
      (auto simp: touched_def restore_checkpoint_def checkpointJournalAppend_def Let_def thread_def
        setJournal_def setThread_def setProviderState_def deleteProviderState_def)
qed

lemma place_fact_fresh:
  assumes "place_fact env opts meta j seq e = (n, Inr e')"
    "ao_ID opts \<noteq> '''' \<or> ID e \<noteq> '''' \<or> ordinal_of j (snd (nextEntryID j (ThreadID e) seq)) = None"
  shows "ordinal_of j (ID e') = None"
  using assms by (auto simp: place_fact_def Let_def split: if_splits)

lemma admitted_ID [simp]: "ID (admitOutputSources env e) = ID e"
  by (simp add: admitOutputSources_def Let_def)

lemma admit_fact_ID: "admit_fact env allow j e = (j', Inr e') \<Longrightarrow> ID e' = ID e"
  by (auto simp: admit_fact_def Let_def split: if_splits option.splits)

lemma caught_up_ordinals: "touched t r r' \<Longrightarrow> caught_up (rp_journal r' t) j \<Longrightarrow>
    ordinal_of j = ordinal_of (rp_journal r' t)"
  by (auto simp: touched_def caught_up_def)

lemma append_one:
  assumes w: "within j0 j" and f: "ordinal_of j (ID e) = None"
  shows "within j0 (appendIndexedEntries env [e] j)"
proof -
  let ?j = "ensurePathIndex (ValidateEntryIntegrity env) (ensureOutputSources env (ensureTurnMarkers j))"
  have c: "caught_up j ?j"
    by (intro caught_up_trans [OF caught_up_trans [OF caught_up_turns caught_up_outputs] caught_up_path])
  then have "within j0 ?j" "ordinal_of ?j (ID e) = None" using w f by (auto simp: caught_up_def)
  then show ?thesis by (simp add: appendIndexedEntries_def within_append)
qed

lemma check_observed_journal:
  "fst (check_observed ctx env r e) = r
   \<or> (\<exists>j. fst (check_observed ctx env r e) = setJournal (ThreadID e) j r \<and> caught_up (rp_journal r (ThreadID e)) j)"
proof -
  have "fst (check_observed ctx env r e) = r
      \<or> fst (check_observed ctx env r e) = fst (canonicalPath ctx (ValidateEntryIntegrity env) r (ThreadID e) (ParentID e))"
    by (auto simp: check_observed_def split: prod.splits sum.splits)
  then show ?thesis using read_journal [of ctx "ValidateEntryIntegrity env" r "ThreadID e" "ParentID e"] by auto
qed

lemma fact_threads [simp]:
  "ThreadID (admitOutputSources env e) = ThreadID e" "ThreadID (sealed_entry env e) = ThreadID e"
  "ID (sealed_entry env e) = ID e"
  by (simp_all add: admitOutputSources_def sealed_entry_def Let_def)

lemma admit_fact_thread: "admit_fact env allow j e = (j', Inr e') \<Longrightarrow> ThreadID e' = ThreadID e"
  by (auto simp: admit_fact_def Let_def split: if_splits option.splits)

lemma place_fact_thread: "place_fact env opts meta j seq e = (n, Inr e') \<Longrightarrow> ThreadID e' = ThreadID e"
  by (auto simp: place_fact_def Let_def split: if_splits)

lemma place_fact_seq: "seq \<le> fst (place_fact env opts meta j seq e)"
  using fresh_id_seq [of seq "length (jn_entries j)" "\<lambda>i. ordinal_of j i \<noteq> None" "generated_entry_id (ThreadID e)"]
  by (simp add: place_fact_def nextEntryID_def Let_def)

text \<open>How an append ends: refused before or after the observed work is checked, or committed.\<close>

lemma appendFact_cases:
  assumes "ThreadID e = t"
  obtains (refused) err where "appendFact ctx env r e opts allow = (r, Inl err)"
  | (rejected) j1 err where "appendFact ctx env r e opts allow = (setJournal t j1 r, Inl err)"
      "caught_up (rp_journal r t) j1" "built env (rp_journal r t) j1"
  | (unplaced) j1 s err where "appendFact ctx env r e opts allow = ((setJournal t j1 r)\<lparr>rp_seq := s\<rparr>, Inl err)"
      "caught_up (rp_journal r t) j1" "built env (rp_journal r t) j1" "rp_seq r \<le> s"
  | (placed) meta j1 j2 e1 e2 s where "thread r t = Some meta" "lifecycleRejectsWrite meta = None"
      "admit_fact env allow (rp_journal r t) e = (j1, Inr e1)"
      "place_fact env opts meta j1 (rp_seq r) e1 = (s, Inr e2)" "ThreadID e2 = t"
      "caught_up (rp_journal r t) j1" "caught_up (rp_journal r t) j2"
      "validateNewOutputSources env j1 (admitOutputSources env e2) = (j2, None)"
      "appendFact ctx env r e opts allow =
        (case check_observed ctx env ((setJournal t j2 r)\<lparr>rp_seq := s\<rparr>) (admitOutputSources env e2) of
           (r3, Some err) \<Rightarrow> (r3, Inl err)
         | (r3, None) \<Rightarrow> (commit_fact env meta r3 (sealed_entry env (admitOutputSources env e2)),
                         Inr (sealed_entry env (admitOutputSources env e2))))"
      "built env (rp_journal r t) j1" "built env (rp_journal r t) j2"
proof (cases "thread r t")
  case None
  then show ?thesis using assms refused by (simp add: appendFact_def Let_def)
next
  case (Some meta)
  note m = Some
  show ?thesis
  proof (cases "lifecycleRejectsWrite meta")
    case (Some err)
    then show ?thesis using assms m refused by (simp add: appendFact_def Let_def)
  next
    case None
    note m = m None
    let ?j = "rp_journal r t"
    obtain j1 a where a: "admit_fact env allow ?j e = (j1, a)" by fastforce
    have b1: "built env ?j j1" using built_admit [of env ?j allow e] a by simp
    note c1 = built_caught_up [OF b1]
    show ?thesis
    proof (cases a)
      case (Inl err)
      then show ?thesis using rejected c1 b1 m a assms by (simp add: appendFact_def Let_def)
    next
      case (Inr e1)
      obtain s b where b: "place_fact env opts meta j1 (rp_seq r) e1 = (s, b)" by fastforce
      have s: "rp_seq r \<le> s" using place_fact_seq [of "rp_seq r" env opts meta j1 e1] b by simp
      show ?thesis
      proof (cases b)
        case (Inl err)
        then show ?thesis using unplaced c1 b1 s m a Inr b assms by (simp add: appendFact_def Let_def)
      next
        case (Inr e2)
        obtain j2 v where v: "validateNewOutputSources env j1 (admitOutputSources env e2) = (j2, v)" by fastforce
        have b2: "built env ?j j2"
          using built_trans [OF built_sources [of env j1 "admitOutputSources env e2"] b1] v by simp
        note c2 = built_caught_up [OF b2]
        have t2: "ThreadID e2 = t" using a b Inr \<open>a = Inr e1\<close> assms by (auto dest!: admit_fact_thread place_fact_thread)
        show ?thesis
        proof (cases v)
          case None
          show ?thesis
            by (rule placed [OF m(1,2) a [unfolded \<open>a = Inr e1\<close>] b [unfolded Inr] t2 c1 c2 v [unfolded None] _ b1 b2])
              (use m a Inr b v None \<open>a = Inr e1\<close> assms in \<open>simp add: appendFact_def Let_def\<close>)
        next
          case (Some err)
          then show ?thesis using unplaced c2 b2 s m a Inr b v \<open>a = Inr e1\<close> assms by (simp add: appendFact_def Let_def)
        qed
      qed
    qed
  qed
qed

lemma journal_seq [simp]: "rp_journal ((setJournal t j r)\<lparr>rp_seq := s\<rparr>) t = j"
  "rp_journal (setJournal t j r) t = j"
  by (simp_all add: setJournal_def)

lemma appendFact_touched:
  assumes t: "touched t r r'" and e: "ThreadID e = t"
    and i: "ao_ID opts \<noteq> '''' \<or> ID e \<noteq> ''''
      \<or> (\<forall>j. built env (rp_journal r' t) j \<longrightarrow> ordinal_of j (snd (nextEntryID j t (rp_seq r'))) = None)"
  shows "touched t r (fst (appendFact ctx env r' e opts allow))"
  using e
proof (cases rule: appendFact_cases [where ctx = ctx and env = env and r = r' and opts = opts and allow = allow])
  case (refused err)
  then show ?thesis using t by simp
next
  case (rejected j1 err)
  then show ?thesis using touched_caught_up [OF t] by simp
next
  case (unplaced j1 s err)
  then show ?thesis using touched_seq [OF touched_caught_up [OF t]] by simp
next
  case (placed meta j1 j2 e1 e2 s)
  let ?r2 = "(setJournal t j2 r')\<lparr>rp_seq := s\<rparr>" and ?e3 = "admitOutputSources env e2"
  have t2: "touched t r ?r2" by (rule touched_seq [OF touched_caught_up [OF t placed(7)]])
  obtain w where w: "fst (check_observed ctx env ?r2 ?e3) = w" by simp
  have "w = ?r2 \<or> (\<exists>j. w = setJournal t j ?r2 \<and> caught_up j2 j)"
    using check_observed_journal [of ctx env ?r2 ?e3] placed(5) w by simp
  then have j3: "caught_up j2 (rp_journal w t)" and t3: "touched t r w"
    using t2 touched_caught_up [OF t2] by (auto simp: setJournal_def)
  have "ThreadID e1 = t" using admit_fact_thread [OF placed(3)] e by simp
  then have "ordinal_of (rp_journal r' t) (ID e2) = None"
    using place_fact_fresh [OF placed(4)] admit_fact_ID [OF placed(3)] caught_up_ordinals [OF t placed(6)] i placed(10)
    by auto
  then have "ordinal_of (rp_journal w t) (ID (sealed_entry env ?e3)) = None"
    using caught_up_ordinals [OF t caught_up_trans [OF placed(7) j3]] by simp
  then have "within (rp_journal r t) (appendIndexedEntries env [sealed_entry env ?e3] (rp_journal w t))"
    using t3 by (intro append_one) (simp_all add: touched_def)
  then have "touched t r (commit_fact env meta w (sealed_entry env ?e3))"
    using placed(5) touched_thread [OF touched_journal [OF t3]] by (simp add: commit_fact_def)
  moreover have "fst (appendFact ctx env r' e opts allow) = w
      \<or> fst (appendFact ctx env r' e opts allow) = commit_fact env meta w (sealed_entry env ?e3)"
    using placed(9) w by (auto split: prod.splits option.splits)
  ultimately show ?thesis using t3 by auto
qed

lemma reanchor_touched: "touched t r r' \<Longrightarrow> touched t r (reanchor t e r')"
  by (auto simp: reanchor_def intro: touched_provider split: option.splits)

lemma append_facts_touched:
  "touched t r r' \<Longrightarrow> list_all (\<lambda>e. ID e \<noteq> '''') es \<Longrightarrow> touched t r (fst (append_facts ctx env t r' es))"
proof (induction es arbitrary: r')
  case (Cons e es)
  let ?a = "appendFact ctx env r' (e\<lparr>ThreadID := t\<rparr>) \<lparr>ao_ID = ID e, ao_ParentID = '''', ao_Now = 0\<rparr> False"
  have t: "touched t r (fst ?a)" using Cons.prems by (intro appendFact_touched) auto
  show ?case
  proof (cases "snd ?a")
    case (Inr saved)
    have "touched t r (fst (append_facts ctx env t (reanchor t saved (fst ?a)) es))"
      using Cons.IH [OF reanchor_touched [OF t]] Cons.prems(2) by simp
    then show ?thesis using Inr by (cases ?a) (auto split: prod.splits sum.splits)
  qed (use t in \<open>cases ?a; simp\<close>)
qed simp

lemma scan_facts_ids: "scan_facts j t seen es = Inr ys \<Longrightarrow> list_all (\<lambda>e. ID e \<noteq> '''') es"
  by (induction es arbitrary: seen ys) (auto simp: Let_def split: if_splits option.splits sum.splits)

section \<open>The turn index is rebuilt from the entries\<close>

lemma observe_turns_ok:
  "turns_ok n ti \<Longrightarrow> turns_ok (n + int (length es)) (observe_turns n es ti)"
proof (induction es arbitrary: n ti)
  case (Cons e es)
  have "turns_ok (n + 1) (observeTurnMarker n e ti)"
    using Cons.prems
    by (auto simp: turns_ok_def observe_requests observe_positions observe_markers_ok marker_position_def
        intro: all_early_weaken intro!: all_early_push)
  from Cons.IH [OF this] show ?case by (simp add: ac_simps)
qed simp

lemma rebuild_turns_ok: "turns_ok (int (length es)) (rebuildTurnMarkers es)"
proof -
  have "turns_ok 0 empty_turns"
    by (simp add: turns_ok_def all_early_def empty_turns_def markers_ok_def positions_of_def)
  from observe_turns_ok [OF this, of es] show ?thesis by (simp add: rebuildTurnMarkers_def)
qed

lemma ensure_turns_ok: "journal_ok j \<Longrightarrow> journal_ok (ensureTurnMarkers j)"
  using rebuild_turns_ok [of "jn_entries j"]
  by (auto simp: journal_ok_def Let_def ensureTurnMarkers_def ordinal_of_def split: option.splits)

section \<open>Appending runtime facts is atomic\<close>

lemma facts_undone:
  assumes "journal_ok (rp_journal r t)" "thread r t \<noteq> None" "list_all (\<lambda>e. ID e \<noteq> '''') es"
  shows "restore_checkpoint (checkpointJournalAppend r t) (fst (append_facts ctx env t r es)) = r"
  using rollback_touched [OF assms(1,2) append_facts_touched [OF touched_refl [OF assms(1,2)] assms(3)]] by simp

text \<open>
  C8: Appending runtime facts is all or nothing. If the operation returns an error, from whichever
  fact and after however many were appended, the repository is the one from before it (the
  turn index of the thread may have been built from its entries, when a steering fact asked for it).
\<close>

theorem append_facts_atomic:
  assumes ok: "journal_ok (rp_journal r (trim_space t))"
    and err: "AppendRuntimeFacts ctx env r t es = (r', Inl e)"
  shows "r' = r \<or> list_ex steering_fact es
    \<and> r' = setJournal (trim_space t) (ensureTurnMarkers (rp_journal r (trim_space t))) r"
proof -
  let ?t = "trim_space t"
  define r1 where "r1 = (if list_ex steering_fact es
    then setJournal ?t (ensureTurnMarkers (rp_journal r ?t)) r else r)"
  show ?thesis
  proof (cases "r' = r \<or> r' = r1")
    case False
    then obtain r2 ids where live: "thread r ?t \<noteq> None" and s: "scan_facts (rp_journal r ?t) ?t [] es = Inr ids"
      and a: "append_facts ctx env ?t r1 es = (r2, Inl e)"
      and r': "r' = restore_checkpoint (checkpointJournalAppend r1 ?t) r2"
      using err by (auto simp: AppendRuntimeFacts_def Let_def r1_def split: if_splits sum.splits prod.splits)
    have "rp_threads r1 = rp_threads r" by (simp add: r1_def setJournal_def)
    then have live1: "thread r1 ?t \<noteq> None" using live by (simp add: thread_def)
    have ok1: "journal_ok (rp_journal r1 ?t)" using ok by (simp add: r1_def ensure_turns_ok)
    have "r' = r1" using facts_undone [OF ok1 live1 scan_facts_ids [OF s], of ctx env] a r' by simp
    then show ?thesis by (simp add: r1_def)
  qed (auto simp: r1_def split: if_splits)
qed

text \<open>An open thread, and two facts of which the second names a missing parent.\<close>

definition atomic_repo :: repo where
  "atomic_repo = setThread ''t'' (zero_meta\<lparr>tm_ID := ''t''\<rparr>) newMemoryRepo"

definition atomic_facts :: "entry list" where
  "atomic_facts = [zero_entry\<lparr>ID := ''q1'', Type := EntryQueueAdded\<rparr>,
     zero_entry\<lparr>ID := ''q2'', Type := EntryQueueAdded, ParentID := ''gone''\<rparr>]"

lemma empty_journal_ok: "journal_ok empty_journal"
  by (simp add: journal_ok_def empty_journal_def Let_def all_early_def fun_eq_iff)

theorem append_facts_atomic_witness:
  "AppendRuntimeFacts (\<lambda>_. None) host_env atomic_repo '' t'' atomic_facts = (atomic_repo, Inl ErrInvalidParent)"
proof -
  have "snd (AppendRuntimeFacts (\<lambda>_. None) host_env atomic_repo '' t'' atomic_facts) = Inl ErrInvalidParent"
    by code_simp
  then obtain r' where e: "AppendRuntimeFacts (\<lambda>_. None) host_env atomic_repo '' t'' atomic_facts
      = (r', Inl ErrInvalidParent)"
    by (cases "AppendRuntimeFacts (\<lambda>_. None) host_env atomic_repo '' t'' atomic_facts") simp
  have t: "trim_space '' t'' = ''t''" by code_simp
  have j: "rp_journal atomic_repo ''t'' = empty_journal"
    by (simp add: atomic_repo_def setThread_def newMemoryRepo_def)
  moreover have "\<not> list_ex steering_fact atomic_facts" by code_simp
  ultimately show ?thesis using append_facts_atomic [OF _ e] e by (simp add: t j empty_journal_ok)
qed

end
