(* ===== verification/JournalIndex.thy ===== *)
theory JournalIndex
  imports JournalRollback
begin

text \<open>
  The indexes of a journal follow its entries: whatever order an operation builds or extends
  them in, they are the ones rebuilt from the entries. So reads do not depend on which indexes
  exist, and appending an entry to the leaf appends it to the path that is read.
\<close>

section \<open>The indexes a list of entries has\<close>

fun index_turns :: "int \<Rightarrow> entry list \<Rightarrow> (string \<rightharpoonup> int list) \<Rightarrow> (string \<rightharpoonup> int list)" where
  "index_turns n [] m = m"
| "index_turns n (e # es) m = index_turns (n + 1) es (if blank (TurnID e) then m else push_at (TurnID e) n m)"

definition depth_map :: "entry list \<Rightarrow> string \<rightharpoonup> int" where
  "depth_map es i = map_option PathDepth (findEntry es i)"

definition indexed :: "store_env \<Rightarrow> string \<Rightarrow> journal \<Rightarrow> bool" where
  "indexed env t j \<longleftrightarrow> (let es = jn_entries j in
     distinct (map ID es) \<and> '''' \<notin> ID ` set es \<and> (\<forall>e \<in> set es. ThreadID e = t \<and> 0 < PathDepth e)
   \<and> (jn_ordinals j = Some (ids_map es) \<or> jn_ordinals j = None \<and> es = [])
   \<and> jn_depths j = depth_map es
   \<and> (length (jn_path j) = length es \<longrightarrow> jn_path j = build_index (ValidateEntryIntegrity env) es)
   \<and> jn_turnOrdinals j = index_turns 0 es Map.empty
   \<and> jn_turnCounts j = (\<lambda>k. map_option (\<lambda>xs. int (length xs)) (jn_turnOrdinals j k))
   \<and> (jn_turns j = None \<or> jn_turns j = Some (rebuildTurnMarkers es))
   \<and> (jn_outputs j = None \<or> jn_outputs j = Some (observe_outputs 0 es Map.empty)))"

lemma indexed_empty: "indexed env t empty_journal"
  by (simp add: indexed_def empty_journal_def depth_map_def findEntry_def fun_eq_iff build_index_def rebuildPathIndex_def)

lemma index_turns_snoc:
  "index_turns n (es @ [e]) m = (if blank (TurnID e) then index_turns n es m
     else push_at (TurnID e) (n + int (length es)) (index_turns n es m))"
  by (induction es arbitrary: n m) (simp_all add: add.assoc)

lemma observe_turns_snoc: "observe_turns n (es @ [e]) ti = observeTurnMarker (n + int (length es)) e (observe_turns n es ti)"
  by (induction es arbitrary: n ti) (simp_all add: add.assoc)

lemma observe_outputs_snoc:
  "observe_outputs n (es @ [e]) m = observeOutputSources (n + int (length es)) e (observe_outputs n es m)"
  by (induction es arbitrary: n m) (simp_all add: add.assoc)

lemma depth_map_snoc: "ID e \<notin> ID ` set es \<Longrightarrow> depth_map (es @ [e]) = (depth_map es)(ID e \<mapsto> PathDepth e)"
proof
  fix i
  assume "ID e \<notin> ID ` set es"
  then have "list_find (\<lambda>x. ID x = ID e) es = None" unfolding list_find_None by (metis image_eqI)
  then show "depth_map (es @ [e]) i = ((depth_map es)(ID e \<mapsto> PathDepth e)) i"
    by (cases "i = ID e") (auto simp: depth_map_def findEntry_def list_find_append split: option.splits)
qed

text \<open>A locator of a later entry does not matter to the nodes before it.\<close>

lemma rebuild_later:
  assumes "m i = None" "int (length es) \<le> n"
  shows "rebuildPathIndex integ (m(i \<mapsto> n)) es = rebuildPathIndex integ m es"
  using assms(2)
proof (induction es rule: rev_induct)
  case (snoc e es)
  have r: "rebuildPathIndex integ q (es @ [e]) = rebuildPathIndex integ q es
      @ [path_node_for integ (rebuildPathIndex integ q es) q e]" for q
    by (simp add: rebuildPathIndex_def appendPathIndex_def)
  have l: "length (rebuildPathIndex integ m es) = length es"
    by (induction es rule: rev_induct) (simp_all add: rebuildPathIndex_def appendPathIndex_def)
  have "path_parent (rebuildPathIndex integ m es) (m(i \<mapsto> n)) p = path_parent (rebuildPathIndex integ m es) m p" for p
    using assms(1) snoc.prems l by (simp add: path_parent_def)
  then have "path_node_for integ (rebuildPathIndex integ m es) (m(i \<mapsto> n)) e
      = path_node_for integ (rebuildPathIndex integ m es) m e"
    by (simp only: path_node_for_def)
  moreover have "rebuildPathIndex integ (m(i \<mapsto> n)) es = rebuildPathIndex integ m es"
    by (rule snoc.IH) (use snoc.prems in simp)
  ultimately show ?case by (simp only: r)
qed (simp add: rebuildPathIndex_def)

lemma build_index_snoc:
  assumes "ID e \<notin> ID ` set es"
  shows "build_index integ (es @ [e]) = appendPathIndex integ (build_index integ es) (ids_map (es @ [e])) e"
proof -
  have "ids_map es (ID e) = None" using assms by (simp add: ids_map_def map_of_zip_is_None)
  then have "rebuildPathIndex integ (ids_map (es @ [e])) es = build_index integ es"
    by (simp add: ids_map_snoc [OF assms] rebuild_later build_index_def)
  then show ?thesis by (simp add: build_index_def rebuildPathIndex_def)
qed

section \<open>Every operation keeps them\<close>

lemma indexed_turns: "indexed env t j \<Longrightarrow> indexed env t (ensureTurnMarkers j)"
  by (auto simp: indexed_def ensureTurnMarkers_def Let_def split: option.splits)

lemma ordinals_map_indexed: "indexed env t j \<Longrightarrow> ordinals_map j = ids_map (jn_entries j)"
  by (auto simp: indexed_def ordinals_map_def ids_map_def Let_def)

lemma indexed_path: "indexed env t j \<Longrightarrow> indexed env t (ensurePathIndex (ValidateEntryIntegrity env) j)"
  using ordinals_map_indexed [of env t j]
  by (auto simp: indexed_def ensurePathIndex_def build_index_def Let_def)

lemma indexed_outputs: "indexed env t j \<Longrightarrow> indexed env t (ensureOutputSources env j)"
proof -
  assume j: "indexed env t j"
  have "indexed env t (k\<lparr>jn_outputs := Some (observe_outputs 0 (jn_entries k) Map.empty)\<rparr>)" if "indexed env t k" for k
    using that by (simp add: indexed_def Let_def)
  from this [OF indexed_path [OF j]] j show ?thesis
    by (cases "jn_outputs j") (simp_all add: ensureOutputSources_def ensurePathIndex_def split: if_splits)
qed

lemma indexed_located: "indexed env t j \<Longrightarrow> indexed env t (located_journal j)"
  by (auto simp: indexed_def located_journal_def ids_map_def Let_def)

lemma built_indexed: "built env j k \<Longrightarrow> indexed env t j \<Longrightarrow> indexed env t k"
  by (induction rule: built.induct)
    (simp_all add: indexed_turns indexed_path indexed_outputs indexed_located)

lemma indexed_fresh: "indexed env t j \<Longrightarrow> ordinal_of j i = None \<longleftrightarrow> i \<notin> ID ` set (jn_entries j)"
  by (auto simp: indexed_def Let_def ordinal_of_def ids_map_def map_of_zip_is_None split: option.splits)

lemma path_length: "length (jn_path (ensurePathIndex integ j)) = length (jn_entries j)"
  by (simp add: ensurePathIndex_def)

lemma indexed_append:
  assumes j: "indexed env t j" and e: "ThreadID e = t" "ID e \<noteq> ''''" "ID e \<notin> ID ` set (jn_entries j)"
    and p: "length (jn_path j) = length (jn_entries j)"
  shows "indexed env t (append_indexed env e j)"
proof -
  let ?es = "jn_entries j" and ?c = "stored_copy j e" and ?j = "append_indexed env e j"
  have fresh: "ID ?c \<notin> ID ` set ?es" using e(3) by simp
  have path: "jn_path j = build_index (ValidateEntryIntegrity env) ?es" using j p by (simp add: indexed_def Let_def)
  have om: "ordinals_map j = ids_map ?es" by (rule ordinals_map_indexed [OF j])
  have "jn_path ?j = appendPathIndex (ValidateEntryIntegrity env) (jn_path j) (ids_map (?es @ [?c])) ?c"
    using ids_map_snoc [OF fresh] by (simp add: append_indexed_def Let_def stored_copy_def om)
  then have "jn_path ?j = build_index (ValidateEntryIntegrity env) (?es @ [?c])"
    by (simp add: build_index_snoc [OF fresh] path)
  moreover have "jn_ordinals ?j = Some (ids_map (?es @ [?c]))"
    using ids_map_snoc [OF fresh] by (simp add: append_indexed_locators om)
  moreover have "jn_depths ?j = depth_map (?es @ [?c])"
    using j depth_map_snoc [OF fresh] by (simp add: append_indexed_locators indexed_def Let_def stored_copy_def)
  moreover have "jn_turnOrdinals ?j = index_turns 0 (?es @ [?c]) Map.empty"
    using j by (simp add: append_indexed_locators indexed_def Let_def index_turns_snoc)
  moreover have "jn_turnCounts ?j = (\<lambda>k. map_option (\<lambda>xs. int (length xs)) (jn_turnOrdinals ?j k))"
    using j by (auto simp: append_indexed_locators indexed_def Let_def push_at_def list_at_def fun_eq_iff split: option.splits)
  moreover have "jn_turns ?j = None \<or> jn_turns ?j = Some (rebuildTurnMarkers (?es @ [?c]))"
    using j by (auto simp: append_indexed_turns indexed_def Let_def rebuildTurnMarkers_def observe_turns_snoc stored_copy_def)
  moreover have "jn_outputs ?j = None \<or> jn_outputs ?j = Some (observe_outputs 0 (?es @ [?c]) Map.empty)"
    using j by (auto simp: append_indexed_turns indexed_def Let_def observe_outputs_snoc stored_copy_def)
  moreover have "\<forall>i d. depth_map ?es i = Some d \<longrightarrow> 0 < d"
    using j by (auto simp: indexed_def Let_def depth_map_def dest!: findEntry_Some)
  then have "0 < PathDepth ?c" using j
    by (force simp: stored_copy_def depth_under_def indexed_def Let_def split: option.splits)
  moreover have "ThreadID ?c = t" "ID ?c \<noteq> ''''" using e by (simp_all add: stored_copy_def)
  ultimately show ?thesis using j fresh by (auto simp: indexed_def Let_def)
qed

lemma ensured_all:
  fixes env j
  defines "k \<equiv> ensurePathIndex (ValidateEntryIntegrity env) (ensureOutputSources env (ensureTurnMarkers j))"
  shows "built env j k" "jn_entries k = jn_entries j" "jn_depths k = jn_depths j"
proof -
  show "built env j k" unfolding k_def by (intro built.intros)
  from built_caught_up [OF this] show "jn_entries k = jn_entries j" by (simp add: caught_up_def)
  show "jn_depths k = jn_depths j"
    by (simp add: k_def ensurePathIndex_def ensureOutputSources_def ensureTurnMarkers_def split: option.splits)
qed

lemma appended_entries:
  "jn_entries (appendIndexedEntries env [e] j) = jn_entries j @ [stored_copy j e]"
proof -
  note k = ensured_all [where env = env and j = j]
  have "depth_under (ensurePathIndex (ValidateEntryIntegrity env) (ensureOutputSources env (ensureTurnMarkers j))) p
      = depth_under j p" for p
    using k(3) by (simp add: depth_under_def)
  then show ?thesis using k(2) by (simp add: appendIndexedEntries_def stored_copy_def)
qed

lemma indexed_appended:
  assumes "indexed env t j" "ThreadID e = t" "ID e \<noteq> ''''" "ID e \<notin> ID ` set (jn_entries j)"
  shows "indexed env t (appendIndexedEntries env [e] j)"
proof -
  let ?k = "ensurePathIndex (ValidateEntryIntegrity env) (ensureOutputSources env (ensureTurnMarkers j))"
  have k: "jn_entries ?k = jn_entries j" by (rule ensured_all(2))
  have "indexed env t (append_indexed env e ?k)"
  proof (rule indexed_append [OF built_indexed [OF ensured_all(1) assms(1)] assms(2,3)])
    show "ID e \<notin> ID ` set (jn_entries ?k)" using assms(4) by (simp only: k) simp
    show "length (jn_path ?k) = length (jn_entries ?k)" by (simp only: k) (simp add: ensurePathIndex_def ensureOutputSources_def ensureTurnMarkers_def split: option.splits)
  qed
  then show ?thesis by (simp add: appendIndexedEntries_def)
qed

section \<open>Repositories with indexed journals\<close>

lemma generated_inj: "0 \<le> a \<Longrightarrow> 0 \<le> b \<Longrightarrow> generated_entry_id t a = generated_entry_id t b \<Longrightarrow> a = b"
  by (auto simp: generated_entry_id_def show_int_def dest: digits_inj)

lemma next_fresh:
  assumes "\<And>i. ordinal_of j i \<noteq> None \<longleftrightarrow> i \<in> ID ` set (jn_entries j)" "0 \<le> seq"
  shows "snd (nextEntryID j t seq) \<notin> ID ` set (jn_entries j) \<and> snd (nextEntryID j t seq) \<noteq> ''''"
proof
  have "\<not> ordinal_of j (snd (nextEntryID j t seq)) \<noteq> None"
    unfolding nextEntryID_def
    by (rule fresh_id_unused [where ids = "map ID (jn_entries j)"]) (use assms generated_inj in auto)
  then show "snd (nextEntryID j t seq) \<notin> ID ` set (jn_entries j)" using assms(1) by blast
  show "snd (nextEntryID j t seq) \<noteq> ''''" by (simp add: nextEntryID_def fresh_id_name generated_entry_id_def)
qed

definition repo_indexed :: "store_env \<Rightarrow> repo \<Rightarrow> bool" where
  "repo_indexed env r \<longleftrightarrow> 0 \<le> rp_seq r \<and> (\<forall>t. indexed env t (rp_journal r t))"

lemma repo_indexed_new: "repo_indexed env newMemoryRepo"
  by (simp add: repo_indexed_def newMemoryRepo_def indexed_empty)

lemma repo_indexed_set: "repo_indexed env r \<Longrightarrow> indexed env t j \<Longrightarrow> repo_indexed env (setJournal t j r)"
  by (simp add: repo_indexed_def setJournal_def)

lemma repo_indexed_frame [simp]:
  "repo_indexed env (setThread t m r) = repo_indexed env r"
  "repo_indexed env (setProviderState t p r) = repo_indexed env r"
  "repo_indexed env (deleteProviderState t r) = repo_indexed env r"
  by (simp_all add: repo_indexed_def setThread_def setProviderState_def deleteProviderState_def)

lemma repo_indexed_built:
  "repo_indexed env r \<Longrightarrow> built env (rp_journal r t) j \<Longrightarrow> repo_indexed env (setJournal t j r)"
  by (rule repo_indexed_set) (auto simp: repo_indexed_def intro: built_indexed)

lemma read_indexed_repo: "repo_indexed env r \<Longrightarrow>
    repo_indexed env (fst (canonicalPath ctx (ValidateEntryIntegrity env) r t leaf))"
  using read_built [of ctx env r t leaf] repo_indexed_built by metis

lemma append_indexed_repo:
  assumes "repo_indexed env r" "ID e \<noteq> ''''" "ID e \<notin> ID ` set (jn_entries (rp_journal r (ThreadID e)))"
  shows "repo_indexed env (setJournal (ThreadID e) (appendIndexedEntries env [e] (rp_journal r (ThreadID e))) r)"
  using assms by (intro repo_indexed_set indexed_appended) (auto simp: repo_indexed_def)

lemma repo_indexed_seq: "repo_indexed env r \<Longrightarrow> rp_seq r \<le> n \<Longrightarrow> repo_indexed env (r\<lparr>rp_seq := n\<rparr>)"
  by (simp add: repo_indexed_def)

lemma next_unused:
  assumes "indexed env t j" "0 \<le> seq"
  shows "snd (nextEntryID j s seq) \<notin> ID ` set (jn_entries j)" "snd (nextEntryID j s seq) \<noteq> ''''"
    "seq < fst (nextEntryID j s seq)"
  using next_fresh [of j seq s] indexed_fresh [OF assms(1)] assms(2) fresh_id_seq by (auto simp: nextEntryID_def)

lemma place_fact_Inr:
  assumes "place_fact env opts meta j seq e = (n, Inr e')"
  defines "wanted \<equiv> if ao_ID opts \<noteq> '''' then ao_ID opts else ID e"
  shows "if wanted = '''' then ID e' = snd (nextEntryID j (ThreadID e) seq) \<and> n = fst (nextEntryID j (ThreadID e) seq)
    else ID e' = wanted \<and> ordinal_of j wanted = None \<and> n = seq"
  using assms by (cases "wanted = ''''") (auto simp: place_fact_def Let_def split: if_splits)

lemma place_fact_ID:
  assumes p: "place_fact env opts meta j seq e = (n, Inr e')" and j: "indexed env t j" "0 \<le> seq"
  shows "ID e' \<noteq> ''''" "ID e' \<notin> ID ` set (jn_entries j)" "seq \<le> n"
  using place_fact_Inr [OF p] next_unused [OF j, of "ThreadID e"] indexed_fresh [OF j(1)]
  by (cases "(if ao_ID opts \<noteq> '''' then ao_ID opts else ID e) = ''''"; simp)+

lemma append_keeps_indexed:
  assumes r: "repo_indexed env r"
  shows "repo_indexed env (fst (appendFact ctx env r e opts allow))"
  using refl
proof (cases rule: appendFact_cases [where e = e and ctx = ctx and env = env and r = r and opts = opts and allow = allow])
  case (refused err)
  then show ?thesis using r by simp
next
  case (rejected j1 err)
  then show ?thesis using repo_indexed_built [OF r] by simp
next
  case (unplaced j1 s err)
  then show ?thesis using unplaced repo_indexed_built [OF r] by (simp add: repo_indexed_seq setJournal_def)
next
  case (placed meta j1 j2 e1 e2 s)
  let ?t = "ThreadID e" and ?r2 = "(setJournal (ThreadID e) j2 r)\<lparr>rp_seq := s\<rparr>" and ?e3 = "admitOutputSources env e2"
  have j1: "indexed env ?t j1" using r placed(10) by (auto simp: repo_indexed_def intro: built_indexed)
  have "0 \<le> rp_seq r" using r by (simp add: repo_indexed_def)
  note new = place_fact_ID [OF placed(4) j1 this]
  have r2: "repo_indexed env ?r2"
    using repo_indexed_built [OF r placed(11)] new(3) by (simp add: repo_indexed_seq setJournal_def)
  obtain r3 v where c: "check_observed ctx env ?r2 ?e3 = (r3, v)" by fastforce
  have shape: "r3 = ?r2 \<or> (\<exists>j. r3 = setJournal ?t j ?r2 \<and> built env (rp_journal ?r2 ?t) j)"
    using observed_built [of ctx env ?r2 ?e3] c placed(5) by (simp only: fact_threads fst_conv)
  have r3: "repo_indexed env r3" using shape r2 repo_indexed_built [OF r2] by metis
  have "jn_entries (rp_journal r3 ?t) = jn_entries j2"
    using shape by (auto dest: built_caught_up simp: caught_up_def simp del: fun_upd_apply)
  then have es: "jn_entries (rp_journal r3 ?t) = jn_entries (rp_journal r ?t)"
    using placed(7) by (simp add: caught_up_def)
  have "jn_entries j1 = jn_entries (rp_journal r ?t)" using built_caught_up [OF placed(10)] by (simp add: caught_up_def)
  then have "repo_indexed env (commit_fact env meta r3 (sealed_entry env ?e3))"
    using append_indexed_repo [OF r3, of "sealed_entry env ?e3"] new es placed(5) by (simp add: commit_fact_def)
  then show ?thesis using placed(9) c r3 by (auto split: option.splits)
qed

section \<open>Indexed journals are consistent\<close>

lemma index_turns_early:
  "all_early (late n) m \<Longrightarrow> all_early (late (n + int (length es))) (index_turns n es m)"
proof (induction es arbitrary: n m)
  case (Cons e es)
  have "all_early (late (n + 1)) m" by (rule all_early_weaken [OF Cons.prems]) simp
  then have "all_early (late (n + 1)) (if blank (TurnID e) then m else push_at (TurnID e) n m)"
    by (simp add: all_early_push)
  from Cons.IH [OF this] show ?case by (simp add: add.assoc)
qed simp

lemma outputs_early:
  "all_early (late n) m \<Longrightarrow> all_early (late (n + int (length es))) (observe_outputs n es m)"
proof (induction es arbitrary: n m)
  case (Cons e es)
  have "all_early (late (n + 1)) (fold (\<lambda>s m. if s = '''' then m else push_at s n m) ss q)"
    if "all_early (late (n + 1)) q" for ss q
    using that by (induction ss arbitrary: q) (simp_all add: all_early_push)
  moreover have "all_early (late (n + 1)) m" by (rule all_early_weaken [OF Cons.prems]) simp
  ultimately have "all_early (late (n + 1)) (observeOutputSources n e m)" by (simp add: observeOutputSources_def)
  from Cons.IH [OF this] show ?case by (simp add: add.assoc)
qed simp

lemma all_early_empty: "all_early lt Map.empty"
  by (simp add: all_early_def)

lemma indexed_ok: "indexed env t j \<Longrightarrow> journal_ok j"
proof -
  assume j: "indexed env t j"
  let ?es = "jn_entries j"
  have "\<forall>i. jn_depths j i \<noteq> None \<longrightarrow> ordinal_of j i \<noteq> None"
  proof (intro allI impI)
    fix i
    assume "jn_depths j i \<noteq> None"
    then have "findEntry ?es i \<noteq> None" using j by (auto simp: indexed_def Let_def depth_map_def)
    then show "ordinal_of j i \<noteq> None" using indexed_fresh [OF j, of i] by (simp add: findEntry_None)
  qed
  moreover have "all_early (late (int (length ?es))) (jn_turnOrdinals j)"
    using j index_turns_early [OF all_early_empty, of 0 ?es] by (simp add: indexed_def Let_def)
  moreover have "case jn_turns j of None \<Rightarrow> True | Some ti \<Rightarrow> turns_ok (int (length ?es)) ti"
    using j rebuild_turns_ok [of ?es] by (auto simp: indexed_def Let_def)
  moreover have "case jn_outputs j of None \<Rightarrow> True | Some m \<Rightarrow> all_early (late (int (length ?es))) m"
    using j outputs_early [OF all_early_empty, of 0 ?es] by (auto simp: indexed_def Let_def)
  ultimately show ?thesis using j by (auto simp: journal_ok_def indexed_def Let_def)
qed

section \<open>The operations of a journal\<close>

lemma facts_keep_indexed:
  "repo_indexed env r \<Longrightarrow> repo_indexed env (fst (append_facts ctx env t r es))"
proof (induction es arbitrary: r)
  case (Cons e es)
  let ?a = "appendFact ctx env r (e\<lparr>ThreadID := t\<rparr>) \<lparr>ao_ID = ID e, ao_ParentID = '''', ao_Now = 0\<rparr> False"
  have a: "repo_indexed env (fst ?a)" by (rule append_keeps_indexed [OF Cons.prems])
  show ?case
  proof (cases "snd ?a")
    case (Inr saved)
    have "repo_indexed env (reanchor t saved (fst ?a))" using a by (simp add: reanchor_def split: option.splits)
    from Cons.IH [OF this] show ?thesis using Inr by (cases ?a) (auto split: prod.splits sum.splits)
  qed (use a in \<open>cases ?a; simp\<close>)
qed simp

lemma runtime_facts_keep_indexed:
  assumes r: "repo_indexed env r"
  shows "repo_indexed env (fst (AppendRuntimeFacts ctx env r t0 es))"
proof -
  let ?t = "trim_space t0"
  define r1 where "r1 = (if list_ex steering_fact es
    then setJournal ?t (ensureTurnMarkers (rp_journal r ?t)) r else r)"
  have r1: "repo_indexed env r1"
    using repo_indexed_built [OF r built_step(1)] r by (simp add: r1_def)
  show ?thesis
  proof (cases "fst (AppendRuntimeFacts ctx env r t0 es) \<in> {r, r1}")
    case False
    then obtain ids where live: "thread r ?t \<noteq> None" and s: "scan_facts (rp_journal r ?t) ?t [] es = Inr ids"
      and f: "fst (AppendRuntimeFacts ctx env r t0 es) = fst (append_facts ctx env ?t r1 es)
        \<or> fst (AppendRuntimeFacts ctx env r t0 es)
            = restore_checkpoint (checkpointJournalAppend r1 ?t) (fst (append_facts ctx env ?t r1 es))"
      by (auto simp: AppendRuntimeFacts_def Let_def r1_def split: if_splits sum.splits prod.splits)
    have "thread r1 ?t \<noteq> None" using live by (simp add: r1_def thread_def setJournal_def)
    moreover have "journal_ok (rp_journal r1 ?t)" using r1 indexed_ok by (auto simp: repo_indexed_def)
    ultimately show ?thesis
      using f facts_keep_indexed [OF r1] facts_undone [OF _ _ scan_facts_ids [OF s], of r1 ?t ctx env] r1 by auto
  qed (use r r1 in auto)
qed

text \<open>An operation on the journals of a repository, and a run of them.\<close>

datatype journal_op =
    StoreOp store_op
  | AppendOp entry append_options bool
  | FactsOp string "entry list"
  | MoveOp string string
  | ReadOp string string
  | TurnsOp string

fun journal_step :: "ctx_poll \<Rightarrow> store_env \<Rightarrow> journal_op \<Rightarrow> repo \<Rightarrow> repo" where
  "journal_step ctx env (StoreOp op) r = store_step op r"
| "journal_step ctx env (AppendOp e opts allow) r = fst (appendFact ctx env r e opts allow)"
| "journal_step ctx env (FactsOp t es) r = fst (AppendRuntimeFacts ctx env r t es)"
| "journal_step ctx env (MoveOp t i) r = fst (MoveLeaf env r t i)"
| "journal_step ctx env (ReadOp t leaf) r = fst (canonicalPath ctx (ValidateEntryIntegrity env) r t leaf)"
| "journal_step ctx env (TurnsOp t) r = setJournal t (ensureTurnMarkers (rp_journal r t)) r"

definition journal_run :: "ctx_poll \<Rightarrow> store_env \<Rightarrow> journal_op list \<Rightarrow> repo \<Rightarrow> repo" where
  "journal_run ctx env ops r = fold (journal_step ctx env) ops r"

lemma delete_keeps_indexed:
  "repo_indexed env r \<Longrightarrow> repo_indexed env (fold (delete_one root key fp now) ts r)"
proof (induction ts arbitrary: r)
  case (Cons t ts)
  have "repo_indexed env (delete_one root key fp now t r)"
    using Cons.prems by (simp add: repo_indexed_def delete_one_fields indexed_empty)
  from Cons.IH [OF this] show ?case by simp
qed simp

lemma create_keeps_indexed: "repo_indexed env r \<Longrightarrow> repo_indexed env (fst (createThread clock r m))"
proof -
  assume r: "repo_indexed env r"
  let ?n = "fst (fresh_id (length (rp_threads r)) (\<lambda>i. thread r i \<noteq> None) generated_thread_id (rp_seq r))"
  have "fst (createThread clock r m) \<in> {r, r\<lparr>rp_seq := ?n\<rparr>}
      \<or> (\<exists>t x. fst (createThread clock r m) = setThread t x r
           \<or> fst (createThread clock r m) = setThread t x (r\<lparr>rp_seq := ?n\<rparr>))"
    by (auto simp: createThread_def Let_def split: sum.splits option.splits)
  moreover have "repo_indexed env (r\<lparr>rp_seq := ?n\<rparr>)"
    by (rule repo_indexed_seq [OF r]) (simp add: fresh_id_seq less_imp_le)
  ultimately show ?thesis using r by auto
qed

lemma store_step_indexed: "repo_indexed env r \<Longrightarrow> repo_indexed env (store_step op r)"
proof (cases op)
  case (CreateOp clock m)
  then show "repo_indexed env r \<Longrightarrow> ?thesis" by (simp add: create_keeps_indexed)
next
  case (UpdateOp clock m)
  then show "repo_indexed env r \<Longrightarrow> ?thesis" by (simp add: UpdateThread_def split: option.splits)
next
  case (TitleOp q)
  then show "repo_indexed env r \<Longrightarrow> ?thesis"
    by (simp add: titleOperation_def mutateThreadTitle_def split: option.splits sum.splits)
next
  case (DeleteOp clock root key fp)
  then show "repo_indexed env r \<Longrightarrow> ?thesis"
    by (simp add: DeleteRootTreeWithRequest_def deleteRootTree_def delete_live_def Let_def delete_keeps_indexed
        split: option.splits sum.splits)
qed

lemma move_keeps_indexed: "repo_indexed env r \<Longrightarrow> repo_indexed env (fst (MoveLeaf env r t i))"
  by (simp add: MoveLeaf_def split: option.splits)

lemma journal_step_indexed: "repo_indexed env r \<Longrightarrow> repo_indexed env (journal_step ctx env op r)"
  using store_step_indexed append_keeps_indexed runtime_facts_keep_indexed move_keeps_indexed read_indexed_repo
    repo_indexed_built [OF _ built_step(1)]
  by (cases op) simp_all

lemma journal_run_indexed: "repo_indexed env r \<Longrightarrow> repo_indexed env (journal_run ctx env ops r)"
  unfolding journal_run_def by (induction ops arbitrary: r) (simp_all add: journal_step_indexed)

text \<open>
  C1: The indexes of a journal are functions of its entries. After any run of thread operations,
  appends, runtime facts, leaf moves and reads on a new repository, successful or not, the locators,
  depths, turn ordinals and turn counts are those of the entries, and the path index, the turn
  index and the output sources, where they have been built, are the ones a rebuild gives. Entries
  have distinct nonempty identities and positive depths, and lie in the journal of their thread.
\<close>

theorem indexes_follow_entries:
  "let j = rp_journal (journal_run ctx env ops newMemoryRepo) t; es = jn_entries j in
     distinct (map ID es) \<and> '''' \<notin> ID ` set es \<and> (\<lambda>e. (ThreadID e, 0 < PathDepth e)) ` set es \<subseteq> {(t, True)}
   \<and> ordinal_of j = ids_map es \<and> jn_depths j = depth_map es
   \<and> jn_turnOrdinals j = index_turns 0 es Map.empty
   \<and> jn_turnCounts j = (\<lambda>k. map_option (\<lambda>xs. int (length xs)) (jn_turnOrdinals j k))
   \<and> jn_path (ensurePathIndex (ValidateEntryIntegrity env) j) = build_index (ValidateEntryIntegrity env) es
   \<and> jn_turns j \<in> {None, Some (rebuildTurnMarkers es)}
   \<and> jn_outputs j \<in> {None, Some (observe_outputs 0 es Map.empty)}"
proof -
  let ?j = "rp_journal (journal_run ctx env ops newMemoryRepo) t"
  have j: "indexed env t ?j"
    using journal_run_indexed [OF repo_indexed_new] by (simp add: repo_indexed_def)
  have "ordinal_of ?j = ids_map (jn_entries ?j)"
    using j by (auto simp: indexed_def Let_def ordinal_of_def ids_map_def fun_eq_iff)
  moreover have "jn_path (ensurePathIndex (ValidateEntryIntegrity env) ?j)
      = build_index (ValidateEntryIntegrity env) (jn_entries ?j)"
    using indexed_path [OF j] path_length [of "ValidateEntryIntegrity env" ?j]
    by (auto simp: indexed_def Let_def ensurePathIndex_def split: if_splits)
  ultimately show ?thesis using j unfolding indexed_def Let_def by blast
qed

end
