(* ===== verification/EffectFacts.thy ===== *)
theory EffectFacts
  imports EffectAttempts JournalIndex
begin

text \<open>
  What the effect authority guarantees: an attempt lives through prepared, dispatching and one
  terminal state, whatever requests arrive in whatever order, so its effect is dispatched at
  most once.
\<close>

section \<open>What JSON keeps\<close>

text \<open>
  \<^verbatim>\<open>encoding/json\<close> reads an attempt back when its texts are UTF-8 (other bytes are replaced), its times
  lie in the years 1 to 9999 (others are refused) and its state is one of the named ones, since a state
  is its text.
\<close>

definition json_time :: "go_time \<Rightarrow> bool" where
  "json_time t \<longleftrightarrow> 0 \<le> t \<and> t < 3652059 * 86400 * 10 ^ 9"

definition json_attempt :: "effect_attempt \<Rightarrow> bool" where
  "json_attempt att \<longleftrightarrow> (let i = ea_Invocation att in
     list_all ValidString [ea_ID att, iv_ThreadID i, iv_TurnID i, iv_RunID i, iv_ToolCallID i, iv_ToolName i,
       iv_ArgumentHash i, ea_RequestFingerprint att, ea_RejectionCode att, ea_TerminalFingerprint att, ea_ResultEntryID att]
     \<and> ea_State att \<in> {EffectAttemptPrepared, EffectAttemptDispatching, EffectAttemptCompleted, EffectAttemptFailed,
         EffectAttemptRejected, EffectAttemptUnknown, EffectAttemptCancelled}
     \<and> json_time (ea_CreatedAt att) \<and> json_time (ea_UpdatedAt att))"

lemma rune_width_append:
  assumes "s \<noteq> []" "\<not> invalid_rune (take (rune_width s) s)"
  shows "rune_width (s @ t) = rune_width s"
proof -
  obtain a s1 where s: "s = a # s1" using assms(1) by (cases s) auto
  with assms(2) have "byte_of a < 128 \<or> rune_width (a # s1) \<noteq> 1" by (auto simp: invalid_rune_def)
  then show ?thesis unfolding s
    by (cases s1; cases "tl s1"; cases "tl (tl s1)")
      (auto simp: rune_width.simps Let_def split: if_splits)
qed

lemma runes_append: "ValidString s \<Longrightarrow> runes (s @ t) = runes s @ runes t"
proof (induction s rule: runes.induct)
  case (1 s)
  show ?case
  proof (cases "s = []")
    case False
    then have r: "runes s = take (rune_width s) s # runes (drop (rune_width s) s)" by (simp add: runes.simps [of s])
    with "1.prems" have v: "\<not> invalid_rune (take (rune_width s) s)" "ValidString (drop (rune_width s) s)"
      by (simp_all add: ValidString_def)
    have "runes (s @ t) = take (rune_width s) (s @ t) # runes (drop (rune_width s) (s @ t))"
      using False rune_width_append [OF False v(1), of t] by (simp add: runes.simps [of "s @ t"])
    then show ?thesis using "1.IH" [OF False v(2)] r rune_width_le [of s] by simp
  qed simp
qed

lemma valid_append: "ValidString s \<Longrightarrow> ValidString t \<Longrightarrow> ValidString (s @ t)"
  by (simp add: ValidString_def) (simp add: runes_append ValidString_def)

lemma valid_ascii: "list_all (\<lambda>c. byte_of c < 128) s \<Longrightarrow> ValidString s"
proof (induction s)
  case (Cons c s)
  then have "rune_width (c # s) = 1" by (simp add: rune_width.simps)
  with Cons show ?case by (simp add: ValidString_def runes.simps [of "c # s"] invalid_rune_def)
qed (simp add: ValidString_def)

lemma ascii_digits: "list_all (\<lambda>c. byte_of c < 128) (digits n)"
proof (induction n rule: digits.induct)
  case (1 n)
  have "byte_of (digit k) < 128" if "k < 10" for k
  proof -
    have "digit k \<in> set ''0123456789''" unfolding digit_def by (rule nth_mem) (use that in \<open>simp add: eval_nat_numeral\<close>)
    then show ?thesis by (auto simp: byte_of_def)
  qed
  with 1 show ?case by (simp add: digits.simps [of n])
qed

lemma valid_generated: "ValidString t \<Longrightarrow> ValidString (generated_entry_id t n)"
  unfolding generated_entry_id_def
  by (erule valid_append, rule valid_ascii) (use ascii_digits in \<open>auto simp: show_int_def byte_of_def\<close>)

section \<open>The life of an attempt\<close>

fun effect_allowed :: "effect_state option \<Rightarrow> effect_state \<Rightarrow> bool" where
  "effect_allowed None s = (s = EffectAttemptPrepared)"
| "effect_allowed (Some EffectAttemptPrepared) s = (s = EffectAttemptRejected \<or> s = EffectAttemptDispatching)"
| "effect_allowed (Some EffectAttemptDispatching) s =
     (s = EffectAttemptCompleted \<or> s = EffectAttemptFailed \<or> s = EffectAttemptCancelled)"
| "effect_allowed (Some _) s = False"

definition effect_rank :: "effect_state \<Rightarrow> nat" where
  "effect_rank s = (case s of EffectAttemptPrepared \<Rightarrow> 0 | EffectAttemptDispatching \<Rightarrow> 1 | _ \<Rightarrow> 2)"

fun_cases effect_allowedE: "effect_allowed (Some p) s"

interpretation effect_life: lifecycle effect_allowed effect_rank
  by unfold_locales (auto simp: effect_rank_def elim: effect_allowedE)

definition attempt_entry :: "string \<Rightarrow> entry \<Rightarrow> bool" where
  "attempt_entry a e \<longleftrightarrow> Type e = EntryEffectAttempt \<and> RequestKey e = a"

definition decoded_state :: "effect_env \<Rightarrow> entry \<Rightarrow> effect_state" where
  "decoded_state env e =
    (case decodeEffectAttempt env e of Inr att \<Rightarrow> ea_State att | Inl _ \<Rightarrow> EffectStateOther '''')"

text \<open>The states an attempt has gone through, as the journal of a thread tells them.\<close>

definition attempt_states :: "effect_env \<Rightarrow> repo \<Rightarrow> string \<Rightarrow> string \<Rightarrow> effect_state list" where
  "attempt_states env r t a =
     map (decoded_state env) (filter (attempt_entry a) (jn_entries (rp_journal r t)))"

definition attempt_entry_ok :: "effect_env \<Rightarrow> string \<Rightarrow> entry \<Rightarrow> bool" where
  "attempt_entry_ok env t e \<longleftrightarrow> (Type e = EntryEffectAttempt \<longrightarrow>
     ThreadID e = t \<and> trim_space (RequestKey e) = RequestKey e
     \<and> (\<exists>att. decodeEffectAttempt env e = Inr att \<and> ea_ID att = RequestKey e \<and> json_attempt att))"

definition effects_ok :: "effect_env \<Rightarrow> repo \<Rightarrow> bool" where
  "effects_ok env r \<longleftrightarrow> (\<forall>k m. thread r k = Some m \<longrightarrow> tm_ID m = k)
     \<and> (\<forall>t. \<forall>e \<in> set (jn_entries (rp_journal r t)). attempt_entry_ok env t e)
     \<and> (\<forall>t a. follows effect_allowed None (attempt_states env r t a))"

section \<open>Extending the log\<close>

text \<open>The entries and the identities of the threads are all that counts.\<close>

definition same_log :: "repo \<Rightarrow> repo \<Rightarrow> bool" where
  "same_log r r' \<longleftrightarrow> (\<forall>t. jn_entries (rp_journal r' t) = jn_entries (rp_journal r t)) \<and> thread r' = thread r"

definition one_more :: "string \<Rightarrow> entry \<Rightarrow> repo \<Rightarrow> repo \<Rightarrow> bool" where
  "one_more t e r r' \<longleftrightarrow>
     (\<forall>k. jn_entries (rp_journal r' k) = jn_entries (rp_journal r k) @ (if k = t then [e] else []))
     \<and> (\<exists>m. tm_ID m = t \<and> thread r' = (thread r)(t \<mapsto> m))"

definition effects_grow :: "effect_env \<Rightarrow> repo \<Rightarrow> repo \<Rightarrow> bool" where
  "effects_grow env r r' \<longleftrightarrow> effects_ok env r'
     \<and> (\<forall>t a. \<exists>ss. attempt_states env r' t a = attempt_states env r t a @ ss)"

lemma effects_grow_refl: "effects_ok env r \<Longrightarrow> effects_grow env r r"
  by (simp add: effects_grow_def)

lemma effects_grow_trans:
  assumes "effects_grow env r1 r2" "effects_grow env r2 r3"
  shows "effects_grow env r1 r3"
  unfolding effects_grow_def
proof (intro conjI allI)
  fix t a
  obtain xs ys where "attempt_states env r2 t a = attempt_states env r1 t a @ xs"
    "attempt_states env r3 t a = attempt_states env r2 t a @ ys"
    using assms unfolding effects_grow_def by meson
  then show "\<exists>ss. attempt_states env r3 t a = attempt_states env r1 t a @ ss" by simp
qed (use assms in \<open>simp add: effects_grow_def\<close>)

lemma same_log_refl [simp]: "same_log r r"
  by (simp add: same_log_def)

lemma same_log_trans: "same_log a b \<Longrightarrow> same_log b c \<Longrightarrow> same_log a c"
  by (simp add: same_log_def)

lemma same_log_states: "same_log r r' \<Longrightarrow> attempt_states env r' = attempt_states env r"
  by (simp add: same_log_def attempt_states_def fun_eq_iff)

lemma same_log_grow: "same_log r r' \<Longrightarrow> effects_ok env r \<Longrightarrow> effects_grow env r r'"
  by (simp add: effects_grow_def effects_ok_def same_log_states) (simp add: same_log_def)

lemma same_log_ensured [simp]: "same_log r (ensured t r)"
  by (simp add: same_log_def ensured_def setJournal_def thread_def fun_eq_iff ensureTurnMarkers_def
      split: option.splits)

lemma same_log_caught_up: "caught_up (rp_journal r t) j \<Longrightarrow> same_log r (setJournal t j r)"
  by (simp add: same_log_def caught_up_def setJournal_def thread_def fun_eq_iff)

lemma same_log_seq [simp]: "same_log r (r'\<lparr>rp_seq := n\<rparr>) = same_log r r'"
  "same_log r (setArtifact k v r') = same_log r r'"
  by (simp_all add: same_log_def thread_def setArtifact_def fun_eq_iff)

lemma one_more_states:
  "one_more t e r r' \<Longrightarrow> attempt_states env r' k a =
     attempt_states env r k a @ (if k = t \<and> attempt_entry a e then [decoded_state env e] else [])"
  by (simp add: one_more_def attempt_states_def)

lemma one_more_grow:
  assumes r: "effects_ok env r" and m: "one_more t e r r'" and e: "attempt_entry_ok env t e"
    and s: "Type e = EntryEffectAttempt \<Longrightarrow>
      effect_allowed (last_state None (attempt_states env r t (RequestKey e))) (decoded_state env e)"
  shows "effects_grow env r r'"
  unfolding effects_grow_def effects_ok_def
proof (intro conjI allI ballI impI)
  fix k a
  show "\<exists>ss. attempt_states env r' k a = attempt_states env r k a @ ss"
    using one_more_states [OF m] by simp
  show "follows effect_allowed None (attempt_states env r' k a)"
    using r s by (auto simp: effects_ok_def one_more_states [OF m] attempt_entry_def)
next
  fix k x assume "thread r' k = Some x"
  then show "tm_ID x = k" using r m by (auto simp: effects_ok_def one_more_def split: if_splits)
next
  fix k x assume "x \<in> set (jn_entries (rp_journal r' k))"
  then show "attempt_entry_ok env k x" using r m e by (auto simp: effects_ok_def one_more_def split: if_splits)
qed

lemma one_more_other:
  "effects_ok env r \<Longrightarrow> one_more t e r r' \<Longrightarrow> Type e \<noteq> EntryEffectAttempt \<Longrightarrow> effects_grow env r r'"
  by (rule one_more_grow [of env r t e]) (simp_all add: attempt_entry_ok_def)

lemma append_one_entries:
  "\<exists>d. jn_entries (appendIndexedEntries env [e] j) = jn_entries j @ [e\<lparr>PathDepth := d\<rparr>]"
  by (simp add: appendIndexedEntries_def stored_copy_def ensureTurnMarkers_def ensureOutputSources_def
      ensurePathIndex_def split: option.splits) blast

lemma commit_at_one_more:
  assumes "tm_ID meta = t"
  shows "\<exists>d. one_more t (e\<lparr>PathDepth := d\<rparr>) r (commit_at env meta r e)"
proof -
  obtain d where "jn_entries (appendIndexedEntries env [e] (rp_journal r t)) =
      jn_entries (rp_journal r t) @ [e\<lparr>PathDepth := d\<rparr>]" using append_one_entries by blast
  then show ?thesis using assms
    by (auto simp: one_more_def commit_at_def setThread_def setJournal_def thread_def fun_eq_iff update_conv'
        intro!: exI [of _ d] exI [of _ "meta\<lparr>tm_LeafID := ID e, tm_UpdatedAt := CreatedAt e\<rparr>"])
qed

section \<open>Appending and finding an attempt\<close>

text \<open>What the code relies on: JSON reads back an attempt it can represent, and a digest is hexadecimal.\<close>

definition effect_codec :: "effect_env \<Rightarrow> bool" where
  "effect_codec env \<longleftrightarrow> (\<forall>att. json_attempt att \<longrightarrow> ee_attempt env (ee_json env att) = Some att)
     \<and> (\<forall>s. list_all id_head (se_hash (ee_store env) s))"

lemma list_find_rev: "list_find P (rev xs) = (if filter P xs = [] then None else Some (last (filter P xs)))"
  by (induction xs rule: rev_induct) auto

lemma decode_entry:
  assumes "effect_codec env" "ea_ID att \<noteq> ''''" "json_attempt att"
  shows "decodeEffectAttempt env ((effectAttemptEntry env att p)\<lparr>PathDepth := d\<rparr>) = Inr att"
  using assms by (simp add: decodeEffectAttempt_def effectAttemptEntry_def sealed_entry_def effect_codec_def Let_def)

lemma effect_entry_simps [simp]:
  "Type (effectAttemptEntry env att p) = EntryEffectAttempt" "RequestKey (effectAttemptEntry env att p) = ea_ID att"
  "ThreadID (effectAttemptEntry env att p) = iv_ThreadID (ea_Invocation att)"
  by (simp_all add: effectAttemptEntry_def sealed_entry_def)

lemma append_attempt:
  assumes ok: "effects_ok env r" and c: "effect_codec env"
    and m: "tm_ID meta = iv_ThreadID (ea_Invocation att)"
    and i: "ea_ID att \<noteq> ''''" "trim_space (ea_ID att) = ea_ID att" and v: "json_attempt att"
    and s: "effect_allowed (last_state None (attempt_states env r (tm_ID meta) (ea_ID att))) (ea_State att)"
  shows "case appendEffectAttempt env meta att r of
      (r', Some err) \<Rightarrow> r' = r
    | (r', None) \<Rightarrow> effects_grow env r r' \<and> attempt_states env r' (tm_ID meta) (ea_ID att)
        = attempt_states env r (tm_ID meta) (ea_ID att) @ [ea_State att]"
proof -
  let ?t = "tm_ID meta" and ?e = "effectAttemptEntry env att (tm_LeafID meta)"
  show ?thesis
  proof (cases "findEntry (jn_entries (rp_journal r ?t)) (ID ?e)")
    case None
    obtain d where d: "one_more ?t (?e\<lparr>PathDepth := d\<rparr>) r (commit_at (ee_store env) meta r ?e)"
      using commit_at_one_more [OF refl] by blast
    have "attempt_entry_ok env ?t (?e\<lparr>PathDepth := d\<rparr>)"
      using m i v decode_entry [OF c i(1) v] by (simp add: attempt_entry_ok_def)
    moreover have "decoded_state env (?e\<lparr>PathDepth := d\<rparr>) = ea_State att"
      using decode_entry [OF c i(1) v] by (simp add: decoded_state_def)
    ultimately show ?thesis using None s one_more_grow [OF ok d] one_more_states [OF d]
      by (simp add: appendEffectAttempt_def Let_def attempt_entry_def)
  next
    case (Some e)
    have "\<not> (decodeEffectAttempt env e = Inr att)"
    proof
      assume a: "decodeEffectAttempt env e = Inr att"
      have e: "e \<in> set (jn_entries (rp_journal r ?t))"
        using Some by (auto simp: findEntry_def dest: list_find_Some)
      have "Type e = EntryEffectAttempt" using a by (auto simp: decodeEffectAttempt_def split: if_splits)
      then have "RequestKey e = ea_ID att" using ok e a by (force simp: effects_ok_def attempt_entry_ok_def)
      with \<open>Type e = EntryEffectAttempt\<close> e a
      have "ea_State att \<in> set (attempt_states env r ?t (ea_ID att))"
        by (force simp: attempt_states_def attempt_entry_def decoded_state_def)
      moreover have "follows effect_allowed None (attempt_states env r ?t (ea_ID att) @ [ea_State att])"
        using ok s by (simp add: effects_ok_def)
      ultimately show False using effect_life.never_again by fastforce
    qed
    with Some show ?thesis by (auto simp: appendEffectAttempt_def Let_def split: sum.splits)
  qed
qed

lemma latest_found:
  assumes "effects_ok env r" "latestEffectAttempt env (jn_entries (rp_journal r t)) a = Some (Inr att)"
  shows "iv_ThreadID (ea_Invocation att) = t \<and> ea_ID att = trim_space a \<and> ea_ID att \<noteq> '''' \<and> json_attempt att
    \<and> last_state None (attempt_states env r t (ea_ID att)) = Some (ea_State att)"
proof -
  let ?es = "filter (attempt_entry (trim_space a)) (jn_entries (rp_journal r t))"
  have p: "attempt_entry (trim_space a) = (\<lambda>e. Type e = EntryEffectAttempt \<and> RequestKey e = trim_space a)"
    by (auto simp: attempt_entry_def)
  have ne: "?es \<noteq> []" and d: "decodeEffectAttempt env (last ?es) = Inr att"
    using assms(2) by (simp_all add: latestEffectAttempt_def p list_find_rev split: if_splits)
  have "last ?es \<in> set ?es" using ne by (rule last_in_set)
  then have e: "last ?es \<in> set (jn_entries (rp_journal r t))" "attempt_entry (trim_space a) (last ?es)" by auto
  then have ok: "attempt_entry_ok env t (last ?es)" using assms(1) by (simp add: effects_ok_def)
  then have 1: "ea_ID att = trim_space a" "json_attempt att" using d e(2) by (auto simp: attempt_entry_ok_def attempt_entry_def)
  have 2: "iv_ThreadID (ea_Invocation att) = ThreadID (last ?es)" "ea_ID att \<noteq> ''''"
    using d by (auto simp: decodeEffectAttempt_def Let_def split: if_splits option.splits)
  have "attempt_states env r t (ea_ID att) = map (decoded_state env) ?es" by (simp add: attempt_states_def 1)
  then have "attempt_states env r t (ea_ID att) = map (decoded_state env) (butlast ?es) @ [ea_State att]"
    using ne d append_butlast_last_id [OF ne]
    by (metis (no_types, lifting) decoded_state_def list.map(1) list.map(2) map_append sum.simps(6))
  then show ?thesis using 1 2 ok e(2) by (simp add: attempt_entry_ok_def attempt_entry_def)
qed

lemma found_attempt:
  assumes "effects_ok env r" "find_attempt env r a = Inr att"
  shows "\<exists>m. thread r (iv_ThreadID (ea_Invocation att)) = Some m
    \<and> tm_ID m = iv_ThreadID (ea_Invocation att) \<and> ea_ID att = trim_space a \<and> ea_ID att \<noteq> '''' \<and> json_attempt att
    \<and> last_state None (attempt_states env r (iv_ThreadID (ea_Invocation att)) (ea_ID att)) = Some (ea_State att)"
proof -
  obtain t where t: "t \<in> fst ` set (rp_threads r)"
    and l: "latestEffectAttempt env (jn_entries (rp_journal r t)) a = Some (Inr att)"
    using assms(2)
    by (auto simp: find_attempt_def entriesByEffectAttempt_def latestEffectAttempt_def [of _ "[]"]
        dest: list_find_Some split: option.splits)
  have "thread r t \<noteq> None" using t by (simp add: thread_def map_of_eq_None_iff)
  then show ?thesis using latest_found [OF assms(1) l] assms(1) by (auto simp: effects_ok_def)
qed

section \<open>Every operation extends the lives\<close>

lemma commit_attempt_grow:
  assumes ok: "effects_ok env r" and c: "effect_codec env" and f: "find_attempt env r a = Inr att0"
    and r': "same_log r r'"
    and att: "ea_ID att = ea_ID att0" "ea_Invocation att = ea_Invocation att0"
      "effect_allowed (Some (ea_State att0)) (ea_State att)"
    and v: "json_attempt att0 \<Longrightarrow> json_attempt att"
  shows "effects_grow env r (fst (commit_attempt env att r'))
    \<and> (\<forall>att'. snd (commit_attempt env att r') = Inr att' \<longrightarrow> att' = att
        \<and> attempt_states env (fst (commit_attempt env att r')) (iv_ThreadID (ea_Invocation att)) (ea_ID att)
          = attempt_states env r (iv_ThreadID (ea_Invocation att)) (ea_ID att) @ [ea_State att])"
proof -
  let ?t = "iv_ThreadID (ea_Invocation att)"
  from found_attempt [OF ok f] obtain m where m: "thread r ?t = Some m" "tm_ID m = ?t"
    "ea_ID att0 = trim_space a" "ea_ID att0 \<noteq> ''''" "json_attempt att"
    "last_state None (attempt_states env r ?t (ea_ID att)) = Some (ea_State att0)"
    using att v by auto
  have g: "effects_grow env r r'" by (rule same_log_grow [OF r' ok])
  have m': "meta_of r' ?t = m" using m r' by (simp add: meta_of_def same_log_def)
  have "case appendEffectAttempt env m att r' of
      (r2, Some err) \<Rightarrow> r2 = r'
    | (r2, None) \<Rightarrow> effects_grow env r' r2 \<and> attempt_states env r2 (tm_ID m) (ea_ID att)
        = attempt_states env r' (tm_ID m) (ea_ID att) @ [ea_State att]"
    using m att g by (intro append_attempt [OF _ c]) (auto simp: effects_grow_def same_log_states [OF r'])
  then show ?thesis using g m m' effects_grow_trans [OF g]
    by (auto simp: commit_attempt_def same_log_states [OF r'] split: prod.splits option.splits)
qed

lemma reject_grow:
  assumes "effects_ok env r" "effect_codec env"
    and v: "ValidString (trim_space (rj_RejectionCode req))" "ValidString (trim_space (rj_RejectionFingerprint req))"
      "json_time (canonicalTime env (rj_Now req))"
  shows "effects_grow env r (fst (RejectEffectAttempt env r req))"
proof (cases "find_attempt env r (rj_EffectAttemptID req)")
  case (Inr att)
  show ?thesis
    using effects_grow_refl [OF assms(1)] commit_attempt_grow [OF assms(1,2) Inr same_log_refl] Inr v
    by (auto simp: RejectEffectAttempt_def Let_def json_attempt_def)
qed (simp add: RejectEffectAttempt_def Let_def effects_grow_refl [OF assms(1)])

lemma begin_grow:
  assumes "effects_ok env r" "effect_codec env" and v: "json_time (canonicalTime env (bg_Now req))"
  shows "effects_grow env r (fst (BeginEffectDispatch env r req))
    \<and> (\<forall>att. snd (BeginEffectDispatch env r req) = Inr att \<longrightarrow>
        attempt_states env (fst (BeginEffectDispatch env r req)) (iv_ThreadID (ea_Invocation att)) (ea_ID att)
          = attempt_states env r (iv_ThreadID (ea_Invocation att)) (ea_ID att) @ [EffectAttemptDispatching])"
proof (cases "find_attempt env r (bg_EffectAttemptID req)")
  case (Inr att)
  let ?t = "iv_ThreadID (ea_Invocation att)"
  define att' where "att' = att\<lparr>ea_State := EffectAttemptDispatching, ea_UpdatedAt := canonicalTime env (bg_Now req)\<rparr>"
  have "effects_grow env r (ensured ?t r)" "effects_grow env r r"
    using assms(1) by (auto intro: same_log_grow)
  moreover have "ea_State att = EffectAttemptPrepared \<Longrightarrow> effects_grow env r (fst (commit_attempt env att' (ensured ?t r)))
    \<and> (\<forall>a. snd (commit_attempt env att' (ensured ?t r)) = Inr a \<longrightarrow> a = att'
        \<and> attempt_states env (fst (commit_attempt env att' (ensured ?t r))) ?t (ea_ID att)
          = attempt_states env r ?t (ea_ID att) @ [EffectAttemptDispatching])"
    using commit_attempt_grow [OF assms(1,2) Inr same_log_ensured, of att' ?t] v
    by (simp add: att'_def json_attempt_def Let_def)
  ultimately show ?thesis using Inr
    by (auto simp: BeginEffectDispatch_def Let_def att'_def)
qed (simp add: BeginEffectDispatch_def Let_def effects_grow_refl [OF assms(1)])

lemma hex_no_space:
  assumes "list_all id_head s"
  shows "trim_space (''effect-'' @ s) = ''effect-'' @ s"
proof (rule trim_space_Cons_id)
  show "space_width (''effect-'' @ s) = 0" by (cases s) (simp_all add: space1_def space2_def space3_def Let_def byte_of_def)
  show "space_width_rev (rev (''effect-'' @ s)) = 0"
  proof (cases s rule: rev_cases)
    case (snoc cs c)
    then have "id_head c" using assms by simp
    then have "\<not> space1 c" "\<not> space2 x c" "\<not> space3 x y c" for x y
      by (auto simp: id_head_def space1_def space2_def space3_def Let_def)
    then show ?thesis using snoc by (cases "rev cs" rule: remdups_adj.cases) (simp_all add: Let_def)
  qed (simp add: space1_def space2_def space3_def Let_def byte_of_def)
qed

lemma prepare_grow:
  assumes ok: "effects_ok env r" and c: "effect_codec env" and v: "json_attempt (prepared env req)"
  shows "effects_grow env r (fst (PrepareEffectAttempt env r req))"
proof -
  let ?i = "pe_Invocation req" let ?t = "iv_ThreadID ?i" let ?r1 = "ensured ?t r"
  have g: "effects_grow env r r" "effects_grow env r ?r1" using ok by (auto intro: same_log_grow)
  have "effects_grow env r (fst (appendEffectAttempt env meta (prepared env req) ?r1))"
    if m: "thread r ?t = Some meta" and n: "effectAttemptByInvocation env (jn_entries (rp_journal ?r1 (tm_ID meta))) ?i = None"
    for meta
  proof -
    have t: "tm_ID meta = ?t" using ok m by (simp add: effects_ok_def)
    have i: "trim_space (effectAttemptID env ?i) = effectAttemptID env ?i"
      unfolding effectAttemptID_def using c
      by (intro hex_no_space) (auto simp: effect_codec_def list_all_iff dest!: in_set_takeD)
    have "latestEffectAttempt env (jn_entries (rp_journal ?r1 ?t)) (effectAttemptID env ?i) = None"
      using n t by (auto simp: effectAttemptByInvocation_def split: option.splits sum.splits if_splits)
    then have "attempt_states env ?r1 ?t (effectAttemptID env ?i) = []"
      by (simp add: latestEffectAttempt_def list_find_rev attempt_states_def attempt_entry_def [abs_def] i
          split: if_splits)
    then have "effect_allowed (last_state None (attempt_states env ?r1 (tm_ID meta) (ea_ID (prepared env req))))
        (ea_State (prepared env req))" by (simp add: t prepared_def Let_def)
    from append_attempt [OF _ c _ _ _ v this] g(2) t i show ?thesis
      using effects_grow_trans [OF g(2)]
      by (auto simp: prepared_def Let_def effects_grow_def effectAttemptID_def split: prod.splits option.splits)
  qed
  then show ?thesis using g
    by (auto simp: PrepareEffectAttempt_def Let_def split: option.splits sum.splits prod.splits)
qed

lemma retain_same:
  assumes "retain_output env meta att out e r = Inr (r', e', ref)"
  shows "same_log r r' \<and> Type e' = Type e \<and> ID e' = ID e \<and> CreatedAt e' = CreatedAt e"
proof (cases out)
  case (Some full)
  with assms show ?thesis
    by (auto simp: retain_output_def Let_def with_output_def split: sum.splits if_splits)
qed (use assms in \<open>simp add: retain_output_def\<close>)

lemma want_state_allowed: "effect_allowed (Some EffectAttemptDispatching) (want_state req)"
  by (simp add: want_state_def split: option.splits)

lemma commit_finish_grow:
  assumes ok: "effects_ok env r0" and c: "effect_codec env" and f: "find_attempt env r0 a = Inr att"
    and s: "ea_State att = EffectAttemptDispatching" and r: "same_log r0 r" and e: "finish_check att (fi_Result req)"
    and v: "ValidString (trim_space (fi_OutcomeFingerprint req))" "json_time (canonicalTime env (fi_Now req))"
  shows "effects_grow env r0 (fst (commit_finish env att req r))"
proof -
  let ?t = "iv_ThreadID (ea_Invocation att)"
  from found_attempt [OF ok f] s obtain m where m: "thread r0 ?t = Some m" "tm_ID m = ?t" "ea_ID att = trim_space a"
    "ea_ID att \<noteq> ''''" "json_attempt att" "last_state None (attempt_states env r0 ?t (ea_ID att)) = Some EffectAttemptDispatching"
    by auto
  have m': "meta_of r ?t = m" using m r by (simp add: meta_of_def same_log_def)
  define gen where "gen = nextEntryID (rp_journal r ?t) ?t (rp_seq r)"
  define r1 where "r1 = r\<lparr>rp_seq := fst gen\<rparr>"
  have r1: "same_log r0 r1" using r by (simp add: r1_def)
  show ?thesis
  proof (cases "retain_output env m att (fi_FullOutput req) (result_entry env m att req (snd gen)) r1")
    case (Inl err)
    then have "fst (commit_finish env att req r) = r1"
      using m m' by (simp add: commit_finish_def Let_def gen_def r1_def)
    then show ?thesis using same_log_grow [OF r1 ok] by simp
  next
    case (Inr p)
    then obtain r2 e1 ref where p: "retain_output env m att (fi_FullOutput req) (result_entry env m att req (snd gen)) r1
        = Inr (r2, e1, ref)" by (cases p) auto
    define x where "x = sealed_entry (ee_store env) e1"
    define r3 where "r3 = commit_at (ee_store env) m r2 x"
    define att' where "att' = att\<lparr>ea_State := want_state req,
      ea_TerminalFingerprint := trim_space (fi_OutcomeFingerprint req), ea_ResultEntryID := ID x, ea_UpdatedAt := CreatedAt x\<rparr>"
    define m1 where "m1 = m\<lparr>tm_LeafID := ID x, tm_UpdatedAt := CreatedAt x\<rparr>"
    have r2: "same_log r0 r2" using same_log_trans [OF r1] retain_same [OF p] by blast
    have T: "Type x = EntryToolResult" and x: "ID x = snd gen" "CreatedAt x = canonicalTime env (fi_Now req)"
      using retain_same [OF p] e by (simp_all add: x_def sealed_entry_def result_entry_def finish_check_def Let_def)
    have "ValidString ?t" using m(5) by (simp add: json_attempt_def Let_def)
    then have "ValidString (ID x)" using valid_generated by (simp add: x(1) gen_def nextEntryID_def fresh_id_name)
    moreover have "want_state req \<in> {EffectAttemptCompleted, EffectAttemptFailed, EffectAttemptCancelled}"
      by (simp add: want_state_def split: option.split)
    ultimately have j: "json_attempt att'" using m(5) v x(2) by (auto simp: json_attempt_def att'_def Let_def)
    from T have other: "Type (x\<lparr>PathDepth := d\<rparr>) \<noteq> EntryEffectAttempt" for d by simp
    obtain d where d: "one_more ?t (x\<lparr>PathDepth := d\<rparr>) r2 r3"
      using commit_at_one_more [OF m(2)] r3_def by blast
    have g2: "effects_grow env r0 r2" by (rule same_log_grow [OF r2 ok])
    then have "effects_grow env r2 r3" using one_more_other [OF _ d other] by (simp add: effects_grow_def)
    with g2 have g3: "effects_grow env r0 r3" by (rule effects_grow_trans)
    have "attempt_states env r3 ?t (ea_ID att) = attempt_states env r0 ?t (ea_ID att)"
      using one_more_states [OF d] other [of d] by (simp add: attempt_entry_def same_log_states [OF r2])
    then have "case appendEffectAttempt env m1 att' r3 of (r', Some err) \<Rightarrow> r' = r3 | (r', None) \<Rightarrow> effects_grow env r3 r'
        \<and> attempt_states env r' (tm_ID m1) (ea_ID att') = attempt_states env r3 (tm_ID m1) (ea_ID att') @ [ea_State att']"
      using m g3 want_state_allowed
      by (intro append_attempt [OF _ c _ _ _ j]) (simp_all add: effects_grow_def m1_def att'_def)
    moreover have "fst (commit_finish env att req r) = fst (appendEffectAttempt env m1 att' r3)"
      using p m m' by (simp add: commit_finish_def Let_def gen_def r1_def x_def r3_def att'_def m1_def
          split: prod.splits option.splits)
    ultimately show ?thesis using effects_grow_trans [OF g3] g3 by (auto split: prod.splits option.splits)
  qed
qed

lemma finish_grow:
  assumes "effects_ok env r" "effect_codec env"
    and v: "ValidString (trim_space (fi_OutcomeFingerprint req))" "json_time (canonicalTime env (fi_Now req))"
  shows "effects_grow env r (fst (FinishEffectDispatch env r req))"
proof (cases "find_attempt env r (fi_EffectAttemptID req)")
  case (Inr att)
  have g: "effects_grow env r (ensured t r)" "effects_grow env r r" for t
    using assms(1) by (auto intro: same_log_grow)
  show ?thesis
    using g Inr commit_finish_grow [OF assms(1,2) Inr _ same_log_ensured _ v]
    by (auto simp: FinishEffectDispatch_def Let_def)
qed (simp add: FinishEffectDispatch_def Let_def effects_grow_refl [OF assms(1)])

lemma placed_type:
  "admit_fact env allow j e = (j', Inr e') \<Longrightarrow> Type e' = Type e"
  "place_fact env opts meta j seq e = (n, Inr e') \<Longrightarrow> Type e' = Type e"
  by (auto simp: admit_fact_def place_fact_def Let_def split: if_splits option.splits)

lemma append_other_grow:
  assumes ok: "effects_ok env r" and e: "Type e \<noteq> EntryEffectAttempt"
  shows "effects_grow env r (fst (appendFact ctx senv r e opts allow))"
proof -
  have "ThreadID e = ThreadID e" ..
  then show ?thesis
  proof (cases rule: appendFact_cases [where ctx = ctx and env = senv and r = r and opts = opts and allow = allow])
    case (refused err)
    then show ?thesis using effects_grow_refl [OF ok] by simp
  next
    case (rejected j1 err)
    then show ?thesis using same_log_grow [OF same_log_caught_up ok] by simp
  next
    case (unplaced j1 s err)
    then show ?thesis using same_log_grow [OF _ ok] same_log_caught_up by simp
  next
    case (placed meta j1 j2 e1 e2 s)
    let ?t = "ThreadID e" and ?r2 = "(setJournal (ThreadID e) j2 r)\<lparr>rp_seq := s\<rparr>"
    let ?e3 = "admitOutputSources senv e2"
    define w where "w = fst (check_observed ctx senv ?r2 ?e3)"
    have r2: "same_log r ?r2" using same_log_caught_up [OF placed(7)] by simp
    have "same_log ?r2 (setJournal ?t j ?r2)" if "caught_up j2 j" for j
      using that by (intro same_log_caught_up) simp
    then have "same_log ?r2 w"
      using check_observed_journal [of ctx senv ?r2 ?e3] placed(5) by (auto simp: w_def)
    with r2 have w: "same_log r w" by (rule same_log_trans)
    have "tm_ID meta = ?t" using ok placed(1) by (simp add: effects_ok_def)
    then have "commit_fact senv meta w (sealed_entry senv ?e3) = commit_at senv meta w (sealed_entry senv ?e3)"
      using placed(5) by (simp add: commit_fact_def commit_at_def)
    then obtain d where d: "one_more ?t ((sealed_entry senv ?e3)\<lparr>PathDepth := d\<rparr>) w (commit_fact senv meta w (sealed_entry senv ?e3))"
      using commit_at_one_more [OF \<open>tm_ID meta = ?t\<close>] by metis
    have "Type ((sealed_entry senv ?e3)\<lparr>PathDepth := d\<rparr>) \<noteq> EntryEffectAttempt"
      using placed_type(1) [OF placed(3)] placed_type(2) [OF placed(4)] e
      by (simp add: sealed_entry_def admitOutputSources_def Let_def)
    with same_log_grow [OF w ok] have "effects_grow env r (commit_fact senv meta w (sealed_entry senv ?e3))"
      using one_more_other [OF _ d] effects_grow_trans by (meson effects_grow_def)
    moreover have "fst (appendFact ctx senv r e opts allow) = w
        \<or> fst (appendFact ctx senv r e opts allow) = commit_fact senv meta w (sealed_entry senv ?e3)"
      using placed(9) by (auto simp: w_def split: prod.splits option.splits)
    ultimately show ?thesis using same_log_grow [OF w ok] by auto
  qed
qed

section \<open>Any sequence of operations\<close>

datatype effect_op = PrepareOp prepare_request | RejectOp reject_request | BeginOp begin_request
  | FinishOp finish_request | AppendOp entry append_options

fun effect_step :: "ctx_poll \<Rightarrow> effect_env \<Rightarrow> effect_op \<Rightarrow> repo \<Rightarrow> repo" where
  "effect_step ctx env (PrepareOp q) r = fst (PrepareEffectAttempt env r q)"
| "effect_step ctx env (RejectOp q) r = fst (RejectEffectAttempt env r q)"
| "effect_step ctx env (BeginOp q) r = fst (BeginEffectDispatch env r q)"
| "effect_step ctx env (FinishOp q) r = fst (FinishEffectDispatch env r q)"
| "effect_step ctx env (AppendOp e opts) r = fst (Append ctx (ee_store env) r e opts)"

definition effect_run :: "ctx_poll \<Rightarrow> effect_env \<Rightarrow> effect_op list \<Rightarrow> repo \<Rightarrow> repo" where
  "effect_run ctx env ops r = fold (effect_step ctx env) ops r"

text \<open>
  The requests considered: attempts are written by the effect authority only, and what a request puts
  into an attempt can be represented in JSON.
\<close>

fun plain_op :: "effect_env \<Rightarrow> effect_op \<Rightarrow> bool" where
  "plain_op env (PrepareOp q) = json_attempt (prepared env q)"
| "plain_op env (RejectOp q) = (ValidString (trim_space (rj_RejectionCode q))
     \<and> ValidString (trim_space (rj_RejectionFingerprint q)) \<and> json_time (canonicalTime env (rj_Now q)))"
| "plain_op env (BeginOp q) = json_time (canonicalTime env (bg_Now q))"
| "plain_op env (FinishOp q) = (ValidString (trim_space (fi_OutcomeFingerprint q)) \<and> json_time (canonicalTime env (fi_Now q)))"
| "plain_op env (AppendOp e opts) = (Type e \<noteq> EntryEffectAttempt)"

lemma effect_step_grow:
  "effects_ok env r \<Longrightarrow> effect_codec env \<Longrightarrow> plain_op env p \<Longrightarrow> effects_grow env r (effect_step ctx env p r)"
  by (cases p) (simp_all add: prepare_grow reject_grow begin_grow finish_grow Append_def append_other_grow)

lemma effect_run_grow:
  "effects_ok env r \<Longrightarrow> effect_codec env \<Longrightarrow> list_all (plain_op env) ops \<Longrightarrow> effects_grow env r (effect_run ctx env ops r)"
proof (induction ops arbitrary: r)
  case (Cons p ops)
  have g: "effects_grow env r (effect_step ctx env p r)" using Cons.prems by (intro effect_step_grow) auto
  then have "effects_grow env (effect_step ctx env p r) (effect_run ctx env ops (effect_step ctx env p r))"
    using Cons by (auto simp: effects_grow_def)
  with g show ?case using effects_grow_trans by (auto simp: effect_run_def)
qed (simp add: effect_run_def effects_grow_refl)

text \<open>
  C7: The life of an effect attempt. Through any sequence of prepare, reject, begin and finish requests
  and appends of other entries, accepted or refused, repeated or out of order, whose texts are UTF-8 and
  whose times are in the range of JSON, the states an attempt has gone through are only extended; they
  always form a path prepared, then rejected, or dispatching and at most one of completed,
  failed and cancelled; so no state is taken twice.
\<close>

theorem effect_life_cycle:
  assumes "effects_ok env r" "effect_codec env" "list_all (plain_op env) ops"
  shows "\<exists>more. attempt_states env (effect_run ctx env ops r) t a = attempt_states env r t a @ more
    \<and> follows effect_allowed None (attempt_states env r t a @ more) \<and> distinct (attempt_states env r t a @ more)"
proof -
  have g: "effects_grow env r (effect_run ctx env ops r)" by (rule effect_run_grow [OF assms])
  then obtain more where m: "attempt_states env (effect_run ctx env ops r) t a = attempt_states env r t a @ more"
    by (auto simp: effects_grow_def)
  have "follows effect_allowed None (attempt_states env (effect_run ctx env ops r) t a)"
    using g by (simp add: effects_grow_def effects_ok_def)
  then show ?thesis using m effect_life.life_distinct by (metis (full_types))
qed

text \<open>
  C4: An effect is dispatched at most once. After a successful begin, whatever prepare, reject, begin and
  finish requests and appends of other entries follow (with texts in UTF-8 and times in the range of
  JSON), no begin succeeds again for the same attempt of the same thread.
\<close>

theorem effect_dispatched_once:
  assumes ok: "effects_ok env r" "effect_codec env" "list_all (plain_op env) (BeginOp req # ops)"
    and b: "BeginEffectDispatch env r req = (r1, Inr att)"
    and again: "snd (BeginEffectDispatch env (effect_run ctx env ops r1) req') = Inr att'"
  shows "ea_ID att' \<noteq> ea_ID att \<or> iv_ThreadID (ea_Invocation att') \<noteq> iv_ThreadID (ea_Invocation att)"
proof (rule ccontr)
  assume "\<not> ?thesis"
  then have same: "ea_ID att' = ea_ID att" "iv_ThreadID (ea_Invocation att') = iv_ThreadID (ea_Invocation att)" by auto
  let ?S = "\<lambda>r. attempt_states env r (iv_ThreadID (ea_Invocation att)) (ea_ID att)"
  let ?r2 = "effect_run ctx env ops r1"
  have 1: "effects_grow env r r1" "?S r1 = ?S r @ [EffectAttemptDispatching]"
    using begin_grow [OF ok(1,2), of req] ok(3) b by auto
  have 2: "effects_grow env r1 ?r2" using effect_run_grow [OF _ ok(2)] ok(3) 1 by (simp add: effects_grow_def)
  then obtain ss where ss: "?S ?r2 = ?S r1 @ ss" by (auto simp: effects_grow_def)
  obtain att0 where f: "find_attempt env ?r2 (bg_EffectAttemptID req') = Inr att0" "ea_State att0 = EffectAttemptPrepared"
      "ea_ID att0 = ea_ID att'" "ea_Invocation att0 = ea_Invocation att'"
    using again by (auto simp: BeginEffectDispatch_def commit_attempt_def Let_def split: if_splits sum.splits prod.splits option.splits)
  have ok2: "effects_ok env ?r2" using 2 by (simp add: effects_grow_def)
  have "last_state None (?S ?r2) = Some EffectAttemptPrepared" using found_attempt [OF ok2 f(1)] f same by auto
  then have "follows effect_allowed None (?S ?r2 @ [EffectAttemptDispatching])" using ok2 by (simp add: effects_ok_def)
  moreover have "EffectAttemptDispatching \<in> set (?S ?r2)" using 1 ss by simp
  ultimately show False using effect_life.never_again by fastforce
qed

section \<open>An example\<close>

text \<open>A codec: the fields of an attempt, each character escaped, each field closed by a semicolon.\<close>

fun pack :: "string list \<Rightarrow> string" where
  "pack [] = ''''"
| "pack (x # xs) = concat (map (\<lambda>c. [CHR ''.'', c]) x) @ CHR '';'' # pack xs"

fun unpack :: "string \<Rightarrow> string \<Rightarrow> string list" where
  "unpack acc [] = []"
| "unpack acc [m] = [acc]"
| "unpack acc (m # c # s) = (if m = CHR ''.'' then unpack (acc @ [c]) s else acc # unpack '''' (c # s))"

lemma unpack_pack: "unpack '''' (pack xs) = xs"
proof -
  have 1: "unpack acc (concat (map (\<lambda>c. [CHR ''.'', c]) x) @ s) = unpack (acc @ x) s" for acc x s
    by (induction x arbitrary: acc) simp_all
  have 2: "unpack acc (CHR '';'' # s) = acc # unpack '''' s" for acc s by (cases s) simp_all
  show ?thesis by (induction xs) (simp_all add: 1 2)
qed

definition int_text :: "int \<Rightarrow> string" where
  "int_text n = (if n < 0 then CHR ''-'' # replicate (nat (- n)) CHR ''1'' else replicate (nat n) CHR ''1'')"

definition text_int :: "string \<Rightarrow> int" where
  "text_int s = (if s \<noteq> '''' \<and> hd s = CHR ''-'' then - int (length (tl s)) else int (length s))"

lemma text_int_text: "text_int (int_text n) = n"
  by (cases "nat n") (auto simp: int_text_def text_int_def)

definition state_tag :: "effect_state \<Rightarrow> string" where
  "state_tag s = (case s of EffectStateOther x \<Rightarrow> CHR ''o'' # x | _ \<Rightarrow> CHR ''s'' # state_text s)"

definition tag_state :: "string \<Rightarrow> effect_state" where
  "tag_state s = (if hd s = CHR ''o'' then EffectStateOther (tl s)
     else the (list_find (\<lambda>x. state_tag x = s) [EffectAttemptPrepared, EffectAttemptDispatching,
       EffectAttemptCompleted, EffectAttemptFailed, EffectAttemptRejected, EffectAttemptUnknown,
       EffectAttemptCancelled]))"

lemma tag_state_tag: "tag_state (state_tag s) = s"
  by (cases s) (simp_all add: tag_state_def state_tag_def state_text_def)

definition attempt_text :: "effect_attempt \<Rightarrow> string" where
  "attempt_text a = (let i = ea_Invocation a in
     pack [ea_ID a, iv_ThreadID i, iv_TurnID i, iv_RunID i, iv_ToolCallID i, iv_ToolName i, iv_ArgumentHash i,
       ea_RequestFingerprint a, state_tag (ea_State a), ea_RejectionCode a, ea_TerminalFingerprint a,
       ea_ResultEntryID a, int_text (ea_CreatedAt a), int_text (ea_UpdatedAt a)])"

definition text_attempt :: "string \<Rightarrow> effect_attempt option" where
  "text_attempt s = (let f = (!) (unpack '''' s) in
     Some \<lparr>ea_ID = f 0, ea_Invocation = \<lparr>iv_ThreadID = f 1, iv_TurnID = f 2, iv_RunID = f 3,
         iv_ToolCallID = f 4, iv_ToolName = f 5, iv_ArgumentHash = f 6\<rparr>,
       ea_RequestFingerprint = f 7, ea_State = tag_state (f 8), ea_RejectionCode = f 9,
       ea_TerminalFingerprint = f 10, ea_ResultEntryID = f 11,
       ea_CreatedAt = text_int (f 12), ea_UpdatedAt = text_int (f 13)\<rparr>)"

definition sample_effects :: effect_env where
  "sample_effects = \<lparr>ee_store = digest_env, ee_json = attempt_text, ee_attempt = text_attempt\<rparr>"

lemma sample_codec: "effect_codec sample_effects"
proof -
  have "text_attempt (attempt_text a) = Some a" for a
    by (cases a; cases "ea_Invocation a")
      (simp add: text_attempt_def attempt_text_def unpack_pack text_int_text tag_state_tag Let_def del: pack.simps)
  moreover have "id_head CHR ''0''" by code_simp
  ultimately show ?thesis by (simp add: effect_codec_def sample_effects_def digest_env_def list_all_iff)
qed

text \<open>An open thread with a running turn.\<close>

definition running_repo :: repo where
  "running_repo = setJournal ''t'' (empty_journal\<lparr>jn_entries :=
       [zero_entry\<lparr>ID := ''e1'', ThreadID := ''t'', TurnID := ''u'', RunID := ''r'', Type := EntryTurnMarker,
          TurnStatus := TurnStarted\<rparr>],
       jn_ordinals := Some [''e1'' \<mapsto> 0], jn_depths := [''e1'' \<mapsto> 1]\<rparr>)
     (setThread ''t'' (zero_meta\<lparr>tm_ID := ''t'', tm_LeafID := ''e1''\<rparr>) newMemoryRepo)"

definition sample_prepare :: prepare_request where
  "sample_prepare = \<lparr>pe_Invocation = \<lparr>iv_ThreadID = ''t'', iv_TurnID = ''u'', iv_RunID = ''r'',
     iv_ToolCallID = ''c'', iv_ToolName = ''shell'', iv_ArgumentHash = ''h''\<rparr>,
     pe_RequestFingerprint = ''f'', pe_Now = 2\<rparr>"

definition sample_begin :: begin_request where
  "sample_begin = \<lparr>bg_EffectAttemptID = effectAttemptID sample_effects (pe_Invocation sample_prepare),
     bg_RequestFingerprint = ''f'', bg_AuthorizationProofHash = ''p'', bg_Now = 3\<rparr>"

definition dispatching :: effect_attempt where
  "dispatching = (prepared sample_effects sample_prepare)\<lparr>ea_State := EffectAttemptDispatching, ea_UpdatedAt := 3\<rparr>"

lemma running_ok: "effects_ok sample_effects running_repo"
  by (auto simp: effects_ok_def running_repo_def setJournal_def setThread_def newMemoryRepo_def thread_def
      attempt_entry_ok_def attempt_states_def attempt_entry_def empty_journal_def split: if_splits)

lemma running_begin:
  "snd (BeginEffectDispatch sample_effects (fst (PrepareEffectAttempt sample_effects running_repo sample_prepare))
     sample_begin) = Inr dispatching"
  by code_simp

lemma sample_plain: "plain_op sample_effects (PrepareOp sample_prepare)" "plain_op sample_effects (BeginOp sample_begin)"
  by code_simp+

theorem effect_life_cycle_witness:
  "\<exists>more. attempt_states sample_effects (effect_run (\<lambda>_. None) sample_effects
      [PrepareOp sample_prepare, BeginOp sample_begin, BeginOp sample_begin] running_repo) ''t'' ''a''
      = attempt_states sample_effects running_repo ''t'' ''a'' @ more \<and> distinct more"
  using effect_life_cycle [OF running_ok sample_codec,
      of "[PrepareOp sample_prepare, BeginOp sample_begin, BeginOp sample_begin]" "\<lambda>_. None" "''t''" "''a''"] sample_plain
  by auto

theorem effect_dispatched_once_witness:
  "\<exists>r1. BeginEffectDispatch sample_effects (fst (PrepareEffectAttempt sample_effects running_repo sample_prepare))
      sample_begin = (r1, Inr dispatching)
    \<and> snd (BeginEffectDispatch sample_effects (effect_run (\<lambda>_. None) sample_effects [BeginOp sample_begin] r1)
        sample_begin) \<noteq> Inr dispatching"
proof -
  let ?r = "fst (PrepareEffectAttempt sample_effects running_repo sample_prepare)"
  obtain r1 where b: "BeginEffectDispatch sample_effects ?r sample_begin = (r1, Inr dispatching)"
    using running_begin by (metis prod.collapse)
  have ok: "effects_ok sample_effects ?r"
    using prepare_grow [OF running_ok sample_codec] sample_plain(1) by (simp add: effects_grow_def)
  show ?thesis
    using b effect_dispatched_once [OF ok sample_codec _ b, of "[BeginOp sample_begin]" "\<lambda>_. None" sample_begin dispatching]
      sample_plain(2) by auto
qed

end
