(* ===== verification/EffectOutput.thy ===== *)
theory EffectOutput
  imports EffectFacts
begin

text \<open>
  The retained output of an effect: what \<open>FinishEffectDispatch\<close> stores under a reference is what
  \<open>ReadArtifact\<close> returns for it.
\<close>

section \<open>Labels are canonical\<close>

lemma safe_trim:
  assumes "list_all safe_char s"
  shows "trim_space s = s"
proof (rule trim_space_Cons_id)
  have c: "\<not> space1 c" "\<not> space2 c x" "\<not> space2 x c" "\<not> space3 c x y" "\<not> space3 x y c" if "safe_char c" for c x y
    using that
    by (auto simp: safe_char_def id_head_def space1_def space2_def space3_def Let_def byte_of_def)
  show "space_width s = 0" using assms c by (cases s rule: space_width.cases) auto
  show "space_width_rev (rev s) = 0" using assms c
    by (cases "rev s" rule: space_width_rev.cases) (auto simp: list_all_iff simp flip: set_rev [of s])
qed

lemma replace_runs_safe: "list_all safe_char (replace_runs b s)"
  by (induction b s rule: replace_runs.induct) (simp_all add: safe_char_def)

lemma trim_chars_set: "set (trim_chars cs s) \<subseteq> set s"
proof -
  have "set (rev (dropWhile P (rev (dropWhile P s)))) \<subseteq> set s" for P
    using set_dropWhileD [of _ P s] set_dropWhileD [of _ P "rev (dropWhile P s)"] by auto
  then show ?thesis by (simp add: trim_chars_def)
qed

lemma SafeLabel_safe: "list_all safe_char (SafeLabel s n)"
proof -
  have "list_all safe_char ''artifact''" by code_simp
  moreover have "list_all safe_char (trim_chars cs (replace_runs False x))" for cs x
    using trim_chars_set [of cs "replace_runs False x"] replace_runs_safe [of False x] by (auto simp: list_all_iff)
  moreover have "list_all safe_char (concat (take k (runes x)))" if "list_all safe_char x" for k x
  proof -
    have "set (concat (take k (runes x))) \<subseteq> set (concat (runes x))" by (auto dest: in_set_takeD)
    then show ?thesis using that by (auto simp: list_all_iff runes_concat)
  qed
  ultimately show ?thesis by (simp add: SafeLabel_def Let_def)
qed

lemma effect_ref:
  assumes "RefForEffect env a tool full = Inr ref"
  shows "ValidateRef ref \<and> ar_SizeBytes ref = int (length (fo_Text full)) \<and> ar_SHA256 ref = se_hash env (fo_Text full)
    \<and> trim_space (ar_ID ref) = ar_ID ref \<and> ar_ID ref \<noteq> ''''"
  using assms safe_trim [OF SafeLabel_safe]
  by (auto simp: RefForEffect_def Let_def NormalizeFullOutput_def ValidateRef_def blank_def split: if_splits)

section \<open>The index covers the journal\<close>

definition covers :: "journal \<Rightarrow> bool" where
  "covers j \<longleftrightarrow> (\<forall>i. ordinal_of j i \<noteq> None \<longleftrightarrow> i \<in> ID ` set (jn_entries j))"

lemma covers_ensure:
  "covers (ensureTurnMarkers j) = covers j" "covers (ensureOutputSources env j) = covers j"
  "covers (ensurePathIndex integ j) = covers j"
  by (simp_all add: covers_def ensureTurnMarkers_def ensureOutputSources_def ensurePathIndex_def ordinal_of_def
      split: option.splits)

lemma covers_append: "covers j \<Longrightarrow> covers (appendIndexedEntries env [e] j)"
proof -
  have "covers (append_indexed env e j)" if "covers j" for j
    using that by (auto simp: covers_def ordinal_of_def append_indexed_locators ordinals_map_def split: option.splits)
  then show "covers j \<Longrightarrow> ?thesis" by (simp add: appendIndexedEntries_def covers_ensure)
qed

lemma covers_commit:
  "covers (rp_journal r t) \<Longrightarrow> covers (rp_journal (fst (appendEffectAttempt env m att r)) t)"
  by (auto simp: appendEffectAttempt_def Let_def commit_at_def setThread_def setJournal_def covers_append
      split: option.splits)

lemma covers_ensured: "covers (rp_journal r t) \<Longrightarrow> covers (rp_journal (ensured s r) t)"
  by (auto simp: ensured_def setJournal_def covers_ensure)

lemma covers_operations:
  "covers (rp_journal r t) \<Longrightarrow> covers (rp_journal (fst (PrepareEffectAttempt env r preq)) t)"
  "covers (rp_journal r t) \<Longrightarrow> covers (rp_journal (fst (BeginEffectDispatch env r breq)) t)"
  using covers_commit [of "ensured (iv_ThreadID (pe_Invocation preq)) r" t] covers_ensured [of r t]
    covers_commit [of "ensured _ r" t]
  by (auto simp: PrepareEffectAttempt_def BeginEffectDispatch_def commit_attempt_def Let_def
      split: option.splits sum.splits prod.splits)
     (metis fst_conv)+

section \<open>A committed finish\<close>

lemma first_new: "ID e \<notin> ID ` set es \<Longrightarrow> memoryEntryByID (es @ e # rest) (ID e) = Some e"
proof -
  assume "ID e \<notin> ID ` set es"
  then have "list_find (\<lambda>x. ID x = ID e) es = None" unfolding list_find_None by (metis imageI)
  then show ?thesis by (simp add: memoryEntryByID_def list_find_append)
qed

lemma commit_at_frame:
  assumes "tm_ID m = t"
  shows "thread (commit_at env m r e) = (thread r)(t \<mapsto> m\<lparr>tm_LeafID := ID e, tm_UpdatedAt := CreatedAt e\<rparr>)"
    "rp_artifacts (commit_at env m r e) = rp_artifacts r"
    "\<exists>d. jn_entries (rp_journal (commit_at env m r e) t) = jn_entries (rp_journal r t) @ [e\<lparr>PathDepth := d\<rparr>]"
  using assms append_one_entries [of env e "rp_journal r t"]
  by (auto simp: commit_at_def setThread_def setJournal_def thread_def update_conv' fun_eq_iff)

lemma append_attempt_frame:
  assumes "appendEffectAttempt env m att r = (r', None)" "tm_ID m = t" "thread r t = Some m"
  shows "\<exists>a b. thread r' = (thread r)(t \<mapsto> m\<lparr>tm_LeafID := a, tm_UpdatedAt := b\<rparr>)" (is ?A)
    and "rp_artifacts r' = rp_artifacts r" (is ?B)
    and "\<exists>rest. jn_entries (rp_journal r' t) = jn_entries (rp_journal r t) @ rest" (is ?C)
proof -
  let ?e = "effectAttemptEntry env att (tm_LeafID m)"
  have "r' = r \<or> r' = commit_at (ee_store env) m r ?e"
    using assms(1) by (auto simp: appendEffectAttempt_def Let_def split: option.splits)
  then have "?A \<and> ?B \<and> ?C"
  proof
    assume "r' = r"
    moreover have "thread r = (thread r)(t \<mapsto> m\<lparr>tm_LeafID := tm_LeafID m, tm_UpdatedAt := tm_UpdatedAt m\<rparr>)"
      using assms(3) by auto
    ultimately show ?thesis by (metis append_Nil2)
  next
    assume "r' = commit_at (ee_store env) m r ?e"
    then show ?thesis using commit_at_frame [OF assms(2), of "ee_store env" r ?e] by auto
  qed
  then show ?A ?B ?C by auto
qed

lemma same_title_state:
  "ValidateThreadTitleState (m\<lparr>tm_LeafID := a, tm_UpdatedAt := b\<rparr>) = ValidateThreadTitleState m"
  by (cases "tm_TitleStatus m"; cases "tm_TitleSource m")
    (simp_all add: ValidateThreadTitleState_def title_projection_of_def title_token_ok_def)

lemma same_lifecycle: "normalizeThreadLifecycle (m\<lparr>tm_LeafID := a, tm_UpdatedAt := b\<rparr>) = normalizeThreadLifecycle m"
  by (simp add: normalizeThreadLifecycle_def)

lemma same_thread_authority:
  "validateMemoryArtifactThread (m\<lparr>tm_LeafID := a, tm_UpdatedAt := b\<rparr>) t = validateMemoryArtifactThread m t"
  "parent_of (m\<lparr>tm_LeafID := a, tm_UpdatedAt := b\<rparr>) = parent_of m"
  by (cases "normalizeThreadLifecycle m"; simp add: validateMemoryArtifactThread_def
      ValidateThreadMetaAuthority_def parent_of_def same_title_state same_lifecycle)+

text \<open>Who may read a thread does not depend on its leaf.\<close>

lemma live_descendant_same:
  assumes "map_of ts' = (map_of ts)(t \<mapsto> m\<lparr>tm_LeafID := a, tm_UpdatedAt := b\<rparr>)" "map_of ts t = Some m"
    "parent_of cur' = parent_of cur"
  shows "live_descendant ts' p seen cur' = live_descendant ts p seen cur"
  using assms
proof (induction ts p seen cur arbitrary: cur' rule: live_descendant.induct)
  case (1 ts p seen cur)
  show ?case
  proof (cases "parent_of cur = '''' \<or> parent_of cur = p \<or> parent_of cur \<in> set seen \<or> map_of ts (parent_of cur) = None")
    case True
    then show ?thesis using "1.prems"
      by (auto simp: live_descendant.simps [of ts p seen cur] live_descendant.simps [of ts' p seen cur'] Let_def)
  next
    case False
    then obtain x where x: "map_of ts (parent_of cur) = Some x" by blast
    then obtain x' where x': "map_of ts' (parent_of cur) = Some x'" "parent_of x' = parent_of x"
        "validateMemoryArtifactThread x' (parent_of cur) = validateMemoryArtifactThread x (parent_of cur)"
      using "1.prems"(1,2) by (cases "parent_of cur = t") (auto simp: same_thread_authority)
    show ?thesis
    proof (cases "validateMemoryArtifactThread x (parent_of cur)")
      case True
      from "1.IH" [OF refl _ _ _ x _ "1.prems"(1,2) x'(2)] True False x x' "1.prems"(3) show ?thesis
        by (simp add: live_descendant.simps [of ts p seen cur] live_descendant.simps [of ts' p seen cur'] Let_def)
    qed (use x x' False "1.prems"(3) in
        \<open>simp add: live_descendant.simps [of ts p seen cur] live_descendant.simps [of ts' p seen cur'] Let_def\<close>)
  qed
qed

lemma same_readers:
  assumes "thread r' = (thread r)(t \<mapsto> m\<lparr>tm_LeafID := a, tm_UpdatedAt := b\<rparr>)" "thread r t = Some m"
    and ok: "validateArtifactReadAuthority r parent t = None" "trim_space t = t"
  shows "validateArtifactReadAuthority r' parent t = None"
proof (cases "blank parent")
  case True
  then show ?thesis using assms
    by (simp add: validateArtifactReadAuthority_def Let_def blank_def same_thread_authority split: if_splits)
next
  case False
  have ts: "map_of (rp_threads r') = (map_of (rp_threads r))(t \<mapsto> m\<lparr>tm_LeafID := a, tm_UpdatedAt := b\<rparr>)"
    using assms(1) by (simp add: thread_def fun_eq_iff)
  from False ok obtain p where "thread r (trim_space parent) = Some p" "validateMemoryArtifactThread p (trim_space parent)"
      "t \<noteq> trim_space parent" "validateMemoryArtifactThread m t"
      "live_descendant (rp_threads r) (trim_space parent) [tm_ID m] m = None"
    using assms(2) by (auto simp: validateArtifactReadAuthority_def Let_def blank_def split: if_splits option.splits)
  then show ?thesis
    using live_descendant_same [OF ts] assms(1,2) ok(2) False
    by (simp add: validateArtifactReadAuthority_def Let_def blank_def thread_def same_thread_authority)
qed

lemma commit_finish_output:
  assumes "commit_finish env att req r = (r', Inr res)" "fi_FullOutput req = Some full"
    and m: "thread r t = Some m" "tm_ID m = t" "iv_ThreadID (ea_Invocation att) = t"
  obtains i ref x r3 m1 att' where "i = snd (nextEntryID (rp_journal r t) t (rp_seq r))"
    "RefForEffect (ee_store env) (ea_ID att) (iv_ToolName (ea_Invocation att)) full = Inr ref"
    "fr_Artifact res = Some ref" "fr_Attempt res = att'" "ea_Invocation att' = ea_Invocation att"
    "x = sealed_entry (ee_store env) (with_output ref (result_entry env m att req i))"
    "r3 = commit_at (ee_store env) m (setArtifact (artifactRecordKey t (ar_ID ref))
       \<lparr>arr_ThreadID = t, arr_Ref = ref, arr_Text = fo_Text full, arr_CanonicalEntryID = i,
        arr_CreatedAt = canonicalTime env (fi_Now req)\<rparr>
       (r\<lparr>rp_seq := fst (nextEntryID (rp_journal r t) t (rp_seq r))\<rparr>)) x"
    "m1 = m\<lparr>tm_LeafID := ID x, tm_UpdatedAt := CreatedAt x\<rparr>"
    "appendEffectAttempt env m1 att' r3 = (r', None)"
  using assms
  by (auto simp: commit_finish_def Let_def meta_of_def retain_output_def NormalizeFullOutput_def result_entry_def
      split: sum.splits prod.splits option.splits if_splits)

lemma output_entry:
  assumes "finish_check att (fi_Result req)" "iv_ThreadID (ea_Invocation att) = t"
  shows "ID (sealed_entry senv (with_output ref (result_entry env m att req i))) = i"
    "ThreadID (sealed_entry senv (with_output ref (result_entry env m att req i))) = t"
    "Type (sealed_entry senv (with_output ref (result_entry env m att req i))) = EntryToolResult"
    "full_output_of ((sealed_entry senv (with_output ref (result_entry env m att req i)))\<lparr>PathDepth := d\<rparr>) = Some ref"
  using assms
  by (auto simp: sealed_entry_def with_output_def result_entry_def finish_check_def full_output_of_def Let_def)

text \<open>
  C25: The retained output of an effect is readable and unchanged. When a finish commits (it is not a
  replay) with an output, on a thread whose name has no surrounding space and whose index covers its journal, the
  clock being set and the sequence number not negative, then whoever had authority to read
  the thread before, the thread itself when it is a root, any live owner up the parent chain when it is a
  subagent, reads under the artifact the finish reports its reference and exactly the text that was handed in.
\<close>

theorem finished_output_readable:
  assumes fin: "FinishEffectDispatch env r req = (r', Inr res)" and new: "\<not> fr_Replayed res"
    and full: "fi_FullOutput req = Some full" and t: "iv_ThreadID (ea_Invocation (fr_Attempt res)) = t"
    and reader: "validateArtifactReadAuthority r parent t = None" "trim_space t = t"
    and located: "covers (rp_journal r t)"
    and seq: "0 \<le> rp_seq r" and clock: "se_now (ee_store env) \<noteq> 0"
  shows "\<exists>ref. fr_Artifact res = Some ref
    \<and> ReadArtifact (ee_store env) r' parent t (ar_ID ref) = Inr (ref, fo_Text full)"
proof -
  obtain m where thread: "thread r t = Some m" "validateMemoryArtifactThread m t"
    using reader by (auto simp: validateArtifactReadAuthority_def Let_def split: if_splits option.splits)
  obtain att where att: "finish_check att (fi_Result req)"
    "commit_finish env att req (ensured (iv_ThreadID (ea_Invocation att)) r) = (r', Inr res)"
    using fin new by (auto simp: FinishEffectDispatch_def Let_def replay_finish_def split: if_splits sum.splits option.splits)
  define s where "s = iv_ThreadID (ea_Invocation att)"
  have "fr_Attempt res = fr_Attempt res \<and> ea_Invocation (fr_Attempt res) = ea_Invocation att"
    using att(2) by (auto simp: commit_finish_def Let_def split: sum.splits prod.splits option.splits)
  then have st: "s = t" using t by (simp add: s_def)
  let ?r = "ensured t r"
  have same: "thread ?r = thread r" "jn_entries (rp_journal ?r t) = jn_entries (rp_journal r t)"
    "ordinal_of (rp_journal ?r t) = ordinal_of (rp_journal r t)" "rp_seq ?r = rp_seq r"
    using thread(1) same_log_ensured [of r t]
    by (auto simp: same_log_def ensured_def setJournal_def ensureTurnMarkers_def ordinal_of_def fun_eq_iff
        split: option.splits)
  have mt: "tm_ID m = t" "trim_space t = t" "t \<noteq> ''''"
    using thread(2) reader(2) by (simp_all add: validateMemoryArtifactThread_def)
      (simp add: ValidateThreadMetaAuthority_def blank_def split: if_splits)
  have live: "thread ?r t = Some m" using thread(1) same(1) by simp
  from commit_finish_output [OF att(2) [folded s_def, unfolded st] full live mt(1)] st s_def
  obtain i ref x r3 m1 att' where i: "i = snd (nextEntryID (rp_journal ?r t) t (rp_seq ?r))"
    and ref: "RefForEffect (ee_store env) (ea_ID att) (iv_ToolName (ea_Invocation att)) full = Inr ref"
      "fr_Artifact res = Some ref"
    and x: "x = sealed_entry (ee_store env) (with_output ref (result_entry env m att req i))"
    and r3: "r3 = commit_at (ee_store env) m (setArtifact (artifactRecordKey t (ar_ID ref))
       \<lparr>arr_ThreadID = t, arr_Ref = ref, arr_Text = fo_Text full, arr_CanonicalEntryID = i,
        arr_CreatedAt = canonicalTime env (fi_Now req)\<rparr>
       (?r\<lparr>rp_seq := fst (nextEntryID (rp_journal ?r t) t (rp_seq ?r))\<rparr>)) x" (is "_ = commit_at _ _ ?ra _")
    and m1: "m1 = m\<lparr>tm_LeafID := ID x, tm_UpdatedAt := CreatedAt x\<rparr>"
    and r': "appendEffectAttempt env m1 att' r3 = (r', None)" by metis
  have fresh: "i \<notin> ID ` set (jn_entries (rp_journal r t))" "i \<noteq> ''''"
    using next_fresh [of "rp_journal ?r t" "rp_seq ?r" t] located seq same by (auto simp: i covers_def)
  have xs: "ID x = i" "ThreadID x = t" "Type x = EntryToolResult" "\<And>d. full_output_of (x\<lparr>PathDepth := d\<rparr>) = Some ref"
    using output_entry [OF att(1)] st s_def by (auto simp: x)
  obtain d where d: "jn_entries (rp_journal r3 t) = jn_entries (rp_journal r t) @ [x\<lparr>PathDepth := d\<rparr>]"
    using commit_at_frame(3) [OF mt(1), of "ee_store env" ?ra x] same(2) r3 by (auto simp: setArtifact_def)
  have t3: "thread r3 = (thread r)(t \<mapsto> m1)"
  proof -
    have "thread ?ra = thread ?r" by (simp add: setArtifact_def thread_def fun_eq_iff)
    then show ?thesis using commit_at_frame(1) [OF mt(1), of "ee_store env" ?ra x] same(1) by (simp add: r3 m1)
  qed
  have m1t: "tm_ID m1 = t" using mt by (simp add: m1)
  have m3: "thread r3 t = Some m1" by (simp add: t3)
  obtain a b where thr: "thread r' = (thread r)(t \<mapsto> m\<lparr>tm_LeafID := a, tm_UpdatedAt := b\<rparr>)"
    using append_attempt_frame(1) [OF r' m1t m3] by (auto simp: m1 t3)
  obtain rest where es: "jn_entries (rp_journal r' t) = jn_entries (rp_journal r t) @ x\<lparr>PathDepth := d\<rparr> # rest"
    using append_attempt_frame(3) [OF r' m1t m3] d by auto
  have art: "rp_artifacts r' (artifactRecordKey t (ar_ID ref)) = Some \<lparr>arr_ThreadID = t, arr_Ref = ref,
      arr_Text = fo_Text full, arr_CanonicalEntryID = i, arr_CreatedAt = canonicalTime env (fi_Now req)\<rparr>"
    using append_attempt_frame(2) [OF r' m1t m3] commit_at_frame(2) [OF mt(1)] by (simp add: r3 setArtifact_def)
  have e: "memoryEntryByID (jn_entries (rp_journal r' t)) i = Some (x\<lparr>PathDepth := d\<rparr>)"
    using first_new [of "x\<lparr>PathDepth := d\<rparr>"] fresh(1) es xs(1) by simp
  have auth: "validateArtifactReadAuthority r' parent t = None"
    by (rule same_readers [OF thr thread(1) reader])
  have "canonicalTime env (fi_Now req) \<noteq> 0" using clock by (simp add: canonicalTime_def zero_time_def)
  then have "validateArtifactRecord (ee_store env) r' \<lparr>arr_ThreadID = t, arr_Ref = ref,
      arr_Text = fo_Text full, arr_CanonicalEntryID = i, arr_CreatedAt = canonicalTime env (fi_Now req)\<rparr> = None"
    using effect_ref [OF ref(1)] e xs fresh(2) mt(3) by (simp add: validateArtifactRecord_def zero_time_def)
  then have "ReadArtifact (ee_store env) r' parent t (ar_ID ref) = Inr (ref, fo_Text full)"
    using art auth effect_ref [OF ref(1)] mt by (simp add: ReadArtifact_def Let_def blank_def)
  with ref(2) show ?thesis by blast
qed

section \<open>An example\<close>

definition sample_finish :: finish_request where
  "sample_finish = \<lparr>fi_EffectAttemptID = effectAttemptID sample_effects (pe_Invocation sample_prepare),
     fi_RequestFingerprint = ''f'', fi_OutcomeFingerprint = ''o'', fi_Failed = False,
     fi_Result = zero_entry\<lparr>ThreadID := ''t'', TurnID := ''u'', Type := EntryToolResult,
       Message := zero_message\<lparr>msg_ToolCallID := ''c'', msg_ToolName := ''shell'', msg_ToolResult := Some tool_view\<rparr>\<rparr>,
     fi_FullOutput = Some \<lparr>fo_Text = ''hello'', fo_Kind = '''', fo_MIME = ''''\<rparr>, fi_Now = 4\<rparr>"

definition dispatched_repo :: repo where
  "dispatched_repo = fst (BeginEffectDispatch sample_effects
     (fst (PrepareEffectAttempt sample_effects running_repo sample_prepare)) sample_begin)"

lemma dispatched_facts:
  "map ID (jn_entries (rp_journal dispatched_repo ''t''))
     = [''e1'', effectAttemptEntryID (ea_ID dispatching) EffectAttemptPrepared,
        effectAttemptEntryID (ea_ID dispatching) EffectAttemptDispatching]"
  "map_option (\<lambda>m. (validateMemoryArtifactThread m ''t'', parent_of m)) (thread dispatched_repo ''t'') = Some (True, '''')"
  "rp_seq dispatched_repo = 0"
  by code_simp+

lemma sample_finished:
  "case snd (FinishEffectDispatch sample_effects dispatched_repo sample_finish) of
     Inl _ \<Rightarrow> False
   | Inr res \<Rightarrow> \<not> fr_Replayed res \<and> iv_ThreadID (ea_Invocation (fr_Attempt res)) = ''t''"
  by code_simp

lemma option_pair: "map_option (\<lambda>m. (f m, g m)) x = Some (a, b) \<Longrightarrow> \<exists>m. x = Some m \<and> f m = a \<and> g m = b"
  by auto

lemma dispatched_located: "covers (rp_journal dispatched_repo ''t'')"
proof -
  have "covers (rp_journal running_repo ''t'')"
    by (simp add: covers_def running_repo_def setJournal_def setThread_def ordinal_of_def newMemoryRepo_def empty_journal_def)
  then show ?thesis unfolding dispatched_repo_def by (intro covers_operations)
qed

theorem finished_output_readable_witness:
  "\<exists>r' res ref. FinishEffectDispatch sample_effects dispatched_repo sample_finish = (r', Inr res)
     \<and> fr_Artifact res = Some ref \<and> ReadArtifact digest_env r' '''' ''t'' (ar_ID ref) = Inr (ref, ''hello'')"
proof -
  obtain r' res where f: "FinishEffectDispatch sample_effects dispatched_repo sample_finish = (r', Inr res)"
    "\<not> fr_Replayed res" "iv_ThreadID (ea_Invocation (fr_Attempt res)) = ''t''"
    using sample_finished by (cases "FinishEffectDispatch sample_effects dispatched_repo sample_finish")
      (auto split: sum.splits)
  have full: "fi_FullOutput sample_finish = Some \<lparr>fo_Text = ''hello'', fo_Kind = '''', fo_MIME = ''''\<rparr>"
    by (simp add: sample_finish_def)
  have trim: "trim_space ''t'' = ''t''" "trim_space '''' = ''''" by code_simp+
  then have "validateArtifactReadAuthority dispatched_repo '''' ''t'' = None"
    using option_pair [OF dispatched_facts(2)] by (auto simp: validateArtifactReadAuthority_def Let_def)
  with finished_output_readable [OF f(1,2) full f(3) _ trim(1) dispatched_located, of "''''"] f(1) dispatched_facts(3)
  show ?thesis by (auto simp: sample_effects_def digest_env_def)
qed

end
