(* ===== verification/SessionLife.thy ===== *)
theory SessionLife
  imports JournalModel
begin

text \<open>
  The status of a session derived from its turn markers: the incremental reducer with its
  transactions (\<^verbatim>\<open>internal/sessiontree/canonical_lifecycle.go\<close>) and the projection shown to hosts
  (\<^verbatim>\<open>internal/sessionlifecycle/lifecycle.go\<close>), with the validator of such projections.
\<close>

section \<open>The reducer\<close>

text \<open>A Go map of flags, \<open>None\<close> the nil map. Only \<open>true\<close> is ever stored.\<close>

type_synonym flags = "(string \<rightharpoonup> bool) option"

definition flag :: "flags \<Rightarrow> string \<Rightarrow> bool" where
  "flag m k \<longleftrightarrow> (case m of None \<Rightarrow> False | Some f \<Rightarrow> f k = Some True)"

definition raise_flag :: "string \<Rightarrow> flags \<Rightarrow> flags" where
  "raise_flag k m = map_option (\<lambda>f. f(k \<mapsto> True)) m"

record canonical_lifecycle =
  cl_Status :: string
  cl_LatestTurnID :: string
  cl_Recoverable :: bool
  cl_started :: flags
  cl_terminal :: flags
  cl_baseStarted :: flags
  cl_baseTerminal :: flags

definition idle_lifecycle :: canonical_lifecycle where
  "idle_lifecycle = \<lparr>cl_Status = ''idle'', cl_LatestTurnID = '''', cl_Recoverable = False,
     cl_started = None, cl_terminal = None, cl_baseStarted = None, cl_baseTerminal = None\<rparr>"

definition set_open :: "bool \<Rightarrow> canonical_lifecycle \<Rightarrow> canonical_lifecycle" where
  "set_open active l =
     l\<lparr>cl_Status := (if active then ''running'' else ''interrupted''), cl_Recoverable := \<not> active\<rparr>"

definition recoverable_abort :: "entry \<Rightarrow> bool" where
  "recoverable_abort e \<longleftrightarrow> mget (Metadata e) ''recoverable'' = ''true''
     \<or> mget (Metadata e) ''failure_code'' = ''interrupted''"

definition observe_status :: "bool \<Rightarrow> entry \<Rightarrow> canonical_lifecycle \<Rightarrow> canonical_lifecycle" where
  "observe_status active e l =
    (let ended = l\<lparr>cl_terminal := raise_flag (TurnID e) (cl_terminal l), cl_Recoverable := False\<rparr> in
     case TurnStatus e of
       TurnStarted \<Rightarrow> set_open active (l\<lparr>cl_started := raise_flag (TurnID e) (cl_started l)\<rparr>)
     | TurnCompleted \<Rightarrow> ended\<lparr>cl_Status := ''completed''\<rparr>
     | TurnWaiting \<Rightarrow> ended\<lparr>cl_Status := ''waiting''\<rparr>
     | TurnFailed \<Rightarrow> ended\<lparr>cl_Status := ''failed''\<rparr>
     | TurnAborted \<Rightarrow> ended\<lparr>cl_Recoverable := recoverable_abort e,
         cl_Status := (if recoverable_abort e then ''interrupted'' else ''cancelled'')\<rparr>
     | _ \<Rightarrow> l)"

definition latest_open :: "canonical_lifecycle \<Rightarrow> bool" where
  "latest_open l \<longleftrightarrow> cl_LatestTurnID l \<noteq> ''''
     \<and> (flag (cl_started l) (cl_LatestTurnID l) \<or> flag (cl_baseStarted l) (cl_LatestTurnID l))
     \<and> \<not> (flag (cl_terminal l) (cl_LatestTurnID l) \<or> flag (cl_baseTerminal l) (cl_LatestTurnID l))"

definition lifecycle_Observe :: "bool \<Rightarrow> entry \<Rightarrow> canonical_lifecycle \<Rightarrow> canonical_lifecycle" where
  "lifecycle_Observe active e l0 =
    (let l1 = (if cl_Status l0 = '''' then l0\<lparr>cl_Status := ''idle''\<rparr> else l0) in
     if Type e \<noteq> EntryTurnMarker \<or> TurnStatus e = TurnUnset then l1
     else
       let l2 = (if cl_started l1 = None
                 then l1\<lparr>cl_started := Some Map.empty, cl_terminal := Some Map.empty\<rparr> else l1);
           l3 = (if TurnID e \<noteq> '''' then l2\<lparr>cl_LatestTurnID := TurnID e\<rparr> else l2);
           l4 = observe_status active e l3
       in if latest_open l4 then set_open active l4 else l4)"

definition DeriveCanonicalLifecycle :: "entry list \<Rightarrow> bool \<Rightarrow> canonical_lifecycle" where
  "DeriveCanonicalLifecycle path active = fold (lifecycle_Observe active) path idle_lifecycle"

section \<open>Transactions of the reducer\<close>

text \<open>
  A copy shares the maps of its original as bases and writes to maps of its own; a copy of
  such a copy duplicates the maps. Copies of maps are values here.
\<close>

definition transactionCopy :: "canonical_lifecycle \<Rightarrow> canonical_lifecycle" where
  "transactionCopy l =
    (if cl_baseStarted l \<noteq> None then
       l\<lparr>cl_started := Some (case cl_started l of None \<Rightarrow> Map.empty | Some m \<Rightarrow> m),
         cl_terminal := Some (case cl_terminal l of None \<Rightarrow> Map.empty | Some m \<Rightarrow> m)\<rparr>
     else l\<lparr>cl_baseStarted := cl_started l, cl_baseTerminal := cl_terminal l,
            cl_started := None, cl_terminal := None\<rparr>)"

definition merge_flags :: "flags \<Rightarrow> flags \<Rightarrow> flags" where
  "merge_flags base m = map_option (\<lambda>b. b ++ (case m of None \<Rightarrow> Map.empty | Some f \<Rightarrow> f)) base"

definition installTransaction :: "canonical_lifecycle \<Rightarrow> canonical_lifecycle" where
  "installTransaction l =
    (if cl_baseStarted l = None then l
     else l\<lparr>cl_started := merge_flags (cl_baseStarted l) (cl_started l),
            cl_terminal := merge_flags (cl_baseTerminal l) (cl_terminal l),
            cl_baseStarted := None, cl_baseTerminal := None\<rparr>)"

section \<open>The projection shown to hosts\<close>

record session_life =
  sl_status :: string
  sl_phase :: string
  sl_latestTurnID :: string
  sl_recoverable :: bool
  sl_waitingPrompt :: string

record life_projection =
  lp_facts :: canonical_lifecycle
  lp_waitingPrompts :: meta_map

text \<open>
  \<open>ask\<close> gives the prompt of a call of the tool \<open>ask_user\<close> whose arguments match its schema
  (\<open>control.Project\<close>): JSON schema validation is outside this development.
\<close>

definition waitingPromptEntry :: "(string \<Rightarrow> string option) \<Rightarrow> entry \<Rightarrow> string option" where
  "waitingPromptEntry ask e =
    (let required = (if Type e = EntryToolResult
           then (case msg_ToolResult (Message e) of None \<Rightarrow> None | Some v \<Rightarrow> tr_InputRequired v) else None) in
     case required of
       Some q \<Rightarrow> Some (ir_Summary q)
     | None \<Rightarrow>
         if Type e \<noteq> EntryToolCall \<or> msg_ToolName (Message e) \<noteq> ''ask_user'' then None
         else Some (case ask (msg_ToolArgs (Message e)) of None \<Rightarrow> '''' | Some prompt \<Rightarrow> prompt))"

definition projection_Observe ::
  "(string \<Rightarrow> string option) \<Rightarrow> entry \<Rightarrow> life_projection \<Rightarrow> life_projection" where
  "projection_Observe ask e p =
    (let p1 = p\<lparr>lp_facts := lifecycle_Observe True e (lp_facts p)\<rparr> in
     case waitingPromptEntry ask e of
       None \<Rightarrow> p1
     | Some prompt \<Rightarrow> p1\<lparr>lp_waitingPrompts := AList.update (TurnID e) prompt (lp_waitingPrompts p)\<rparr>)"

definition normalizePhase :: "string \<Rightarrow> string" where
  "normalizePhase raw = (if raw = ''turn'' then ''turn'' else ''idle'')"

definition life_statuses :: "string list" where
  "life_statuses = [''idle'', ''running'', ''completed'', ''waiting'', ''failed'', ''cancelled'', ''interrupted'']"

definition normalizeStatus :: "string \<Rightarrow> string" where
  "normalizeStatus raw = (if raw \<in> set life_statuses then raw else ''idle'')"

definition Snapshot :: "life_projection \<Rightarrow> string \<Rightarrow> session_life" where
  "Snapshot p rawPhase =
    (let phase = normalizePhase rawPhase; f0 = lp_facts p;
         f1 = (if phase \<noteq> ''turn'' \<and> cl_Status f0 = ''running''
               then f0\<lparr>cl_Status := ''interrupted'', cl_Recoverable := True\<rparr> else f0);
         f2 = (if cl_Status f1 = '''' then f1\<lparr>cl_Status := ''idle''\<rparr> else f1)
     in \<lparr>sl_status = cl_Status f2, sl_phase = phase, sl_latestTurnID = cl_LatestTurnID f2,
         sl_recoverable = cl_Recoverable f2,
         sl_waitingPrompt = (if cl_Status f2 = ''waiting''
           then mget (lp_waitingPrompts p) (cl_LatestTurnID f2) else '''')\<rparr>)"

definition zero_lifecycle :: canonical_lifecycle where
  "zero_lifecycle = idle_lifecycle\<lparr>cl_Status := ''''\<rparr>"

definition Derive :: "(string \<Rightarrow> string option) \<Rightarrow> entry list \<Rightarrow> string \<Rightarrow> session_life" where
  "Derive ask path rawPhase =
     Snapshot (fold (projection_Observe ask) path \<lparr>lp_facts = zero_lifecycle, lp_waitingPrompts = []\<rparr>) rawPhase"

definition CanAppendMessage :: "session_life \<Rightarrow> bool" where
  "CanAppendMessage l \<longleftrightarrow> sl_status l = ''idle'' \<or> sl_status l = ''completed'' \<or> sl_status l = ''waiting''"

definition isRunning :: "string \<Rightarrow> string \<Rightarrow> bool" where
  "isRunning status phase \<longleftrightarrow> status = ''running'' \<or> phase = ''turn''"

definition IsRunningStatus :: "string \<Rightarrow> string \<Rightarrow> bool" where
  "IsRunningStatus rawStatus rawPhase = isRunning (normalizeStatus rawStatus) (normalizePhase rawPhase)"

text \<open>The first violated rule, if any.\<close>

definition ValidateProjection ::
  "string \<Rightarrow> string \<Rightarrow> string \<Rightarrow> string \<Rightarrow> bool \<Rightarrow> bool \<Rightarrow> st_error option" where
  "ValidateProjection status phase latest prompt recoverable canAppend =
    (if status \<notin> set life_statuses then Some (ErrMsg ''unsupported thread status'')
     else if phase \<noteq> ''idle'' \<and> phase \<noteq> ''turn'' then Some (ErrMsg ''unsupported thread phase'')
     else if status = ''running'' \<and> phase \<noteq> ''turn'' then
       Some (ErrMsg ''running thread status requires active turn phase'')
     else if status = ''idle'' \<and> latest \<noteq> '''' then
       Some (ErrMsg ''idle thread must not identify a latest turn'')
     else if status \<noteq> ''idle'' \<and> blank latest then
       Some (ErrMsg ''non-idle thread requires latest turn id'')
     else if recoverable \<noteq> (status = ''interrupted'') then
       Some (ErrMsg ''thread recoverability conflicts with status'')
     else if canAppend \<noteq> (status = ''idle'' \<or> status = ''completed'' \<or> status = ''waiting'') then
       Some (ErrMsg ''thread append capability conflicts with status'')
     else if status \<noteq> ''waiting'' \<and> prompt \<noteq> '''' then
       Some (ErrMsg ''thread waiting prompt requires waiting status'')
     else None)"

definition validate_life :: "session_life \<Rightarrow> st_error option" where
  "validate_life l = ValidateProjection (sl_status l) (sl_phase l) (sl_latestTurnID l)
     (sl_waitingPrompt l) (sl_recoverable l) (CanAppendMessage l)"

section \<open>Observing in a transaction is observing\<close>

definition raised :: "flags \<Rightarrow> bool" where
  "raised m \<longleftrightarrow> (\<forall>k f. m = Some f \<longrightarrow> f k \<noteq> Some False)"

definition life_ok :: "canonical_lifecycle \<Rightarrow> bool" where
  "life_ok l \<longleftrightarrow> raised (cl_started l) \<and> raised (cl_terminal l) \<and> raised (cl_baseStarted l) \<and> raised (cl_baseTerminal l)
     \<and> (cl_started l = None \<longleftrightarrow> cl_terminal l = None) \<and> (cl_baseStarted l = None \<longleftrightarrow> cl_baseTerminal l = None)"

lemma raised_simps [simp]:
  "raised None" "raised (Some Map.empty)" "raised m \<Longrightarrow> raised (raise_flag k m)"
  by (auto simp: raised_def raise_flag_def split: if_splits)

lemma raise_flag_None [simp]: "raise_flag k m = None \<longleftrightarrow> m = None"
  by (simp add: raise_flag_def)

lemma flag_merge:
  "raised m \<Longrightarrow> base \<noteq> None \<Longrightarrow> flag (merge_flags base m) k \<longleftrightarrow> flag m k \<or> flag base k"
  by (cases m; cases base)
    (auto simp: flag_def merge_flags_def raised_def map_add_def split: option.splits, metis (full_types) option.inject)

lemma merge_raise: "m \<noteq> None \<Longrightarrow> merge_flags base (raise_flag k m) = raise_flag k (merge_flags base m)"
  by (cases m; cases base) (auto simp: merge_flags_def raise_flag_def)

lemma merge_nil [simp]: "merge_flags base (Some Map.empty) = base" "merge_flags base None = base"
  by (cases base; simp add: merge_flags_def)+

lemma life_ok_idle: "life_ok idle_lifecycle"
  by (simp add: life_ok_def idle_lifecycle_def)

lemma life_ok_observe: "life_ok l \<Longrightarrow> life_ok (lifecycle_Observe active e l)"
  by (cases "TurnStatus e") (auto simp: life_ok_def lifecycle_Observe_def observe_status_def set_open_def Let_def)

lemma observe_base:
  "cl_baseStarted (lifecycle_Observe active e l) = cl_baseStarted l"
  "cl_baseTerminal (lifecycle_Observe active e l) = cl_baseTerminal l"
  by (cases "TurnStatus e"; simp add: lifecycle_Observe_def observe_status_def set_open_def Let_def)+

text \<open>The copy and the original see the same latest turn as open.\<close>

lemma install_latest_open:
  assumes "life_ok l" "cl_baseStarted l = Some b"
  shows "latest_open (installTransaction l) = latest_open l"
proof -
  obtain t where t: "cl_baseTerminal l = Some t" using assms by (auto simp: life_ok_def)
  have "flag (cl_started (installTransaction l)) k \<longleftrightarrow> flag (cl_started l) k \<or> flag (cl_baseStarted l) k"
    "flag (cl_terminal (installTransaction l)) k \<longleftrightarrow> flag (cl_terminal l) k \<or> flag (cl_baseTerminal l) k" for k
    using assms t by (simp_all add: installTransaction_def life_ok_def flag_merge)
  moreover have "cl_baseStarted (installTransaction l) = None" "cl_baseTerminal (installTransaction l) = None"
    "cl_LatestTurnID (installTransaction l) = cl_LatestTurnID l"
    using assms(2) by (simp_all add: installTransaction_def)
  moreover have "flag None k = False" for k by (simp add: flag_def)
  ultimately show ?thesis by (simp add: latest_open_def)
qed

lemma life_ok_status: "life_ok l \<Longrightarrow> life_ok (observe_status active e l)"
  by (cases "TurnStatus e") (simp_all add: life_ok_def observe_status_def set_open_def Let_def)

lemma status_base: "cl_baseStarted (observe_status active e l) = cl_baseStarted l"
  by (cases "TurnStatus e") (simp_all add: observe_status_def set_open_def Let_def)

lemma merge_Some_None: "merge_flags base m = None \<longleftrightarrow> base = None"
  by (simp add: merge_flags_def)

lemma install_update:
  "installTransaction (l\<lparr>cl_Status := s\<rparr>) = (installTransaction l)\<lparr>cl_Status := s\<rparr>"
  "installTransaction (l\<lparr>cl_Recoverable := r\<rparr>) = (installTransaction l)\<lparr>cl_Recoverable := r\<rparr>"
  "installTransaction (l\<lparr>cl_LatestTurnID := t\<rparr>) = (installTransaction l)\<lparr>cl_LatestTurnID := t\<rparr>"
  by (simp_all add: installTransaction_def)

lemma install_observe_status:
  assumes "life_ok l" "cl_baseStarted l \<noteq> None" "cl_started l \<noteq> None"
  shows "installTransaction (observe_status active e l) = observe_status active e (installTransaction l)"
  using assms
  by (cases "TurnStatus e") (auto simp: observe_status_def set_open_def Let_def installTransaction_def merge_raise life_ok_def)

lemma install_observe:
  assumes "life_ok l"
  shows "installTransaction (lifecycle_Observe active e l) = lifecycle_Observe active e (installTransaction l)"
proof (cases "cl_baseStarted l")
  case None
  then show ?thesis by (simp add: installTransaction_def observe_base)
next
  case (Some b)
  define l1 where "l1 = (if cl_Status l = '''' then l\<lparr>cl_Status := ''idle''\<rparr> else l)"
  define l2 where "l2 = (if cl_started l1 = None
    then l1\<lparr>cl_started := Some Map.empty, cl_terminal := Some Map.empty\<rparr> else l1)"
  define l3 where "l3 = (if TurnID e \<noteq> '''' then l2\<lparr>cl_LatestTurnID := TurnID e\<rparr> else l2)"
  have ok: "life_ok l3" "cl_baseStarted l3 = Some b" "cl_started l3 \<noteq> None"
    using assms Some by (auto simp: life_ok_def l1_def l2_def l3_def)
  have i: "installTransaction l3 = (let k1 = (if cl_Status l = '''' then (installTransaction l)\<lparr>cl_Status := ''idle''\<rparr>
      else installTransaction l) in if TurnID e \<noteq> '''' then k1\<lparr>cl_LatestTurnID := TurnID e\<rparr> else k1)"
    using assms Some by (auto simp: l3_def l2_def l1_def installTransaction_def life_ok_def Let_def)
  let ?l4 = "observe_status active e l3"
  have ok4: "life_ok ?l4" "cl_baseStarted ?l4 = Some b"
    using ok life_ok_status by (simp_all add: status_base)
  obtain m where s: "cl_started (installTransaction l) = Some m" "cl_Status (installTransaction l) = cl_Status l"
    using Some by (simp add: installTransaction_def merge_flags_def)
  have four: "installTransaction ?l4 = observe_status active e (installTransaction l3)"
    using install_observe_status [OF ok(1) _ ok(3)] ok(2) by simp
  show ?thesis
  proof (cases "Type e \<noteq> EntryTurnMarker \<or> TurnStatus e = TurnUnset")
    case True
    then show ?thesis using s by (simp add: lifecycle_Observe_def install_update Let_def)
  next
    case False
    have "installTransaction (lifecycle_Observe active e l)
        = installTransaction (if latest_open ?l4 then set_open active ?l4 else ?l4)"
      using False by (simp add: lifecycle_Observe_def l1_def l2_def l3_def Let_def)
    also have "\<dots> = (let k4 = installTransaction ?l4 in if latest_open k4 then set_open active k4 else k4)"
      using install_latest_open [OF ok4] by (simp add: set_open_def install_update Let_def)
    also have "\<dots> = lifecycle_Observe active e (installTransaction l)"
      using False s by (simp add: four i lifecycle_Observe_def Let_def)
    finally show ?thesis .
  qed
qed

lemma install_observe_all:
  "life_ok l \<Longrightarrow> installTransaction (fold (lifecycle_Observe active) es l)
     = fold (lifecycle_Observe active) es (installTransaction l)"
  by (induction es arbitrary: l) (simp_all add: install_observe life_ok_observe)

lemma install_copy: "cl_baseStarted l = None \<Longrightarrow> life_ok l \<Longrightarrow> installTransaction (transactionCopy l) = l"
  by (cases l) (auto simp: installTransaction_def transactionCopy_def life_ok_def merge_flags_def)

definition observe_batch :: "bool \<Rightarrow> entry list \<Rightarrow> canonical_lifecycle \<Rightarrow> canonical_lifecycle" where
  "observe_batch active es l = installTransaction (fold (lifecycle_Observe active) es (transactionCopy l))"

text \<open>
  C27: Advancing the lifecycle in transactions, each observing a batch of entries on a copy and
  installing it, reaches the state that observing all entries one after the other reaches.
\<close>

theorem lifecycle_transactions_exact:
  "fold (observe_batch active) batches idle_lifecycle = DeriveCanonicalLifecycle (concat batches) active"
proof -
  have 1: "observe_batch active es l = fold (lifecycle_Observe active) es l"
    if "life_ok l" "cl_baseStarted l = None" for es l
  proof -
    have "life_ok (transactionCopy l)" using that by (simp add: life_ok_def transactionCopy_def)
    then show ?thesis using that by (simp add: observe_batch_def install_observe_all install_copy)
  qed
  have "fold (observe_batch active) batches l = fold (lifecycle_Observe active) (concat batches) l"
    if "life_ok l" "cl_baseStarted l = None" for l
    using that
  proof (induction batches arbitrary: l)
    case (Cons es batches)
    have "life_ok (fold (lifecycle_Observe active) es l)"
      "cl_baseStarted (fold (lifecycle_Observe active) es l) = None"
      using Cons.prems by (induction es arbitrary: l) (simp_all add: life_ok_observe observe_base)
    then show ?case using Cons.IH 1 [OF Cons.prems] by simp
  qed simp
  moreover have "cl_baseStarted idle_lifecycle = None" by (simp add: idle_lifecycle_def)
  ultimately show ?thesis by (simp add: DeriveCanonicalLifecycle_def life_ok_idle)
qed

section \<open>What is shown is valid\<close>

text \<open>
  The markers of a well-formed path name their turn, and a save point (or a marker of a status the
  reducer does not know) does not come before every start and end.
\<close>

definition decisive :: "entry \<Rightarrow> bool" where
  "decisive e \<longleftrightarrow> TurnStatus e \<in> {TurnStarted, TurnCompleted, TurnWaiting, TurnFailed, TurnAborted}"

fun well_marked :: "bool \<Rightarrow> entry list \<Rightarrow> bool" where
  "well_marked seen [] = True"
| "well_marked seen (e # es) =
    (if Type e \<noteq> EntryTurnMarker \<or> TurnStatus e = TurnUnset then well_marked seen es
     else \<not> blank (TurnID e) \<and> (seen \<or> decisive e) \<and> well_marked True es)"

definition shown_ok :: "bool \<Rightarrow> canonical_lifecycle \<Rightarrow> bool" where
  "shown_ok seen l \<longleftrightarrow> (if seen
     then \<not> blank (cl_LatestTurnID l) \<and> cl_Status l \<in> set (tl life_statuses)
       \<and> cl_Recoverable l = (cl_Status l = ''interrupted'')
     else cl_LatestTurnID l = '''' \<and> cl_Status l \<in> {'''', ''idle''} \<and> \<not> cl_Recoverable l)"

lemma shown_ok_status:
  "\<not> blank (cl_LatestTurnID l) \<Longrightarrow> decisive e \<or> shown_ok True l \<Longrightarrow> shown_ok True (observe_status True e l)"
  by (cases "TurnStatus e")
    (auto simp: shown_ok_def observe_status_def set_open_def decisive_def life_statuses_def Let_def)

lemma shown_ok_observe:
  assumes "shown_ok seen l" "Type e = EntryTurnMarker" "TurnStatus e \<noteq> TurnUnset"
    "\<not> blank (TurnID e)" "seen \<or> decisive e"
  shows "shown_ok True (lifecycle_Observe True e l)"
proof -
  define l3 where "l3 = (let l1 = (if cl_Status l = '''' then l\<lparr>cl_Status := ''idle''\<rparr> else l) in
    if cl_started l1 = None then l1\<lparr>cl_started := Some Map.empty, cl_terminal := Some Map.empty\<rparr> else l1)
    \<lparr>cl_LatestTurnID := TurnID e\<rparr>"
  have "TurnID e \<noteq> ''''" using assms(4) by auto
  then have o: "lifecycle_Observe True e l = (let l4 = observe_status True e l3 in
      if latest_open l4 then set_open True l4 else l4)"
    using assms(2,3) by (simp add: lifecycle_Observe_def l3_def Let_def)
  have latest: "\<not> blank (cl_LatestTurnID l3)" using assms(4) by (simp add: l3_def)
  have "decisive e \<or> shown_ok True l3"
    using assms by (cases seen) (auto simp: shown_ok_def l3_def life_statuses_def Let_def)
  from shown_ok_status [OF latest this] have "shown_ok True (observe_status True e l3)" .
  then show ?thesis by (simp add: o Let_def shown_ok_def set_open_def life_statuses_def)
qed

lemma shown_ok_skip:
  "shown_ok seen l \<Longrightarrow> Type e \<noteq> EntryTurnMarker \<or> TurnStatus e = TurnUnset \<Longrightarrow>
    shown_ok seen (lifecycle_Observe True e l)"
  by (auto simp: shown_ok_def lifecycle_Observe_def life_statuses_def Let_def)

lemma projection_facts:
  "lp_facts (fold (projection_Observe ask) path p) = fold (lifecycle_Observe True) path (lp_facts p)"
  by (induction path arbitrary: p) (simp_all add: projection_Observe_def Let_def split: option.splits)

lemma shown_ok_path:
  "shown_ok seen l \<Longrightarrow> well_marked seen path \<Longrightarrow> \<exists>s. shown_ok s (fold (lifecycle_Observe True) path l)"
proof (induction path arbitrary: seen l)
  case (Cons e path)
  show ?case
  proof (cases "Type e \<noteq> EntryTurnMarker \<or> TurnStatus e = TurnUnset")
    case True
    then show ?thesis using Cons.IH [OF shown_ok_skip [OF Cons.prems(1) True]] Cons.prems(2) by simp
  next
    case False
    then have "shown_ok True (lifecycle_Observe True e l)" "well_marked True path"
      using shown_ok_observe [OF Cons.prems(1)] Cons.prems(2) by auto
    then show ?thesis using Cons.IH by simp
  qed
qed auto

lemma validate_shown:
  assumes "sl_status l \<in> set life_statuses" "sl_phase l = ''idle'' \<or> sl_phase l = ''turn''"
    "sl_status l = ''running'' \<longrightarrow> sl_phase l = ''turn''" "sl_status l = ''idle'' \<longrightarrow> sl_latestTurnID l = ''''"
    "sl_status l \<noteq> ''idle'' \<longrightarrow> \<not> blank (sl_latestTurnID l)" "sl_recoverable l = (sl_status l = ''interrupted'')"
    "sl_status l \<noteq> ''waiting'' \<longrightarrow> sl_waitingPrompt l = ''''"
  shows "validate_life l = None"
  using assms by (auto simp: validate_life_def ValidateProjection_def CanAppendMessage_def)

lemma shown_statuses:
  "shown_ok s l \<Longrightarrow> (if cl_Status l = '''' then ''idle'' else cl_Status l) \<in> set life_statuses"
  "shown_ok s l \<Longrightarrow> cl_Status l \<noteq> ''idle'' \<and> cl_Status l \<noteq> '''' \<longleftrightarrow> s"
  by (cases s; auto simp: shown_ok_def life_statuses_def)+

lemma snapshot_valid:
  assumes "shown_ok s (lp_facts p)"
  shows "validate_life (Snapshot p phase) = None"
proof (rule validate_shown)
  let ?l = "Snapshot p phase"
  have i: "''interrupted'' \<in> set life_statuses" by (simp add: life_statuses_def)
  note st = shown_statuses [OF assms]
  show "sl_status ?l \<in> set life_statuses" using st(1) i by (simp add: Snapshot_def Let_def split: if_splits)
  show "sl_phase ?l = ''idle'' \<or> sl_phase ?l = ''turn''" by (simp add: Snapshot_def normalizePhase_def Let_def)
  show "sl_status ?l = ''running'' \<longrightarrow> sl_phase ?l = ''turn''" by (simp add: Snapshot_def Let_def)
  have s: "sl_status ?l \<noteq> ''idle'' \<longleftrightarrow> s" using st(2) by (auto simp: Snapshot_def Let_def)
  have l: "sl_latestTurnID ?l = cl_LatestTurnID (lp_facts p)" by (simp add: Snapshot_def Let_def)
  show "sl_status ?l = ''idle'' \<longrightarrow> sl_latestTurnID ?l = ''''" "sl_status ?l \<noteq> ''idle'' \<longrightarrow> \<not> blank (sl_latestTurnID ?l)"
    using assms s l by (auto simp: shown_ok_def split: if_splits)
  show "sl_recoverable ?l = (sl_status ?l = ''interrupted'')"
    using assms st(2) by (cases s) (auto simp: Snapshot_def shown_ok_def Let_def)
  show "sl_status ?l \<noteq> ''waiting'' \<longrightarrow> sl_waitingPrompt ?l = ''''" by (simp add: Snapshot_def Let_def)
qed

text \<open>
  C28: The status derived from a well-marked path passes the validation of status projections, in
  either phase: a running session has a phase, an idle one no turn, and exactly the
  interrupted ones are recoverable.
\<close>

theorem derived_life_valid:
  assumes "well_marked False path"
  shows "validate_life (Derive ask path phase) = None"
proof -
  have "shown_ok False zero_lifecycle" by (simp add: shown_ok_def zero_lifecycle_def idle_lifecycle_def)
  from shown_ok_path [OF this assms] obtain s where
    s: "shown_ok s (lp_facts (fold (projection_Observe ask) path \<lparr>lp_facts = zero_lifecycle, lp_waitingPrompts = []\<rparr>))"
    by (auto simp: projection_facts)
  then show ?thesis by (simp add: Derive_def snapshot_valid)
qed

definition life_path :: "entry list" where
  "life_path = [zero_entry\<lparr>Type := EntryTurnMarker, TurnID := ''a'', TurnStatus := TurnStarted\<rparr>,
     zero_entry\<lparr>Type := EntryTurnMarker, TurnID := ''a'', TurnStatus := TurnSavePoint\<rparr>]"

theorem derived_life_valid_witness:
  "sl_status (Derive (\<lambda>_. None) life_path ''idle'') = ''interrupted''
   \<and> sl_recoverable (Derive (\<lambda>_. None) life_path ''idle'')
   \<and> validate_life (Derive (\<lambda>_. None) life_path ''idle'') = None"
proof -
  have w: "well_marked False life_path" by code_simp
  have "fold (lifecycle_Observe True) life_path zero_lifecycle
      = zero_lifecycle\<lparr>cl_Status := ''running'', cl_LatestTurnID := ''a'', cl_started := Some [''a'' \<mapsto> True],
          cl_terminal := Some Map.empty\<rparr>"
    by (simp add: life_path_def lifecycle_Observe_def observe_status_def set_open_def latest_open_def flag_def
        raise_flag_def zero_lifecycle_def idle_lifecycle_def)
  then have "sl_status (Derive (\<lambda>_. None) life_path ''idle'') = ''interrupted''
    \<and> sl_recoverable (Derive (\<lambda>_. None) life_path ''idle'')"
    by (simp add: Derive_def Snapshot_def projection_facts normalizePhase_def Let_def)
  with derived_life_valid [OF w] show ?thesis by blast
qed

end
