(* ===== verification/ThreadContext.thy ===== *)
theory ThreadContext
  imports HostWork
begin

text \<open>
  The context facts of a thread (\<^verbatim>\<open>internal/sessiontree/thread_context.go\<close>): the policy a turn ran
  with and the updates of a context compaction, each a custom entry with exact metadata; and what
  makes the record of a compaction valid (\<^verbatim>\<open>observation/compaction.go\<close>,
  \<^verbatim>\<open>observation/compaction_decision.go\<close>). The JSON codecs, with the scan for forbidden member names, are
  parameters.
\<close>

section \<open>Compaction decisions\<close>

record compaction_capacity =
  cy_ActualImages :: int
  cy_LimitImages :: int
  cy_Kind :: string
  cy_Stage :: string
  cy_Source :: string
  cy_ActualBytes :: int
  cy_LimitBytes :: int

text \<open>Of the content distributions of an estimate only their presence counts.\<close>

record compaction_snapshot =
  sn_CalibrationBoundary :: string
  sn_CalibrationInvalidReason :: string
  sn_PayloadFingerprint :: string
  sn_Provider :: string
  sn_Model :: string
  sn_Estimate :: request_estimate
  sn_HasCharacters :: bool
  sn_HasDetails :: bool
  sn_Pressure :: context_pressure
  sn_CalibrationRequestID :: string

record compaction_decision =
  cn_Capacity :: "compaction_capacity option"
  cn_Pressure :: context_pressure
  cn_Before :: "compaction_snapshot option"
  cn_After :: "compaction_snapshot option"

definition capacity_Validate :: "compaction_capacity option \<Rightarrow> bool" where
  "capacity_Validate c0 \<longleftrightarrow>
    (case c0 of
       None \<Rightarrow> True
     | Some c \<Rightarrow>
         let staged = (cy_Stage c = ''prepare'' \<or> cy_Stage c = ''response'')
         in if cy_Kind c = ''image_count'' then
              staged \<and> cy_Source c = ''provider'' \<and> cy_ActualImages c > cy_LimitImages c
              \<and> cy_LimitImages c > 0 \<and> cy_ActualBytes c = 0 \<and> cy_LimitBytes c = 0
            else if cy_Kind c = ''image_bytes'' then
              staged \<and> cy_Source c = ''provider'' \<and> cy_ActualBytes c > cy_LimitBytes c
              \<and> cy_LimitBytes c > 0 \<and> cy_ActualImages c = 0 \<and> cy_LimitImages c = 0
            else
              cy_Kind c = ''request_bytes''
              \<and> (cy_Stage c = ''prepare'' \<and> cy_Source c = ''host_policy'' \<and> cy_LimitBytes c > 0
                   \<and> cy_ActualBytes c > cy_LimitBytes c
                 \<or> cy_Stage c = ''response'' \<and> cy_Source c = ''provider'' \<and> cy_ActualBytes c = 0
                   \<and> cy_LimitBytes c = 0)
              \<and> cy_ActualImages c = 0 \<and> cy_LimitImages c = 0)"

definition validateCompactionPressure :: "context_pressure \<Rightarrow> bool" where
  "validateCompactionPressure p \<longleftrightarrow>
     \<not> (cp_ProjectedInputTokens p < 0 \<or> cp_WindowInputTokens p < 0 \<or> cp_RequestOutputTokens p < 0
        \<or> cp_SafetyMarginTokens p < 0 \<or> cp_ContextWindowTokens p \<le> 0 \<or> cp_ThresholdTokens p \<le> 0
        \<or> cp_RequestSafeLimit p \<le> 0)"

definition snapshot_Validate :: "compaction_snapshot option \<Rightarrow> bool" where
  "snapshot_Validate s0 \<longleftrightarrow>
    (case s0 of
       None \<Rightarrow> True
     | Some s \<Rightarrow> let e = sn_Estimate s; p = sn_Pressure s in
         \<not> (blank (sn_PayloadFingerprint s) \<or> int (length (sn_PayloadFingerprint s)) > 512
            \<or> ContainsAny (sn_PayloadFingerprint s) [bytes [13], bytes [10], bytes [0]])
       \<and> \<not> (sn_Provider s = '''' \<or> sn_Model s = '''' \<or> re_Source e = '''' \<or> re_Method e = '''')
       \<and> validateCompactionPressure p
       \<and> \<not> (re_EstimatedInputTokens e < 0 \<or> re_PrefixTokens e < 0 \<or> re_MessageTokens e < 0
            \<or> re_ToolDefinitionTokens e < 0)
       \<and> \<not> (sn_HasCharacters s \<or> sn_HasDetails s)
       \<and> (cp_Source p = PressureSourceUsageAnchoredDelta) = (sn_CalibrationRequestID s \<noteq> ''''))"

definition decision_Validate :: "compaction_decision option \<Rightarrow> bool" where
  "decision_Validate d0 \<longleftrightarrow>
    (case d0 of
       None \<Rightarrow> True
     | Some d \<Rightarrow>
         capacity_Validate (cn_Capacity d)
       \<and> \<not> (cn_Before d = None \<and> cn_After d = None \<and> cn_Capacity d = None)
       \<and> validateCompactionPressure (cn_Pressure d)
       \<and> snapshot_Validate (cn_Before d) \<and> snapshot_Validate (cn_After d))"

definition compaction_statuses :: "(string \<times> string) list" where
  "compaction_statuses = [(''start'', ''running''), (''complete'', ''compacted''),
     (''failed'', ''failed''), (''cancelled'', ''cancelled''), (''noop'', ''noop'')]"

text \<open>\<open>CompactionEvent.Validate\<close>, on the fields it reads.\<close>

definition event_Validate :: "compaction_decision option \<Rightarrow> string \<Rightarrow> string \<Rightarrow> bool" where
  "event_Validate d phase status \<longleftrightarrow> decision_Validate d
     \<and> phase \<in> fst ` set compaction_statuses \<and> status \<in> snd ` set compaction_statuses
     \<and> map_of compaction_statuses phase = Some status"

section \<open>The facts and their entries\<close>

record thread_policy =
  tp_ModelMaxOutputTokens :: int
  tp_ContextWindowTokens :: int
  tp_MaxOutputTokens :: int
  tp_ReservedOutputTokens :: int

record thread_policy_record =
  pr_Provider :: string
  pr_Model :: string
  pr_Policy :: thread_policy

record thread_compaction =
  tc_Decision :: "compaction_decision option"
  tc_RunID :: string
  tc_ThreadID :: string
  tc_TurnID :: string
  tc_Step :: int
  tc_OperationID :: string
  tc_RequestID :: string
  tc_Phase :: string
  tc_Status :: string
  tc_Trigger :: string
  tc_Reason :: string
  tc_Source :: string
  tc_TokensBefore :: int
  tc_TokensAfterEstimate :: int
  tc_Error :: string
  tc_ObservedAt :: go_time

record context_codec =
  cx_policy_json :: "thread_policy \<Rightarrow> string"
  cx_policy :: "string \<Rightarrow> thread_policy option"
  cx_compaction_json :: "thread_compaction \<Rightarrow> string"
  cx_compaction :: "string \<Rightarrow> thread_compaction option"

definition ThreadContextPolicyEntryKind :: string where
  "ThreadContextPolicyEntryKind = ''thread_context_policy''"
definition ThreadContextCompactionEntryKind :: string where
  "ThreadContextCompactionEntryKind = ''thread_context_compaction''"

definition ThreadContextEntryKind :: "entry \<Rightarrow> string" where
  "ThreadContextEntryKind e =
    (if Type e \<noteq> EntryCustom then '''' else trim_space (mget (Metadata e) ''kind''))"

definition validateThreadContextEntryShape :: "entry \<Rightarrow> string \<Rightarrow> st_error option" where
  "validateThreadContextEntryShape e kind =
    (if Type e \<noteq> EntryCustom \<or> ThreadContextEntryKind e \<noteq> kind
        \<or> trim_space (mget (Metadata e) ''type'') \<noteq> kind
     then Some (ErrMsg ''invalid entry shape'')
     else if blank (ThreadID e) \<or> blank (TurnID e) \<or> blank (RunID e)
     then Some (ErrMsg ''entry requires thread, turn, and run identity'')
     else None)"

text \<open>\<open>decodeStrictThreadContextJSON\<close>; the trimmed text goes to the codec.\<close>

definition decode_strict :: "(string \<Rightarrow> 'a option) \<Rightarrow> string \<Rightarrow> 'a st_result" where
  "decode_strict decode raw0 =
    (let raw = trim_space raw0 in
     if raw = '''' then Inl (ErrMsg ''thread context payload is required'')
     else (case decode raw of None \<Rightarrow> Inl (ErrMsg ''decode thread context'') | Some x \<Rightarrow> Inr x))"

definition requireExactThreadContextMetadata :: "meta_map \<Rightarrow> string list \<Rightarrow> bool" where
  "requireExactThreadContextMetadata metadata keys \<longleftrightarrow>
     length (remdups (map fst metadata)) = length keys
   \<and> list_all (\<lambda>k. map_of metadata k \<noteq> None) keys"

definition encodeThreadContextPolicyMetadata ::
  "context_codec \<Rightarrow> thread_policy_record \<Rightarrow> meta_map st_result" where
  "encodeThreadContextPolicyMetadata cx rec =
    (if blank (pr_Provider rec) \<or> blank (pr_Model rec) \<or> tp_ContextWindowTokens (pr_Policy rec) \<le> 0
     then Inl (ErrMsg ''thread context policy requires provider, model, and context window tokens'')
     else Inr [(''kind'', ThreadContextPolicyEntryKind), (''type'', ThreadContextPolicyEntryKind),
               (''provider'', trim_space (pr_Provider rec)), (''model'', trim_space (pr_Model rec)),
               (''context_policy_json'', cx_policy_json cx (pr_Policy rec))])"

definition decodeThreadContextPolicyMetadata ::
  "context_codec \<Rightarrow> meta_map \<Rightarrow> thread_policy_record st_result" where
  "decodeThreadContextPolicyMetadata cx metadata =
    (if \<not> requireExactThreadContextMetadata metadata
            [''kind'', ''type'', ''provider'', ''model'', ''context_policy_json'']
     then Inl (ErrMsg ''thread context metadata shape is invalid'')
     else
       let prov = trim_space (mget metadata ''provider''); model = trim_space (mget metadata ''model'')
       in if prov = '''' \<or> model = '''' then Inl (ErrMsg ''thread context policy requires provider and model'')
          else (case decode_strict (cx_policy cx) (mget metadata ''context_policy_json'') of
             Inl err \<Rightarrow> Inl err
           | Inr p \<Rightarrow>
               if tp_ContextWindowTokens p \<le> 0
               then Inl (ErrMsg ''thread context policy requires context window tokens'')
               else Inr \<lparr>pr_Provider = prov, pr_Model = model, pr_Policy = p\<rparr>))"

definition NewThreadContextPolicyEntry ::
  "context_codec \<Rightarrow> string \<Rightarrow> string \<Rightarrow> string \<Rightarrow> string \<Rightarrow> string \<Rightarrow> policy \<Rightarrow> entry st_result" where
  "NewThreadContextPolicyEntry cx threadID turnID runID provName modelName p =
    (let t = trim_space threadID; u = trim_space turnID; r = trim_space runID;
         pn = trim_space provName; mn = trim_space modelName; n = Normalize p
     in if t = '''' \<or> u = '''' \<or> r = '''' \<or> pn = '''' \<or> mn = ''''
        then Inl (ErrMsg ''thread context policy requires thread, turn, run, provider, and model'')
        else (case encodeThreadContextPolicyMetadata cx \<lparr>pr_Provider = pn, pr_Model = mn,
                pr_Policy = \<lparr>tp_ModelMaxOutputTokens = ModelMaxOutputTokens n,
                  tp_ContextWindowTokens = ContextWindowTokens n, tp_MaxOutputTokens = MaxOutputTokens n,
                  tp_ReservedOutputTokens = ReservedOutputTokens n\<rparr>\<rparr> of
           Inl err \<Rightarrow> Inl err
         | Inr metadata \<Rightarrow> Inr (zero_entry\<lparr>ThreadID := t, TurnID := u, RunID := r,
             Type := EntryCustom, Metadata := metadata\<rparr>)))"

definition DecodeThreadContextPolicyEntry ::
  "context_codec \<Rightarrow> entry \<Rightarrow> thread_policy_record st_result" where
  "DecodeThreadContextPolicyEntry cx e =
    (case validateThreadContextEntryShape e ThreadContextPolicyEntryKind of
       Some err \<Rightarrow> Inl err
     | None \<Rightarrow> decodeThreadContextPolicyMetadata cx (Metadata e))"

definition validateThreadContextCompaction :: "thread_compaction \<Rightarrow> st_error option" where
  "validateThreadContextCompaction c =
    (if blank (tc_OperationID c) then Some (ErrMsg ''thread context compaction requires operation id'')
     else if blank (tc_RunID c) \<or> blank (tc_ThreadID c) \<or> blank (tc_TurnID c) \<or> blank (tc_RequestID c)
     then Some (ErrMsg ''thread context compaction requires run, thread, turn, and request identities'')
     else if \<not> event_Validate (tc_Decision c) (tc_Phase c) (tc_Status c)
     then Some (ErrMsg ''invalid compaction event'')
     else None)"

definition encodeThreadContextCompactionMetadata ::
  "context_codec \<Rightarrow> thread_compaction \<Rightarrow> meta_map st_result" where
  "encodeThreadContextCompactionMetadata cx c =
    (case validateThreadContextCompaction c of
       Some err \<Rightarrow> Inl err
     | None \<Rightarrow> Inr [(''kind'', ThreadContextCompactionEntryKind),
         (''type'', ThreadContextCompactionEntryKind),
         (''context_compaction_json'',
            cx_compaction_json cx (c\<lparr>tc_RunID := '''', tc_ThreadID := '''', tc_TurnID := ''''\<rparr>))])"

definition NewThreadContextCompactionEntry :: "context_codec \<Rightarrow> thread_compaction \<Rightarrow> entry st_result" where
  "NewThreadContextCompactionEntry cx c =
    (case encodeThreadContextCompactionMetadata cx c of
       Inl err \<Rightarrow> Inl err
     | Inr metadata \<Rightarrow> Inr (zero_entry\<lparr>ThreadID := trim_space (tc_ThreadID c),
         TurnID := trim_space (tc_TurnID c), RunID := trim_space (tc_RunID c),
         Type := EntryCustom, Metadata := metadata\<rparr>))"

definition DecodeThreadContextCompactionEntry ::
  "context_codec \<Rightarrow> entry \<Rightarrow> thread_compaction st_result" where
  "DecodeThreadContextCompactionEntry cx e =
    (case validateThreadContextEntryShape e ThreadContextCompactionEntryKind of
       Some err \<Rightarrow> Inl err
     | None \<Rightarrow> (case decode_strict (cx_compaction cx) (mget (Metadata e) ''context_compaction_json'') of
         Inl err \<Rightarrow> Inl err
       | Inr c0 \<Rightarrow>
           let c = c0\<lparr>tc_ThreadID := trim_space (ThreadID e), tc_TurnID := trim_space (TurnID e),
                      tc_RunID := trim_space (RunID e)\<rparr>
           in (case validateThreadContextCompaction c of Some err \<Rightarrow> Inl err | None \<Rightarrow> Inr c)))"

section \<open>Round trips\<close>

text \<open>
  What the code relies on of \<open>encoding/json\<close>: the text written for a fact is not empty and decodes to
  that fact. The record of a compaction is written without its identities.
\<close>

definition anonymous :: "thread_compaction \<Rightarrow> thread_compaction" where
  "anonymous c = c\<lparr>tc_RunID := '''', tc_ThreadID := '''', tc_TurnID := ''''\<rparr>"

definition reads_policy :: "context_codec \<Rightarrow> thread_policy \<Rightarrow> bool" where
  "reads_policy cx p \<longleftrightarrow>
     cx_policy cx (trim_space (cx_policy_json cx p)) = Some p \<and> \<not> blank (cx_policy_json cx p)"

definition reads_compaction :: "context_codec \<Rightarrow> thread_compaction \<Rightarrow> bool" where
  "reads_compaction cx c \<longleftrightarrow>
     cx_compaction cx (trim_space (cx_compaction_json cx (anonymous c))) = Some (anonymous c)
   \<and> \<not> blank (cx_compaction_json cx (anonymous c))"

lemma decode_strict_ok: "\<not> blank s \<Longrightarrow> decode (trim_space s) = Some x \<Longrightarrow> decode_strict decode s = Inr x"
  by (simp add: decode_strict_def blank_def Let_def)

lemma kind_trim [simp]:
  "trim_space ThreadContextPolicyEntryKind = ThreadContextPolicyEntryKind"
  "trim_space ThreadContextCompactionEntryKind = ThreadContextCompactionEntryKind"
  by code_simp+

text \<open>
  C29: The record of a compaction survives the journal: an entry made from a valid record decodes to
  that record, with the identities trimmed.
\<close>

theorem compaction_entry_roundtrip:
  assumes "reads_compaction cx c" "NewThreadContextCompactionEntry cx c = Inr e"
  shows "DecodeThreadContextCompactionEntry cx e
    = Inr (c\<lparr>tc_ThreadID := trim_space (tc_ThreadID c), tc_TurnID := trim_space (tc_TurnID c),
             tc_RunID := trim_space (tc_RunID c)\<rparr>)"
proof -
  have v: "validateThreadContextCompaction c = None" and e: "e = zero_entry\<lparr>ThreadID := trim_space (tc_ThreadID c),
      TurnID := trim_space (tc_TurnID c), RunID := trim_space (tc_RunID c), Type := EntryCustom,
      Metadata := [(''kind'', ThreadContextCompactionEntryKind), (''type'', ThreadContextCompactionEntryKind),
        (''context_compaction_json'',
           cx_compaction_json cx (c\<lparr>tc_RunID := '''', tc_ThreadID := '''', tc_TurnID := ''''\<rparr>))]\<rparr>"
    using assms(2)
    by (auto simp: NewThreadContextCompactionEntry_def encodeThreadContextCompactionMetadata_def
        split: option.splits)
  have d: "decode_strict (cx_compaction cx) (cx_compaction_json cx (c\<lparr>tc_RunID := '''', tc_ThreadID := '''', tc_TurnID := ''''\<rparr>))
      = Inr (c\<lparr>tc_RunID := '''', tc_ThreadID := '''', tc_TurnID := ''''\<rparr>)"
    using assms(1) unfolding reads_compaction_def anonymous_def by (blast intro: decode_strict_ok)
  have s: "validateThreadContextEntryShape e ThreadContextCompactionEntryKind = None"
    using v by (simp add: e validateThreadContextEntryShape_def ThreadContextEntryKind_def mget_def
        validateThreadContextCompaction_def blank_def split: if_splits)
  have "validateThreadContextCompaction (c\<lparr>tc_ThreadID := trim_space (tc_ThreadID c),
      tc_TurnID := trim_space (tc_TurnID c), tc_RunID := trim_space (tc_RunID c)\<rparr>) = None"
    using v by (simp add: validateThreadContextCompaction_def blank_def split: if_splits)
  then show ?thesis
    using s d by (simp add: DecodeThreadContextCompactionEntry_def e mget_def Let_def)
qed

text \<open>A codec that writes the operation and reads back a record that failed before its first step.\<close>

definition failed_compaction :: "string \<Rightarrow> thread_compaction" where
  "failed_compaction i = \<lparr>tc_Decision = None, tc_RunID = ''r1'', tc_ThreadID = ''t1'', tc_TurnID = '' u1'',
     tc_Step = 0, tc_OperationID = i, tc_RequestID = ''q1'', tc_Phase = ''failed'', tc_Status = ''failed'',
     tc_Trigger = '''', tc_Reason = '''', tc_Source = '''', tc_TokensBefore = 9, tc_TokensAfterEstimate = 0,
     tc_Error = ''no route'', tc_ObservedAt = 5\<rparr>"

definition operation_codec :: context_codec where
  "operation_codec = \<lparr>cx_policy_json = (\<lambda>p. ''x''), cx_policy = (\<lambda>s. None),
     cx_compaction_json = tc_OperationID, cx_compaction = (\<lambda>s. Some (anonymous (failed_compaction s)))\<rparr>"

theorem compaction_entry_roundtrip_witness:
  "let cx = operation_codec; c = failed_compaction ''op7'' in
   reads_compaction cx c \<and> (\<exists>e. NewThreadContextCompactionEntry cx c = Inr e
     \<and> DecodeThreadContextCompactionEntry cx e = Inr (c\<lparr>tc_ThreadID := ''t1'', tc_TurnID := ''u1'', tc_RunID := ''r1''\<rparr>))"
proof -
  have r: "reads_compaction operation_codec (failed_compaction ''op7'')" by code_simp
  have "\<not> isl (NewThreadContextCompactionEntry operation_codec (failed_compaction ''op7''))" by code_simp
  then obtain e where e: "NewThreadContextCompactionEntry operation_codec (failed_compaction ''op7'') = Inr e"
    by (cases "NewThreadContextCompactionEntry operation_codec (failed_compaction ''op7'')") auto
  have "trim_space (tc_ThreadID (failed_compaction ''op7'')) = ''t1''" "trim_space (tc_TurnID (failed_compaction ''op7'')) = ''u1''"
    "trim_space (tc_RunID (failed_compaction ''op7'')) = ''r1''" by code_simp+
  then show ?thesis using compaction_entry_roundtrip [OF r e] r e by (auto simp: Let_def)
qed

definition recorded_policy :: "policy \<Rightarrow> thread_policy" where
  "recorded_policy p = \<lparr>tp_ModelMaxOutputTokens = ModelMaxOutputTokens (Normalize p),
     tp_ContextWindowTokens = ContextWindowTokens (Normalize p), tp_MaxOutputTokens = MaxOutputTokens (Normalize p),
     tp_ReservedOutputTokens = ReservedOutputTokens (Normalize p)\<rparr>"

lemma policy_entry_roundtrip:
  assumes "reads_policy cx (recorded_policy p)" "NewThreadContextPolicyEntry cx t u r pn mn p = Inr e"
  shows "DecodeThreadContextPolicyEntry cx e
    = Inr \<lparr>pr_Provider = trim_space pn, pr_Model = trim_space mn, pr_Policy = recorded_policy p\<rparr>"
proof -
  define q where "q = recorded_policy p"
  define m where "m = [(''kind'', ThreadContextPolicyEntryKind), (''type'', ThreadContextPolicyEntryKind),
      (''provider'', trim_space pn), (''model'', trim_space mn), (''context_policy_json'', cx_policy_json cx q)]"
  have ne: "trim_space t \<noteq> ''''" "trim_space u \<noteq> ''''" "trim_space r \<noteq> ''''" "trim_space pn \<noteq> ''''"
    "trim_space mn \<noteq> ''''" and w: "0 < tp_ContextWindowTokens q"
    and e: "e = zero_entry\<lparr>ThreadID := trim_space t, TurnID := trim_space u, RunID := trim_space r,
      Type := EntryCustom, Metadata := m\<rparr>"
    using assms(2) unfolding NewThreadContextPolicyEntry_def encodeThreadContextPolicyMetadata_def Let_def q_def m_def recorded_policy_def
    by (simp_all split: if_splits add: blank_def)
  have look: "mget m ''kind'' = ThreadContextPolicyEntryKind" "mget m ''type'' = ThreadContextPolicyEntryKind"
    "mget m ''provider'' = trim_space pn" "mget m ''model'' = trim_space mn"
    "mget m ''context_policy_json'' = cx_policy_json cx q"
    by (simp_all add: m_def mget_def)
  have exact: "requireExactThreadContextMetadata m [''kind'', ''type'', ''provider'', ''model'', ''context_policy_json'']"
    by (simp add: m_def requireExactThreadContextMetadata_def)
  have d: "decode_strict (cx_policy cx) (cx_policy_json cx q) = Inr q"
    using assms(1) unfolding reads_policy_def q_def by (blast intro: decode_strict_ok)
  have "decodeThreadContextPolicyMetadata cx m = Inr \<lparr>pr_Provider = trim_space pn, pr_Model = trim_space mn, pr_Policy = q\<rparr>"
    using ne w by (simp add: decodeThreadContextPolicyMetadata_def exact look d)
  moreover have "validateThreadContextEntryShape e ThreadContextPolicyEntryKind = None"
    using ne by (simp add: e validateThreadContextEntryShape_def ThreadContextEntryKind_def look blank_def)
  ultimately show ?thesis by (simp add: DecodeThreadContextPolicyEntry_def e q_def)
qed

end
