(* ===== verification/TurnRequests.thy ===== *)
theory TurnRequests
  imports EffectAttempts ThreadContext
begin

text \<open>
  What is asked of a turn (\<^verbatim>\<open>internal/sessiontree/turn_authority.go\<close>): the requests to accept, finish,
  fail and cancel one, their validation, the boundary a retry may start from, and the provider
  state record of a thread (with \<^verbatim>\<open>turn_failure.go\<close>, \<^verbatim>\<open>session/tool_history.go\<close>,
  \<^verbatim>\<open>session/provider_history.go\<close>).
\<close>

section \<open>Requests and results\<close>

record accept_request =
  aq_ContinueGoal :: bool
  aq_TurnKind :: string
  aq_ThreadID :: string
  aq_TurnID :: string
  aq_RunID :: string
  aq_LogicalRequestID :: string
  aq_Input :: message
  aq_RetrySourceTurnID :: string
  aq_RetrySourceEntryID :: string
  aq_PromotedQueueID :: string
  aq_PromotionRequestKey :: string
  aq_PromotionRequestFingerprint :: string
  aq_InputRequestFingerprint :: string
  aq_RequestFingerprint :: string
  aq_Now :: go_time

record terminal_outcome =
  to_Failure :: "entry option"
  to_Terminal :: entry

record accept_result =
  ar_TurnStarted :: entry
  ar_UserMessage :: entry
  ar_BaseLeafID :: string
  ar_Terminal :: "terminal_outcome option"
  ar_Replayed :: bool

record finish_turn_request =
  fq_PreserveProviderState :: bool
  fq_StateCompatibilityKey :: string
  fq_ThreadID :: string
  fq_TurnID :: string
  fq_RunID :: string
  fq_TerminalEntryID :: string
  fq_Status :: turn_status
  fq_Metadata :: meta_map
  fq_FailureMessage :: string
  fq_ProviderState :: "provider_state_record option"
  fq_ClearProviderState :: bool
  fq_OutcomeFingerprint :: string
  fq_Now :: go_time

record finish_turn_result =
  ft_Failure :: "entry option"
  ft_Terminal :: entry
  ft_Replayed :: bool

record fail_request =
  uq_ThreadID :: string
  uq_TurnID :: string
  uq_RunID :: string
  uq_Now :: go_time

record fail_result =
  ur_InteractionResolutions :: "entry list"
  ur_ToolResults :: "entry list"
  ur_Failure :: entry
  ur_Terminal :: entry
  ur_Replayed :: bool

record cancel_request =
  cq_PreserveProviderState :: bool
  cq_RequestOnly :: bool
  cq_CancellationMetadata :: meta_map
  cq_ThreadID :: string
  cq_TurnID :: string
  cq_RunID :: string
  cq_CancelEntryID :: string
  cq_TerminalEntryID :: string
  cq_RequestKey :: string
  cq_RequestFingerprint :: string
  cq_OutcomeFingerprint :: string
  cq_InteractionResolutionPayload :: string
  cq_Metadata :: meta_map
  cq_ClearProviderState :: bool
  cq_Now :: go_time

record cancel_result =
  cr_CancelRequest :: entry
  cr_InteractionResolutions :: "entry list"
  cr_ToolResults :: "entry list"
  cr_Terminal :: entry
  cr_Replayed :: bool

section \<open>Failure codes and tool histories\<close>

definition failure_codes :: "string list" where
  "failure_codes = [''cancelled'', ''interrupted'', ''provider'', ''tool_dispatch'', ''control_error'',
     ''effect_outcome_unknown'', ''authorization_unavailable'', ''authorization_contract'', ''storage'',
     ''engine_contract'', ''context_budget_invalid'', ''context_fixed_overhead'',
     ''context_compaction_limit'', ''context_prefix_drift'', ''model_context_unavailable'',
     ''legacy_unclassified'']"

definition ValidTurnFailureCode :: "string \<Rightarrow> bool" where
  "ValidTurnFailureCode code \<longleftrightarrow> code \<in> set failure_codes"

definition EffectOutcomeUnknownFailureMessage :: string where
  "EffectOutcomeUnknownFailureMessage = ''Tool side effects could not be confirmed. The turn was stopped to avoid duplicate execution.''"

text \<open>The loop of \<open>ValidateToolHistory\<close> over the pending calls and whether results have started.\<close>

fun tool_history :: "(string \<times> string) list \<Rightarrow> bool \<Rightarrow> message list \<Rightarrow> bool" where
  "tool_history pending started [] \<longleftrightarrow> pending = []"
| "tool_history pending started (m # ms) \<longleftrightarrow>
    (if msg_Role m = Assistant \<and> msg_ToolCallID m \<noteq> '''' then
       \<not> (started \<or> msg_ToolName m = '''') \<and> map_of pending (msg_ToolCallID m) = None
       \<and> tool_history (AList.update (msg_ToolCallID m) (msg_ToolName m) pending) started ms
     else if msg_Role m = Tool then
       map_of pending (msg_ToolCallID m) = Some (msg_ToolName m)
       \<and> (let rest = AList.delete (msg_ToolCallID m) pending in tool_history rest (rest \<noteq> []) ms)
     else pending = [] \<and> tool_history pending started ms)"

definition ValidateToolHistory :: "message list \<Rightarrow> bool" where
  "ValidateToolHistory ms = tool_history [] False ms"

definition HasRetryEligibleDurableInput :: "message \<Rightarrow> bool" where
  "HasRetryEligibleDurableInput m \<longleftrightarrow> msg_Role m = User \<and> msg_Kind m = MessageKindNormal
     \<and> (\<not> blank (msg_Content m) \<or> msg_Attachments m \<noteq> [] \<or> msg_References m \<noteq> [] \<or> msg_Context m \<noteq> [])"

section \<open>Validation\<close>

definition ValidateAcceptTurnRequestEnvelope :: "accept_request \<Rightarrow> st_error option" where
  "ValidateAcceptTurnRequestEnvelope req =
    (if blank (aq_ThreadID req) \<or> blank (aq_TurnID req) \<or> blank (aq_RunID req)
     then Some (ErrMsg ''turn acceptance requires thread, turn, and run identities'')
     else if blank (aq_RequestFingerprint req)
     then Some (ErrMsg ''turn acceptance request fingerprint is required'') else None)"

definition validate_typed_turn :: "accept_request \<Rightarrow> st_error option" where
  "validate_typed_turn req =
    (let kind = aq_TurnKind req; turn = aq_RetrySourceTurnID req; source = aq_RetrySourceEntryID req;
         input = aq_Input req
     in if turn = aq_TurnID req
           \<or> kind = ''goal_continuation'' \<and> \<not> aq_ContinueGoal req \<and> turn = ''''
        then Some ErrAuthorityCorrupt
        else if kind = ''context_compaction'' \<and> (turn \<noteq> '''' \<or> source \<noteq> '''')
           \<or> (turn = '''') \<noteq> (source = '''') \<or> aq_PromotedQueueID req \<noteq> ''''
           \<or> msg_Role input \<noteq> RoleOther '''' \<or> msg_Content input \<noteq> '''' \<or> msg_Attachments input \<noteq> []
           \<or> msg_References input \<noteq> [] \<or> msg_Context input \<noteq> []
        then Some (ErrMsg ''typed turn has invalid user input, queue promotion, or retry source'')
        else None)"

definition validate_user_turn ::
  "(message_attachment list \<Rightarrow> bool) \<Rightarrow> accept_request \<Rightarrow> st_error option" where
  "validate_user_turn attachments_ok req =
    (let turn = trim_space (aq_RetrySourceTurnID req); source = trim_space (aq_RetrySourceEntryID req);
         input = aq_Input req;
         no_input = (blank (msg_Content input) \<and> msg_Attachments input = [] \<and> msg_References input = []
           \<and> msg_Context input = [])
     in if (turn = '''') \<noteq> (source = '''')
        then Some (ErrMsg ''retry acceptance requires source turn and entry identities'')
        else if turn = '''' then
          (if msg_Role input \<noteq> User then Some (ErrMsg ''turn acceptance input must be a user message'')
           else if no_input
           then Some (ErrMsg ''turn acceptance requires text, attachments, references, or context'')
           else if \<not> attachments_ok (msg_Attachments input) then Some (ErrMsg ''invalid message attachments'')
           else if \<not> ValidateMessageContext (msg_Context input) then Some (ErrMsg ''invalid message context'')
           else if \<not> ValidateMessageReferences (msg_References input)
           then Some (ErrMsg ''invalid message references'') else None)
        else if turn = trim_space (aq_TurnID req)
        then Some (ErrMsg ''retry source turn must differ from retry turn'')
        else if msg_Role input \<noteq> RoleOther '''' \<or> \<not> no_input
        then Some (ErrMsg ''retry acceptance cannot contain a replacement user message'')
        else None)"

definition validateAcceptTurnRequest ::
  "accept_request \<Rightarrow> (message_attachment list \<Rightarrow> bool) \<Rightarrow> st_error option" where
  "validateAcceptTurnRequest req attachments_ok =
    (case ValidateAcceptTurnRequestEnvelope req of
       Some err \<Rightarrow> Some err
     | None \<Rightarrow>
         let kind = aq_TurnKind req in
         if kind \<notin> {'''', ''context_compaction'', ''goal_continuation'', ''host_work_continuation''}
         then Some (ErrMsg ''unknown turn kind'')
         else if aq_ContinueGoal req \<and> kind \<noteq> ''goal_continuation'' then Some ErrAuthorityCorrupt
         else if kind \<noteq> '''' then validate_typed_turn req
         else validate_user_turn attachments_ok req)"

definition ValidateAcceptTurnRequest :: "accept_request \<Rightarrow> st_error option" where
  "ValidateAcceptTurnRequest req = validateAcceptTurnRequest req ValidateMessageAttachments"

definition ValidateAcceptTurnReplayRequest :: "accept_request \<Rightarrow> st_error option" where
  "ValidateAcceptTurnReplayRequest req = validateAcceptTurnRequest req ValidateStoredMessageAttachments"

definition provider_ValidateState :: "provider_state \<Rightarrow> st_error option" where
  "provider_ValidateState s =
    (if ps_ReusePolicy s \<noteq> '''' \<and> ps_ReusePolicy s \<noteq> ''canonical_history''
     then Some (ErrMsg ''unknown provider state reuse policy'') else None)"

definition validateProviderStateRecord :: "provider_state_record \<Rightarrow> st_error option" where
  "validateProviderStateRecord rec =
    (case provider_ValidateState (psr_State rec) of
       Some err \<Rightarrow> Some err
     | None \<Rightarrow>
         if blank (psr_ThreadID rec) \<or> blank (psr_LeafEntryID rec) \<or> blank (psr_CompatibilityKey rec)
            \<or> blank (ps_Kind (psr_State rec)) \<or> blank (ps_ID (psr_State rec))
            \<or> blank (psr_CreatedByRunID rec) \<or> blank (psr_CreatedByTurnID rec)
            \<or> zero_time (psr_UpdatedAt rec)
         then Some (ErrMsg ''provider state record is incomplete'') else None)"

definition failure_shape_error :: "finish_turn_request \<Rightarrow> st_error option" where
  "failure_shape_error req =
    (let code = trim_space (mget (fq_Metadata req) ''failure_code'');
         text' = trim_space (fq_FailureMessage req)
     in case fq_Status req of
          TurnFailed \<Rightarrow>
            if text' = '''' \<or> \<not> ValidTurnFailureCode code \<or> code = ''cancelled'' \<or> code = ''interrupted''
            then Some (ErrMsg ''failed turn requires a failure message and valid failure code'') else None
        | TurnAborted \<Rightarrow>
            if code \<noteq> ''cancelled''
            then Some (ErrMsg ''aborted turn requires the cancelled failure code'') else None
        | _ \<Rightarrow>
            if text' \<noteq> '''' \<or> code \<noteq> ''''
            then Some (ErrMsg ''successful or waiting turn must not include a failure'') else None)"

definition ValidateFinishTurnRequest :: "finish_turn_request \<Rightarrow> st_error option" where
  "ValidateFinishTurnRequest req =
    (if blank (fq_ThreadID req) \<or> blank (fq_TurnID req) \<or> blank (fq_RunID req)
        \<or> blank (fq_TerminalEntryID req) \<or> blank (fq_OutcomeFingerprint req)
     then Some (ErrMsg ''turn finish requires thread, turn, run, terminal entry, and outcome identities'')
     else if fq_Status req \<notin> {TurnCompleted, TurnWaiting, TurnFailed, TurnAborted}
     then Some (ErrMsg ''invalid terminal turn status'')
     else (case failure_shape_error req of
        Some err \<Rightarrow> Some err
      | None \<Rightarrow>
          if fq_ProviderState req \<noteq> None \<and> (fq_ClearProviderState req \<or> fq_PreserveProviderState req)
             \<or> fq_ClearProviderState req \<and> fq_PreserveProviderState req
          then Some (ErrMsg ''turn finish provider state mutation is ambiguous'')
          else (case fq_ProviderState req of
             None \<Rightarrow> None
           | Some rec \<Rightarrow> (case validateProviderStateRecord rec of
               Some err \<Rightarrow> Some err
             | None \<Rightarrow>
                 if psr_ThreadID rec \<noteq> trim_space (fq_ThreadID req)
                    \<or> psr_LeafEntryID rec \<noteq> trim_space (fq_TerminalEntryID req)
                    \<or> psr_CreatedByRunID rec \<noteq> trim_space (fq_RunID req)
                    \<or> psr_CreatedByTurnID rec \<noteq> trim_space (fq_TurnID req)
                 then Some ErrInvalidThreadAuthority else None))))"

definition ValidateFailUnknownEffectTurnRequest :: "fail_request \<Rightarrow> st_error option" where
  "ValidateFailUnknownEffectTurnRequest req =
    (if blank (uq_ThreadID req) \<or> blank (uq_TurnID req) \<or> blank (uq_RunID req)
     then Some (ErrMsg ''unknown effect turn failure requires thread, turn, and run identities'') else None)"

definition ValidateCancelTurnRequest :: "store_env \<Rightarrow> cancel_request \<Rightarrow> st_error option" where
  "ValidateCancelTurnRequest env req =
    (if blank (cq_ThreadID req) \<or> blank (cq_TurnID req) \<or> blank (cq_RunID req)
        \<or> blank (cq_CancelEntryID req) \<or> blank (cq_TerminalEntryID req) \<or> blank (cq_RequestKey req)
        \<or> blank (cq_RequestFingerprint req) \<or> blank (cq_OutcomeFingerprint req)
     then Some (ErrMsg ''turn cancel requires thread, turn, run, request, and terminal identities'')
     else if cq_InteractionResolutionPayload req = ''''
             \<or> \<not> se_json_valid env (cq_InteractionResolutionPayload req)
     then Some (ErrMsg ''turn cancel requires a valid interaction resolution payload'')
     else ValidateFinishTurnRequest \<lparr>fq_PreserveProviderState = cq_PreserveProviderState req,
       fq_StateCompatibilityKey = '''', fq_ThreadID = cq_ThreadID req, fq_TurnID = cq_TurnID req,
       fq_RunID = cq_RunID req, fq_TerminalEntryID = cq_TerminalEntryID req, fq_Status = TurnAborted,
       fq_Metadata = cq_Metadata req, fq_FailureMessage = '''', fq_ProviderState = None,
       fq_ClearProviderState = cq_ClearProviderState req,
       fq_OutcomeFingerprint = cq_OutcomeFingerprint req, fq_Now = cq_Now req\<rparr>)"

section \<open>Where a retry may start\<close>

definition goal_turn_started :: "entry \<Rightarrow> bool" where
  "goal_turn_started e \<longleftrightarrow> turn_started e \<and> mget (Metadata e) ''turn_kind'' = ''goal_continuation''"

definition RetryPathHasRetryEligibleDurableInput :: "entry list \<Rightarrow> bool st_result" where
  "RetryPathHasRetryEligibleDurableInput path =
    (case list_find (\<lambda>e. goal_turn_started e \<or> isCanonicalUserEntry e) (rev path) of
       None \<Rightarrow> Inl ErrInvalidThreadAuthority
     | Some e \<Rightarrow> Inr (goal_turn_started e \<or> HasRetryEligibleDurableInput (Message e)))"

definition uncertain_result :: "entry \<Rightarrow> bool" where
  "uncertain_result e \<longleftrightarrow> (case msg_ToolResult (Message e) of
     None \<Rightarrow> False | Some v \<Rightarrow> tr_EffectOutcome v = ''uncertain'')"

definition uncertainResultTerminalBoundary :: "entry list \<Rightarrow> nat \<Rightarrow> bool" where
  "uncertainResultTerminalBoundary es i \<longleftrightarrow>
    (let terminal = es ! i;
         mine = filter (\<lambda>e. TurnID e = TurnID terminal) (take (Suc i) es)
     in \<not> (Type terminal \<noteq> EntryTurnMarker \<or> \<not> terminalTurnMarker (TurnStatus terminal)
           \<or> mget (Metadata terminal) ''failure_code'' = ''effect_outcome_unknown'')
        \<and> list_ex uncertain_result mine
        \<and> ValidateToolHistory (map Message (filter (\<lambda>e. Type e \<in> {EntryUserMessage, EntryAssistantMessage,
             EntryToolCall, EntryToolResult}) mine)))"

definition validateRetrySourcePathIndex ::
  "entry list \<Rightarrow> nat \<Rightarrow> string \<Rightarrow> string \<Rightarrow> st_error option" where
  "validateRetrySourcePathIndex path i sourceTurnID sourceEntryID =
    (if length path \<le> i then Some ErrEntryNotFound
     else
       let e = path ! i in
       if ID e \<noteq> sourceEntryID \<or> trim_space (TurnID e) \<noteq> sourceTurnID then Some ErrInvalidThreadAuthority
       else if isCanonicalUserEntry e \<or> goal_turn_started e then None
       else if uncertainResultTerminalBoundary path i then None
       else if Suc i < length path
               \<and> Type (path ! Suc i) = EntryTurnMarker \<and> TurnStatus (path ! Suc i) = TurnSavePoint
               \<and> ParentID (path ! Suc i) = ID e \<and> trim_space (TurnID (path ! Suc i)) = sourceTurnID
       then None
       else Some ErrInvalidThreadAuthority)"

definition RetrySourceHasRetryEligibleDurableInput ::
  "entry list \<Rightarrow> string \<Rightarrow> string \<Rightarrow> (nat \<times> bool) st_result" where
  "RetrySourceHasRetryEligibleDurableInput path sourceTurnID0 sourceEntryID0 =
    (let turn = trim_space sourceTurnID0; source = trim_space sourceEntryID0;
         i = length (takeWhile (\<lambda>e. ID e \<noteq> source) path)
     in if turn = '''' \<or> source = '''' then
          Inl (ErrMsg ''retry source requires turn and entry identities'')
        else if length path \<le> i then Inl ErrEntryNotFound
        else (case validateRetrySourcePathIndex path i turn source of
           Some err \<Rightarrow> Inl err
         | None \<Rightarrow> (case RetryPathHasRetryEligibleDurableInput (take (Suc i) path) of
             Inl err \<Rightarrow> Inl err | Inr eligible \<Rightarrow> Inr (i, eligible))))"

definition ValidateRetrySourcePath :: "entry list \<Rightarrow> string \<Rightarrow> string \<Rightarrow> nat st_result" where
  "ValidateRetrySourcePath path sourceTurnID sourceEntryID =
    (case RetrySourceHasRetryEligibleDurableInput path sourceTurnID sourceEntryID of
       Inl err \<Rightarrow> Inl err
     | Inr (i, eligible) \<Rightarrow> if \<not> eligible then Inl ErrInvalidThreadAuthority else Inr i)"

section \<open>The provider state of a thread\<close>

definition ErrProviderStateNotFound :: st_error where
  "ErrProviderStateNotFound = ErrMsg ''provider state not found''"

definition ProviderState :: "repo \<Rightarrow> string \<Rightarrow> provider_state_record st_result" where
  "ProviderState r t = (case rp_providerStates r (trim_space t) of
     None \<Rightarrow> Inl ErrProviderStateNotFound | Some rec \<Rightarrow> Inr rec)"

definition PutProviderState :: "repo \<Rightarrow> provider_state_record \<Rightarrow> repo \<times> st_error option" where
  "PutProviderState r rec =
    (case validateProviderStateRecord rec of
       Some err \<Rightarrow> (r, Some err)
     | None \<Rightarrow>
         if thread r (psr_ThreadID rec) = None then (r, Some ErrThreadNotFound)
         else (setProviderState (psr_ThreadID rec) rec r, None))"

definition DeleteProviderState :: "repo \<Rightarrow> string \<Rightarrow> repo \<times> st_error option" where
  "DeleteProviderState r t0 =
    (let t = trim_space t0 in
     if thread r t = None then (r, Some ErrThreadNotFound) else (deleteProviderState t r, None))"

end
