(* ===== verification/Goals.thy ===== *)
theory Goals
  imports TurnRequests
begin

text \<open>
  The goal of a thread (\<^verbatim>\<open>internal/sessiontree/goals.go\<close>, \<^verbatim>\<open>internal/session/goals.go\<close>): a
  versioned fact reduced from the path of the thread. A goal is set or deleted against the version it was
  read at, reviewed by the turn that works on it, and completed by a turn whose finish names the
  review.
\<close>

section \<open>Facts\<close>

record goal_state =
  gs_Version :: int
  gs_Text :: string
  gs_Status :: string
  gs_Actor :: string
  gs_SuppressedAtInput :: string

record goal_change =
  gc_State :: goal_state
  gc_Operation :: string
  gc_Reason :: string

record goal_review =
  gr_Version :: int
  gr_Outcome :: string
  gr_Evidence :: string
  gr_Boundary :: string

record goal_mutation =
  gm_ThreadID :: string
  gm_TurnID :: string
  gm_RunID :: string
  gm_RequestKey :: string
  gm_Actor :: string
  gm_Operation :: string
  gm_Text :: string
  gm_Reason :: string
  gm_ExpectedVersion :: int
  gm_NewTask :: bool

record goal_result =
  gt_State :: goal_state
  gt_Entry :: entry
  gt_Conflict :: bool
  gt_Replayed :: bool

text \<open>The JSON of the three facts.\<close>

record goal_codec =
  gx_change :: "string \<Rightarrow> goal_change option"
  gx_change_json :: "goal_change \<Rightarrow> string"
  gx_review :: "string \<Rightarrow> goal_review option"
  gx_review_json :: "goal_review \<Rightarrow> string"
  gx_mutation_json :: "goal_mutation \<Rightarrow> string"

definition zero_goal :: goal_state where
  "zero_goal = \<lparr>gs_Version = 0, gs_Text = '''', gs_Status = '''', gs_Actor = '''', gs_SuppressedAtInput = ''''\<rparr>"

definition zero_review :: goal_review where
  "zero_review = \<lparr>gr_Version = 0, gr_Outcome = '''', gr_Evidence = '''', gr_Boundary = ''''\<rparr>"

section \<open>Reducing a path\<close>

definition goal_input :: "entry \<Rightarrow> bool" where
  "goal_input e \<longleftrightarrow> Type e = EntryUserMessage \<and> msg_Kind (Message e) = MessageKindNormal
     \<and> mget (Metadata e) ''subagent_user_message_origin'' \<noteq> ''pending_tool_completion''"

definition latestGoalInput :: "entry list \<Rightarrow> string" where
  "latestGoalInput path = (case list_find goal_input (rev path) of None \<Rightarrow> '''' | Some e \<Rightarrow> ID e)"

text \<open>A recorded change must follow the state it was made in.\<close>

definition change_ok :: "goal_state \<Rightarrow> goal_change \<Rightarrow> bool" where
  "change_ok state change \<longleftrightarrow> (let next = gc_State change; operation = gc_Operation change in
     \<not> (gs_Version next \<noteq> add64 (gs_Version state) 1
        \<or> gs_Actor next \<noteq> ''user'' \<and> gs_Actor next \<noteq> ''model''
        \<or> operation \<noteq> ''set'' \<and> operation \<noteq> ''delete''
        \<or> operation = ''set'' \<and> (gs_Status next \<noteq> ''active'' \<or> blank (gs_Text next))
        \<or> operation = ''delete'' \<and> (gs_Status next \<noteq> ''absent'' \<or> gs_Text next \<noteq> '''')))"

definition delegated_mission :: "entry \<Rightarrow> bool" where
  "delegated_mission e \<longleftrightarrow> Type e = EntryUserMessage
     \<and> mget (Metadata e) ''subagent_user_message_origin'' = ''delegated_mission''"

definition completes_goal :: "entry \<Rightarrow> goal_state \<Rightarrow> bool" where
  "completes_goal e state \<longleftrightarrow> Type e = EntryTurnMarker \<and> TurnStatus e = TurnCompleted
     \<and> mget (Metadata e) ''goal_completed_version'' = show_int (gs_Version state) \<and> gs_Text state \<noteq> ''''"

definition goal_Observe :: "goal_codec \<Rightarrow> entry \<Rightarrow> goal_state \<Rightarrow> goal_state st_result" where
  "goal_Observe gx e state =
    (let s1 = (if gs_Status state = '''' then state\<lparr>gs_Status := ''absent''\<rparr> else state);
         s2 = (if delegated_mission e then s1\<lparr>gs_Text := '''', gs_Status := ''absent'', gs_Actor := '''',
                 gs_SuppressedAtInput := ''''\<rparr> else s1);
         s3 = (if Type e \<noteq> EntryGoal then Inr s2
               else (case gx_change gx (Payload e) of
                  None \<Rightarrow> Inl ErrAuthorityCorrupt
                | Some change \<Rightarrow> if change_ok s2 change then Inr (gc_State change) else Inl ErrAuthorityCorrupt))
     in (case s3 of
           Inl err \<Rightarrow> Inl err
         | Inr s \<Rightarrow> Inr (if completes_goal e s then s\<lparr>gs_Status := ''completed''\<rparr> else s)))"

fun goal_reduce :: "goal_codec \<Rightarrow> goal_state \<Rightarrow> entry list \<Rightarrow> goal_state st_result" where
  "goal_reduce gx state [] = Inr state"
| "goal_reduce gx state (e # es) =
    (case goal_Observe gx e state of Inl err \<Rightarrow> Inl err | Inr s \<Rightarrow> goal_reduce gx s es)"

definition absent_goal :: goal_state where
  "absent_goal = zero_goal\<lparr>gs_Status := ''absent''\<rparr>"

definition GoalFromPath :: "goal_codec \<Rightarrow> entry list \<Rightarrow> goal_state st_result" where
  "GoalFromPath gx path = goal_reduce gx absent_goal path"

section \<open>Reviews\<close>

definition work_boundary :: "entry \<Rightarrow> bool" where
  "work_boundary e \<longleftrightarrow> Type e = EntryToolCall \<and> msg_ToolName (Message e) \<noteq> ''goal''
     \<or> Type e = EntryToolResult \<and> msg_ToolName (Message e) \<noteq> ''goal''
     \<or> Type e = EntryUserMessage \<and> msg_Kind (Message e) = MessageKindNormal
     \<or> Type e = EntrySteeringApplied \<or> Type e = EntryInteractionDone"

definition GoalWorkBoundary :: "entry list \<Rightarrow> string" where
  "GoalWorkBoundary path = (case list_find work_boundary (rev path) of None \<Rightarrow> '''' | Some e \<Rightarrow> ID e)"

definition CurrentGoalReview ::
  "goal_codec \<Rightarrow> entry list \<Rightarrow> string \<Rightarrow> string \<Rightarrow> goal_state \<Rightarrow> entry \<times> goal_review \<times> bool" where
  "CurrentGoalReview gx path turnID runID state =
    (case list_find (\<lambda>e. \<not> (Type e \<noteq> EntryGoalReview \<or> TurnID e \<noteq> turnID \<or> RunID e \<noteq> runID)) (rev path) of
       None \<Rightarrow> (zero_entry, zero_review, False)
     | Some e \<Rightarrow> (case gx_review gx (Payload e) of
         None \<Rightarrow> (zero_entry, zero_review, False)
       | Some review \<Rightarrow> (e, review, gr_Version review = gs_Version state
           \<and> gr_Boundary review = GoalWorkBoundary path
           \<and> (gr_Outcome review = ''completed'' \<or> gr_Outcome review = ''blocked''))))"

definition finishGoalMetadata ::
  "goal_state \<Rightarrow> entry \<Rightarrow> goal_review \<Rightarrow> bool \<Rightarrow> finish_turn_request \<Rightarrow> meta_map st_result" where
  "finishGoalMetadata state reviewEntry review valid req =
    (let metadata = fq_Metadata req; named = (mget metadata ''goal_review_id'' = ID reviewEntry) in
     if gs_Status state = ''active'' \<and> (\<not> valid \<or> \<not> named)
     then Inl (ErrMsg ''goal changed before completion; continue to review the current goal'')
     else if valid \<and> named \<and> gr_Outcome review = ''completed'' \<and> gs_Status state = ''active''
     then Inr (AList.update ''goal_completed_version'' (show_int (gs_Version state)) metadata)
     else Inr metadata)"

definition goalFinishMetadata ::
  "goal_codec \<Rightarrow> entry list \<Rightarrow> finish_turn_request \<Rightarrow> meta_map st_result" where
  "goalFinishMetadata gx path req =
    (if fq_Status req \<noteq> TurnCompleted \<or> mget (fq_Metadata req) ''goal_guard'' \<noteq> ''1'' then Inr (fq_Metadata req)
     else (case GoalFromPath gx path of
        Inl err \<Rightarrow> Inl err
      | Inr state \<Rightarrow> (case CurrentGoalReview gx path (fq_TurnID req) (fq_RunID req) state of
          (e, review, valid) \<Rightarrow> finishGoalMetadata state e review valid req)))"

section \<open>Operations\<close>

definition goal_mutation_ok :: "goal_mutation \<Rightarrow> bool" where
  "goal_mutation_ok m \<longleftrightarrow>
     \<not> (gm_RequestKey m = '''' \<or> gm_Actor m \<noteq> ''user'' \<and> gm_Actor m \<noteq> ''model''
        \<or> gm_Operation m \<noteq> ''set'' \<and> gm_Operation m \<noteq> ''delete'' \<or> gm_ExpectedVersion m < 0
        \<or> \<not> ValidString (gm_Text m) \<or> gm_Operation m = ''set'' \<and> blank (gm_Text m))"

definition goal_entry_id :: "store_env \<Rightarrow> goal_mutation \<Rightarrow> string" where
  "goal_entry_id env m = ''goal:'' @ take 32 (se_hash env (gm_ThreadID m @ bytes [0] @ gm_RequestKey m))"

definition next_goal :: "goal_mutation \<Rightarrow> entry list \<Rightarrow> goal_state \<Rightarrow> goal_state" where
  "next_goal m path state =
    (let next = \<lparr>gs_Version = add64 (gs_Version state) 1, gs_Text = gm_Text m, gs_Status = ''active'',
                 gs_Actor = gm_Actor m, gs_SuppressedAtInput = ''''\<rparr>;
         latest = latestGoalInput path
     in if gm_Operation m \<noteq> ''delete'' then next
        else next\<lparr>gs_Text := '''', gs_Status := ''absent'',
               gs_SuppressedAtInput :=
                 (if gm_Actor m = ''user'' then (if latest = '''' then ''before-first-input'' else latest)
                  else gs_SuppressedAtInput state)\<rparr>)"

text \<open>The turn a model or a review acts for: running, with this run, and not cancelled.\<close>

definition turn_acts :: "journal \<Rightarrow> string \<Rightarrow> string \<Rightarrow> bool" where
  "turn_acts j turnID runID \<longleftrightarrow> runtimeActiveTurn j = Some turnID
     \<and> activeRunIdentity j turnID = Inr runID \<and> \<not> turnCancellationRequested j turnID"

definition suppressed_again :: "goal_mutation \<Rightarrow> entry list \<Rightarrow> goal_state \<Rightarrow> bool" where
  "suppressed_again m path state \<longleftrightarrow> gm_Operation m = ''set'' \<and> gs_SuppressedAtInput state \<noteq> ''''
     \<and> (\<not> gm_NewTask m \<or> latestGoalInput path = gs_SuppressedAtInput state)"

definition append_goal ::
  "ctx_poll \<Rightarrow> effect_env \<Rightarrow> goal_codec \<Rightarrow> goal_mutation \<Rightarrow> string \<Rightarrow> goal_state \<Rightarrow> repo
    \<Rightarrow> repo \<times> goal_result st_result" where
  "append_goal ctx env gx m fingerprint next r =
    (let i = goal_entry_id (ee_store env) m;
         e = zero_entry\<lparr>ID := i, ThreadID := gm_ThreadID m, TurnID := gm_TurnID m, RunID := gm_RunID m,
               Type := EntryGoal, RequestKey := gm_RequestKey m, RequestFingerprint := fingerprint,
               Payload := gx_change_json gx \<lparr>gc_State = next, gc_Operation = gm_Operation m,
                 gc_Reason = gm_Reason m\<rparr>\<rparr>
     in (case appendFact ctx (ee_store env) r e (no_options\<lparr>ao_ID := i\<rparr>) False of
           (r', Inl err) \<Rightarrow> (r', Inl err)
         | (r', Inr saved) \<Rightarrow>
             (r', Inr \<lparr>gt_State = next, gt_Entry = saved, gt_Conflict = False, gt_Replayed = False\<rparr>)))"

definition mutateGoal ::
  "ctx_poll \<Rightarrow> effect_env \<Rightarrow> goal_codec \<Rightarrow> repo \<Rightarrow> goal_mutation \<Rightarrow> repo \<times> goal_result st_result" where
  "mutateGoal ctx env gx r m =
    (let t = gm_ThreadID m; fingerprint = se_hash (ee_store env) (gx_mutation_json gx m) in
     if \<not> goal_mutation_ok m then (r, Inl (ErrMsg ''invalid goal mutation''))
     else (case thread r t of
        None \<Rightarrow> (r, Inl ErrThreadNotFound)
      | Some meta \<Rightarrow> (case canonicalPath (\<lambda>_. None) (ValidateEntryIntegrity (ee_store env)) r t (tm_LeafID meta) of
          (r1, Inl err) \<Rightarrow> (r1, Inl err)
        | (r1, Inr path) \<Rightarrow> (case GoalFromPath gx path of
            Inl err \<Rightarrow> (r1, Inl err)
          | Inr state \<Rightarrow> (case findEntry (jn_entries (rp_journal r1 t)) (goal_entry_id (ee_store env) m) of
              Some existing \<Rightarrow>
                (r1, if RequestFingerprint existing \<noteq> fingerprint then Inl ErrRequestConflict
                     else Inr \<lparr>gt_State = state, gt_Entry = existing, gt_Conflict = False, gt_Replayed = True\<rparr>)
            | None \<Rightarrow>
                if gs_Version state \<noteq> gm_ExpectedVersion m then
                  (r1, Inr \<lparr>gt_State = state, gt_Entry = zero_entry, gt_Conflict = True, gt_Replayed = False\<rparr>)
                else
                  let r2 = (if gm_Actor m = ''model'' then ensured t r1 else r1) in
                  if gm_Actor m = ''model'' \<and> \<not> turn_acts (rp_journal r2 t) (gm_TurnID m) (gm_RunID m)
                  then (r2, Inl ErrStaleAuthority)
                  else if gm_Actor m = ''model'' \<and> suppressed_again m path state
                  then (r2, Inl (ErrMsg ''user deleted this goal; do not recreate it for the same task''))
                  else append_goal ctx env gx m fingerprint (next_goal m path state) r2)))))"

definition MutateGoal ::
  "ctx_poll \<Rightarrow> effect_env \<Rightarrow> goal_codec \<Rightarrow> repo \<Rightarrow> goal_mutation \<Rightarrow> repo \<times> goal_result st_result" where
  "MutateGoal ctx env gx r m =
    (case ctx 0 of Some err \<Rightarrow> (r, Inl err) | None \<Rightarrow> mutateGoal ctx env gx r m)"

text \<open>The calls of a run that wait for their result, goal tools aside.\<close>

definition pending_work :: "entry list \<Rightarrow> string \<Rightarrow> string \<Rightarrow> string list" where
  "pending_work path turnID runID =
     fold (\<lambda>e pending.
       if TurnID e \<noteq> turnID \<or> RunID e \<noteq> runID \<or> msg_ToolName (Message e) = ''goal'' then pending
       else if Type e = EntryToolCall then List.insert (msg_ToolCallID (Message e)) pending
       else if Type e = EntryToolResult then removeAll (msg_ToolCallID (Message e)) pending
       else pending) path []"

definition RecordGoalReview ::
  "ctx_poll \<Rightarrow> effect_env \<Rightarrow> goal_codec \<Rightarrow> repo \<Rightarrow> string \<Rightarrow> string \<Rightarrow> string \<Rightarrow> string \<Rightarrow> int
    \<Rightarrow> string \<Rightarrow> string \<Rightarrow> repo \<times> entry st_result" where
  "RecordGoalReview ctx env gx r t turnID runID callID version outcome evidence =
    (let i = ''goal-review:'' @ take 32 (se_hash (ee_store env) (t @ bytes [0] @ runID @ bytes [0] @ callID)) in
     case ctx 0 of
       Some err \<Rightarrow> (r, Inl err)
     | None \<Rightarrow>
       if callID = '''' \<or> version < 0 \<or> outcome \<notin> {''completed'', ''continue'', ''blocked''} \<or> blank evidence
       then (r, Inl (ErrMsg ''goal review requires an outcome and evidence''))
       else (case thread r t of
          None \<Rightarrow> (r, Inl ErrThreadNotFound)
        | Some meta \<Rightarrow> (case canonicalPath (\<lambda>_. None) (ValidateEntryIntegrity (ee_store env)) r t (tm_LeafID meta) of
            (r1, Inl err) \<Rightarrow> (r1, Inl err)
          | (r1, Inr path) \<Rightarrow> (case findEntry (jn_entries (rp_journal r1 t)) i of
              Some existing \<Rightarrow>
                (r1, case gx_review gx (Payload existing) of
                   None \<Rightarrow> Inl ErrRequestConflict
                 | Some review \<Rightarrow>
                     if TurnID existing \<noteq> turnID \<or> gr_Version review \<noteq> version \<or> gr_Outcome review \<noteq> outcome
                        \<or> gr_Evidence review \<noteq> evidence
                     then Inl ErrRequestConflict else Inr existing)
            | None \<Rightarrow> (case GoalFromPath gx path of
                Inl err \<Rightarrow> (r1, Inl err)
              | Inr state \<Rightarrow>
                  let r2 = ensured t r1 in
                  if \<not> turn_acts (rp_journal r2 t) turnID runID then (r2, Inl ErrStaleAuthority)
                  else if gs_Version state \<noteq> version then (r2, Inl ErrRequestConflict)
                  else if outcome = ''completed'' \<and> gs_Status state = ''absent''
                  then (r2, Inl (ErrMsg ''a deleted goal cannot be marked completed''))
                  else if pending_work path turnID runID \<noteq> []
                  then (r2, Inl (ErrMsg ''finish pending work tools before reviewing the goal''))
                  else appendFact ctx (ee_store env) r2
                    (zero_entry\<lparr>ID := i, ThreadID := t, TurnID := turnID, RunID := runID,
                       Type := EntryGoalReview,
                       Payload := gx_review_json gx \<lparr>gr_Version = version, gr_Outcome = outcome,
                         gr_Evidence = evidence, gr_Boundary = GoalWorkBoundary path\<rparr>\<rparr>)
                    (no_options\<lparr>ao_ID := i\<rparr>) False)))))"

end
