(* ===== verification/TurnEntries.thy ===== *)
theory TurnEntries
  imports Goals
begin

text \<open>
  The entries of one turn (\<^verbatim>\<open>internal/sessiontree/runtime_turn_journal.go\<close>, \<^verbatim>\<open>steering.go\<close>,
  \<^verbatim>\<open>fallback_title.go\<close>): what in them is still pending, and the steps that settle it at the end of the
  turn. A selection of entries is the list of the selected ones; \<open>runtimeTurnEntries\<close> only returns
  ordinals it has checked.
\<close>

section \<open>The environment\<close>

record steering =
  sr_SteeringID :: string
  sr_Reason :: string

text \<open>
  Next to the environments of effects, goals and context facts: the JSON of a queue identity
  (read as a string, and as the \<open>id\<close> of an item), of a steering resolution, and the presentation of an
  activity that ended (activities are opaque).
\<close>

record turn_env =
  tv_effects :: effect_env
  tv_goals :: goal_codec
  tv_context :: context_codec
  tv_id_json :: "string \<Rightarrow> string"
  tv_id :: "string \<Rightarrow> string option"
  tv_item_id :: "string \<Rightarrow> string option"
  tv_steering_json :: "steering \<Rightarrow> string"
  tv_steering :: "string \<Rightarrow> steering option"
  tv_terminal_activity :: "string option \<Rightarrow> string \<Rightarrow> string \<Rightarrow> string"

abbreviation tv_store :: "turn_env \<Rightarrow> store_env" where
  "tv_store env \<equiv> ee_store (tv_effects env)"

definition runtimeTurnStartedEntryID :: "string \<Rightarrow> string" where
  "runtimeTurnStartedEntryID turnID = ''turn-started:'' @ trim_space turnID"

definition runtimeUserEntryID :: "string \<Rightarrow> string" where
  "runtimeUserEntryID requestKey = ''user:'' @ trim_space requestKey"

text \<open>\<open>appendIndexedEntriesLocked\<close> of one entry; the leaf stays where it is.\<close>

definition put_entry :: "turn_env \<Rightarrow> string \<Rightarrow> entry \<Rightarrow> repo \<Rightarrow> repo" where
  "put_entry env t e r =
     setJournal t (appendIndexedEntries (tv_store env) [e] (rp_journal r t)) r"

text \<open>\<open>entryMetadataLocked\<close>; \<open>None\<close> stands for not found.\<close>

definition entryMetadata :: "repo \<Rightarrow> string \<Rightarrow> string \<Rightarrow> entry option st_result" where
  "entryMetadata r t i =
    (let j = rp_journal r t; es = jn_entries j in
     case ordinal_of j i of
       None \<Rightarrow> Inr None
     | Some k \<Rightarrow>
         if k < 0 \<or> k \<ge> int (length es) then Inl ErrAuthorityCorrupt
         else
           let e = at es k in
           (case jn_depths j i of
              None \<Rightarrow> Inl ErrAuthorityCorrupt
            | Some d \<Rightarrow>
                if ID e \<noteq> i \<or> ThreadID e \<noteq> t \<or> d \<le> 0 \<or> PathDepth e \<noteq> d
                then Inl ErrAuthorityCorrupt else Inr (Some e)))"

section \<open>The selection of a turn\<close>

fun select_ordinals ::
  "entry list \<Rightarrow> string \<Rightarrow> string \<Rightarrow> int \<Rightarrow> int list \<Rightarrow> entry list st_result" where
  "select_ordinals es t turnID previous [] = Inr []"
| "select_ordinals es t turnID previous (k # ks) =
    (if k \<le> previous \<or> k < 0 \<or> k \<ge> int (length es) then Inl ErrAuthorityCorrupt
     else if ThreadID (at es k) \<noteq> t \<or> TurnID (at es k) \<noteq> turnID then Inl ErrAuthorityCorrupt
     else (case select_ordinals es t turnID k ks of
        Inl err \<Rightarrow> Inl err | Inr rest \<Rightarrow> Inr (at es k # rest)))"

definition runtimeTurnEntries :: "repo \<Rightarrow> string \<Rightarrow> string \<Rightarrow> entry list st_result" where
  "runtimeTurnEntries r t turnID =
    (let j = rp_journal r t; ordinals = list_at (jn_turnOrdinals j) turnID;
         started = (case jn_turns j of None \<Rightarrow> 0 | Some ti \<Rightarrow> tp_started (tk_at (marker_at ti turnID)));
         counted = (case jn_turnCounts j turnID of None \<Rightarrow> 0 | Some n \<Rightarrow> n)
     in if started = 0 \<or> counted \<noteq> int (length ordinals) then Inl ErrAuthorityCorrupt
        else select_ordinals (jn_entries j) t turnID (- 1) ordinals)"

section \<open>Tool inputs and interactions\<close>

record input_projection =
  tj_waiting :: "string list"
  tj_pending :: "string \<rightharpoonup> string list"

definition zero_inputs :: input_projection where
  "zero_inputs = \<lparr>tj_waiting = [], tj_pending = Map.empty\<rparr>"

text \<open>A request becomes visible at the waiting marker of its turn and run, or at once after it.\<close>

definition inputs_Observe :: "entry \<Rightarrow> input_projection \<Rightarrow> input_projection \<times> string list" where
  "inputs_Observe e p =
    (let key = TurnID e @ bytes [0] @ RunID e in
     if Type e = EntryTurnMarker \<and> TurnStatus e = TurnWaiting then
       (p\<lparr>tj_waiting := List.insert key (tj_waiting p), tj_pending := (tj_pending p)(key := None)\<rparr>,
        list_at (tj_pending p) key)
     else if Type e = EntryToolResult
             \<and> (case msg_ToolResult (Message e) of None \<Rightarrow> False | Some v \<Rightarrow> tr_InputRequired v \<noteq> None) then
       (if key \<in> set (tj_waiting p) then (p, [ID e])
        else (p\<lparr>tj_pending := push_at key (ID e) (tj_pending p)\<rparr>, []))
     else (p, []))"

fun ready_inputs :: "input_projection \<Rightarrow> entry list \<Rightarrow> string list" where
  "ready_inputs p [] = []"
| "ready_inputs p (e # es) = (case inputs_Observe e p of (p', ready) \<Rightarrow> ready @ ready_inputs p' es)"

definition readyToolInputResultIDs :: "entry list \<Rightarrow> string list" where
  "readyToolInputResultIDs es = ready_inputs zero_inputs es"

record interaction =
  ri_ID :: string
  ri_TurnID :: string
  ri_RunID :: string

definition interaction_of :: "string \<Rightarrow> entry \<Rightarrow> interaction" where
  "interaction_of i e = \<lparr>ri_ID = i, ri_TurnID = TurnID e, ri_RunID = RunID e\<rparr>"

definition signal_call :: "entry \<Rightarrow> string" where
  "signal_call e = (case msg_ControlSignal (Message e) of None \<Rightarrow> '''' | Some s \<Rightarrow> trim_space (cs_CallID s))"

definition control_call :: "store_env \<Rightarrow> string \<Rightarrow> control_class \<Rightarrow> entry \<Rightarrow> bool" where
  "control_call env turnID c e \<longleftrightarrow> TurnID e = turnID \<and> Type e = EntryToolCall
     \<and> msg_Kind (Message e) = MessageKindControlSignal \<and> Classify env (msg_ControlSignal (Message e)) = c"

definition failed_controls :: "store_env \<Rightarrow> string \<Rightarrow> entry list \<Rightarrow> (string \<rightharpoonup> interaction)" where
  "failed_controls env turnID es = fold (\<lambda>e m.
     if control_call env turnID ControlFailed e \<and> signal_call e \<noteq> ''''
     then m(signal_call e \<mapsto> interaction_of (signal_call e) e) else m) es Map.empty"

definition trim_prefix :: "string \<Rightarrow> string \<Rightarrow> string" where
  "trim_prefix p s = (if take (length p) s = p then drop (length p) s else s)"

definition ToolInputInteractionID :: "string \<Rightarrow> string" where
  "ToolInputInteractionID resultEntryID = ''tool-input:'' @ resultEntryID"

text \<open>The identities seen so far, and the pending ones in the order they were first seen.\<close>

type_synonym interactions = "string list \<times> (string \<times> interaction) list"

definition add_interaction :: "string \<Rightarrow> entry \<Rightarrow> interactions \<Rightarrow> interactions" where
  "add_interaction i e s =
    (if i \<in> set (fst s) then s else (i # fst s, snd s @ [(i, interaction_of i e)]))"

definition interaction_step ::
  "store_env \<Rightarrow> string \<Rightarrow> (string \<rightharpoonup> interaction) \<Rightarrow> string list \<Rightarrow> entry \<Rightarrow> interactions \<Rightarrow> interactions" where
  "interaction_step env turnID failed ready e s =
    (if TurnID e \<noteq> turnID then s
     else if Type e = EntryToolCall then
       (if control_call env turnID WaitingInput e then add_interaction (signal_call e) e s else s)
     else if Type e = EntryToolResult then
       (if ID e \<in> set ready then add_interaction (ToolInputInteractionID (ID e)) e s else s)
     else if Type e = EntryInteractionAsked then
       (let i = trim_prefix ''interaction-requested:'' (ID e) in
        case failed i of
          Some f \<Rightarrow> if ri_TurnID f = TurnID e \<and> ri_RunID f = RunID e then s else add_interaction i e s
        | None \<Rightarrow> add_interaction i e s)
     else if Type e = EntryInteractionDone then
       (fst s, AList.delete (trim_prefix ''interaction-resolved:'' (ID e)) (snd s))
     else s)"

definition runtimePendingInteractions :: "store_env \<Rightarrow> entry list \<Rightarrow> string \<Rightarrow> interaction list" where
  "runtimePendingInteractions env es turnID =
     map snd (snd (fold (interaction_step env turnID (failed_controls env turnID es)
       (readyToolInputResultIDs es)) es ([], [])))"

definition runtimeTurnHasPendingInteraction :: "store_env \<Rightarrow> entry list \<Rightarrow> string \<Rightarrow> bool" where
  "runtimeTurnHasPendingInteraction env es turnID \<longleftrightarrow> runtimePendingInteractions env es turnID \<noteq> []"

section \<open>Tool calls\<close>

text \<open>
  The identities of the calls in the order they became pending, and the pending calls. A call
  whose identity recurs after its result enters the order again.
\<close>

definition call_step ::
  "store_env \<Rightarrow> string \<Rightarrow> entry \<Rightarrow> string list \<times> (string \<rightharpoonup> entry) \<Rightarrow> string list \<times> (string \<rightharpoonup> entry)" where
  "call_step env turnID e s =
    (let i = trim_space (msg_ToolCallID (Message e)) in
     if TurnID e \<noteq> turnID \<or> i = '''' then s
     else if Type e = EntryToolCall \<and> OwnsResult env (Message e) then s
     else if Type e = EntryToolCall then
       ((if snd s i = None then fst s @ [i] else fst s), (snd s)(i \<mapsto> e))
     else if Type e = EntryToolResult then (fst s, (snd s)(i := None))
     else s)"

definition runtimePendingToolCalls :: "store_env \<Rightarrow> entry list \<Rightarrow> string \<Rightarrow> entry list" where
  "runtimePendingToolCalls env es turnID =
    (case fold (call_step env turnID) es ([], Map.empty) of
       (order, pending) \<Rightarrow> List.map_filter pending order)"

section \<open>The queue\<close>

definition queue_step :: "turn_env \<Rightarrow> string \<Rightarrow> entry \<Rightarrow> bool \<Rightarrow> bool" where
  "queue_step env queueID e present =
    (if Type e = EntryQueueAdded then
       (if tv_item_id env (Payload e) = Some queueID then True else present)
     else if Type e = EntryQueueDeleted \<or> Type e = EntryQueuePromoted then
       (if tv_id env (Payload e) = Some queueID then False else present)
     else present)"

definition runtimeQueueContains :: "turn_env \<Rightarrow> entry list \<Rightarrow> string \<Rightarrow> bool" where
  "runtimeQueueContains env es queueID = fold (queue_step env queueID) es False"

section \<open>Steering\<close>

definition DecodeSteeringResolution :: "turn_env \<Rightarrow> entry \<Rightarrow> steering st_result" where
  "DecodeSteeringResolution env e =
    (case tv_steering env (Payload e) of
       None \<Rightarrow> Inl ErrAuthorityCorrupt
     | Some s \<Rightarrow> if blank (sr_SteeringID s) then Inl ErrAuthorityCorrupt else Inr s)"

definition resolved_steering :: "turn_env \<Rightarrow> entry list \<Rightarrow> string list" where
  "resolved_steering env es = concat (map (\<lambda>e.
     if Type e = EntrySteeringApplied \<or> Type e = EntrySteeringCancelled
     then (case DecodeSteeringResolution env e of Inl _ \<Rightarrow> [] | Inr s \<Rightarrow> [sr_SteeringID s]) else []) es)"

definition steering_cancelled ::
  "turn_env \<Rightarrow> thread_meta \<Rightarrow> string \<Rightarrow> string \<Rightarrow> string \<Rightarrow> go_time \<Rightarrow> entry \<Rightarrow> entry" where
  "steering_cancelled env meta turnID runID reason now e = sealed_entry (tv_store env)
     (zero_entry\<lparr>ID := ''steer-resolved:'' @ ID e, ThreadID := tm_ID meta, ParentID := tm_LeafID meta,
        Type := EntrySteeringCancelled, TurnID := turnID, RunID := runID,
        Payload := tv_steering_json env \<lparr>sr_SteeringID = ID e, sr_Reason = reason\<rparr>, CreatedAt := now\<rparr>)"

fun cancel_steering ::
  "turn_env \<Rightarrow> string \<Rightarrow> string \<Rightarrow> string \<Rightarrow> go_time \<Rightarrow> entry list \<Rightarrow> thread_meta \<times> repo \<Rightarrow> thread_meta \<times> repo" where
  "cancel_steering env turnID runID reason now [] s = s"
| "cancel_steering env turnID runID reason now (e # es) (meta, r) =
    (let fact = steering_cancelled env meta turnID runID reason now e in
     cancel_steering env turnID runID reason now es
       (meta\<lparr>tm_LeafID := ID fact, tm_UpdatedAt := now\<rparr>, commit_at (tv_store env) meta r fact))"

definition cancelPendingSteering ::
  "turn_env \<Rightarrow> thread_meta \<Rightarrow> entry list \<Rightarrow> string \<Rightarrow> string \<Rightarrow> string \<Rightarrow> go_time \<Rightarrow> repo \<Rightarrow> thread_meta \<times> repo" where
  "cancelPendingSteering env meta es turnID runID reason now r =
     cancel_steering env turnID runID reason now
       (filter (\<lambda>e. Type e = EntrySteeringRequested \<and> TurnID e = turnID
          \<and> ID e \<notin> set (resolved_steering env es)) es) (meta, r)"

section \<open>Compactions and effects\<close>

definition settleRunningCompaction ::
  "ctx_poll \<Rightarrow> turn_env \<Rightarrow> entry list \<Rightarrow> string \<Rightarrow> string \<Rightarrow> string \<Rightarrow> string \<Rightarrow> string \<Rightarrow> go_time \<Rightarrow> repo
    \<Rightarrow> repo \<times> st_error option" where
  "settleRunningCompaction ctx env es turnID runID phase status message now r =
    (case list_find (\<lambda>e. TurnID e = turnID \<and> RunID e = runID
            \<and> ThreadContextEntryKind e = ThreadContextCompactionEntryKind) (rev es) of
       None \<Rightarrow> (r, None)
     | Some e \<Rightarrow> (case DecodeThreadContextCompactionEntry (tv_context env) e of
         Inl err \<Rightarrow> (r, Some err)
       | Inr compact \<Rightarrow>
           if tc_Status compact \<noteq> ''running'' then (r, None)
           else (case NewThreadContextCompactionEntry (tv_context env)
                   (compact\<lparr>tc_Phase := phase, tc_Status := status, tc_Error := message, tc_ObservedAt := now\<rparr>) of
              Inl err \<Rightarrow> (r, Some err)
            | Inr pending \<Rightarrow>
                (case appendFact ctx (tv_store env) r pending (no_options\<lparr>ao_Now := now\<rparr>) False of
                   (r', Inl err) \<Rightarrow> (r', Some err) | (r', Inr _) \<Rightarrow> (r', None)))))"

text \<open>\<open>appendEffectAttemptLocked\<close> with the metadata it moves the leaf in.\<close>

definition append_effect ::
  "effect_env \<Rightarrow> effect_attempt \<Rightarrow> thread_meta \<times> repo \<Rightarrow> (thread_meta \<times> repo) \<times> st_error option" where
  "append_effect env att s =
    (case s of (meta, r) \<Rightarrow>
       let e = effectAttemptEntry env att (tm_LeafID meta);
           fresh = (findEntry (jn_entries (rp_journal r (tm_ID meta))) (ID e) = None)
       in case appendEffectAttempt env meta att r of
            (r', err) \<Rightarrow>
              ((if fresh then meta\<lparr>tm_LeafID := ID e, tm_UpdatedAt := CreatedAt e\<rparr> else meta, r'), err))"

fun append_effects ::
  "effect_env \<Rightarrow> effect_attempt list \<Rightarrow> thread_meta \<times> repo \<Rightarrow> (thread_meta \<times> repo) \<times> st_error option" where
  "append_effects env [] s = (s, None)"
| "append_effects env (att # atts) s =
    (case append_effect env att s of
       (s', Some err) \<Rightarrow> (s', Some err) | (s', None) \<Rightarrow> append_effects env atts s')"

definition settled_attempt :: "effect_state \<Rightarrow> string \<Rightarrow> go_time \<Rightarrow> effect_attempt \<Rightarrow> effect_attempt" where
  "settled_attempt state fingerprint now att = att\<lparr>ea_State := state,
     ea_TerminalFingerprint := fingerprint, ea_UpdatedAt := now\<rparr>"

fun latest_attempts ::
  "effect_env \<Rightarrow> string \<Rightarrow> (string \<times> effect_attempt) list \<Rightarrow> entry list
    \<Rightarrow> (string \<times> effect_attempt) list st_result" where
  "latest_attempts env turnID latest [] = Inr latest"
| "latest_attempts env turnID latest (e # es) =
    (if TurnID e \<noteq> turnID \<or> Type e \<noteq> EntryEffectAttempt then latest_attempts env turnID latest es
     else (case decodeEffectAttempt env e of
        Inl err \<Rightarrow> Inl err
      | Inr att \<Rightarrow> latest_attempts env turnID (AList.update (ea_ID att) att latest) es))"

text \<open>The calls whose effect outcome is unknown when the turn is cancelled.\<close>

definition cancelTurnEffects ::
  "effect_env \<Rightarrow> thread_meta \<Rightarrow> cancel_request \<Rightarrow> entry list \<Rightarrow> go_time \<Rightarrow> repo \<Rightarrow> repo \<times> string list st_result" where
  "cancelTurnEffects env meta req es now r =
    (case latest_attempts env (cq_TurnID req) [] es of
       Inl err \<Rightarrow> (r, Inl err)
     | Inr latest \<Rightarrow>
         let fingerprint = ''turn-cancel:'' @ cq_OutcomeFingerprint req;
             closing = map (\<lambda>att. settled_attempt
                 (if ea_State att = EffectAttemptPrepared then EffectAttemptCancelled else EffectAttemptUnknown)
                 fingerprint now att)
               (filter (\<lambda>att. ea_State att = EffectAttemptPrepared \<or> ea_State att = EffectAttemptDispatching)
                 (map snd latest));
             unknown = map (\<lambda>att. iv_ToolCallID (ea_Invocation att))
               (filter (\<lambda>att. ea_State att = EffectAttemptDispatching \<or> ea_State att = EffectAttemptUnknown)
                 (map snd latest))
         in (case append_effects env closing (meta, r) of
               ((_, r'), Some err) \<Rightarrow> (r', Inl err) | ((_, r'), None) \<Rightarrow> (r', Inr unknown)))"

section \<open>The fallback title\<close>

text \<open>\<open>strings.Fields\<close> and \<open>strings.Join\<close> with a space: runs of white space become one space.\<close>

fun fields :: "string list \<Rightarrow> string \<Rightarrow> string list" where
  "fields [] word = (if word = '''' then [] else [word])"
| "fields (c # cs) word =
    (if space_rune c then (if word = '''' then fields cs '''' else word # fields cs '''')
     else fields cs (word @ c))"

fun join_words :: "string list \<Rightarrow> string" where
  "join_words [] = ''''"
| "join_words [w] = w"
| "join_words (w # ws) = w @ '' '' @ join_words ws"

text \<open>\<open>string(runes)\<close> writes the replacement character for an invalid rune.\<close>

definition rune_text :: "string \<Rightarrow> string" where
  "rune_text c = (if invalid_rune c then bytes [239, 191, 189] else c)"

definition fallbackTitleCandidate :: "string \<Rightarrow> string" where
  "fallbackTitleCandidate candidate =
    (let title = join_words (fields (runes candidate) '''') in
     if length (runes title) > MaxThreadTitleRunes
     then trim_space (concat (map rune_text (take MaxThreadTitleRunes (runes title)))) else title)"

definition fallbackThreadTitle :: "message \<Rightarrow> string" where
  "fallbackThreadTitle m =
    (case list_find (\<lambda>t. t \<noteq> '''') (map fallbackTitleCandidate
        (msg_Content m # map at_Name (msg_Attachments m) @ map mr_Label (msg_References m)
         @ map ci_Title (msg_Context m))) of
       None \<Rightarrow> '''' | Some t \<Rightarrow> t)"

definition installFallbackThreadTitle ::
  "thread_meta \<Rightarrow> message \<Rightarrow> go_time \<Rightarrow> (thread_meta \<times> bool) st_result" where
  "installFallbackThreadTitle meta m now =
    (let title = fallbackThreadTitle m;
         named = meta\<lparr>tm_Title := title, tm_TitleSource := ThreadTitleSourceFallback\<rparr>;
         dated = (\<lambda>x. if zero_time (tm_TitleUpdatedAt x) then x\<lparr>tm_TitleUpdatedAt := now\<rparr> else x);
         checked = (\<lambda>x. if ValidateThreadTitleState (dated x) then Inr (dated x, True)
                        else Inl (ErrMsg ''invalid thread title''))
     in if tm_Title meta \<noteq> '''' then Inr (meta, False)
        else if title = '''' then Inl (ErrMsg ''canonical user message cannot produce a fallback title'')
        else (case tm_TitleStatus meta of
           TitleUnset \<Rightarrow>
             if tm_TitleGeneration meta = max_int64 then Inl ErrAuthorityCorrupt
             else checked (named\<lparr>tm_TitleStatus := ThreadTitleReady,
                    tm_TitleGeneration := add64 (tm_TitleGeneration meta) 1, tm_TitleToken := '''',
                    tm_TitleError := ''''\<rparr>)
         | ThreadTitlePending \<Rightarrow> checked named
         | ThreadTitleFailed \<Rightarrow> checked named
         | ThreadTitleReady \<Rightarrow> checked (named\<lparr>tm_TitleToken := '''', tm_TitleError := ''''\<rparr>)
         | TitleStatusOther _ \<Rightarrow> Inl ErrAuthorityCorrupt))"

end
