(* ===== verification/HostWorkRepo.thy ===== *)
theory HostWorkRepo
  imports EffectFacts
begin

text \<open>
  The repository operations of host work (\<^verbatim>\<open>host_work_repo.go\<close>) and the entries they append
  (\<open>bindHostWorkEntry\<close>, \<open>settleHostWorkEntry\<close> of \<^verbatim>\<open>host_work.go\<close>): work is bound to a dispatching
  effect, settled once, admitted into a running turn, or stopped.
\<close>

section \<open>Binding and settling entries\<close>

definition HostWorkOutputMaxBytes :: int where "HostWorkOutputMaxBytes = 8 * 2 ^ 20"

record settlement =
  sm_Activity :: "string option"
  sm_Result :: string
  sm_ThreadID :: string
  sm_ID :: string
  sm_ExecutorID :: string
  sm_State :: string
  sm_Notice :: string
  sm_Notify :: bool
  sm_Output :: "full_output option"
  sm_OutputUnavailable :: bool

definition work_entry :: "store_env \<Rightarrow> host_work \<Rightarrow> string \<Rightarrow> bool \<Rightarrow> entry" where
  "work_entry env w t final = zero_entry
     \<lparr>ID := hostWorkEntryID env (hw_ID w) final, ThreadID := t, TurnID := iv_TurnID (hw_Invocation w),
      RunID := iv_RunID (hw_Invocation w), Type := EntryHostWork, Payload := se_json_of_work env w\<rparr>"

definition bindHostWorkEntry :: "effect_env \<Rightarrow> host_work \<Rightarrow> entry list \<Rightarrow> entry st_result" where
  "bindHostWorkEntry env w path =
    (let senv = ee_store env; e = work_entry senv w (iv_ThreadID (hw_Invocation w)) False in
     if hw_Inherited w \<or> hw_State w \<noteq> ''bound'' \<or> hw_Notify w \<or> hw_Notice w \<noteq> ''''
        \<or> hw_Output w \<noteq> None \<or> hw_OutputUnavailable w
     then Inl ErrInvalidThreadAuthority
     else (case decodeHostWork senv e of
        Inl err \<Rightarrow> Inl err
      | Inr _ \<Rightarrow> (case effectAttemptByInvocation env path (hw_Invocation w) of
          Some (Inl err) \<Rightarrow> Inl err
        | None \<Rightarrow> Inl ErrInvalidThreadAuthority
        | Some (Inr att) \<Rightarrow>
            if ea_State att \<noteq> EffectAttemptDispatching then Inl ErrInvalidThreadAuthority
            else (case hostWorksFromPath senv path of
                Inl err \<Rightarrow> Inl err
              | Inr b \<Rightarrow> if list_ex (\<lambda>old. hw_ID old = hw_ID w) (wb_works b)
                         then Inl ErrRequestConflict else Inr e))))"

definition settlement_ref :: "store_env \<Rightarrow> settlement \<Rightarrow> host_work \<Rightarrow> artifact_ref option st_result" where
  "settlement_ref env req w =
    (case sm_Output req of
       None \<Rightarrow> Inr None
     | Some full \<Rightarrow>
         if int (length (fo_Text full)) > HostWorkOutputMaxBytes \<or> \<not> ValidString (fo_Text full)
            \<or> sm_OutputUnavailable req
         then Inl (ErrMsg ''invalid host-work output'')
         else (case RefForEffect env (''host-work-'' @ take 24 (se_hash env (hw_ID w)))
                      (iv_ToolName (hw_Invocation w)) full of
             Inl err \<Rightarrow> Inl err | Inr ref \<Rightarrow> Inr (Some ref)))"

definition settled_work :: "settlement \<Rightarrow> artifact_ref option \<Rightarrow> host_work \<Rightarrow> host_work" where
  "settled_work req ref w = w\<lparr>hw_Result := sm_Result req, hw_State := sm_State req,
     hw_Notice := sm_Notice req, hw_Notify := sm_Notify req,
     hw_OutputUnavailable := sm_OutputUnavailable req, hw_Output := ref\<rparr>"

text \<open>The view of a settlement carries the output reference and the status only.\<close>

definition empty_view :: tool_result_view where
  "empty_view = \<lparr>tr_ObservedHostWork = '''', tr_EffectOutcome = '''', tr_InputRequired = None,
     tr_Status = '''', tr_Truncated = False, tr_OriginalBytes = 0, tr_VisibleBytes = 0,
     tr_OriginalLines = 0, tr_VisibleLines = 0, tr_Strategy = '''', tr_ContentSHA256 = '''',
     tr_FullOutput = None, tr_Attachments = []\<rparr>"

definition settlement_entry :: "store_env \<Rightarrow> settlement \<Rightarrow> host_work \<Rightarrow> host_work \<Rightarrow> entry" where
  "settlement_entry env req w next =
    (let view = empty_view\<lparr>tr_FullOutput := hw_Output next, tr_Status := se_activity_status env (sm_Activity req)\<rparr>
     in (work_entry env w (sm_ThreadID req) True)
       \<lparr>Payload := se_json_of_work env next,
        Message := zero_message\<lparr>msg_ToolName := iv_ToolName (hw_Invocation w),
          msg_ToolCallID := iv_ToolCallID (hw_Invocation w), msg_Activity := sm_Activity req,
          msg_ToolResult := (if sm_Activity req \<noteq> None \<or> hw_Output next \<noteq> None then Some view else None)\<rparr>\<rparr>)"

text \<open>The activity of the last entry with an identity, as the loop over the path leaves it.\<close>

definition recorded_activity :: "entry list \<Rightarrow> string \<Rightarrow> string option" where
  "recorded_activity path i =
     fold (\<lambda>e original. if ID e = i then msg_Activity (Message e) else original) path None"

text \<open>The entry, the work, and whether the settlement is a replay.\<close>

definition settleHostWorkEntry ::
  "store_env \<Rightarrow> settlement \<Rightarrow> entry list \<Rightarrow> (entry \<times> host_work \<times> bool) st_result" where
  "settleHostWorkEntry env req path =
    (case hostWorksFromPath env path of
       Inl err \<Rightarrow> Inl err
     | Inr b \<Rightarrow> (case find_work (wb_works b) (sm_ID req) of
         None \<Rightarrow> Inl ErrEntryNotFound
       | Some w \<Rightarrow>
           if hw_Inherited w \<or> sm_ExecutorID req \<noteq> hw_ExecutorID w
              \<or> sm_ThreadID req \<noteq> iv_ThreadID (hw_Invocation w)
           then Inl ErrInvalidThreadAuthority
           else if (case sm_Activity req of None \<Rightarrow> False | Some a \<Rightarrow> \<not> se_activity_ok env a)
           then Inl (ErrMsg ''invalid activity'')
           else (case settlement_ref env req w of
              Inl err \<Rightarrow> Inl err
            | Inr ref \<Rightarrow>
                let next = settled_work req ref w; e = settlement_entry env req w next in
                if hw_State next = ''bound'' then Inl ErrInvalidThreadAuthority
                else (case decodeHostWork env e of
                   Inl err \<Rightarrow> Inl err
                 | Inr _ \<Rightarrow>
                     if hw_State w \<noteq> ''bound'' then
                       (if w \<noteq> next \<or> recorded_activity path (ID e) \<noteq> sm_Activity req
                        then Inl ErrRequestConflict else Inr (e, w, True))
                     else Inr (e, next, False)))))"

section \<open>Operations of the repository\<close>

definition current_path ::
  "ctx_poll \<Rightarrow> store_env \<Rightarrow> repo \<Rightarrow> string \<Rightarrow> repo \<times> entry list st_result" where
  "current_path ctx env r t =
    (case thread r t of
       None \<Rightarrow> (r, Inl ErrThreadNotFound)
     | Some meta \<Rightarrow> canonicalPath ctx (ValidateEntryIntegrity env) r t (tm_LeafID meta))"

definition HostWorks :: "ctx_poll \<Rightarrow> store_env \<Rightarrow> repo \<Rightarrow> string \<Rightarrow> repo \<times> host_work list st_result" where
  "HostWorks ctx env r t =
    (case current_path ctx env r t of
       (r', Inl err) \<Rightarrow> (r', Inl err)
     | (r', Inr path) \<Rightarrow>
         (r', case hostWorksFromPath env path of Inl err \<Rightarrow> Inl err | Inr b \<Rightarrow> Inr (wb_works b)))"

definition HostWorkContinuationKey ::
  "ctx_poll \<Rightarrow> store_env \<Rightarrow> repo \<Rightarrow> string \<Rightarrow> repo \<times> string option st_result" where
  "HostWorkContinuationKey ctx env r t =
    (case current_path ctx env r t of
       (r', Inl err) \<Rightarrow> (r', Inl err) | (r', Inr path) \<Rightarrow> (r', HostWorkContinuation env path))"

fun append_stops :: "ctx_poll \<Rightarrow> store_env \<Rightarrow> repo \<Rightarrow> entry list \<Rightarrow> repo \<times> st_error option" where
  "append_stops ctx env r [] = (r, None)"
| "append_stops ctx env r (e # es) =
    (case appendFact ctx env r e no_options True of
       (r', Inl err) \<Rightarrow> (r', Some err) | (r', Inr _) \<Rightarrow> append_stops ctx env r' es)"

definition StopHostWork :: "ctx_poll \<Rightarrow> store_env \<Rightarrow> repo \<Rightarrow> string \<Rightarrow> repo \<times> st_error option" where
  "StopHostWork ctx env r t =
    (case current_path ctx env r t of
       (r1, Inl err) \<Rightarrow> (r1, Some err)
     | (r1, Inr path) \<Rightarrow> (case hostWorkStops env path t of
         Inl err \<Rightarrow> (r1, Some err)
       | Inr es \<Rightarrow> (case append_stops ctx env r1 es of
           (r2, Some err) \<Rightarrow> (restore_checkpoint (checkpointJournalAppend r1 t) r2, Some err)
         | (r2, None) \<Rightarrow> (r2, None))))"

definition BindHostWork ::
  "ctx_poll \<Rightarrow> effect_env \<Rightarrow> repo \<Rightarrow> host_work \<Rightarrow> repo \<times> host_work st_result" where
  "BindHostWork ctx env r w =
    (let t = iv_ThreadID (hw_Invocation w) in
     case thread r t of
       None \<Rightarrow> (r, Inl ErrThreadNotFound)
     | Some meta \<Rightarrow> (case lifecycleRejectsWrite meta of
         Some err \<Rightarrow> (r, Inl err)
       | None \<Rightarrow> (case canonicalPath ctx (ValidateEntryIntegrity (ee_store env)) r (tm_ID meta) (tm_LeafID meta) of
           (r1, Inl err) \<Rightarrow> (r1, Inl err)
         | (r1, Inr path) \<Rightarrow>
             let r2 = ensured (tm_ID meta) r1 in
             if turnCancellationRequested (rp_journal r2 (tm_ID meta)) (iv_TurnID (hw_Invocation w))
             then (r2, Inl canceled)
             else (case bindHostWorkEntry env w path of
                 Inl err \<Rightarrow> (r2, Inl err)
               | Inr e \<Rightarrow> (case appendFact ctx (ee_store env) r2 e (no_options\<lparr>ao_ID := ID e\<rparr>) False of
                   (r3, Inl err) \<Rightarrow> (r3, Inl err) | (r3, Inr _) \<Rightarrow> (r3, Inr w))))))"

definition SettleHostWork ::
  "ctx_poll \<Rightarrow> store_env \<Rightarrow> repo \<Rightarrow> settlement \<Rightarrow> repo \<times> host_work st_result" where
  "SettleHostWork ctx env r req =
    (case thread r (sm_ThreadID req) of
       None \<Rightarrow> (r, Inl ErrThreadNotFound)
     | Some meta \<Rightarrow> (case lifecycleRejectsWrite meta of
         Some err \<Rightarrow> (r, Inl err)
       | None \<Rightarrow> (case canonicalPath ctx (ValidateEntryIntegrity env) r (tm_ID meta) (tm_LeafID meta) of
           (r1, Inl err) \<Rightarrow> (r1, Inl err)
         | (r1, Inr path) \<Rightarrow> (case settleHostWorkEntry env req path of
             Inl err \<Rightarrow> (r1, Inl err)
           | Inr (e, w, replayed) \<Rightarrow>
               if replayed then (r1, Inr w)
               else (case appendFact ctx env r1 e (no_options\<lparr>ao_ID := ID e\<rparr>) True of
                   (r2, Inl err) \<Rightarrow> (r2, Inl err)
                 | (r2, Inr saved) \<Rightarrow>
                     (case (hw_Output w, sm_Output req) of
                        (Some ref, Some full) \<Rightarrow>
                          (setArtifact (artifactRecordKey (tm_ID meta) (ar_ID ref))
                             \<lparr>arr_ThreadID = tm_ID meta, arr_Ref = ref, arr_Text = fo_Text full,
                              arr_CanonicalEntryID = ID saved, arr_CreatedAt = CreatedAt saved\<rparr> r2, Inr w)
                      | _ \<Rightarrow> (r2, Inr w)))))))"

definition AdmitHostWork ::
  "ctx_poll \<Rightarrow> store_env \<Rightarrow> repo \<Rightarrow> string \<Rightarrow> string \<Rightarrow> string \<Rightarrow> repo \<times> entry option st_result" where
  "AdmitHostWork ctx env r t turn run =
    (case thread r t of
       None \<Rightarrow> (r, Inl ErrThreadNotFound)
     | Some meta \<Rightarrow>
         let r1 = ensured t r; j = rp_journal r1 t in
         if activeRunIdentity j turn \<noteq> Inr run \<or> runtimeActiveTurn j \<noteq> Some turn
            \<or> turnCancellationRequested j turn
         then (r1, Inl ErrStaleAuthority)
         else (case canonicalPath ctx (ValidateEntryIntegrity env) r1 t (tm_LeafID meta) of
            (r2, Inl err) \<Rightarrow> (r2, Inl err)
          | (r2, Inr path) \<Rightarrow> (case hostWorkAdmission env path t turn run of
              Inl err \<Rightarrow> (r2, Inl err)
            | Inr None \<Rightarrow> (r2, Inr None)
            | Inr (Some e) \<Rightarrow> (case appendFact ctx env r2 e (no_options\<lparr>ao_ID := ID e\<rparr>) False of
                (r3, Inl err) \<Rightarrow> (r3, Inl err) | (r3, Inr saved) \<Rightarrow> (r3, Inr (Some saved))))))"

section \<open>Stopping is atomic\<close>

lemma journal_ok_located: "journal_ok j \<Longrightarrow> journal_ok (located_journal j)"
  by (cases "jn_turns j"; cases "jn_outputs j") (auto simp: located_journal_def journal_ok_def Let_def ordinal_of_def)

lemma journal_ok_ensure: "journal_ok (ensurePathIndex integ j) = journal_ok j"
  by (cases "jn_turns j"; cases "jn_outputs j") (simp_all add: journal_ok_def ensurePathIndex_def Let_def ordinal_of_def)

lemma read_journal_ok:
  "journal_ok (rp_journal r t) \<Longrightarrow> journal_ok (rp_journal (fst (canonicalPath ctx integ r t leaf)) t)"
  using read_shape [of ctx integ r t leaf] by (auto simp: journal_ok_located journal_ok_ensure)

lemma read_threads: "thread (fst (canonicalPath ctx integ r t leaf)) = thread r"
  using read_shape [of ctx integ r t leaf] by (auto simp: thread_def setJournal_def fun_eq_iff)

lemma append_stops_touched:
  "touched t r r' \<Longrightarrow> list_all (\<lambda>e. ThreadID e = t \<and> ID e \<noteq> '''') es \<Longrightarrow> touched t r (fst (append_stops ctx env r' es))"
proof (induction es arbitrary: r')
  case (Cons e es)
  have "touched t r (fst (appendFact ctx env r' e no_options True))"
    using Cons.prems by (intro appendFact_touched) auto
  with Cons.IH Cons.prems(2) show ?case by (auto split: prod.splits sum.splits)
qed simp

lemma stop_loop_entries:
  "list_all (\<lambda>e. ThreadID e = t \<and> ID e \<noteq> '''' \<and> Type e = EntryCancelRequested) (stop_loop env t ad st ws)"
  by (induction env t ad st ws rule: stop_loop.induct) (simp_all add: stop_entry_def)

text \<open>
  C26: Stopping host work is all or nothing. If it fails, after however many of the
  turns were marked, the repository is the one its read of the path left behind, which is
  the repository from before it up to locators and a path index built on the way.
\<close>

theorem stop_atomic:
  assumes ok: "journal_ok (rp_journal r t)" and err: "StopHostWork ctx env r t = (r', Some e)"
  shows "r' = fst (current_path ctx env r t) \<and> thread r' = thread r \<and> caught_up (rp_journal r t) (rp_journal r' t)"
proof -
  define r1 where "r1 = fst (current_path ctx env r t)"
  have c: "caught_up (rp_journal r t) (rp_journal r1 t)" "thread r1 = thread r" "journal_ok (rp_journal r1 t)"
  proof -
    show "caught_up (rp_journal r t) (rp_journal r1 t)"
      using read_journal [of ctx "ValidateEntryIntegrity env" r t]
      by (auto simp: r1_def current_path_def split: option.splits) (metis caught_up_refl journal_seq(2))
    show "thread r1 = thread r" by (simp add: r1_def current_path_def read_threads split: option.splits)
    show "journal_ok (rp_journal r1 t)"
      using ok read_journal_ok by (auto simp: r1_def current_path_def split: option.splits)
  qed
  have "r' = r1"
  proof (cases "snd (current_path ctx env r t)")
    case (Inl x)
    then show ?thesis using err by (cases "current_path ctx env r t") (simp add: StopHostWork_def r1_def)
  next
    case (Inr path)
    have p: "current_path ctx env r t = (r1, Inr path)" using Inr by (simp add: r1_def prod_eq_iff)
    have live: "thread r1 t \<noteq> None" using p c(2) by (auto simp: current_path_def split: option.splits)
    show ?thesis
    proof (cases "hostWorkStops env path t")
      case (Inl x)
      then show ?thesis using err p by (simp add: StopHostWork_def)
    next
      case (Inr es)
      then have "list_all (\<lambda>e. ThreadID e = t \<and> ID e \<noteq> '''') es"
        using stop_loop_entries by (auto simp: hostWorkStops_def list_all_iff split: sum.splits)
      then have "touched t r1 (fst (append_stops ctx env r1 es))"
        using append_stops_touched [OF touched_refl [OF c(3) live]] by blast
      from rollback_touched [OF c(3) live this] show ?thesis
        using err p Inr by (auto simp: StopHostWork_def split: prod.splits option.splits)
    qed
  qed
  with c show ?thesis by (simp add: r1_def)
qed

text \<open>
  Two bound works whose turns have IDs with the same first characters: under a hash that
  keeps them, the second stop repeats the ID of the first and is refused.
\<close>

definition turn_a :: string where "turn_a = replicate 32 CHR ''u'' @ ''a''"
definition turn_b :: string where "turn_b = replicate 32 CHR ''u'' @ ''b''"

definition work_a :: host_work where
  "work_a = bound_work\<lparr>hw_ID := ''a'', hw_Invocation := sample_invocation\<lparr>iv_TurnID := turn_a\<rparr>\<rparr>"
definition work_b :: host_work where
  "work_b = bound_work\<lparr>hw_ID := ''b'', hw_Invocation := sample_invocation\<lparr>iv_TurnID := turn_b\<rparr>\<rparr>"

definition stop_env :: store_env where
  "stop_env = host_env\<lparr>
     se_work_of_json := (\<lambda>s. if s = ''a'' then Some work_a else if s = ''b'' then Some work_b else None),
     se_json_of_work := hw_ID\<rparr>"

definition stop_journal :: journal where
  "stop_journal = empty_journal\<lparr>jn_entries := [sealed_entry stop_env ((work_entry stop_env work_a ''t'' False)\<lparr>PathDepth := 1\<rparr>),
       sealed_entry stop_env ((work_entry stop_env work_b ''t'' False)\<lparr>ParentID := ''host-work:a'', PathDepth := 2\<rparr>)],
     jn_ordinals := Some [''host-work:a'' \<mapsto> 0, ''host-work:b'' \<mapsto> 1],
     jn_depths := [''host-work:a'' \<mapsto> 1, ''host-work:b'' \<mapsto> 2]\<rparr>"

definition stop_repo :: repo where
  "stop_repo = setJournal ''t'' stop_journal
     (setThread ''t'' (zero_meta\<lparr>tm_ID := ''t'', tm_LeafID := ''host-work:b''\<rparr>) newMemoryRepo)"

lemma stop_journal_ok: "journal_ok stop_journal"
  by (auto simp: journal_ok_def stop_journal_def empty_journal_def Let_def all_early_def fun_eq_iff ordinal_of_def)

definition stop_again :: st_error where
  "stop_again = ErrMsg ''session tree entry id already exists''"

text \<open>The first stop alone would be appended; it is the second that fails.\<close>

lemma stop_first: "\<exists>e. snd (appendFact (\<lambda>_. None) stop_env (fst (current_path (\<lambda>_. None) stop_env stop_repo ''t''))
    (stop_entry stop_env ''t'' (hw_Invocation work_a)) no_options True) = Inr e"
proof -
  have "isl (snd (appendFact (\<lambda>_. None) stop_env (fst (current_path (\<lambda>_. None) stop_env stop_repo ''t''))
    (stop_entry stop_env ''t'' (hw_Invocation work_a)) no_options True)) = False" by code_simp
  then show ?thesis by (metis isl_def sumE)
qed

lemma stop_fails: "snd (StopHostWork (\<lambda>_. None) stop_env stop_repo ''t'') = Some stop_again"
  by code_simp

theorem stop_atomic_witness:
  "\<exists>r'. StopHostWork (\<lambda>_. None) stop_env stop_repo ''t'' = (r', Some stop_again)
    \<and> r' = fst (current_path (\<lambda>_. None) stop_env stop_repo ''t'') \<and> thread r' = thread stop_repo"
proof -
  obtain r' where s: "StopHostWork (\<lambda>_. None) stop_env stop_repo ''t'' = (r', Some stop_again)"
    using stop_fails by (metis prod.collapse)
  have "journal_ok (rp_journal stop_repo ''t'')" by (simp add: stop_repo_def setJournal_def stop_journal_ok)
  from stop_atomic [OF this s] s show ?thesis by blast
qed

end
