(* ===== verification/TurnJournal.thy ===== *)
theory TurnJournal
  imports TurnEntries HostWorkRepo
begin

text \<open>
  The turns of a thread (\<^verbatim>\<open>internal/sessiontree/runtime_turn_journal.go\<close>, \<^verbatim>\<open>provider_context.go\<close>,
  \<^verbatim>\<open>goal_submission.go\<close>): a turn is accepted, writes provider output, and is finished, failed or
  cancelled. Each request is recognised again by the entries it left in the journal.
\<close>

abbreviation background :: ctx_poll where
  "background \<equiv> (\<lambda>_. None)"

section \<open>Admission\<close>

definition trimmed_accept :: "accept_request \<Rightarrow> accept_request" where
  "trimmed_accept req = req\<lparr>aq_ThreadID := trim_space (aq_ThreadID req),
     aq_TurnID := trim_space (aq_TurnID req), aq_RunID := trim_space (aq_RunID req),
     aq_LogicalRequestID := trim_space (aq_LogicalRequestID req),
     aq_RequestFingerprint := trim_space (aq_RequestFingerprint req),
     aq_RetrySourceTurnID := trim_space (aq_RetrySourceTurnID req),
     aq_RetrySourceEntryID := trim_space (aq_RetrySourceEntryID req),
     aq_PromotedQueueID := trim_space (aq_PromotedQueueID req),
     aq_PromotionRequestKey := trim_space (aq_PromotionRequestKey req),
     aq_PromotionRequestFingerprint := trim_space (aq_PromotionRequestFingerprint req),
     aq_InputRequestFingerprint := trim_space (aq_InputRequestFingerprint req)\<rparr>"

text \<open>The entry an admission edge names, before an ordinal; a pending promotion is not stored yet.\<close>

definition lookup_base ::
  "turn_env \<Rightarrow> journal \<Rightarrow> string \<Rightarrow> entry option \<Rightarrow> string \<Rightarrow> int \<Rightarrow> (entry \<times> int) st_result" where
  "lookup_base env j t pending i before =
    (let es = jn_entries j;
         checked = (\<lambda>e k. case ValidateEntryIntegrity (tv_store env) e of
            Some err \<Rightarrow> Inl err | None \<Rightarrow> Inr (e, k))
     in if map_option ID pending = Some i then
          (if before < int (length es) then Inl ErrAuthorityCorrupt
           else checked (the pending) (int (length es)))
        else (case ordinal_of j i of
           None \<Rightarrow> Inl ErrAuthorityCorrupt
         | Some k \<Rightarrow>
             if k \<ge> before \<or> k < 0 \<or> k \<ge> int (length es) then Inl ErrAuthorityCorrupt
             else if ThreadID (at es k) \<noteq> t \<or> ID (at es k) \<noteq> i then Inl ErrAuthorityCorrupt
             else checked (at es k) k))"

definition admission_parent ::
  "turn_env \<Rightarrow> journal \<Rightarrow> entry \<Rightarrow> entry option \<Rightarrow> string st_result" where
  "admission_parent env j started pending =
    (let es = jn_entries j; t = ThreadID started; base = ParentID started;
         limit = (case ordinal_of j (ID started) of None \<Rightarrow> int (length es) | Some k \<Rightarrow> k)
     in if base = '''' then Inr ''''
        else (case lookup_base env j t pending base limit of
           Inl err \<Rightarrow> Inl err
         | Inr (parent, k) \<Rightarrow>
             if Type parent \<noteq> EntryQueuePromoted then Inr base
             else (case tv_id env (Payload parent) of
                None \<Rightarrow> Inl ErrAuthorityCorrupt
              | Some queueID \<Rightarrow>
                  if queueID = '''' \<or> ID parent \<noteq> ''queue-promoted:'' @ queueID
                     \<or> RequestKey parent = '''' \<or> RequestFingerprint parent = ''''
                     \<or> \<not> runtimeQueueContains env (take (nat k) es) queueID
                  then Inl ErrAuthorityCorrupt
                  else if ParentID parent = '''' then Inr ''''
                  else (case lookup_base env j t pending (ParentID parent) k of
                     Inl err \<Rightarrow> Inl err | Inr _ \<Rightarrow> Inr (ParentID parent)))))"

definition turn_kinds :: "string list" where
  "turn_kinds = ['''', ''context_compaction'', ''goal_continuation'', ''host_work_continuation'']"

definition runtimeAdmissionBaseLeaf ::
  "turn_env \<Rightarrow> repo \<Rightarrow> entry \<Rightarrow> entry option \<Rightarrow> repo \<times> string st_result" where
  "runtimeAdmissionBaseLeaf env r started pending =
    (let t = ThreadID started; metadata = Metadata started; kind = mget metadata ''turn_kind'';
         retryID = mget metadata ''retry_source_entry_id'';
         retryTurnID = mget metadata ''retry_source_turn_id''
     in if \<not> turn_started started \<or> ID started \<noteq> runtimeTurnStartedEntryID (TurnID started)
           \<or> RunID started = ''''
        then (r, Inl ErrAuthorityCorrupt)
        else (case ValidateEntryIntegrity (tv_store env) started of
           Some err \<Rightarrow> (r, Inl err)
         | None \<Rightarrow> (case admission_parent env (rp_journal r t) started pending of
             Inl err \<Rightarrow> (r, Inl err)
           | Inr base \<Rightarrow>
               if (retryID = '''') \<noteq> (retryTurnID = '''') then (r, Inl ErrAuthorityCorrupt)
               else if retryID = '''' then
                 (r, if kind \<notin> set turn_kinds then Inl ErrAuthorityCorrupt else Inr base)
               else if kind = ''context_compaction'' \<or> base = '''' then (r, Inl ErrAuthorityCorrupt)
               else (case canonicalPath background (ValidateEntryIntegrity (tv_store env)) r t base of
                  (r', Inl err) \<Rightarrow> (r', Inl err)
                | (r', Inr path) \<Rightarrow>
                    (r', case ValidateRetrySourcePath path retryTurnID retryID of
                       Inl err \<Rightarrow> Inl err | Inr _ \<Rightarrow> Inr retryID)))))"

definition runtimeTurnTerminalOutcome :: "repo \<Rightarrow> entry \<Rightarrow> terminal_outcome st_result" where
  "runtimeTurnTerminalOutcome r terminal =
    (let j = rp_journal r (ThreadID terminal); alone = \<lparr>to_Failure = None, to_Terminal = terminal\<rparr> in
     if TurnStatus terminal \<noteq> TurnFailed \<and> TurnStatus terminal \<noteq> TurnAborted then Inr alone
     else (case ordinal_of j (ParentID terminal) of
        None \<Rightarrow> Inl ErrAuthorityCorrupt
      | Some k \<Rightarrow>
          if k < 0 \<or> k \<ge> int (length (jn_entries j)) then Inl ErrAuthorityCorrupt
          else
            let failure = at (jn_entries j) k in
            if TurnStatus terminal = TurnAborted \<and> Type failure \<noteq> EntryRunFailure then Inr alone
            else if ID failure \<noteq> ParentID terminal \<or> Type failure \<noteq> EntryRunFailure
                    \<or> ThreadID failure \<noteq> ThreadID terminal \<or> TurnID failure \<noteq> TurnID terminal
                    \<or> RunID failure \<noteq> RunID terminal \<or> blank (Error failure)
            then Inl ErrAuthorityCorrupt
            else Inr (alone\<lparr>to_Failure := Some failure\<rparr>)))"

definition sameCanonicalUserInput :: "store_env \<Rightarrow> message \<Rightarrow> message \<Rightarrow> bool" where
  "sameCanonicalUserInput env a b \<longleftrightarrow> msg_Role a = msg_Role b \<and> msg_Content a = msg_Content b
     \<and> se_hash env (se_raw env (zero_entry\<lparr>Type := EntryUserMessage, Message := a\<rparr>))
       = se_hash env (se_raw env (zero_entry\<lparr>Type := EntryUserMessage, Message := b\<rparr>))"

definition brings_input :: "accept_request \<Rightarrow> bool" where
  "brings_input req \<longleftrightarrow> aq_RetrySourceEntryID req = '''' \<and> aq_TurnKind req = ''''"

definition same_admission :: "accept_request \<Rightarrow> entry \<Rightarrow> bool" where
  "same_admission req started \<longleftrightarrow> (let metadata = Metadata started; kind = mget metadata ''turn_kind'' in
     \<not> (\<not> turn_started started \<or> TurnID started \<noteq> aq_TurnID req \<or> RunID started \<noteq> aq_RunID req
        \<or> RequestKey started \<noteq> aq_LogicalRequestID req
        \<or> RequestFingerprint started \<noteq> aq_RequestFingerprint req)
   \<and> \<not> (mget metadata ''retry_source_entry_id'' \<noteq> aq_RetrySourceEntryID req
        \<or> mget metadata ''retry_source_turn_id'' \<noteq> aq_RetrySourceTurnID req
        \<or> kind \<noteq> aq_TurnKind req \<and> \<not> (aq_ContinueGoal req \<and> kind = ''context_compaction'')
        \<or> (mget metadata ''continue_goal'' = ''1'') \<noteq> aq_ContinueGoal req))"

definition replayed_user :: "turn_env \<Rightarrow> repo \<Rightarrow> accept_request \<Rightarrow> entry \<Rightarrow> string \<Rightarrow> entry st_result" where
  "replayed_user env r req started userID =
    (if \<not> brings_input req then Inr zero_entry
     else (case entryMetadata r (aq_ThreadID req) userID of
        Inl err \<Rightarrow> Inl err
      | Inr None \<Rightarrow> Inl ErrAuthorityCorrupt
      | Inr (Some user) \<Rightarrow>
          if ParentID user \<noteq> ID started \<or> RequestFingerprint user \<noteq> aq_InputRequestFingerprint req
             \<or> \<not> sameCanonicalUserInput (tv_store env) (Message user) (aq_Input req)
          then Inl ErrAuthorityCorrupt else Inr user))"

definition replayRuntimeTurnAcceptance ::
  "turn_env \<Rightarrow> repo \<Rightarrow> accept_request \<Rightarrow> entry \<Rightarrow> string \<Rightarrow> repo \<times> accept_result st_result" where
  "replayRuntimeTurnAcceptance env r req started userID =
    (if \<not> same_admission req started then (r, Inl ErrRequestConflict)
     else (case runtimeAdmissionBaseLeaf env r started None of
        (r1, Inl err) \<Rightarrow> (r1, Inl err)
      | (r1, Inr base) \<Rightarrow> (case replayed_user env r1 req started userID of
          Inl err \<Rightarrow> (r1, Inl err)
        | Inr user \<Rightarrow>
            let t = aq_ThreadID req; r2 = ensured t r1; j = rp_journal r2 t;
                result = \<lparr>ar_TurnStarted = started, ar_UserMessage = user, ar_BaseLeafID = base,
                          ar_Terminal = None, ar_Replayed = True\<rparr>
            in (r2, case turnTerminal j (aq_TurnID req) of
                 Some terminal \<Rightarrow> (case runtimeTurnTerminalOutcome r2 terminal of
                     Inl err \<Rightarrow> Inl err | Inr outcome \<Rightarrow> Inr (result\<lparr>ar_Terminal := Some outcome\<rparr>))
               | None \<Rightarrow>
                   if runtimeActiveTurn j \<notin> {None, Some (aq_TurnID req)} then Inl ErrActiveTurn
                   else Inr result))))"

text \<open>A continuation of host work needs the key of the work that wakes the thread.\<close>

definition host_work_gate ::
  "turn_env \<Rightarrow> repo \<Rightarrow> thread_meta \<Rightarrow> accept_request \<Rightarrow> repo \<times> st_error option" where
  "host_work_gate env r meta req =
    (if aq_TurnKind req = ''host_work_continuation'' \<and> aq_RetrySourceEntryID req = '''' then
       (case canonicalPath background (ValidateEntryIntegrity (tv_store env)) r (tm_ID meta) (tm_LeafID meta) of
          (r', Inl err) \<Rightarrow> (r', Some err)
        | (r', Inr path) \<Rightarrow>
            (r', case HostWorkContinuation (tv_store env) path of
               Inl err \<Rightarrow> Some err
             | Inr key \<Rightarrow> if key \<noteq> Some (aq_LogicalRequestID req) then Some ErrStaleAuthority else None))
     else (r, None))"

definition promotion ::
  "turn_env \<Rightarrow> repo \<Rightarrow> thread_meta \<Rightarrow> accept_request \<Rightarrow> go_time \<Rightarrow> entry option st_result" where
  "promotion env r meta req now =
    (let queueID = aq_PromotedQueueID req in
     if queueID = '''' then Inr None
     else if aq_PromotionRequestKey req = '''' \<or> aq_PromotionRequestFingerprint req = ''''
     then Inl ErrRequestConflict
     else if \<not> runtimeQueueContains env (jn_entries (rp_journal r (tm_ID meta))) queueID
     then Inl ErrRequestConflict
     else Inr (Some (sealed_entry (tv_store env) (zero_entry\<lparr>ID := ''queue-promoted:'' @ queueID,
            ThreadID := tm_ID meta, ParentID := tm_LeafID meta, Type := EntryQueuePromoted,
            RequestKey := aq_PromotionRequestKey req,
            RequestFingerprint := aq_PromotionRequestFingerprint req,
            Payload := tv_id_json env queueID, CreatedAt := now\<rparr>))))"

definition unknown_effect_since_input :: "entry list \<Rightarrow> bool" where
  "unknown_effect_since_input path \<longleftrightarrow>
     list_ex (\<lambda>e. mget (Metadata e) ''failure_code'' = ''effect_outcome_unknown'')
       (takeWhile (\<lambda>e. \<not> isCanonicalUserEntry e) (rev path))"

text \<open>The kind a turn is recorded with: a goal that is no longer active leaves a compaction.\<close>

definition recorded_kind ::
  "turn_env \<Rightarrow> repo \<Rightarrow> thread_meta \<Rightarrow> accept_request \<Rightarrow> repo \<times> string st_result" where
  "recorded_kind env r meta req =
    (if \<not> aq_ContinueGoal req then (r, Inr (aq_TurnKind req))
     else (case canonicalPath background (ValidateEntryIntegrity (tv_store env)) r (tm_ID meta) (tm_LeafID meta) of
        (r', Inl err) \<Rightarrow> (r', Inl err)
      | (r', Inr path) \<Rightarrow>
          (r', case GoalFromPath (tv_goals env) path of
             Inl err \<Rightarrow> Inl err
           | Inr goal \<Rightarrow>
               if gs_Status goal \<noteq> ''active'' then Inr ''context_compaction''
               else if unknown_effect_since_input path then Inl ErrEffectOutcomeUnknown
               else Inr (aq_TurnKind req))))"

definition started_entry ::
  "turn_env \<Rightarrow> thread_meta \<Rightarrow> accept_request \<Rightarrow> string \<Rightarrow> string \<Rightarrow> go_time \<Rightarrow> entry" where
  "started_entry env meta req parentID kind now = sealed_entry (tv_store env)
     (zero_entry\<lparr>ID := runtimeTurnStartedEntryID (aq_TurnID req), ThreadID := tm_ID meta,
        ParentID := parentID, Type := EntryTurnMarker, TurnID := aq_TurnID req, RunID := aq_RunID req,
        RequestKey := aq_LogicalRequestID req, RequestFingerprint := aq_RequestFingerprint req,
        TurnStatus := TurnStarted, CreatedAt := now,
        Metadata := [(''run_id'', aq_RunID req), (''response_segments'', ''1'')]
          @ (if aq_RetrySourceEntryID req = '''' then []
             else [(''retry_source_turn_id'', aq_RetrySourceTurnID req),
                   (''retry_source_entry_id'', aq_RetrySourceEntryID req)])
          @ (if aq_TurnKind req = '''' then []
             else (if aq_ContinueGoal req then [(''continue_goal'', ''1'')] else [])
                  @ [(''turn_kind'', kind)])\<rparr>)"

definition user_entry ::
  "turn_env \<Rightarrow> thread_meta \<Rightarrow> accept_request \<Rightarrow> go_time \<Rightarrow> entry" where
  "user_entry env meta req now = sealed_entry (tv_store env)
     (zero_entry\<lparr>ID := runtimeUserEntryID (aq_LogicalRequestID req), ThreadID := tm_ID meta,
        ParentID := runtimeTurnStartedEntryID (aq_TurnID req), Type := EntryUserMessage,
        TurnID := aq_TurnID req, RunID := aq_RunID req, RequestKey := aq_LogicalRequestID req,
        RequestFingerprint := aq_InputRequestFingerprint req, CreatedAt := now, Message := aq_Input req\<rparr>)"

text \<open>
  The commit of an admission: the promotion, the started marker and the user message, then the
  metadata. A fallback title that cannot be installed is reported after the entries are in.
\<close>

definition commit_acceptance ::
  "turn_env \<Rightarrow> repo \<Rightarrow> thread_meta \<Rightarrow> accept_request \<Rightarrow> entry option \<Rightarrow> entry \<Rightarrow> string \<Rightarrow> go_time
    \<Rightarrow> repo \<times> accept_result st_result" where
  "commit_acceptance env r meta req promoted started base now =
    (let t = tm_ID meta;
         r1 = (case promoted of None \<Rightarrow> r | Some e \<Rightarrow> put_entry env t e r);
         r2 = put_entry env t started r1;
         user = (if brings_input req then user_entry env meta req now else zero_entry);
         r3 = (if brings_input req then put_entry env t user r2 else r2);
         moved = meta\<lparr>tm_LeafID := (if brings_input req then ID user else ID started)\<rparr>;
         titled = (if brings_input req then installFallbackThreadTitle moved (Message user) now
                   else Inr (moved, False))
     in case titled of
          Inl err \<Rightarrow> (r3, Inl err)
        | Inr (meta', _) \<Rightarrow>
            (setThread t (meta'\<lparr>tm_UpdatedAt := now\<rparr>) r3,
             Inr \<lparr>ar_TurnStarted = started, ar_UserMessage = user, ar_BaseLeafID = base,
                  ar_Terminal = None, ar_Replayed = False\<rparr>))"

definition accept_fresh ::
  "turn_env \<Rightarrow> repo \<Rightarrow> thread_meta \<Rightarrow> accept_request \<Rightarrow> repo \<times> accept_result st_result" where
  "accept_fresh env r0 meta req =
    (let t = tm_ID meta; r = ensured t r0; now = canonicalTime (tv_effects env) (aq_Now req) in
     if runtimeActiveTurn (rp_journal r t) \<notin> {None, Some (aq_TurnID req)} then (r, Inl ErrActiveTurn)
     else (case host_work_gate env r meta req of
        (r1, Some err) \<Rightarrow> (r1, Inl err)
      | (r1, None) \<Rightarrow> (case promotion env r1 meta req now of
          Inl err \<Rightarrow> (r1, Inl err)
        | Inr promoted \<Rightarrow> (case recorded_kind env r1 meta req of
            (r2, Inl err) \<Rightarrow> (r2, Inl err)
          | (r2, Inr kind) \<Rightarrow>
              let parentID = (case promoted of None \<Rightarrow> tm_LeafID meta | Some e \<Rightarrow> ID e);
                  started = started_entry env meta req parentID kind now
              in (case runtimeAdmissionBaseLeaf env r2 started promoted of
                    (r3, Inl err) \<Rightarrow> (r3, Inl err)
                  | (r3, Inr base) \<Rightarrow> commit_acceptance env r3 meta req promoted started base now)))))"

definition acceptTurn :: "turn_env \<Rightarrow> repo \<Rightarrow> accept_request \<Rightarrow> repo \<times> accept_result st_result" where
  "acceptTurn env r req =
    (case thread r (aq_ThreadID req) of
       None \<Rightarrow> (r, Inl (if tombstone r (aq_ThreadID req) \<noteq> None then ErrThreadDeleted else ErrThreadNotFound))
     | Some meta \<Rightarrow> (case lifecycleRejectsWrite meta of
         Some err \<Rightarrow> (r, Inl err)
       | None \<Rightarrow> (case entryMetadata r (tm_ID meta) (runtimeTurnStartedEntryID (aq_TurnID req)) of
           Inl err \<Rightarrow> (r, Inl err)
         | Inr (Some started) \<Rightarrow>
             replayRuntimeTurnAcceptance env r req started (runtimeUserEntryID (aq_LogicalRequestID req))
         | Inr None \<Rightarrow> accept_fresh env r meta req)))"

definition AcceptTurn :: "turn_env \<Rightarrow> repo \<Rightarrow> accept_request \<Rightarrow> repo \<times> accept_result st_result" where
  "AcceptTurn env r req =
    (case ValidateAcceptTurnRequest req of
       Some err \<Rightarrow> (r, Inl err) | None \<Rightarrow> acceptTurn env r (trimmed_accept req))"

text \<open>The accepted turn as the journal has it; \<open>None\<close> when no such turn was started.\<close>

definition accepted_user :: "turn_env \<Rightarrow> repo \<Rightarrow> string \<Rightarrow> entry \<Rightarrow> string \<Rightarrow> string \<Rightarrow> entry st_result" where
  "accepted_user env r t started turnID runID =
    (if mget (Metadata started) ''retry_source_entry_id'' \<noteq> ''''
        \<or> mget (Metadata started) ''turn_kind'' \<noteq> '''' then Inr zero_entry
     else (case entryMetadata r t (runtimeUserEntryID (RequestKey started)) of
        Inl err \<Rightarrow> Inl err
      | Inr None \<Rightarrow> Inl ErrAuthorityCorrupt
      | Inr (Some user) \<Rightarrow>
          if Type user \<noteq> EntryUserMessage \<or> ParentID user \<noteq> ID started \<or> TurnID user \<noteq> turnID
             \<or> RunID user \<noteq> runID \<or> RequestKey user \<noteq> RequestKey started
          then Inl ErrAuthorityCorrupt
          else (case ValidateEntryIntegrity (tv_store env) user of
             Some err \<Rightarrow> Inl err | None \<Rightarrow> Inr user)))"

definition ReadAcceptedTurn ::
  "turn_env \<Rightarrow> repo \<Rightarrow> string \<Rightarrow> string \<Rightarrow> string \<Rightarrow> repo \<times> accept_result option st_result" where
  "ReadAcceptedTurn env r t0 turnID0 runID0 =
    (let t = trim_space t0; turnID = trim_space turnID0; runID = trim_space runID0 in
     if thread r t = None then (r, Inl ErrThreadNotFound)
     else (case entryMetadata r t (runtimeTurnStartedEntryID turnID) of
        Inl err \<Rightarrow> (r, Inl err)
      | Inr None \<Rightarrow> (r, Inr None)
      | Inr (Some started) \<Rightarrow>
          if RunID started \<noteq> runID then (r, Inl ErrRequestConflict)
          else (case runtimeAdmissionBaseLeaf env r started None of
             (r1, Inl err) \<Rightarrow> (r1, Inl err)
           | (r1, Inr base) \<Rightarrow> (case accepted_user env r1 t started turnID runID of
               Inl err \<Rightarrow> (r1, Inl err)
             | Inr user \<Rightarrow>
                 let r2 = ensured t r1;
                     result = \<lparr>ar_TurnStarted = started, ar_UserMessage = user, ar_BaseLeafID = base,
                               ar_Terminal = None, ar_Replayed = True\<rparr>
                 in (r2, case turnTerminal (rp_journal r2 t) turnID of
                      None \<Rightarrow> Inr (Some result)
                    | Some terminal \<Rightarrow> (case runtimeTurnTerminalOutcome r2 terminal of
                        Inl err \<Rightarrow> Inl err
                      | Inr outcome \<Rightarrow> Inr (Some (result\<lparr>ar_Terminal := Some outcome\<rparr>))))))))"

definition FindTurnRequest ::
  "ctx_poll \<Rightarrow> turn_env \<Rightarrow> repo \<Rightarrow> string \<Rightarrow> string \<Rightarrow> repo \<times> entry option st_result" where
  "FindTurnRequest ctx env r t requestKey =
    (case ctx 0 of
       Some err \<Rightarrow> (r, Inl err)
     | None \<Rightarrow>
       if thread r t = None then (r, Inl ErrThreadNotFound)
       else
         let r1 = ensured t r; j = rp_journal r1 t; es = jn_entries j;
             positions = list_at (ti_requests (turns_of j)) requestKey; k = last positions
         in if positions = [] then (r1, Inr None)
            else if k < 0 \<or> k \<ge> int (length es) then (r1, Inl ErrAuthorityCorrupt)
            else if \<not> turn_started (at es k) \<or> RequestKey (at es k) \<noteq> requestKey
            then (r1, Inl ErrAuthorityCorrupt)
            else (r1, case entryMetadata r1 t (ID (at es k)) of
                   Inl err \<Rightarrow> Inl err
                 | Inr found \<Rightarrow>
                     let e = (case found of None \<Rightarrow> zero_entry | Some e \<Rightarrow> e) in
                     (case ValidateEntryIntegrity (tv_store env) e of
                        Some err \<Rightarrow> Inl err | None \<Rightarrow> Inr (Some e))))"

section \<open>The provider state across a turn\<close>

text \<open>The state stays usable when the path still holds its anchor with no compaction from there on.\<close>

fun still_anchored :: "string \<Rightarrow> bool \<Rightarrow> entry list \<Rightarrow> bool" where
  "still_anchored leaf anchored [] = anchored"
| "still_anchored leaf anchored (e # es) =
    still_anchored leaf ((anchored \<or> ID e = leaf) \<and> Type e \<noteq> EntryCompaction) es"

definition reanchorProviderState ::
  "turn_env \<Rightarrow> string \<Rightarrow> string \<Rightarrow> string \<Rightarrow> go_time \<Rightarrow> repo \<Rightarrow> repo" where
  "reanchorProviderState env t terminalID compatibilityKey now r =
    (case rp_providerStates r t of
       None \<Rightarrow> r
     | Some rec \<Rightarrow>
         if compatibilityKey \<noteq> '''' \<and> psr_CompatibilityKey rec \<noteq> compatibilityKey
         then deleteProviderState t r
         else (case canonicalPath background (ValidateEntryIntegrity (tv_store env)) r t terminalID of
            (r', Inl _) \<Rightarrow> deleteProviderState t r'
          | (r', Inr path) \<Rightarrow>
              if \<not> still_anchored (psr_LeafEntryID rec) False path then deleteProviderState t r'
              else setProviderState t (rec\<lparr>psr_LeafEntryID := terminalID, psr_UpdatedAt := now\<rparr>) r'))"

definition settleContextOnlyProviderState ::
  "entry \<Rightarrow> string \<Rightarrow> string \<Rightarrow> string \<Rightarrow> string \<Rightarrow> go_time \<Rightarrow> repo \<Rightarrow> repo" where
  "settleContextOnlyProviderState started t turnID runID terminalID now r =
    (if mget (Metadata started) ''turn_kind'' \<noteq> ''context_compaction'' then deleteProviderState t r
     else (case rp_providerStates r t of
        None \<Rightarrow> r
      | Some rec \<Rightarrow> setProviderState t (rec\<lparr>psr_LeafEntryID := terminalID, psr_CreatedByRunID := runID,
          psr_CreatedByTurnID := turnID, psr_UpdatedAt := now\<rparr>) r))"

section \<open>Finishing a turn\<close>

definition finish_metadata ::
  "turn_env \<Rightarrow> repo \<Rightarrow> thread_meta \<Rightarrow> finish_turn_request \<Rightarrow> repo \<times> meta_map st_result" where
  "finish_metadata env r meta req =
    (if fq_Status req = TurnCompleted \<and> mget (fq_Metadata req) ''goal_guard'' = ''1'' then
       (case canonicalPath background (ValidateEntryIntegrity (tv_store env)) r (fq_ThreadID req) (tm_LeafID meta) of
          (r', Inl err) \<Rightarrow> (r', Inl err)
        | (r', Inr path) \<Rightarrow> (r', goalFinishMetadata (tv_goals env) path req))
     else (r, Inr (fq_Metadata req)))"

text \<open>A compaction that is still running ends with a turn that failed or was aborted.\<close>

definition finish_compaction ::
  "turn_env \<Rightarrow> entry list \<Rightarrow> finish_turn_request \<Rightarrow> go_time \<Rightarrow> thread_meta \<Rightarrow> repo
    \<Rightarrow> (thread_meta \<times> repo) \<times> st_error option" where
  "finish_compaction env es req now meta r =
    (if fq_Status req = TurnFailed \<or> fq_Status req = TurnAborted then
       (let phase = (if fq_Status req = TurnAborted then ''cancelled'' else ''failed'') in
        case settleRunningCompaction background env es (fq_TurnID req) (fq_RunID req)
               phase phase (fq_FailureMessage req) now r of
          (r', Some err) \<Rightarrow> ((meta, r'), Some err)
        | (r', None) \<Rightarrow> ((meta_of r' (fq_ThreadID req), r'), None))
     else ((meta, r), None))"

definition failure_entry ::
  "turn_env \<Rightarrow> string \<Rightarrow> string \<Rightarrow> string \<Rightarrow> string \<Rightarrow> string \<Rightarrow> go_time \<Rightarrow> entry" where
  "failure_entry env t turnID runID parentID message now = sealed_entry (tv_store env)
     (zero_entry\<lparr>ID := ''turn-failure:'' @ turnID, ThreadID := t, ParentID := parentID,
        Type := EntryRunFailure, TurnID := turnID, RunID := runID, CreatedAt := now, Error := message\<rparr>)"

definition terminal_entry ::
  "turn_env \<Rightarrow> string \<Rightarrow> string \<Rightarrow> string \<Rightarrow> string \<Rightarrow> string \<Rightarrow> string \<Rightarrow> turn_status \<Rightarrow> meta_map \<Rightarrow> go_time
    \<Rightarrow> entry" where
  "terminal_entry env i t turnID runID parentID fingerprint status metadata now =
     sealed_entry (tv_store env) (zero_entry\<lparr>ID := i, ThreadID := t, ParentID := parentID,
       Type := EntryTurnMarker, TurnID := turnID, RunID := runID, RequestFingerprint := fingerprint,
       CreatedAt := now, TurnStatus := status, Metadata := metadata\<rparr>)"

definition finish_provider ::
  "turn_env \<Rightarrow> finish_turn_request \<Rightarrow> entry \<Rightarrow> string \<Rightarrow> string \<Rightarrow> go_time \<Rightarrow> repo \<Rightarrow> repo" where
  "finish_provider env req admission t terminalID now r =
    (case fq_ProviderState req of
       Some rec \<Rightarrow> setProviderState t rec r
     | None \<Rightarrow>
         if fq_PreserveProviderState req
         then reanchorProviderState env t terminalID (fq_StateCompatibilityKey req) now r
         else if fq_ClearProviderState req
         then settleContextOnlyProviderState admission t (fq_TurnID req) (fq_RunID req) terminalID now r
         else r)"

text \<open>
  The commit of a finish: failure, terminal marker, metadata and provider state, then the attempts that
  were only prepared are cancelled.
\<close>

definition commit_turn_finish ::
  "turn_env \<Rightarrow> finish_turn_request \<Rightarrow> entry \<Rightarrow> effect_attempt list \<Rightarrow> meta_map \<Rightarrow> go_time
    \<Rightarrow> thread_meta \<Rightarrow> repo \<Rightarrow> repo \<times> finish_turn_result st_result" where
  "commit_turn_finish env req admission attempts metadata now meta r =
    (let t = tm_ID meta; message = trim_space (fq_FailureMessage req);
         failure = failure_entry env t (fq_TurnID req) (fq_RunID req) (tm_LeafID meta) message now;
         r1 = (if message = '''' then r else put_entry env t failure r);
         terminal = terminal_entry env (trim_space (fq_TerminalEntryID req)) t (fq_TurnID req) (fq_RunID req)
           (if message = '''' then tm_LeafID meta else ID failure) (fq_OutcomeFingerprint req)
           (fq_Status req) metadata now;
         meta' = meta\<lparr>tm_LeafID := ID terminal, tm_UpdatedAt := now\<rparr>;
         r2 = setThread t meta' (put_entry env t terminal r1);
         r3 = finish_provider env req admission t (ID terminal) now r2;
         prepared = map (settled_attempt EffectAttemptCancelled (''turn-finish:'' @ fq_OutcomeFingerprint req) now)
           (filter (\<lambda>att. ea_State att = EffectAttemptPrepared) attempts)
     in case append_effects (tv_effects env) prepared (meta', r3) of
          ((_, r4), Some err) \<Rightarrow> (r4, Inl err)
        | ((_, r4), None) \<Rightarrow>
            (r4, Inr \<lparr>ft_Failure = (if message = '''' then None else Some failure),
                      ft_Terminal = terminal, ft_Replayed = False\<rparr>))"

definition finish_settled ::
  "turn_env \<Rightarrow> finish_turn_request \<Rightarrow> entry \<Rightarrow> thread_meta \<Rightarrow> entry list \<Rightarrow> repo
    \<Rightarrow> repo \<times> finish_turn_result st_result" where
  "finish_settled env req admission meta es r =
    (let attempts = canonicalEffectAttemptsIn (tv_effects env) es (fq_TurnID req);
         now = canonicalTime (tv_effects env) (fq_Now req)
     in if fq_Status req \<noteq> TurnWaiting \<and> runtimeTurnHasPendingInteraction (tv_store env) es (fq_TurnID req)
        then (r, Inl ErrRequestConflict)
        else if (fq_Status req = TurnCompleted \<or> fq_Status req = TurnWaiting)
                \<and> turnCancellationRequested (rp_journal r (tm_ID meta)) (fq_TurnID req)
        then (r, Inl canceled)
        else if list_ex (\<lambda>att. ea_State att = EffectAttemptDispatching \<or> ea_State att = EffectAttemptUnknown) attempts
        then (r, Inl ErrEffectOutcomeUnknown)
        else (case finish_metadata env r meta req of
           (r1, Inl err) \<Rightarrow> (r1, Inl err)
         | (r1, Inr metadata) \<Rightarrow> (case finish_compaction env es req now meta r1 of
             ((_, r2), Some err) \<Rightarrow> (r2, Inl err)
           | ((meta2, r2), None) \<Rightarrow>
               (case (if fq_Status req = TurnWaiting then (meta2, r2)
                      else cancelPendingSteering env meta2 es (fq_TurnID req) (fq_RunID req) ''task_ended'' now r2) of
                  (meta3, r3) \<Rightarrow> commit_turn_finish env req admission attempts metadata now meta3 r3))))"

definition same_finish :: "finish_turn_request \<Rightarrow> entry \<Rightarrow> bool" where
  "same_finish req terminal \<longleftrightarrow> \<not> (Type terminal \<noteq> EntryTurnMarker \<or> TurnID terminal \<noteq> fq_TurnID req
     \<or> RunID terminal \<noteq> fq_RunID req \<or> RequestFingerprint terminal \<noteq> fq_OutcomeFingerprint req)"

definition finishTurn ::
  "turn_env \<Rightarrow> repo \<Rightarrow> finish_turn_request \<Rightarrow> repo \<times> finish_turn_result st_result" where
  "finishTurn env r req =
    (let t = fq_ThreadID req;
         context_only = (fq_ClearProviderState req \<and> \<not> fq_PreserveProviderState req \<and> fq_ProviderState req = None)
     in case entryMetadata r t (trim_space (fq_TerminalEntryID req)) of
          Inl err \<Rightarrow> (r, Inl err)
        | Inr (Some terminal) \<Rightarrow>
            (r, if \<not> same_finish req terminal then Inl ErrRequestConflict
                else Inr \<lparr>ft_Failure = None, ft_Terminal = terminal, ft_Replayed = True\<rparr>)
        | Inr None \<Rightarrow>
            (case (if context_only then entryMetadata r t (runtimeTurnStartedEntryID (fq_TurnID req)) else Inr None) of
               Inl err \<Rightarrow> (r, Inl err)
             | Inr found \<Rightarrow>
                 let r1 = ensured t r; admission = (case found of None \<Rightarrow> zero_entry | Some e \<Rightarrow> e) in
                 if runtimeActiveTurn (rp_journal r1 t) \<noteq> Some (fq_TurnID req) then (r1, Inl ErrStaleAuthority)
                 else (case thread r1 t of
                    None \<Rightarrow> (r1, Inl ErrThreadNotFound)
                  | Some meta \<Rightarrow> (case runtimeTurnEntries r1 (tm_ID meta) (fq_TurnID req) of
                      Inl err \<Rightarrow> (r1, Inl err)
                    | Inr es \<Rightarrow> finish_settled env req admission meta es r1))))"

definition FinishTurn ::
  "turn_env \<Rightarrow> repo \<Rightarrow> finish_turn_request \<Rightarrow> repo \<times> finish_turn_result st_result" where
  "FinishTurn env r req =
    (case ValidateFinishTurnRequest req of Some err \<Rightarrow> (r, Inl err) | None \<Rightarrow> finishTurn env r req)"

section \<open>A turn whose effects are in doubt\<close>

definition nul_joined :: "string list \<Rightarrow> string" where
  "nul_joined xs = concat (map (\<lambda>x. trim_space x @ bytes [0]) xs)"

definition unknownEffectTerminalEntryID :: "store_env \<Rightarrow> string \<Rightarrow> string \<Rightarrow> string \<Rightarrow> string" where
  "unknownEffectTerminalEntryID env t turnID runID =
     ''terminal-'' @ take 24 (se_hash env (nul_joined [t, turnID, runID] @ ''terminal''))"

definition unknownEffectOutcomeFingerprint :: "store_env \<Rightarrow> string \<Rightarrow> string \<Rightarrow> string \<Rightarrow> string" where
  "unknownEffectOutcomeFingerprint env t turnID runID =
     se_hash env (nul_joined [t, turnID, runID] @ ''effect_outcome_unknown'')"

text \<open>Entries appended one after the other under their own identities, until one is refused.\<close>

fun append_all ::
  "ctx_poll \<Rightarrow> store_env \<Rightarrow> go_time \<Rightarrow> entry list \<Rightarrow> repo \<Rightarrow> repo \<times> entry list st_result" where
  "append_all ctx env now [] r = (r, Inr [])"
| "append_all ctx env now (e # es) r =
    (case appendFact ctx env r e (no_options\<lparr>ao_ID := ID e, ao_Now := now\<rparr>) False of
       (r1, Inl err) \<Rightarrow> (r1, Inl err)
     | (r1, Inr saved) \<Rightarrow> (case append_all ctx env now es r1 of
         (r2, Inl err) \<Rightarrow> (r2, Inl err) | (r2, Inr rest) \<Rightarrow> (r2, Inr (saved # rest))))"

definition resolution_entry :: "string \<Rightarrow> string \<Rightarrow> string \<Rightarrow> string \<Rightarrow> go_time \<Rightarrow> interaction \<Rightarrow> entry" where
  "resolution_entry t key fingerprint payload now i = zero_entry\<lparr>ID := ''interaction-resolved:'' @ ri_ID i,
     ThreadID := t, TurnID := ri_TurnID i, RunID := ri_RunID i, Type := EntryInteractionDone,
     RequestKey := key, RequestFingerprint := fingerprint, Payload := payload, CreatedAt := now\<rparr>"

text \<open>The result that closes a call: its prefix, its status and its text.\<close>

definition closing_entry ::
  "turn_env \<Rightarrow> string \<Rightarrow> string \<Rightarrow> string \<Rightarrow> string \<Rightarrow> string \<Rightarrow> string \<Rightarrow> go_time \<Rightarrow> entry \<Rightarrow> entry" where
  "closing_entry env t turnID runID label status message now call =
    (let msg = Message call in
     zero_entry\<lparr>ID := label @ turnID @ '':'' @ trim_space (msg_ToolCallID msg), ThreadID := t,
       TurnID := turnID, RunID := runID, Type := EntryToolResult,
       Message := zero_message\<lparr>msg_Role := Tool, msg_Content := message,
         msg_ToolCallID := msg_ToolCallID msg, msg_ToolName := msg_ToolName msg,
         msg_ToolResult := Some (empty_view\<lparr>tr_Status := status\<rparr>),
         msg_Activity := Some (tv_terminal_activity env (msg_Activity msg) status message)\<rparr>,
       CreatedAt := now\<rparr>)"

definition failed_outcome :: string where
  "failed_outcome = json_object [(''accepted'', ''false''), (''outcome'', quoted ''failed'')]"

definition unknown_closing :: "turn_env \<Rightarrow> fail_request \<Rightarrow> string list \<Rightarrow> go_time \<Rightarrow> entry \<Rightarrow> entry" where
  "unknown_closing env req unknown now call =
    (if msg_ToolCallID (Message call) \<in> set unknown
     then closing_entry env (uq_ThreadID req) (uq_TurnID req) (uq_RunID req) ''tool-effect-unknown:''
            ''error'' EffectOutcomeUnknownFailureMessage now call
     else closing_entry env (uq_ThreadID req) (uq_TurnID req) (uq_RunID req) ''tool-effect-unknown:''
            ''canceled'' ''Tool call was canceled before execution.'' now call)"

definition same_unknown_failure :: "fail_request \<Rightarrow> string \<Rightarrow> entry \<Rightarrow> entry option \<Rightarrow> bool" where
  "same_unknown_failure req fingerprint terminal found \<longleftrightarrow>
    (case found of
       None \<Rightarrow> False
     | Some failure \<Rightarrow>
         \<not> (Type terminal \<noteq> EntryTurnMarker \<or> TurnID terminal \<noteq> uq_TurnID req \<or> RunID terminal \<noteq> uq_RunID req
            \<or> TurnStatus terminal \<noteq> TurnFailed \<or> RequestFingerprint terminal \<noteq> fingerprint
            \<or> trim_space (mget (Metadata terminal) ''failure_code'') \<noteq> ''effect_outcome_unknown''
            \<or> Type failure \<noteq> EntryRunFailure \<or> TurnID failure \<noteq> uq_TurnID req \<or> RunID failure \<noteq> uq_RunID req
            \<or> trim_space (Error failure) \<noteq> EffectOutcomeUnknownFailureMessage
            \<or> ParentID terminal \<noteq> ID failure))"

definition closed_attempts :: "string \<Rightarrow> go_time \<Rightarrow> effect_attempt list \<Rightarrow> effect_attempt list" where
  "closed_attempts fingerprint now attempts =
     map (\<lambda>att. if ea_State att = EffectAttemptPrepared
          then settled_attempt EffectAttemptCancelled (''turn-failed:'' @ fingerprint) now att
          else settled_attempt EffectAttemptUnknown fingerprint now att)
       (filter (\<lambda>att. ea_State att = EffectAttemptPrepared \<or> ea_State att = EffectAttemptDispatching) attempts)"

definition in_doubt :: "effect_attempt \<Rightarrow> bool" where
  "in_doubt att \<longleftrightarrow> ea_State att = EffectAttemptDispatching \<or> ea_State att = EffectAttemptUnknown"

text \<open>The failure and the terminal marker, once everything pending is closed.\<close>

definition commit_unknown ::
  "turn_env \<Rightarrow> fail_request \<Rightarrow> go_time \<Rightarrow> entry list \<Rightarrow> entry list \<Rightarrow> repo \<Rightarrow> repo \<times> fail_result" where
  "commit_unknown env req now resolutions results r =
    (let t = uq_ThreadID req; turn = uq_TurnID req; run = uq_RunID req; store = tv_store env;
         failure = failure_entry env t turn run (tm_LeafID (meta_of r t)) EffectOutcomeUnknownFailureMessage now;
         terminal = terminal_entry env (unknownEffectTerminalEntryID store t turn run) t turn run (ID failure)
           (unknownEffectOutcomeFingerprint store t turn run) TurnFailed
           [(''run_id'', run), (''outcome'', ''failed''),
            (''failure_reason'', EffectOutcomeUnknownFailureMessage),
            (''failure_code'', ''effect_outcome_unknown'')] now;
         r1 = put_entry env t terminal (put_entry env t failure r)
     in (deleteProviderState t
           (setThread t ((meta_of r1 t)\<lparr>tm_LeafID := ID terminal, tm_UpdatedAt := now\<rparr>) r1),
         \<lparr>ur_InteractionResolutions = resolutions, ur_ToolResults = results, ur_Failure = failure,
          ur_Terminal = terminal, ur_Replayed = False\<rparr>))"

definition settle_unknown ::
  "ctx_poll \<Rightarrow> turn_env \<Rightarrow> fail_request \<Rightarrow> thread_meta \<Rightarrow> entry list \<Rightarrow> repo \<Rightarrow> repo \<times> fail_result st_result" where
  "settle_unknown ctx env req meta es r =
    (let t = uq_ThreadID req; turn = uq_TurnID req; store = tv_store env;
         now = canonicalTime (tv_effects env) (uq_Now req);
         fingerprint = unknownEffectOutcomeFingerprint store t turn (uq_RunID req);
         attempts = canonicalEffectAttemptsIn (tv_effects env) es turn
     in if \<not> list_ex in_doubt attempts then (r, Inl ErrRequestConflict)
        else
          let r1 = snd (cancelPendingSteering env meta es turn (uq_RunID req) ''effect_outcome_unknown'' now r) in
          (case append_all ctx store now
                  (map (resolution_entry t '''' '''' failed_outcome now) (runtimePendingInteractions store es turn)) r1 of
             (r2, Inl err) \<Rightarrow> (r2, Inl err)
           | (r2, Inr resolutions) \<Rightarrow>
               (case append_effects (tv_effects env) (closed_attempts fingerprint now attempts) (meta_of r2 t, r2) of
                  ((_, r3), Some err) \<Rightarrow> (r3, Inl err)
                | ((_, r3), None) \<Rightarrow>
                    (case append_all ctx store now
                            (map (unknown_closing env req (map (\<lambda>att. iv_ToolCallID (ea_Invocation att))
                                (filter in_doubt attempts)) now)
                              (runtimePendingToolCalls store es turn)) r3 of
                       (r4, Inl err) \<Rightarrow> (r4, Inl err)
                     | (r4, Inr results) \<Rightarrow>
                         (case commit_unknown env req now resolutions results r4 of
                            (r5, result) \<Rightarrow> (r5, Inr result))))))"

text \<open>An operation whose error undoes everything it appended to one thread.\<close>

definition undone_on_error :: "string \<Rightarrow> repo \<Rightarrow> repo \<times> 'a st_result \<Rightarrow> repo \<times> 'a st_result" where
  "undone_on_error t r result =
    (case result of
       (r', Inl err) \<Rightarrow> (restore_checkpoint (checkpointJournalAppend r t) r', Inl err)
     | (r', Inr x) \<Rightarrow> (r', Inr x))"

definition fail_unknown_body ::
  "ctx_poll \<Rightarrow> turn_env \<Rightarrow> repo \<Rightarrow> fail_request \<Rightarrow> repo \<times> fail_result st_result" where
  "fail_unknown_body ctx env r req =
    (let t = uq_ThreadID req; turn = uq_TurnID req; store = tv_store env in
     case entryMetadata r t (unknownEffectTerminalEntryID store t turn (uq_RunID req)) of
       Inl err \<Rightarrow> (r, Inl err)
     | Inr (Some terminal) \<Rightarrow>
         (r, case entryMetadata r t (''turn-failure:'' @ turn) of
            Inl err \<Rightarrow> Inl err
          | Inr found \<Rightarrow>
              if \<not> same_unknown_failure req (unknownEffectOutcomeFingerprint store t turn (uq_RunID req)) terminal found
              then Inl ErrRequestConflict
              else Inr \<lparr>ur_InteractionResolutions = [], ur_ToolResults = [], ur_Failure = the found,
                        ur_Terminal = terminal, ur_Replayed = True\<rparr>)
     | Inr None \<Rightarrow>
         let r1 = ensured t r; j = rp_journal r1 t in
         if runtimeActiveTurn j \<noteq> Some turn \<or> activeRunIdentity j turn \<noteq> Inr (uq_RunID req)
         then (r1, Inl ErrStaleAuthority)
         else (case thread r1 t of
            None \<Rightarrow> (r1, Inl ErrThreadNotFound)
          | Some meta \<Rightarrow> (case lifecycleRejectsWrite meta of
              Some err \<Rightarrow> (r1, Inl err)
            | None \<Rightarrow> (case runtimeTurnEntries r1 t turn of
                Inl err \<Rightarrow> (r1, Inl err)
              | Inr es \<Rightarrow> settle_unknown ctx env req meta es r1))))"

definition failUnknownEffectTurn ::
  "ctx_poll \<Rightarrow> turn_env \<Rightarrow> repo \<Rightarrow> fail_request \<Rightarrow> repo \<times> fail_result st_result" where
  "failUnknownEffectTurn ctx env r req0 =
    (let req = req0\<lparr>uq_ThreadID := trim_space (uq_ThreadID req0), uq_TurnID := trim_space (uq_TurnID req0),
                    uq_RunID := trim_space (uq_RunID req0)\<rparr>
     in case ValidateFailUnknownEffectTurnRequest req0 of
          Some err \<Rightarrow> (r, Inl err)
        | None \<Rightarrow> undone_on_error (uq_ThreadID req) r (fail_unknown_body ctx env r req))"

definition FailUnknownEffectTurn ::
  "ctx_poll \<Rightarrow> turn_env \<Rightarrow> repo \<Rightarrow> fail_request \<Rightarrow> repo \<times> fail_result st_result" where
  "FailUnknownEffectTurn ctx env r req = failUnknownEffectTurn ctx env r req"

section \<open>Cancelling a turn\<close>

definition trimmed_cancel :: "cancel_request \<Rightarrow> cancel_request" where
  "trimmed_cancel req = req\<lparr>cq_ThreadID := trim_space (cq_ThreadID req),
     cq_TurnID := trim_space (cq_TurnID req), cq_RunID := trim_space (cq_RunID req),
     cq_CancelEntryID := trim_space (cq_CancelEntryID req),
     cq_TerminalEntryID := trim_space (cq_TerminalEntryID req),
     cq_RequestKey := trim_space (cq_RequestKey req),
     cq_RequestFingerprint := trim_space (cq_RequestFingerprint req),
     cq_OutcomeFingerprint := trim_space (cq_OutcomeFingerprint req)\<rparr>"

definition cancelled_before :: "entry \<Rightarrow> entry \<Rightarrow> bool \<Rightarrow> cancel_result" where
  "cancelled_before cancel terminal replayed = \<lparr>cr_CancelRequest = cancel, cr_InteractionResolutions = [],
     cr_ToolResults = [], cr_Terminal = terminal, cr_Replayed = replayed\<rparr>"

text \<open>What an earlier outcome of the turn answers a cancel request; \<open>None\<close> when the turn goes on.\<close>

definition cancel_replay :: "turn_env \<Rightarrow> repo \<Rightarrow> cancel_request \<Rightarrow> repo \<times> cancel_result option st_result" where
  "cancel_replay env r req =
    (let t = cq_ThreadID req; turn = cq_TurnID req; run = cq_RunID req in
     case entryMetadata r t (cq_TerminalEntryID req) of
       Inl err \<Rightarrow> (r, Inl err)
     | Inr (Some terminal) \<Rightarrow>
         (r, if Type terminal \<noteq> EntryTurnMarker \<or> TurnID terminal \<noteq> turn \<or> RunID terminal \<noteq> run
                \<or> TurnStatus terminal \<noteq> TurnAborted \<or> RequestFingerprint terminal \<noteq> cq_OutcomeFingerprint req
             then Inl ErrRequestConflict
             else (case entryMetadata r t (cq_CancelEntryID req) of
                Inl err \<Rightarrow> Inl err
              | Inr None \<Rightarrow> Inl ErrAuthorityCorrupt
              | Inr (Some cancel) \<Rightarrow>
                  if Type cancel \<noteq> EntryCancelRequested \<or> TurnID cancel \<noteq> turn \<or> RunID cancel \<noteq> run
                     \<or> RequestFingerprint cancel \<noteq> cq_RequestFingerprint req
                  then Inl ErrAuthorityCorrupt else Inr (Some (cancelled_before cancel terminal True))))
     | Inr None \<Rightarrow> (case entryMetadata r t (unknownEffectTerminalEntryID (tv_store env) t turn run) of
         Inl err \<Rightarrow> (r, Inl err)
       | Inr found \<Rightarrow>
           if (case found of None \<Rightarrow> False
               | Some e \<Rightarrow> mget (Metadata e) ''failure_code'' = ''effect_outcome_unknown'')
           then (r, case entryMetadata r t (cq_CancelEntryID req) of
                  Inl err \<Rightarrow> Inl err
                | Inr cancel \<Rightarrow> Inr (Some (cancelled_before
                    (case cancel of None \<Rightarrow> zero_entry | Some e \<Rightarrow> e) (the found) True)))
           else
             let r1 = ensured t r in
             (r1, case turnTerminal (rp_journal r1 t) turn of
                Some terminal \<Rightarrow>
                  if cq_RequestOnly req then Inr (Some (cancelled_before zero_entry terminal True)) else Inr None
              | None \<Rightarrow> Inr None)))"

text \<open>The cancel request itself, found or appended.\<close>

definition request_cancel ::
  "ctx_poll \<Rightarrow> turn_env \<Rightarrow> cancel_request \<Rightarrow> go_time \<Rightarrow> repo \<Rightarrow> repo \<times> entry st_result" where
  "request_cancel ctx env req now r =
    (let t = cq_ThreadID req; i = cq_CancelEntryID req in
     case entryMetadata r t i of
       Inl err \<Rightarrow> (r, Inl err)
     | Inr (Some cancel) \<Rightarrow>
         (r, if Type cancel \<noteq> EntryCancelRequested \<or> TurnID cancel \<noteq> cq_TurnID req
                \<or> RunID cancel \<noteq> cq_RunID req \<or> RequestKey cancel \<noteq> cq_RequestKey req
                \<or> RequestFingerprint cancel \<noteq> cq_RequestFingerprint req
             then Inl ErrRequestConflict else Inr cancel)
     | Inr None \<Rightarrow> appendFact ctx (tv_store env) r
         (zero_entry\<lparr>ID := i, ThreadID := t, TurnID := cq_TurnID req, RunID := cq_RunID req,
            Type := EntryCancelRequested, RequestKey := cq_RequestKey req,
            RequestFingerprint := cq_RequestFingerprint req, CreatedAt := now,
            Metadata := cq_CancellationMetadata req\<rparr>)
         (no_options\<lparr>ao_ID := i, ao_Now := now\<rparr>) False)"

definition cancel_closing :: "turn_env \<Rightarrow> cancel_request \<Rightarrow> string list \<Rightarrow> go_time \<Rightarrow> entry \<Rightarrow> entry" where
  "cancel_closing env req unknown now call =
     closing_entry env (cq_ThreadID req) (cq_TurnID req) (cq_RunID req) ''tool-cancelled:'' ''canceled''
       (if msg_ToolCallID (Message call) \<in> set unknown
        then ''Tool call was stopped before its effect outcome could be confirmed.''
        else ''Tool call was canceled before completion.'') now call"

definition cancel_provider ::
  "turn_env \<Rightarrow> cancel_request \<Rightarrow> string \<Rightarrow> go_time \<Rightarrow> repo \<Rightarrow> repo \<times> st_error option" where
  "cancel_provider env req terminalID now r =
    (let t = cq_ThreadID req in
     if cq_PreserveProviderState req then (reanchorProviderState env t terminalID '''' now r, None)
     else if cq_ClearProviderState req then
       (case entryMetadata r t (runtimeTurnStartedEntryID (cq_TurnID req)) of
          Inl err \<Rightarrow> (r, Some err)
        | Inr found \<Rightarrow>
            (settleContextOnlyProviderState (case found of None \<Rightarrow> zero_entry | Some e \<Rightarrow> e) t
               (cq_TurnID req) (cq_RunID req) terminalID now r, None))
     else (r, None))"

definition commit_cancel ::
  "turn_env \<Rightarrow> cancel_request \<Rightarrow> go_time \<Rightarrow> entry list \<Rightarrow> cancel_result \<Rightarrow> repo \<Rightarrow> repo \<times> cancel_result st_result" where
  "commit_cancel env req now es result r =
    (let t = cq_ThreadID req in
     case cancelPendingSteering env (meta_of r t) es (cq_TurnID req) (cq_RunID req) ''stopped'' now r of
       (meta, r1) \<Rightarrow>
         let terminal = terminal_entry env (cq_TerminalEntryID req) t (cq_TurnID req) (cq_RunID req)
               (tm_LeafID meta) (cq_OutcomeFingerprint req) TurnAborted (cq_Metadata req) now;
             r2 = setThread t (meta\<lparr>tm_LeafID := ID terminal, tm_UpdatedAt := now\<rparr>) (put_entry env t terminal r1)
         in (case cancel_provider env req (ID terminal) now r2 of
               (r3, Some err) \<Rightarrow> (r3, Inl err)
             | (r3, None) \<Rightarrow> (r3, Inr (result\<lparr>cr_Terminal := terminal\<rparr>))))"

text \<open>Everything that is pending is resolved, effects first, then the calls and the compaction.\<close>

definition settle_cancel ::
  "ctx_poll \<Rightarrow> turn_env \<Rightarrow> cancel_request \<Rightarrow> go_time \<Rightarrow> entry \<Rightarrow> repo \<Rightarrow> repo \<times> cancel_result st_result" where
  "settle_cancel ctx env req now cancel r =
    (let t = cq_ThreadID req; turn = cq_TurnID req; store = tv_store env in
     case runtimeTurnEntries r t turn of
       Inl err \<Rightarrow> (r, Inl err)
     | Inr es \<Rightarrow>
         (case append_all ctx store now (map (resolution_entry t (cq_RequestKey req) (cq_RequestFingerprint req)
                 (cq_InteractionResolutionPayload req) now) (runtimePendingInteractions store es turn)) r of
            (r1, Inl err) \<Rightarrow> (r1, Inl err)
          | (r1, Inr resolutions) \<Rightarrow>
              (case cancelTurnEffects (tv_effects env) (meta_of r1 t) req es now r1 of
                 (r2, Inl err) \<Rightarrow> (r2, Inl err)
               | (r2, Inr unknown) \<Rightarrow>
                   (case append_all ctx store now (map (cancel_closing env req unknown now)
                           (runtimePendingToolCalls store es turn)) r2 of
                      (r3, Inl err) \<Rightarrow> (r3, Inl err)
                    | (r3, Inr results) \<Rightarrow>
                        (case settleRunningCompaction ctx env es turn (cq_RunID req) ''cancelled'' ''cancelled''
                                '''' now r3 of
                           (r4, Some err) \<Rightarrow> (r4, Inl err)
                         | (r4, None) \<Rightarrow> commit_cancel env req now es
                             \<lparr>cr_CancelRequest = cancel, cr_InteractionResolutions = resolutions,
                              cr_ToolResults = results, cr_Terminal = zero_entry, cr_Replayed = False\<rparr> r4)))))"

definition cancel_body ::
  "ctx_poll \<Rightarrow> turn_env \<Rightarrow> repo \<Rightarrow> cancel_request \<Rightarrow> repo \<times> cancel_result st_result" where
  "cancel_body ctx env r req =
    (let t = cq_ThreadID req; now = canonicalTime (tv_effects env) (cq_Now req) in
     case cancel_replay env r req of
       (r1, Inl err) \<Rightarrow> (r1, Inl err)
     | (r1, Inr (Some result)) \<Rightarrow> (r1, Inr result)
     | (r1, Inr None) \<Rightarrow>
         if runtimeActiveTurn (rp_journal r1 t) \<noteq> Some (cq_TurnID req) then (r1, Inl ErrStaleAuthority)
         else (case thread r1 t of
            None \<Rightarrow> (r1, Inl ErrThreadNotFound)
          | Some meta \<Rightarrow> (case lifecycleRejectsWrite meta of
              Some err \<Rightarrow> (r1, Inl err)
            | None \<Rightarrow> (case request_cancel ctx env req now r1 of
                (r2, Inl err) \<Rightarrow> (r2, Inl err)
              | (r2, Inr cancel) \<Rightarrow>
                  if cq_RequestOnly req then (r2, Inr (cancelled_before cancel zero_entry False))
                  else (case failUnknownEffectTurn ctx env r2 \<lparr>uq_ThreadID = t, uq_TurnID = cq_TurnID req,
                           uq_RunID = cq_RunID req, uq_Now = cq_Now req\<rparr> of
                     (r3, Inr unknown) \<Rightarrow> (r3, Inr \<lparr>cr_CancelRequest = cancel,
                        cr_InteractionResolutions = ur_InteractionResolutions unknown,
                        cr_ToolResults = ur_ToolResults unknown, cr_Terminal = ur_Terminal unknown,
                        cr_Replayed = ur_Replayed unknown\<rparr>)
                   | (r3, Inl err) \<Rightarrow>
                       if err \<noteq> ErrRequestConflict then (r3, Inl err)
                       else settle_cancel ctx env req now cancel r3)))))"

definition CancelTurn ::
  "ctx_poll \<Rightarrow> turn_env \<Rightarrow> repo \<Rightarrow> cancel_request \<Rightarrow> repo \<times> cancel_result st_result" where
  "CancelTurn ctx env r req =
    (case ValidateCancelTurnRequest (tv_store env) req of
       Some err \<Rightarrow> (r, Inl err)
     | None \<Rightarrow> undone_on_error (trim_space (cq_ThreadID req)) r (cancel_body ctx env r (trimmed_cancel req)))"

section \<open>Provider output\<close>

record context_commit =
  pc_ThreadID :: string
  pc_TurnID :: string
  pc_RunID :: string
  pc_Entries :: "entry list"
  pc_State :: "provider_state option"
  pc_CompatibilityKey :: string
  pc_Clear :: bool
  pc_Partial :: bool
  pc_Now :: go_time

definition context_commit_error :: "context_commit \<Rightarrow> st_error option" where
  "context_commit_error req =
    (if blank (pc_ThreadID req) \<or> blank (pc_TurnID req) \<or> blank (pc_RunID req)
        \<or> pc_Clear req \<and> (pc_State req \<noteq> None \<or> pc_Entries req \<noteq> [])
     then Some (ErrMsg ''provider context commit requires an exact execution and unambiguous state'')
     else if pc_Partial req \<and> (pc_State req \<noteq> None \<or> pc_Clear req)
     then Some (ErrMsg ''partial provider output cannot change provider state'')
     else (case pc_State req of
        None \<Rightarrow> None
      | Some s \<Rightarrow> (case provider_ValidateState s of
          Some err \<Rightarrow> Some err
        | None \<Rightarrow>
            if blank (ps_Kind s) \<or> blank (ps_ID s) \<or> blank (pc_CompatibilityKey req)
            then Some (ErrMsg ''provider context state is incomplete'') else None)))"

definition output_entry_ok :: "context_commit \<Rightarrow> entry \<Rightarrow> bool" where
  "output_entry_ok req e \<longleftrightarrow>
     \<not> (pc_Partial req \<and> Type e \<noteq> EntryAssistantMessage \<and> \<not> hosted_tool_entry e)
   \<and> ThreadID e = pc_ThreadID req \<and> TurnID e = pc_TurnID req \<and> RunID e = pc_RunID req
   \<and> Type e \<in> {EntryAssistantMessage, EntryToolCall, EntryToolResult, EntryUserMessage, EntryGoalContext,
       EntryCustom}"

text \<open>Entries appended with the identities the journal gives them.\<close>

fun append_output ::
  "ctx_poll \<Rightarrow> store_env \<Rightarrow> go_time \<Rightarrow> entry list \<Rightarrow> repo \<Rightarrow> repo \<times> entry list st_result" where
  "append_output ctx env now [] r = (r, Inr [])"
| "append_output ctx env now (e # es) r =
    (case appendFact ctx env r e (no_options\<lparr>ao_Now := now\<rparr>) False of
       (r1, Inl err) \<Rightarrow> (r1, Inl err)
     | (r1, Inr saved) \<Rightarrow> (case append_output ctx env now es r1 of
         (r2, Inl err) \<Rightarrow> (r2, Inl err) | (r2, Inr rest) \<Rightarrow> (r2, Inr (saved # rest))))"

text \<open>The context is polled again once the entries are in.\<close>

definition install_output ::
  "ctx_poll \<Rightarrow> turn_env \<Rightarrow> context_commit \<Rightarrow> repo \<Rightarrow> repo \<times> entry list st_result" where
  "install_output ctx env req r =
    (let t = pc_ThreadID req in
     case append_output ctx (tv_store env) (pc_Now req) (pc_Entries req) r of
       (r1, Inl err) \<Rightarrow> (r1, Inl err)
     | (r1, Inr out) \<Rightarrow>
         let r2 = (case pc_State req of
               None \<Rightarrow> r1
             | Some s \<Rightarrow> setProviderState t \<lparr>psr_ThreadID = t, psr_LeafEntryID = tm_LeafID (meta_of r1 t),
                 psr_CompatibilityKey = pc_CompatibilityKey req, psr_State = s,
                 psr_CreatedByRunID = pc_RunID req, psr_CreatedByTurnID = pc_TurnID req,
                 psr_UpdatedAt = canonicalTime (tv_effects env) (pc_Now req)\<rparr> r1)
         in (case ctx 1 of Some err \<Rightarrow> (r2, Inl err) | None \<Rightarrow> (r2, Inr out)))"

definition CommitProviderContext ::
  "ctx_poll \<Rightarrow> turn_env \<Rightarrow> repo \<Rightarrow> context_commit \<Rightarrow> repo \<times> entry list st_result" where
  "CommitProviderContext ctx env r req =
    (let t = pc_ThreadID req in
     case context_commit_error req of
       Some err \<Rightarrow> (r, Inl err)
     | None \<Rightarrow> (case ctx 0 of
         Some err \<Rightarrow> (r, Inl err)
       | None \<Rightarrow> (case thread r t of
           None \<Rightarrow> (r, Inl ErrThreadNotFound)
         | Some meta \<Rightarrow> (case lifecycleRejectsWrite meta of
             Some err \<Rightarrow> (r, Inl err)
           | None \<Rightarrow>
               let r1 = ensured t r; j = rp_journal r1 t in
               if runtimeActiveTurn j \<noteq> Some (pc_TurnID req)
                  \<or> activeRunIdentity j (pc_TurnID req) \<noteq> Inr (pc_RunID req)
               then (r1, Inl ErrStaleAuthority)
               else if \<not> pc_Partial req \<and> turnCancellationRequested j (pc_TurnID req) then (r1, Inl canceled)
               else if pc_Clear req then (deleteProviderState t r1, Inr [])
               else if \<not> list_all (output_entry_ok req) (pc_Entries req)
               then (r1, Inl ErrInvalidThreadAuthority)
               else undone_on_error t r1 (install_output ctx env req r1)))))"

section \<open>Submitting a goal\<close>

record goal_submission =
  gb_Mutation :: goal_mutation
  gb_Turn :: accept_request

record goal_submission_result =
  go_Mutation :: goal_result
  go_Accepted :: "accept_result option"

definition submission_ok :: "goal_submission \<Rightarrow> bool" where
  "submission_ok g \<longleftrightarrow> (let m = gb_Mutation g; q = gb_Turn g in
     \<not> (gm_Actor m \<noteq> ''user'' \<or> gm_Operation m \<noteq> ''set'' \<or> gm_RequestKey m = ''''
        \<or> gm_ThreadID m \<noteq> aq_ThreadID q \<or> msg_Content (aq_Input q) \<noteq> gm_Text m \<or> aq_TurnKind q \<noteq> ''''
        \<or> aq_RetrySourceEntryID q \<noteq> '''' \<or> aq_PromotedQueueID q \<noteq> ''''))"

text \<open>The goal is changed first; a turn is accepted for it when the thread is idle.\<close>

definition submit_body ::
  "ctx_poll \<Rightarrow> turn_env \<Rightarrow> goal_mutation \<Rightarrow> accept_request \<Rightarrow> repo \<Rightarrow> repo \<times> goal_submission_result st_result" where
  "submit_body ctx env m q r =
    (let t = gm_ThreadID m in
     case mutateGoal ctx (tv_effects env) (tv_goals env) r m of
       (r1, Inl err) \<Rightarrow> (r1, Inl err)
     | (r1, Inr mutation) \<Rightarrow>
         let r2 = ensured t r1; unaccepted = \<lparr>go_Mutation = mutation, go_Accepted = None\<rparr> in
         if gt_Conflict mutation then (r1, Inr unaccepted)
         else if gt_Replayed mutation then
           (r1, Inr (unaccepted\<lparr>go_Accepted := map_option
              (\<lambda>e. \<lparr>ar_TurnStarted = e, ar_UserMessage = zero_entry, ar_BaseLeafID = '''', ar_Terminal = None,
                    ar_Replayed = True\<rparr>)
              (list_find (\<lambda>e. turn_started e \<and> RequestKey e = aq_LogicalRequestID q)
                (jn_entries (rp_journal r1 t)))\<rparr>))
         else if runtimeActiveTurn (rp_journal r2 t) \<noteq> None then (r2, Inr unaccepted)
         else (case acceptTurn env r2 q of
            (r3, Inl err) \<Rightarrow> (r3, Inl err)
          | (r3, Inr accepted) \<Rightarrow> (r3, Inr (unaccepted\<lparr>go_Accepted := Some accepted\<rparr>))))"

definition SubmitGoal ::
  "ctx_poll \<Rightarrow> turn_env \<Rightarrow> repo \<Rightarrow> goal_submission \<Rightarrow> repo \<times> goal_submission_result st_result" where
  "SubmitGoal ctx env r g =
    (let m = (gb_Mutation g)\<lparr>gm_Reason := ''User submitted goal.''\<rparr> in
     case ctx 0 of
       Some err \<Rightarrow> (r, Inl err)
     | None \<Rightarrow>
         if \<not> submission_ok g then (r, Inl (ErrMsg ''invalid goal submission''))
         else (case ValidateAcceptTurnRequest (gb_Turn g) of
            Some err \<Rightarrow> (r, Inl err)
          | None \<Rightarrow> (case thread r (gm_ThreadID m) of
              None \<Rightarrow> (r, Inl ErrThreadNotFound)
            | Some meta \<Rightarrow> (case lifecycleRejectsWrite meta of
                Some err \<Rightarrow> (r, Inl err)
              | None \<Rightarrow> undone_on_error (gm_ThreadID m) r (submit_body ctx env m (gb_Turn g) r)))))"

end
