(* ===== verification/Closures.thy ===== *)
theory Closures
  imports Artifacts "HOL-Library.Char_ord" "HOL-Library.List_Lexorder"
begin

text \<open>
  Artifact closures: the manifest of the retained outputs a fork takes along
  (\<^verbatim>\<open>internal/session/artifact/artifact.go\<close>), collected from the entries of the source, validated, and
  staged under the identity of the destination (\<^verbatim>\<open>artifact_authority.go\<close>, \<^verbatim>\<open>artifact_reader.go\<close>).
  The JSON that the fingerprints digest is a parameter.
\<close>

section \<open>The manifest\<close>

record manifest_item =
  mi_SourceEntryID :: string
  mi_ArtifactID :: string
  mi_Ref :: artifact_ref
  mi_RefFingerprint :: string
  mi_PayloadSHA256 :: string

text \<open>\<open>None\<close> items are Go's \<open>nil\<close> slice.\<close>

record closure =
  ac_SourceThreadID :: string
  ac_DestinationThreadID :: string
  ac_Items :: "manifest_item list option"
  ac_Fingerprint :: string

record fork_codec =
  fx_ref_json :: "artifact_ref \<Rightarrow> string"
  fx_closure_json :: "string \<Rightarrow> string \<Rightarrow> manifest_item list \<Rightarrow> string"

definition zero_closure :: closure where
  "zero_closure = \<lparr>ac_SourceThreadID = '''', ac_DestinationThreadID = '''', ac_Items = None, ac_Fingerprint = ''''\<rparr>"

definition IsZeroClosure :: "closure \<Rightarrow> bool" where
  "IsZeroClosure c \<longleftrightarrow> c = zero_closure"

definition closure_items :: "closure \<Rightarrow> manifest_item list" where
  "closure_items c = (case ac_Items c of None \<Rightarrow> [] | Some items \<Rightarrow> items)"

definition RefFingerprint :: "store_env \<Rightarrow> fork_codec \<Rightarrow> artifact_ref \<Rightarrow> string st_result" where
  "RefFingerprint env fc ref =
    (if \<not> ValidateRef ref then Inl (ErrMsg ''artifact reference is incomplete'')
     else Inr (se_hash env (fx_ref_json fc ref)))"

definition ClosureFingerprint ::
  "store_env \<Rightarrow> fork_codec \<Rightarrow> string \<Rightarrow> string \<Rightarrow> manifest_item list \<Rightarrow> string st_result" where
  "ClosureFingerprint env fc source destination items =
    (if blank source \<or> blank destination
     then Inl (ErrMsg ''artifact closure requires source and destination threads'')
     else Inr (se_hash env (fx_closure_json fc (trim_space source) (trim_space destination) items)))"

definition canonical_text :: "string \<Rightarrow> bool" where
  "canonical_text s \<longleftrightarrow> \<not> blank s \<and> s = trim_space s"

text \<open>The loop over the manifest: complete, strictly sorted, and with the digests of the references.\<close>

fun manifest_error ::
  "store_env \<Rightarrow> fork_codec \<Rightarrow> string \<Rightarrow> manifest_item list \<Rightarrow> st_error option" where
  "manifest_error env fc previous [] = None"
| "manifest_error env fc previous (item # items) =
    (if \<not> canonical_text (mi_SourceEntryID item) \<or> \<not> canonical_text (mi_ArtifactID item)
        \<or> mi_ArtifactID item \<noteq> ar_ID (mi_Ref item)
     then Some (ErrMsg ''artifact closure manifest item is incomplete'')
     else if previous \<noteq> '''' \<and> mi_ArtifactID item \<le> previous
     then Some (ErrMsg ''artifact closure manifest must be uniquely sorted'')
     else if \<not> ValidateRef (mi_Ref item) then Some (ErrMsg ''artifact reference is incomplete'')
     else if RefFingerprint env fc (mi_Ref item) \<noteq> Inr (mi_RefFingerprint item)
             \<or> mi_PayloadSHA256 item \<noteq> ar_SHA256 (mi_Ref item)
     then Some (ErrMsg ''artifact closure manifest fingerprint is invalid'')
     else manifest_error env fc (mi_ArtifactID item) items)"

definition ValidateClosure :: "store_env \<Rightarrow> fork_codec \<Rightarrow> closure \<Rightarrow> st_error option" where
  "ValidateClosure env fc c =
    (if \<not> canonical_text (ac_SourceThreadID c) \<or> \<not> canonical_text (ac_DestinationThreadID c)
     then Some (ErrMsg ''artifact closure requires canonical source and destination threads'')
     else (case ac_Items c of
        None \<Rightarrow> Some (ErrMsg ''artifact closure requires a canonical manifest'')
      | Some items \<Rightarrow> (case manifest_error env fc '''' items of
          Some err \<Rightarrow> Some err
        | None \<Rightarrow> (case ClosureFingerprint env fc (ac_SourceThreadID c) (ac_DestinationThreadID c) items of
            Inl err \<Rightarrow> Some err
          | Inr fingerprint \<Rightarrow>
              if ac_Fingerprint c \<noteq> fingerprint
              then Some (ErrMsg ''artifact closure fingerprint is invalid'') else None))))"

section \<open>Collecting the manifest\<close>

text \<open>The item of one entry; \<open>None\<close> for an entry that is skipped.\<close>

definition manifest_item_of ::
  "store_env \<Rightarrow> fork_codec \<Rightarrow> repo \<Rightarrow> string \<Rightarrow> entry \<Rightarrow> manifest_item option st_result" where
  "manifest_item_of env fc r source e =
    (case (if ThreadID e = source then full_output_of e else None) of
       None \<Rightarrow> Inr None
     | Some ref \<Rightarrow>
         if \<not> ValidateRef ref then Inl ErrAuthorityCorrupt
         else (case rp_artifacts r (artifactRecordKey source (ar_ID ref)) of
            None \<Rightarrow> Inl ErrAuthorityCorrupt
          | Some a \<Rightarrow>
              if arr_ThreadID a \<noteq> source \<or> arr_CanonicalEntryID a \<noteq> ID e \<or> arr_Ref a \<noteq> ref
              then Inl ErrAuthorityCorrupt
              else (case validateArtifactRecord env r a of
                 Some err \<Rightarrow> Inl err
               | None \<Rightarrow> (case RefFingerprint env fc ref of
                   Inl _ \<Rightarrow> Inl ErrAuthorityCorrupt
                 | Inr fingerprint \<Rightarrow>
                     Inr (Some \<lparr>mi_SourceEntryID = arr_CanonicalEntryID a, mi_ArtifactID = ar_ID ref,
                       mi_Ref = ref, mi_RefFingerprint = fingerprint,
                       mi_PayloadSHA256 = se_hash env (arr_Text a)\<rparr>)))))"

fun collect_items ::
  "store_env \<Rightarrow> fork_codec \<Rightarrow> repo \<Rightarrow> string \<Rightarrow> entry list \<Rightarrow> (string \<times> manifest_item) list
    \<Rightarrow> (string \<times> manifest_item) list st_result" where
  "collect_items env fc r source [] byID = Inr byID"
| "collect_items env fc r source (e # es) byID =
    (case manifest_item_of env fc r source e of
       Inl err \<Rightarrow> Inl err
     | Inr None \<Rightarrow> collect_items env fc r source es byID
     | Inr (Some item) \<Rightarrow>
         if map_of byID (mi_ArtifactID item) \<notin> {None, Some item} then Inl ErrAuthorityCorrupt
         else collect_items env fc r source es (AList.update (mi_ArtifactID item) item byID))"

definition artifactClosure ::
  "store_env \<Rightarrow> fork_codec \<Rightarrow> repo \<Rightarrow> string \<Rightarrow> string \<Rightarrow> entry list \<Rightarrow> closure st_result" where
  "artifactClosure env fc r source destination es =
    (case collect_items env fc r source es [] of
       Inl err \<Rightarrow> Inl err
     | Inr byID \<Rightarrow>
         let items = sort_key mi_ArtifactID (map snd byID) in
         (case ClosureFingerprint env fc source destination items of
            Inl err \<Rightarrow> Inl err
          | Inr fingerprint \<Rightarrow> Inr \<lparr>ac_SourceThreadID = source, ac_DestinationThreadID = destination,
              ac_Items = Some items, ac_Fingerprint = fingerprint\<rparr>))"

text \<open>The entries named by a request for a closure.\<close>

fun closure_entries :: "repo \<Rightarrow> string \<Rightarrow> string list \<Rightarrow> entry list st_result" where
  "closure_entries r source [] = Inr []"
| "closure_entries r source (i # is) =
    (case memoryEntryByID (jn_entries (rp_journal r source)) (trim_space i) of
       None \<Rightarrow> Inl ErrEntryNotFound
     | Some e \<Rightarrow> (case closure_entries r source is of Inl err \<Rightarrow> Inl err | Inr es \<Rightarrow> Inr (e # es)))"

definition ArtifactClosure ::
  "store_env \<Rightarrow> fork_codec \<Rightarrow> repo \<Rightarrow> string \<Rightarrow> string \<Rightarrow> string list \<Rightarrow> closure st_result" where
  "ArtifactClosure env fc r source0 destination0 ids =
    (let source = trim_space source0; destination = trim_space destination0 in
     if source = '''' \<or> destination = ''''
     then Inl (ErrMsg ''artifact closure requires source and destination'')
     else (case thread r source of
        None \<Rightarrow> (case tombstone r source of
            None \<Rightarrow> Inl ErrThreadNotFound
          | Some ts \<Rightarrow> if validateMemoryArtifactTombstone ts source then Inl ErrThreadDeleted
                       else Inl ErrAuthorityCorrupt)
      | Some meta \<Rightarrow>
          if \<not> validateMemoryArtifactThread meta source then Inl ErrAuthorityCorrupt
          else (case closure_entries r source ids of
             Inl err \<Rightarrow> Inl err
           | Inr es \<Rightarrow> artifactClosure env fc r source destination es)))"

section \<open>Checking and staging\<close>

definition validateArtifactClosure ::
  "store_env \<Rightarrow> fork_codec \<Rightarrow> repo \<Rightarrow> string \<Rightarrow> string \<Rightarrow> entry list \<Rightarrow> closure \<Rightarrow> st_error option" where
  "validateArtifactClosure env fc r source destination es expected =
    (if ValidateClosure env fc expected \<noteq> None \<or> ac_SourceThreadID expected \<noteq> source
        \<or> ac_DestinationThreadID expected \<noteq> destination
     then Some ErrStaleAuthority
     else (case artifactClosure env fc r source destination es of
        Inl err \<Rightarrow> Some err
      | Inr actual \<Rightarrow> if actual \<noteq> expected then Some ErrStaleAuthority else None))"

text \<open>The records of the destination, with their keys; \<open>ids\<close> maps source entries to their copies.\<close>

definition staged_record ::
  "store_env \<Rightarrow> repo \<Rightarrow> closure \<Rightarrow> (string \<Rightarrow> string) \<Rightarrow> go_time \<Rightarrow> manifest_item
    \<Rightarrow> (string \<times> artifact_record) st_result" where
  "staged_record env r c ids now item =
    (let entryID = trim_space (ids (mi_SourceEntryID item));
         key = artifactRecordKey (ac_DestinationThreadID c) (mi_ArtifactID item)
     in if entryID = '''' then Inl ErrAuthorityCorrupt
        else (case rp_artifacts r (artifactRecordKey (ac_SourceThreadID c) (mi_ArtifactID item)) of
           None \<Rightarrow> Inl ErrAuthorityCorrupt
         | Some a \<Rightarrow>
             if arr_ThreadID a \<noteq> ac_SourceThreadID c \<or> ar_ID (arr_Ref a) \<noteq> mi_ArtifactID item
                \<or> arr_CanonicalEntryID a \<noteq> mi_SourceEntryID item \<or> arr_Ref a \<noteq> mi_Ref item
                \<or> se_hash env (arr_Text a) \<noteq> mi_PayloadSHA256 item
             then Inl ErrAuthorityCorrupt
             else (case validateArtifactRecord env r a of
                Some err \<Rightarrow> Inl err
              | None \<Rightarrow>
                  if rp_artifacts r key \<noteq> None then Inl ErrAuthorityCorrupt
                  else Inr (key, \<lparr>arr_ThreadID = ac_DestinationThreadID c, arr_Ref = mi_Ref item,
                    arr_Text = arr_Text a, arr_CanonicalEntryID = entryID, arr_CreatedAt = now\<rparr>))))"

fun stage_items ::
  "store_env \<Rightarrow> repo \<Rightarrow> closure \<Rightarrow> (string \<Rightarrow> string) \<Rightarrow> go_time \<Rightarrow> manifest_item list
    \<Rightarrow> (string \<times> artifact_record) list st_result" where
  "stage_items env r c ids now [] = Inr []"
| "stage_items env r c ids now (item # items) =
    (case staged_record env r c ids now item of
       Inl err \<Rightarrow> Inl err
     | Inr x \<Rightarrow> (case stage_items env r c ids now items of Inl err \<Rightarrow> Inl err | Inr xs \<Rightarrow> Inr (x # xs)))"

definition stageArtifactFork ::
  "store_env \<Rightarrow> repo \<Rightarrow> closure \<Rightarrow> (string \<Rightarrow> string) \<Rightarrow> go_time \<Rightarrow> (string \<times> artifact_record) list st_result" where
  "stageArtifactFork env r c ids now = stage_items env r c ids now (closure_items c)"

definition install_artifacts :: "(string \<times> artifact_record) list \<Rightarrow> repo \<Rightarrow> repo" where
  "install_artifacts staged r = fold (\<lambda>(k, a) r. setArtifact k a r) staged r"

fun destination_items_error ::
  "store_env \<Rightarrow> repo \<Rightarrow> string \<Rightarrow> manifest_item list \<Rightarrow> st_error option" where
  "destination_items_error env r destination [] = None"
| "destination_items_error env r destination (item # items) =
    (case rp_artifacts r (artifactRecordKey destination (mi_ArtifactID item)) of
       None \<Rightarrow> Some ErrAuthorityCorrupt
     | Some a \<Rightarrow>
         if arr_ThreadID a \<noteq> destination \<or> ar_ID (arr_Ref a) \<noteq> mi_ArtifactID item \<or> arr_Ref a \<noteq> mi_Ref item
            \<or> se_hash env (arr_Text a) \<noteq> mi_PayloadSHA256 item
         then Some ErrAuthorityCorrupt
         else (case validateArtifactRecord env r a of
            Some err \<Rightarrow> Some err | None \<Rightarrow> destination_items_error env r destination items))"

definition ValidateArtifactForkDestination ::
  "store_env \<Rightarrow> fork_codec \<Rightarrow> repo \<Rightarrow> closure \<Rightarrow> st_error option" where
  "ValidateArtifactForkDestination env fc r c =
    (let destination = ac_DestinationThreadID c in
     if ValidateClosure env fc c \<noteq> None then Some ErrAuthorityCorrupt
     else (case thread r destination of
        None \<Rightarrow> (case tombstone r destination of
            None \<Rightarrow> Some ErrThreadNotFound
          | Some ts \<Rightarrow> if validateMemoryArtifactTombstone ts destination then Some ErrThreadDeleted
                       else Some ErrAuthorityCorrupt)
      | Some meta \<Rightarrow>
          if \<not> validateMemoryArtifactThread meta destination then Some ErrAuthorityCorrupt
          else destination_items_error env r destination (closure_items c)))"

section \<open>A collected closure is valid\<close>

definition good_item :: "store_env \<Rightarrow> fork_codec \<Rightarrow> manifest_item \<Rightarrow> bool" where
  "good_item env fc item \<longleftrightarrow> canonical_text (mi_SourceEntryID item) \<and> canonical_text (mi_ArtifactID item)
     \<and> mi_ArtifactID item = ar_ID (mi_Ref item) \<and> ValidateRef (mi_Ref item)
     \<and> RefFingerprint env fc (mi_Ref item) = Inr (mi_RefFingerprint item)
     \<and> mi_PayloadSHA256 item = ar_SHA256 (mi_Ref item)"

definition canonical_output :: "entry \<Rightarrow> bool" where
  "canonical_output e \<longleftrightarrow> (case full_output_of e of None \<Rightarrow> True
     | Some ref \<Rightarrow> canonical_text (ID e) \<and> canonical_text (ar_ID ref))"

lemma item_good:
  assumes "manifest_item_of env fc r source e = Inr (Some item)" "canonical_output e"
  shows "good_item env fc item"
proof -
  obtain ref where ref: "full_output_of e = Some ref" "ValidateRef ref"
    using assms(1) by (auto simp: manifest_item_of_def split: option.splits if_splits)
  obtain a fingerprint where a: "arr_CanonicalEntryID a = ID e" "arr_Ref a = ref"
      "validateArtifactRecord env r a = None" "RefFingerprint env fc ref = Inr fingerprint"
      "item = \<lparr>mi_SourceEntryID = ID e, mi_ArtifactID = ar_ID ref, mi_Ref = ref, mi_RefFingerprint = fingerprint,
        mi_PayloadSHA256 = se_hash env (arr_Text a)\<rparr>"
    using assms(1) ref by (auto simp: manifest_item_of_def split: option.splits if_splits sum.splits)
  have "ar_SHA256 ref = se_hash env (arr_Text a)" using a(2,3) by (auto simp: validateArtifactRecord_def split: if_splits)
  then show ?thesis using assms(2) ref a(4) by (simp add: good_item_def a(5) canonical_output_def)
qed

lemma collected_good:
  "collect_items env fc r source es byID = Inr m \<Longrightarrow> list_all canonical_output es \<Longrightarrow>
    distinct (map fst byID) \<Longrightarrow> \<forall>(k, item) \<in> set byID. k = mi_ArtifactID item \<and> good_item env fc item \<Longrightarrow>
    distinct (map fst m) \<and> (\<forall>(k, item) \<in> set m. k = mi_ArtifactID item \<and> good_item env fc item)"
proof (induction env fc r source es byID rule: collect_items.induct)
  case (2 env fc r source e es byID)
  obtain item where item: "manifest_item_of env fc r source e = Inr item" using "2.prems"(1) by (auto split: sum.splits)
  show ?case
  proof (cases item)
    case (Some i)
    have free: "\<not> map_of byID (mi_ArtifactID i) \<notin> {None, Some i}" using "2.prems"(1) item Some by (auto split: if_splits)
    have "set (AList.update (mi_ArtifactID i) i byID) \<subseteq> insert (mi_ArtifactID i, i) (set byID)"
      by (induction byID) auto
    moreover have "good_item env fc i" using item_good [of env fc r source e i] item Some "2.prems"(2) by simp
    ultimately have "\<forall>(k, item) \<in> set (AList.update (mi_ArtifactID i) i byID). k = mi_ArtifactID item \<and> good_item env fc item"
      using "2.prems"(4) by blast
    moreover have "collect_items env fc r source es (AList.update (mi_ArtifactID i) i byID) = Inr m"
      using "2.prems"(1) item Some free by (simp split: if_splits)
    ultimately show ?thesis using "2.IH"(2) [OF item Some free] "2.prems"(2,3) by (simp add: distinct_update)
  qed (use "2.IH"(1) [OF item] "2.prems" item in simp)
qed simp

lemma sorted_manifest:
  "sorted (map mi_ArtifactID items) \<Longrightarrow> distinct (map mi_ArtifactID items) \<Longrightarrow> \<forall>item \<in> set items. good_item env fc item \<Longrightarrow>
    previous = '''' \<or> (\<forall>item \<in> set items. previous < mi_ArtifactID item) \<Longrightarrow> manifest_error env fc previous items = None"
proof (induction items arbitrary: previous)
  case (Cons item items)
  have "\<forall>i \<in> set items. mi_ArtifactID item < mi_ArtifactID i"
    using Cons.prems(1,2) by (auto simp: less_le)
  then have "manifest_error env fc (mi_ArtifactID item) items = None" using Cons.prems(1-3) by (intro Cons.IH) auto
  moreover have "good_item env fc item" "previous = '''' \<or> previous < mi_ArtifactID item" using Cons.prems(3,4) by auto
  ultimately show ?case by (auto simp: good_item_def not_le)
qed simp

text \<open>
  C17: The closure collected for a fork passes its own validation. When the outputs retained by the
  entries of a source are collected into a closure, and the names of the entries and of the outputs
  carry no surrounding space, the closure has a complete, strictly sorted manifest with the right
  digests, and the check that guards a fork against a closure that has become stale accepts it.
\<close>

theorem collected_closure_valid:
  assumes c: "artifactClosure env fc r source destination es = Inr c"
    and names: "canonical_text source" "canonical_text destination" and outputs: "list_all canonical_output es"
  shows "validateArtifactClosure env fc r source destination es c = None"
proof -
  obtain m where m: "collect_items env fc r source es [] = Inr m" using c by (auto simp: artifactClosure_def split: sum.splits)
  define items where "items = sort_key mi_ArtifactID (map snd m)"
  obtain fingerprint where f: "ClosureFingerprint env fc source destination items = Inr fingerprint"
      and c': "c = \<lparr>ac_SourceThreadID = source, ac_DestinationThreadID = destination, ac_Items = Some items, ac_Fingerprint = fingerprint\<rparr>"
    using c m by (auto simp: artifactClosure_def Let_def items_def split: sum.splits)
  have good: "distinct (map fst m)" "\<forall>(k, item) \<in> set m. k = mi_ArtifactID item \<and> good_item env fc item"
    using collected_good [OF m outputs] by simp_all
  then have keys: "map mi_ArtifactID (map snd m) = map fst m" by (induction m) auto
  then have "distinct (map snd m)" "inj_on mi_ArtifactID (set (map snd m))" using good(1) distinct_map by metis+
  then have "distinct (map mi_ArtifactID items)" by (simp add: items_def distinct_map)
  moreover have "\<forall>item \<in> set items. good_item env fc item" using good(2) by (auto simp: items_def)
  ultimately have "manifest_error env fc '''' items = None" by (intro sorted_manifest) (simp_all add: items_def)
  then show ?thesis using c names f by (simp add: validateArtifactClosure_def ValidateClosure_def c')
qed

definition log_codec :: fork_codec where
  "log_codec = \<lparr>fx_ref_json = ar_ID, fx_closure_json = (\<lambda>s d items. s @ d @ concat (map mi_RefFingerprint items))\<rparr>"

theorem collected_closure_valid_witness:
  "\<exists>c. artifactClosure digest_env log_codec artifact_repo ''c'' ''d'' (jn_entries (rp_journal artifact_repo ''c'')) = Inr c
     \<and> length (closure_items c) = 1
     \<and> validateArtifactClosure digest_env log_codec artifact_repo ''c'' ''d'' (jn_entries (rp_journal artifact_repo ''c'')) c = None"
proof -
  let ?es = "jn_entries (rp_journal artifact_repo ''c'')"
  have "case artifactClosure digest_env log_codec artifact_repo ''c'' ''d'' ?es of Inl _ \<Rightarrow> False | Inr c \<Rightarrow> length (closure_items c) = 1"
    by code_simp
  then obtain c where c: "artifactClosure digest_env log_codec artifact_repo ''c'' ''d'' ?es = Inr c" "length (closure_items c) = 1"
    by (auto split: sum.splits)
  have "canonical_text ''c''" "canonical_text ''d''" "list_all canonical_output ?es" by code_simp+
  from collected_closure_valid [OF c(1) this] c show ?thesis by blast
qed

end
