(* ===== verification/Forks.thy ===== *)
theory Forks
  imports TurnJournal HostWorkRepo Closures PathRead
begin

text \<open>
  Forks (\<^verbatim>\<open>forkLocked\<close> of \<^verbatim>\<open>sessiontree.go\<close>, \<^verbatim>\<open>fork_path.go\<close>, \<^verbatim>\<open>effect_authority_journal.go\<close>): the path of a
  thread up to an entry is projected into the journal of a new thread. Effect authority stays behind,
  references are rewritten to the new names, and a turn that was still running is closed in the copy.
  \<^verbatim>\<open>replaceIndexedEntriesLocked\<close> installs the copy with all its indexes.
\<close>

section \<open>Removing effect authority\<close>

text \<open>Following removed entries up to one that is kept; each step meets a new one, or a cycle is reported.\<close>

function resolveRemovedEffectEntryID ::
  "(string \<times> string) list \<Rightarrow> string list \<Rightarrow> string \<Rightarrow> string st_result" where
  "resolveRemovedEffectEntryID removed seen i =
    (case map_of removed i of
       None \<Rightarrow> Inr i
     | Some parent \<Rightarrow>
         if i \<in> set seen then Inl (ErrMsg ''effect authority parent cycle'')
         else resolveRemovedEffectEntryID removed (i # seen) parent)"
  by pat_completeness auto
termination
  by (relation "measure (\<lambda>(removed, seen, i). card (fst ` set removed - set seen))")
    (use seen_step in auto)

declare resolveRemovedEffectEntryID.simps [simp del]

definition removed_parents :: "entry list \<Rightarrow> (string \<times> string) list" where
  "removed_parents es = fold (\<lambda>e m. if Type e = EntryEffectAttempt then AList.update (ID e) (ParentID e) m else m) es []"

text \<open>The loop over the entries that stay; \<open>depths\<close> of those before.\<close>

fun retain_entries ::
  "(string \<times> string) list \<Rightarrow> (string \<rightharpoonup> int) \<Rightarrow> entry list \<Rightarrow> entry list st_result" where
  "retain_entries removed depths [] = Inr []"
| "retain_entries removed depths (e # es) =
    (case resolveRemovedEffectEntryID removed [] (ParentID e) of
       Inl err \<Rightarrow> Inl err
     | Inr parent \<Rightarrow>
         let depth = (if parent = '''' then 0 else case depths parent of None \<Rightarrow> 0 | Some d \<Rightarrow> d) in
         if parent \<noteq> '''' \<and> depth \<le> 0 then Inl (ErrMsg ''retained entry has missing parent'')
         else (case retain_entries removed (depths(ID e \<mapsto> depth + 1)) es of
            Inl err \<Rightarrow> Inl err
          | Inr rest \<Rightarrow> Inr (e\<lparr>ParentID := parent, PathDepth := depth + 1\<rparr> # rest)))"

definition removeEffectAuthorityEntries :: "entry list \<Rightarrow> (entry list \<times> (string \<times> string) list) st_result" where
  "removeEffectAuthorityEntries es =
    (let removed = removed_parents es in
     case retain_entries removed Map.empty (filter (\<lambda>e. Type e \<noteq> EntryEffectAttempt) es) of
       Inl err \<Rightarrow> Inl err | Inr kept \<Rightarrow> Inr (kept, removed))"

text \<open>Which removed entries end at which kept one.\<close>

fun effect_aliases ::
  "(string \<times> string) list \<Rightarrow> string list \<Rightarrow> (string \<rightharpoonup> string list) st_result" where
  "effect_aliases removed [] = Inr Map.empty"
| "effect_aliases removed (i # is) =
    (case resolveRemovedEffectEntryID removed [] i of
       Inl err \<Rightarrow> Inl err
     | Inr kept \<Rightarrow> (case effect_aliases removed is of
         Inl err \<Rightarrow> Inl err
       | Inr m \<Rightarrow> Inr (m(kept \<mapsto> i # list_at m kept))))"

section \<open>The names of the copy\<close>

definition renamed :: "(string \<rightharpoonup> string) \<Rightarrow> string \<Rightarrow> string" where
  "renamed ids i = (case ids i of None \<Rightarrow> '''' | Some x \<Rightarrow> x)"

definition result_suffix :: string where "result_suffix = '':result''"

definition rewriteReference :: "(string \<rightharpoonup> string) \<Rightarrow> string \<Rightarrow> string st_result" where
  "rewriteReference ids i =
    (if i = '''' then Inr ''''
     else if renamed ids i \<noteq> '''' then Inr (renamed ids i)
     else if length result_suffix \<le> length i \<and> drop (length i - length result_suffix) i = result_suffix
             \<and> renamed ids (take (length i - length result_suffix) i) \<noteq> ''''
     then Inr (renamed ids (take (length i - length result_suffix) i) @ result_suffix)
     else Inl ErrAuthorityCorrupt)"

fun rewrite_all :: "(string \<rightharpoonup> string) \<Rightarrow> string list \<Rightarrow> string list st_result" where
  "rewrite_all ids [] = Inr []"
| "rewrite_all ids (i # is) =
    rbind (rewriteReference ids i) (\<lambda>x. rbind (rewrite_all ids is) (\<lambda>xs. Inr (x # xs)))"

definition reference_keys :: "string list" where
  "reference_keys = [''entry_id'', ''parent_entry_id'', ''input_entry_id'', ''subagent_input_id'',
     ''retry_source_entry_id'', ''goal_review_id'']"

fun rewrite_metadata :: "(string \<rightharpoonup> string) \<Rightarrow> meta_map \<Rightarrow> meta_map st_result" where
  "rewrite_metadata ids [] = Inr []"
| "rewrite_metadata ids ((k, v) # m) =
    rbind (if trim_space k \<in> set reference_keys then rewriteReference ids v else Inr v)
      (\<lambda>x. rbind (rewrite_metadata ids m) (\<lambda>rest. Inr ((k, x) # rest)))"

definition FinalResponseEntryIDs :: "store_env \<Rightarrow> entry \<Rightarrow> string list option st_result" where
  "FinalResponseEntryIDs env e =
    (case map_of (Metadata e) ''final_response_entry_ids'' of
       None \<Rightarrow> Inr None
     | Some v \<Rightarrow> (case se_ids_of_json env v of
         None \<Rightarrow> Inl ErrAuthorityCorrupt
       | Some is \<Rightarrow> if list_all canonical_text is \<and> distinct is then Inr (Some is)
                    else Inl ErrAuthorityCorrupt))"

definition rewrite_final :: "store_env \<Rightarrow> (string \<rightharpoonup> string) \<Rightarrow> entry \<Rightarrow> meta_map \<Rightarrow> meta_map st_result" where
  "rewrite_final env ids e m =
    (case FinalResponseEntryIDs env e of
       Inl err \<Rightarrow> Inl err
     | Inr None \<Rightarrow> Inr m
     | Inr (Some is) \<Rightarrow>
         if list_ex (\<lambda>i. renamed ids i = '''') is then Inl ErrAuthorityCorrupt
         else Inr (AList.update ''final_response_entry_ids'' (se_json_of_ids env (map (renamed ids) is)) m))"

text \<open>Identities that carry the call of a thread keep their names.\<close>

definition keeps_name :: "entry \<Rightarrow> bool" where
  "keeps_name e \<longleftrightarrow> Type e \<in> {EntryInteractionAsked, EntryInteractionDone, EntryParentEvent,
     EntryParentEventsAdmitted, EntryHostWork, EntryHostWorkAdmitted}"

text \<open>What the payload of an entry becomes.\<close>

definition project_payload ::
  "turn_env \<Rightarrow> (string \<rightharpoonup> string) \<Rightarrow> string \<Rightarrow> entry \<Rightarrow> string st_result" where
  "project_payload env ids t e =
    (if Type e = EntryHostWork then
       (case decodeHostWork (tv_store env) e of
          Inl err \<Rightarrow> Inl err
        | Inr w \<Rightarrow> Inr (se_json_of_work (tv_store env)
            (w\<lparr>hw_Inherited := True, hw_Invocation := (hw_Invocation w)\<lparr>iv_ThreadID := t\<rparr>\<rparr>)))
     else if Type e = EntrySteeringApplied \<or> Type e = EntrySteeringCancelled then
       (case DecodeSteeringResolution env e of
          Inl err \<Rightarrow> Inl err
        | Inr s \<Rightarrow>
            if renamed ids (sr_SteeringID s) = '''' then Inl ErrAuthorityCorrupt
            else Inr (tv_steering_json env (s\<lparr>sr_SteeringID := renamed ids (sr_SteeringID s)\<rparr>)))
     else if Type e = EntryGoal then
       (case gx_change (tv_goals env) (Payload e) of
          None \<Rightarrow> Inl ErrAuthorityCorrupt
        | Some c \<Rightarrow> rbind (rewriteReference ids (gs_SuppressedAtInput (gc_State c)))
            (\<lambda>x. Inr (gx_change_json (tv_goals env) (c\<lparr>gc_State := (gc_State c)\<lparr>gs_SuppressedAtInput := x\<rparr>\<rparr>))))
     else if Type e = EntryGoalReview then
       (case gx_review (tv_goals env) (Payload e) of
          None \<Rightarrow> Inl ErrAuthorityCorrupt
        | Some v \<Rightarrow> rbind (rewriteReference ids (gr_Boundary v))
            (\<lambda>x. Inr (gx_review_json (tv_goals env) (v\<lparr>gr_Boundary := x\<rparr>))))
     else Inr (Payload e))"

definition project_entry ::
  "turn_env \<Rightarrow> (string \<rightharpoonup> string) \<Rightarrow> string \<Rightarrow> string \<Rightarrow> int \<Rightarrow> entry \<Rightarrow> entry st_result" where
  "project_entry env ids t generated depth e =
    rbind (project_payload env ids t e) (\<lambda>payload.
    rbind (rewriteReference ids (ParentID e)) (\<lambda>parent.
    rbind (rewriteReference ids (FirstKeptEntryID e)) (\<lambda>first.
    rbind (rewriteReference ids (CompactedThroughEntryID e)) (\<lambda>through.
    rbind (rewrite_all ids (KeptUserEntryIDs e)) (\<lambda>kept.
    rbind (rewrite_metadata ids (Metadata e)) (\<lambda>metadata.
    rbind (rewrite_final (tv_store env) ids e metadata) (\<lambda>metadata'.
      Inr (sealed_entry (tv_store env)
        (e\<lparr>ID := if keeps_name e then ID e else generated, ThreadID := t, Payload := payload,
           PathDepth := depth, ParentID := parent, FirstKeptEntryID := first,
           CompactedThroughEntryID := through, KeptUserEntryIDs := kept, Metadata := metadata'\<rparr>)))))))))"

section \<open>Projecting a path\<close>

record fork_state =
  fk_seq :: int
  fk_ids :: "string \<rightharpoonup> string"
  fk_entries :: "entry list"
  fk_leaf :: string

definition name_copy :: "(string \<rightharpoonup> string list) \<Rightarrow> string \<Rightarrow> string \<Rightarrow> (string \<rightharpoonup> string) \<Rightarrow> (string \<rightharpoonup> string)" where
  "name_copy aliases old new ids = fold (\<lambda>i ids. ids(i \<mapsto> new)) (list_at aliases old) (ids(old \<mapsto> new))"

fun project_entries ::
  "ctx_poll \<Rightarrow> turn_env \<Rightarrow> string \<Rightarrow> (string \<rightharpoonup> string list) \<Rightarrow> nat \<Rightarrow> entry list \<Rightarrow> fork_state
    \<Rightarrow> fork_state \<times> st_error option" where
  "project_entries ctx env t aliases poll [] s = (s, None)"
| "project_entries ctx env t aliases poll (e # es) s =
    (case ctx poll of
       Some err \<Rightarrow> (s, Some err)
     | None \<Rightarrow>
         let seq = fk_seq s + 1 in
         (case project_entry env (fk_ids s) t (generated_entry_id t seq) (int (length (fk_entries s)) + 1) e of
            Inl err \<Rightarrow> (s\<lparr>fk_seq := seq\<rparr>, Some err)
          | Inr next_entry \<Rightarrow> project_entries ctx env t aliases (Suc poll) es
              (s\<lparr>fk_seq := seq, fk_ids := name_copy aliases (ID e) (ID next_entry) (fk_ids s),
                 fk_entries := fk_entries s @ [next_entry], fk_leaf := ID next_entry\<rparr>)))"

text \<open>Turns that have started and not ended, trimmed, in the order of their starts; at most one may exist.\<close>

definition first_occurrences :: "'a list \<Rightarrow> 'a list" where
  "first_occurrences xs = rev (remdups (rev xs))"

definition unfinishedTurnIDs :: "entry list \<Rightarrow> string list st_result" where
  "unfinishedTurnIDs path =
    (let marks = filter (\<lambda>e. Type e = EntryTurnMarker \<and> \<not> blank (TurnID e)) path;
         started = first_occurrences (map (\<lambda>e. trim_space (TurnID e)) (filter (\<lambda>e. TurnStatus e = TurnStarted) marks));
         terminal = map (\<lambda>e. trim_space (TurnID e)) (filter (\<lambda>e. terminalTurnMarker (TurnStatus e)) marks);
         unfinished = filter (\<lambda>turn. turn \<notin> set terminal) started
     in if 1 < length unfinished then Inl ErrAuthorityCorrupt else Inr unfinished)"

section \<open>Closing what was still running\<close>

text \<open>One more entry at the end of the copy, under a generated name.\<close>

definition extend_copy :: "turn_env \<Rightarrow> string \<Rightarrow> go_time \<Rightarrow> entry \<Rightarrow> fork_state \<Rightarrow> fork_state" where
  "extend_copy env t now e s =
    (let seq = fk_seq s + 1; i = generated_entry_id t seq;
         fact = sealed_entry (tv_store env) (e\<lparr>ID := i, ThreadID := t, ParentID := fk_leaf s, CreatedAt := now\<rparr>)
     in s\<lparr>fk_seq := seq, fk_entries := fk_entries s @ [fact\<lparr>PathDepth := int (length (fk_entries s)) + 1\<rparr>],
          fk_leaf := i\<rparr>)"

definition not_inherited :: string where
  "not_inherited = ''Tool execution was not inherited by this fork; its outcome remains owned by the source thread.''"

definition uninherited_result :: "entry \<Rightarrow> entry" where
  "uninherited_result call = zero_entry\<lparr>Type := EntryToolResult, TurnID := TurnID call, RunID := RunID call,
     Message := zero_message\<lparr>msg_Role := Tool, msg_Content := not_inherited,
       msg_ToolCallID := msg_ToolCallID (Message call), msg_ToolName := msg_ToolName (Message call),
       msg_ToolResult := Some (empty_view\<lparr>tr_Status := ''canceled''\<rparr>)\<rparr>\<rparr>"

definition dropped_steering :: "turn_env \<Rightarrow> entry \<Rightarrow> entry" where
  "dropped_steering env e = zero_entry\<lparr>Type := EntrySteeringCancelled, TurnID := TurnID e, RunID := RunID e,
     Payload := tv_steering_json env \<lparr>sr_SteeringID = ID e, sr_Reason = ''fork''\<rparr>\<rparr>"

definition steering_settled :: "entry \<Rightarrow> bool" where
  "steering_settled e \<longleftrightarrow> Type e = EntrySteeringApplied \<or> Type e = EntrySteeringCancelled"

definition boundary_metadata :: "string \<Rightarrow> meta_map" where
  "boundary_metadata reason = [(''authority_kind'', ''branch_boundary''), (''reason'', reason),
     (''failure_code'', ''interrupted''), (''failure_reason'', ''turn interrupted by branch boundary'')]"

text \<open>\<open>None\<close> stands for the empty entry the code returns when no turn is unfinished.\<close>

definition PrepareBranchBoundaryEntry ::
  "store_env \<Rightarrow> entry list \<Rightarrow> string \<Rightarrow> string \<Rightarrow> string \<Rightarrow> string \<Rightarrow> go_time \<Rightarrow> entry option st_result" where
  "PrepareBranchBoundaryEntry env path t parentID i reason now =
    (case unfinishedTurnIDs path of
       Inl err \<Rightarrow> Inl err
     | Inr [] \<Rightarrow> Inr None
     | Inr (turn # _) \<Rightarrow>
         if blank t \<or> blank i \<or> blank reason
         then Inl (ErrMsg ''branch boundary requires thread, entry, and reason identities'')
         else (case CurrentRunID path turn of
            Inl err \<Rightarrow> Inl err
          | Inr run \<Rightarrow> Inr (Some (sealed_entry env
              (zero_entry\<lparr>ID := trim_space i, ThreadID := trim_space t, ParentID := trim_space parentID,
                 Type := EntryTurnMarker, TurnID := turn, RunID := run, TurnStatus := TurnAborted,
                 CreatedAt := now, Metadata := boundary_metadata (trim_space reason)\<rparr>)))))"

definition close_copy :: "turn_env \<Rightarrow> string \<Rightarrow> go_time \<Rightarrow> string \<Rightarrow> fork_state \<Rightarrow> fork_state \<times> st_error option" where
  "close_copy env t now turn s =
    (let calls = runtimePendingToolCalls (tv_store env) (fk_entries s) turn;
         s1 = fold (\<lambda>call. extend_copy env t now (uninherited_result call)) calls s
     in if list_ex (\<lambda>e. steering_settled e \<and> sum.isl (DecodeSteeringResolution env e)) (fk_entries s1)
        then (s1, Some ErrAuthorityCorrupt)
        else
          let pending = filter (\<lambda>e. Type e = EntrySteeringRequested \<and> ID e \<notin> set (resolved_steering env (fk_entries s1)))
                (fk_entries s1);
              s2 = fold (\<lambda>e. extend_copy env t now (dropped_steering env e)) pending s1;
              seq = fk_seq s2 + 1
          in (case PrepareBranchBoundaryEntry (tv_store env) (fk_entries s2) t (fk_leaf s2)
                     (generated_entry_id t seq) ''fork'' now of
                Inl err \<Rightarrow> (s2\<lparr>fk_seq := seq\<rparr>, Some err)
              | Inr None \<Rightarrow> (s2\<lparr>fk_seq := seq, fk_entries := fk_entries s2 @ [zero_entry\<lparr>PathDepth :=
                    int (length (fk_entries s2)) + 1\<rparr>], fk_leaf := ''''\<rparr>, None)
              | Inr (Some boundary) \<Rightarrow>
                  (s2\<lparr>fk_seq := seq, fk_entries := fk_entries s2 @ [boundary\<lparr>PathDepth :=
                     int (length (fk_entries s2)) + 1\<rparr>], fk_leaf := ID boundary\<rparr>, None)))"

text \<open>The sequence number moves even when the projection fails.\<close>

definition projectForkPath ::
  "ctx_poll \<Rightarrow> turn_env \<Rightarrow> string \<Rightarrow> go_time \<Rightarrow> entry list \<Rightarrow> int \<Rightarrow> fork_state \<times> st_error option" where
  "projectForkPath ctx env t now path0 seq =
    (let s0 = \<lparr>fk_seq = seq, fk_ids = ['''' \<mapsto> ''''], fk_entries = [], fk_leaf = ''''\<rparr> in
     case removeEffectAuthorityEntries path0 of
       Inl _ \<Rightarrow> (s0, Some ErrAuthorityCorrupt)
     | Inr (path, removed) \<Rightarrow> (case effect_aliases removed (map fst removed) of
         Inl _ \<Rightarrow> (s0, Some ErrAuthorityCorrupt)
       | Inr aliases \<Rightarrow> (case project_entries ctx env t aliases 0 path s0 of
           (s, Some err) \<Rightarrow> (s, Some err)
         | (s, None) \<Rightarrow> (case unfinishedTurnIDs (fk_entries s) of
             Inl err \<Rightarrow> (s, Some err)
           | Inr [] \<Rightarrow> (s, None)
           | Inr (turn # _) \<Rightarrow> close_copy env t now turn s))))"

section \<open>Replacing a journal\<close>

text \<open>The pass over the new entries: ordinals, depths and the turns that started.\<close>

record replacement =
  rx_ordinals :: "string \<rightharpoonup> int"
  rx_depths :: "string \<rightharpoonup> int"
  rx_indexed :: "string \<rightharpoonup> int list"
  rx_started :: "string set"

definition zero_replacement :: replacement where
  "zero_replacement = \<lparr>rx_ordinals = Map.empty, rx_depths = Map.empty, rx_indexed = Map.empty, rx_started = {}\<rparr>"

definition replace_entry ::
  "store_env \<Rightarrow> (entry \<Rightarrow> string st_result) \<Rightarrow> string \<Rightarrow> int \<Rightarrow> entry \<Rightarrow> replacement \<Rightarrow> replacement st_result" where
  "replace_entry env startedRunIdentity t ordinal e x =
    (let parent_depth = (case rx_depths x (ParentID e) of None \<Rightarrow> 0 | Some d \<Rightarrow> d);
         unresolved = (ParentID e \<noteq> '''' \<and> parent_depth \<le> 0);
         expected = (if ParentID e = '''' then 1 else parent_depth + 1);
         turn = trim_space (TurnID e);
         starts = (Type e = EntryTurnMarker \<and> TurnStatus e = TurnStarted);
         x' = x\<lparr>rx_ordinals := (rx_ordinals x)(ID e \<mapsto> ordinal),
                rx_depths := (rx_depths x)(ID e \<mapsto> if unresolved then 0 else PathDepth e)\<rparr>
     in if ThreadID e \<noteq> t \<or> blank (ID e) \<or> rx_ordinals x (ID e) \<noteq> None then Inl ErrAuthorityCorrupt
        else if \<not> unresolved \<and> PathDepth e \<noteq> expected then Inl ErrAuthorityCorrupt
        else if \<not> ValidateEntryMessageReferences env e then Inl ErrAuthorityCorrupt
        else if turn = '''' then Inr x'
        else if \<not> starts then Inr (x'\<lparr>rx_indexed := push_at turn ordinal (rx_indexed x)\<rparr>)
        else if turn \<in> rx_started x then Inl ErrAuthorityCorrupt
        else (case startedRunIdentity e of
           Inl err \<Rightarrow> Inl err
         | Inr run \<Rightarrow>
             if run = '''' then Inl ErrAuthorityCorrupt
             else Inr (x'\<lparr>rx_indexed := push_at turn ordinal (rx_indexed x), rx_started := insert turn (rx_started x)\<rparr>)))"

fun replace_entries ::
  "store_env \<Rightarrow> (entry \<Rightarrow> string st_result) \<Rightarrow> string \<Rightarrow> int \<Rightarrow> entry list \<Rightarrow> replacement \<Rightarrow> replacement st_result" where
  "replace_entries env run t ordinal [] x = Inr x"
| "replace_entries env run t ordinal (e # es) x =
    rbind (replace_entry env run t ordinal e x) (replace_entries env run t (ordinal + 1) es)"

definition replaceIndexedEntriesWithStartedRunIdentity ::
  "store_env \<Rightarrow> (entry \<Rightarrow> string st_result) \<Rightarrow> string \<Rightarrow> entry list \<Rightarrow> repo \<Rightarrow> repo \<times> st_error option" where
  "replaceIndexedEntriesWithStartedRunIdentity env run t es r =
    (case replace_entries env run t 0 es zero_replacement of
       Inl err \<Rightarrow> (r, Some err)
     | Inr x \<Rightarrow>
         (setJournal t \<lparr>jn_entries = es, jn_ordinals = Some (rx_ordinals x), jn_depths = rx_depths x,
            jn_path = rebuildPathIndex (ValidateEntryIntegrity env) (rx_ordinals x) es,
            jn_turnOrdinals = rx_indexed x,
            jn_turnCounts = (\<lambda>k. map_option (\<lambda>xs. int (length xs)) (rx_indexed x k)),
            jn_turns = Some (rebuildTurnMarkers es),
            jn_outputs = Some (observe_outputs 0 es Map.empty)\<rparr> r, None))"

definition replaceIndexedEntries :: "store_env \<Rightarrow> string \<Rightarrow> entry list \<Rightarrow> repo \<Rightarrow> repo \<times> st_error option" where
  "replaceIndexedEntries env =
     replaceIndexedEntriesWithStartedRunIdentity env (\<lambda>e. Inr (trim_space (RunID e)))"

section \<open>Forking a thread\<close>

datatype fork_position = ForkUnset | ForkAt | ForkBefore | ForkPositionOther string

record fork_destination =
  fd_ParentThreadID :: string
  fd_ParentTurnID :: string
  fd_TaskName :: string
  fd_TaskDescription :: string
  fd_AgentPath :: string
  fd_HostProfileRef :: string
  fd_ForkMode :: string
  fd_Lifecycle :: thread_lifecycle

record fork_options =
  fo_SourceThreadID :: string
  fo_EntryID :: string
  fo_EntryIDPinned :: bool
  fo_Position :: fork_position
  fo_NewThreadID :: string
  fo_OriginRequestKey :: string
  fo_OriginFingerprint :: string
  fo_Now :: go_time
  fo_DestinationMeta :: "fork_destination option"
  fo_ArtifactClosure :: closure

definition applyForkDestinationMeta :: "fork_destination option \<Rightarrow> thread_meta \<Rightarrow> thread_meta" where
  "applyForkDestinationMeta destination meta =
    (case destination of
       None \<Rightarrow> meta
     | Some d \<Rightarrow> meta\<lparr>tm_ParentThreadID := trim_space (fd_ParentThreadID d), tm_ParentTurnID := trim_space (fd_ParentTurnID d),
         tm_TaskName := trim_space (fd_TaskName d), tm_TaskDescription := trim_space (fd_TaskDescription d),
         tm_AgentPath := trim_space (fd_AgentPath d), tm_HostProfileRef := trim_space (fd_HostProfileRef d),
         tm_ForkMode := trim_space (fd_ForkMode d), tm_Lifecycle := fd_Lifecycle d\<rparr>)"

definition MatchesForkDestinationMeta :: "thread_meta \<Rightarrow> fork_destination option \<Rightarrow> bool" where
  "MatchesForkDestinationMeta meta destination \<longleftrightarrow> (let want = applyForkDestinationMeta destination zero_meta in
     tm_ParentThreadID meta = tm_ParentThreadID want \<and> tm_ParentTurnID meta = tm_ParentTurnID want
   \<and> tm_TaskName meta = tm_TaskName want \<and> tm_TaskDescription meta = tm_TaskDescription want
   \<and> tm_AgentPath meta = tm_AgentPath want \<and> tm_HostProfileRef meta = tm_HostProfileRef want
   \<and> tm_ForkMode meta = tm_ForkMode want)"

definition forkDestinationMatches :: "thread_meta \<Rightarrow> fork_options \<Rightarrow> string \<Rightarrow> bool" where
  "forkDestinationMatches meta opts targetID \<longleftrightarrow> \<not> blank (fo_OriginRequestKey opts)
     \<and> tm_OriginRequestKey meta = trim_space (fo_OriginRequestKey opts)
     \<and> tm_OriginFingerprint meta = trim_space (fo_OriginFingerprint opts)
     \<and> tm_ForkedFromThreadID meta = fo_SourceThreadID opts \<and> tm_ForkedFromEntryID meta = targetID
     \<and> MatchesForkDestinationMeta meta (fo_DestinationMeta opts)"

definition fork_target :: "repo \<Rightarrow> thread_meta \<Rightarrow> fork_options \<Rightarrow> string st_result" where
  "fork_target r source opts =
    (let target = (if fo_EntryID opts = '''' \<and> \<not> fo_EntryIDPinned opts then tm_LeafID source else fo_EntryID opts) in
     if fo_Position opts = ForkBefore then
       (case findEntry (jn_entries (rp_journal r (fo_SourceThreadID opts))) target of
          None \<Rightarrow> Inl ErrEntryNotFound | Some e \<Rightarrow> Inr (ParentID e))
     else Inr target)"

definition generated_fork_id :: "string \<Rightarrow> int \<Rightarrow> string" where
  "generated_fork_id source n = source @ ''-fork-'' @ show_int n"

text \<open>The identity of the copy and the sequence number after choosing it.\<close>

definition fork_name :: "repo \<Rightarrow> fork_options \<Rightarrow> int \<times> string" where
  "fork_name r opts =
    (if fo_NewThreadID opts \<noteq> '''' then (rp_seq r, fo_NewThreadID opts)
     else fresh_id (length (rp_threads r)) (\<lambda>i. thread r i \<noteq> None)
            (generated_fork_id (fo_SourceThreadID opts)) (rp_seq r))"

definition fork_closure ::
  "store_env \<Rightarrow> fork_codec \<Rightarrow> repo \<Rightarrow> fork_options \<Rightarrow> string \<Rightarrow> entry list \<Rightarrow> closure st_result" where
  "fork_closure env fc r opts t path =
    (case (if IsZeroClosure (fo_ArtifactClosure opts)
           then artifactClosure env fc r (fo_SourceThreadID opts) t path
           else Inr (fo_ArtifactClosure opts)) of
       Inl err \<Rightarrow> Inl err
     | Inr c \<Rightarrow> (case validateArtifactClosure env fc r (fo_SourceThreadID opts) t path c of
         Some err \<Rightarrow> Inl err | None \<Rightarrow> Inr c))"

definition fork_meta :: "fork_options \<Rightarrow> string \<Rightarrow> string \<Rightarrow> go_time \<Rightarrow> thread_meta" where
  "fork_meta opts t target now = applyForkDestinationMeta (fo_DestinationMeta opts)
     (zero_meta\<lparr>tm_ID := t, tm_ForkedFromThreadID := fo_SourceThreadID opts, tm_ForkedFromEntryID := target,
        tm_OriginRequestKey := trim_space (fo_OriginRequestKey opts),
        tm_OriginFingerprint := trim_space (fo_OriginFingerprint opts), tm_CreatedAt := now, tm_UpdatedAt := now\<rparr>)"

definition fork_authority :: "repo \<Rightarrow> thread_meta \<Rightarrow> st_error option" where
  "fork_authority r meta =
    (case ValidateThreadMetaAuthority meta of
       Some err \<Rightarrow> Some err
     | None \<Rightarrow>
         if blank (tm_ParentThreadID meta) then None
         else (case thread r (trim_space (tm_ParentThreadID meta)) of
            None \<Rightarrow> Some ErrInvalidThreadAuthority
          | Some parent \<Rightarrow> if IsClosed parent then Some ErrThreadClosed else None))"

definition copied_output :: "entry list \<Rightarrow> (string \<rightharpoonup> string) \<Rightarrow> manifest_item \<Rightarrow> bool" where
  "copied_output es ids item \<longleftrightarrow>
    (case memoryEntryByID es (renamed ids (mi_SourceEntryID item)) of
       None \<Rightarrow> False | Some e \<Rightarrow> full_output_of e = Some (mi_Ref item))"

definition fork_title :: "entry list \<Rightarrow> go_time \<Rightarrow> thread_meta \<Rightarrow> thread_meta st_result" where
  "fork_title es now meta =
    (case list_find (\<lambda>e. Type e = EntryUserMessage \<and> fallbackThreadTitle (Message e) \<noteq> '''') es of
       None \<Rightarrow> Inr meta
     | Some e \<Rightarrow> (case installFallbackThreadTitle meta (Message e) now of
         Inl err \<Rightarrow> Inl err | Inr (meta', _) \<Rightarrow> Inr meta'))"

text \<open>The copy is installed: journal, metadata, artifacts and the todo list.\<close>

definition install_fork ::
  "turn_env \<Rightarrow> string \<Rightarrow> string \<Rightarrow> thread_meta \<Rightarrow> entry list \<Rightarrow> (string \<times> artifact_record) list \<Rightarrow> repo
    \<Rightarrow> repo \<times> thread_meta st_result" where
  "install_fork env source t meta es staged r =
    (case replaceIndexedEntries (tv_store env) t es r of
       (r1, Some err) \<Rightarrow> (r1, Inl err)
     | (r1, None) \<Rightarrow>
         let r2 = install_artifacts staged (setThread t meta r1)
         in (case rp_todos r source of
               None \<Rightarrow> (r2, Inr meta)
             | Some todo \<Rightarrow> (setTodo t (todo\<lparr>tds_ThreadID := t\<rparr>) r2, Inr meta)))"

definition copy_path ::
  "ctx_poll \<Rightarrow> turn_env \<Rightarrow> fork_options \<Rightarrow> string \<Rightarrow> thread_meta \<Rightarrow> entry list \<Rightarrow> closure \<Rightarrow> go_time \<Rightarrow> repo
    \<Rightarrow> repo \<times> thread_meta st_result" where
  "copy_path ctx env opts t meta path c now r =
    (case projectForkPath ctx env t now path (rp_seq r) of
       (s, Some err) \<Rightarrow> (r\<lparr>rp_seq := fk_seq s\<rparr>, Inl err)
     | (s, None) \<Rightarrow>
         let r1 = r\<lparr>rp_seq := fk_seq s\<rparr>; es = fk_entries s in
         (case stageArtifactFork (tv_store env) r1 c (renamed (fk_ids s)) now of
            Inl err \<Rightarrow> (r1, Inl err)
          | Inr staged \<Rightarrow>
              if \<not> list_all (copied_output es (fk_ids s)) (closure_items c) then (r1, Inl ErrAuthorityCorrupt)
              else (case fork_title es now (meta\<lparr>tm_LeafID := fk_leaf s\<rparr>) of
                 Inl err \<Rightarrow> (r1, Inl err)
               | Inr meta' \<Rightarrow> install_fork env (fo_SourceThreadID opts) t meta' es staged r1)))"

definition fork_fresh ::
  "ctx_poll \<Rightarrow> turn_env \<Rightarrow> fork_codec \<Rightarrow> repo \<Rightarrow> fork_options \<Rightarrow> string \<Rightarrow> go_time \<Rightarrow> repo \<times> thread_meta st_result" where
  "fork_fresh ctx env fc r opts target now =
    (let source = fo_SourceThreadID opts; store = tv_store env in
     case canonicalPath background (ValidateEntryIntegrity store) r source target of
       (r1, Inl err) \<Rightarrow> (r1, Inl err)
     | (r1, Inr path) \<Rightarrow> (case fork_name r1 opts of (seq, t) \<Rightarrow>
         let r2 = r1\<lparr>rp_seq := seq\<rparr>; meta = fork_meta opts t target now in
         if tombstone r2 t \<noteq> None then (r2, Inl ErrForkDestinationConflict)
         else if jn_entries (rp_journal r2 t) \<noteq> [] then (r2, Inl ErrThreadExists)
         else (case fork_closure store fc r2 opts t path of
            Inl err \<Rightarrow> (r2, Inl err)
          | Inr c \<Rightarrow> (case fork_authority r2 meta of
              Some err \<Rightarrow> (r2, Inl err)
            | None \<Rightarrow> copy_path ctx env opts t meta path c now r2))))"

definition forkLocked ::
  "ctx_poll \<Rightarrow> turn_env \<Rightarrow> fork_codec \<Rightarrow> repo \<Rightarrow> fork_options \<Rightarrow> repo \<times> thread_meta st_result" where
  "forkLocked ctx env fc r opts =
    (case thread r (fo_SourceThreadID opts) of
       None \<Rightarrow> (r, Inl ErrThreadNotFound)
     | Some source \<Rightarrow>
         if IsClosed source then (r, Inl ErrThreadClosed)
         else (case fork_target r source opts of
            Inl err \<Rightarrow> (r, Inl err)
          | Inr target \<Rightarrow>
              let now = canonicalTime (tv_effects env) (fo_Now opts);
                  existing = (if fo_NewThreadID opts = '''' then None else thread r (fo_NewThreadID opts))
              in (case existing of
                    Some meta \<Rightarrow> (r, if forkDestinationMatches meta opts target then Inr meta else Inl ErrThreadExists)
                  | None \<Rightarrow> fork_fresh ctx env fc r opts target now)))"

definition Fork ::
  "ctx_poll \<Rightarrow> turn_env \<Rightarrow> fork_codec \<Rightarrow> repo \<Rightarrow> fork_options \<Rightarrow> repo \<times> thread_meta st_result" where
  "Fork = forkLocked"

text \<open>
  The first entry goes into the copy; if it is refused, the thread of the copy is deleted again,
  also when the copy had existed before.
\<close>

definition ForkWithInitialEntry ::
  "ctx_poll \<Rightarrow> turn_env \<Rightarrow> fork_codec \<Rightarrow> repo \<Rightarrow> fork_options \<Rightarrow> entry \<Rightarrow> repo \<times> (thread_meta \<times> entry) st_result" where
  "ForkWithInitialEntry ctx env fc r opts initial =
    (case forkLocked ctx env fc r opts of
       (r1, Inl err) \<Rightarrow> (r1, Inl err)
     | (r1, Inr forked) \<Rightarrow>
         let t = tm_ID forked in
         (case appendFact ctx (tv_store env) r1 (initial\<lparr>ThreadID := t\<rparr>) (no_options\<lparr>ao_Now := fo_Now opts\<rparr>) False of
            (r2, Inl err) \<Rightarrow> (deleteThreadArtifacts t (deleteTodo t (deleteIndexedEntries t (deleteThread t r2)))
              \<lparr>rp_seq := rp_seq r\<rparr>, Inl err)
          | (r2, Inr saved) \<Rightarrow> (r2, Inr (meta_of r2 t, saved))))"

end
