(* ===== verification/TurnOrder.thy ===== *)
theory TurnOrder
  imports TurnJournal JournalIndex Lifecycle
begin

text \<open>
  The markers of a journal and what the turn index says about them; the shape every operation on a
  thread has: it builds indexes, moves the metadata and appends entries with new identities.
\<close>

section \<open>The turn index in terms of the entries\<close>

definition turn_mark :: "entry \<Rightarrow> bool" where
  "turn_mark e \<longleftrightarrow> Type e = EntryTurnMarker \<and> \<not> blank (TurnID e)"

definition opens :: "turn_status \<Rightarrow> bool" where
  "opens s \<longleftrightarrow> s = TurnStarted \<or> s = TurnSavePoint \<or> s = TurnWaiting"

definition turn_marks :: "string \<Rightarrow> entry list \<Rightarrow> turn_status list" where
  "turn_marks turn es = map TurnStatus (filter (\<lambda>e. turn_mark e \<and> TurnID e = turn) es)"

text \<open>The open turns, in the order they were opened.\<close>

definition open_turns :: "entry list \<Rightarrow> string list" where
  "open_turns es = map fst (ti_active (rebuildTurnMarkers es))"

lemma rebuild_snoc: "rebuildTurnMarkers (es @ [e]) = observeTurnMarker (int (length es)) e (rebuildTurnMarkers es)"
  by (simp add: rebuildTurnMarkers_def observe_turns_snoc)

lemma keys_update: "map fst (AList.update k v xs) = (if k \<in> fst ` set xs then map fst xs else map fst xs @ [k])"
  by (induction xs) auto

lemma keys_delete: "map fst (AList.delete k xs) = removeAll k (map fst xs)"
  by (induction xs) (auto simp: AList.delete_eq)

lemma open_turns_Nil [simp]: "open_turns [] = []"
  by (simp add: open_turns_def rebuildTurnMarkers_def empty_turns_def)

lemma turn_marks_Nil [simp]: "turn_marks turn [] = []"
  by (simp add: turn_marks_def)

lemma open_turns_snoc:
  "open_turns (es @ [e]) =
    (if \<not> turn_mark e then open_turns es
     else if opens (TurnStatus e) then
       (if TurnID e \<in> set (open_turns es) then open_turns es else open_turns es @ [TurnID e])
     else if terminalTurnMarker (TurnStatus e) then removeAll (TurnID e) (open_turns es)
     else open_turns es)"
proof -
  have a: "map fst (active_after n e xs) =
      (if Type e \<noteq> EntryTurnMarker then map fst xs
       else if opens (TurnStatus e) then
         (if TurnID e \<in> set (map fst xs) then map fst xs else map fst xs @ [TurnID e])
       else if terminalTurnMarker (TurnStatus e) then removeAll (TurnID e) (map fst xs) else map fst xs)" for n xs
    by (cases "TurnStatus e")
      (simp_all add: active_after_def opens_def terminalTurnMarker_def keys_update keys_delete)
  show ?thesis
    unfolding open_turns_def rebuild_snoc
    by (auto simp: observeTurnMarker_def Let_def marked_def turn_mark_def a)
qed

lemma turn_marks_snoc:
  "turn_marks turn (es @ [e]) = turn_marks turn es @ (if turn_mark e \<and> TurnID e = turn then [TurnStatus e] else [])"
  by (simp add: turn_marks_def)

text \<open>The last position recorded for a turn.\<close>

definition mark_position :: "entry list \<Rightarrow> string \<Rightarrow> turn_position" where
  "mark_position es turn = tk_at (marker_at (rebuildTurnMarkers es) turn)"

lemma mark_position_Nil [simp]: "mark_position [] turn = zero_position"
  by (simp add: mark_position_def rebuildTurnMarkers_def empty_turns_def marker_at_def zero_marker_def)

lemma mark_position_snoc:
  "mark_position (es @ [e]) turn =
    (if marked e \<and> TurnID e = turn then marker_position (int (length es)) e (mark_position es turn)
     else mark_position es turn)"
  by (auto simp: mark_position_def rebuild_snoc observeTurnMarker_def Let_def marker_at_def)

definition last_with :: "('a \<Rightarrow> bool) \<Rightarrow> 'a list \<Rightarrow> 'a option" where
  "last_with P xs = list_find P (rev xs)"

lemma last_with_snoc: "last_with P (xs @ [x]) = (if P x then Some x else last_with P xs)"
  by (simp add: last_with_def)

lemma last_with_Nil [simp]: "last_with P [] = None"
  by (simp add: last_with_def)

lemma last_with_None: "last_with P xs = None \<longleftrightarrow> (\<forall>x \<in> set xs. \<not> P x)"
  by (simp add: last_with_def list_find_None)

lemma last_with_Some: "last_with P xs = Some x \<Longrightarrow> x \<in> set xs \<and> P x"
  by (auto simp: last_with_def dest: list_find_Some)

definition turn_end :: "string \<Rightarrow> entry \<Rightarrow> bool" where
  "turn_end turn e \<longleftrightarrow> turn_mark e \<and> TurnID e = turn \<and> terminalTurnMarker (TurnStatus e)"

definition turn_start :: "string \<Rightarrow> entry \<Rightarrow> bool" where
  "turn_start turn e \<longleftrightarrow> turn_mark e \<and> TurnID e = turn \<and> TurnStatus e = TurnStarted"

definition cancel_of :: "string \<Rightarrow> entry \<Rightarrow> bool" where
  "cancel_of turn e \<longleftrightarrow> Type e = EntryCancelRequested \<and> \<not> blank (TurnID e) \<and> TurnID e = turn"

definition run_of :: "string \<Rightarrow> entry \<Rightarrow> bool" where
  "run_of turn e \<longleftrightarrow> marked e \<and> TurnID e = turn \<and> \<not> blank (RunID e)"

lemma at_grown: "0 \<le> k \<Longrightarrow> k < int (length xs) \<Longrightarrow> at (xs @ ys) k = at xs k"
  by (simp add: at_def nth_append nat_less_iff)

lemma at_snoc [simp]: "at (xs @ [x]) (int (length xs)) = x"
  by (simp add: at_def)

lemma mark_bounds:
  "0 \<le> tp_terminal (mark_position es turn) \<and> tp_terminal (mark_position es turn) \<le> int (length es)
   \<and> 0 \<le> tp_identity (mark_position es turn) \<and> tp_identity (mark_position es turn) \<le> int (length es)"
  by (induction es rule: rev_induct) (auto simp: mark_position_snoc marker_position_def zero_position_def)

lemma mark_fields:
  "(tp_started (mark_position es turn) = 0 \<longleftrightarrow> (\<forall>e \<in> set es. \<not> turn_start turn e))
   \<and> (tp_cancellation (mark_position es turn) = 0 \<longleftrightarrow> (\<forall>e \<in> set es. \<not> cancel_of turn e))
   \<and> last_with (turn_end turn) es = (if tp_terminal (mark_position es turn) = 0 then None
        else Some (at es (tp_terminal (mark_position es turn) - 1)))
   \<and> last_with (run_of turn) es = (if tp_identity (mark_position es turn) = 0 then None
        else Some (at es (tp_identity (mark_position es turn) - 1)))"
proof (induction es rule: rev_induct)
  case (snoc e es)
  note b = mark_bounds [of es turn]
  show ?case
  proof (cases "marked e \<and> TurnID e = turn")
    case False
    then have "\<not> turn_start turn e" "\<not> cancel_of turn e" "\<not> turn_end turn e" "\<not> run_of turn e"
      by (auto simp: marked_def turn_start_def cancel_of_def turn_end_def run_of_def turn_mark_def)
    moreover have "mark_position (es @ [e]) turn = mark_position es turn" using False unfolding mark_position_snoc by (rule if_not_P)
    ultimately show ?thesis using snoc b by (simp add: last_with_snoc at_grown)
  next
    case True
    then have n: "\<not> blank (TurnID e)" and t: "Type e = EntryTurnMarker \<or> Type e = EntryCancelRequested"
      by (auto simp: marked_def)
    have s: "turn_start turn e \<longleftrightarrow> turn_started e"
      using True n by (auto simp: turn_start_def turn_mark_def turn_started_def)
    have c: "cancel_of turn e \<longleftrightarrow> Type e \<noteq> EntryTurnMarker" using True n t by (auto simp: cancel_of_def)
    have d: "turn_end turn e \<longleftrightarrow> Type e = EntryTurnMarker \<and> terminalTurnMarker (TurnStatus e)"
      using True n by (auto simp: turn_end_def turn_mark_def)
    have i: "run_of turn e \<longleftrightarrow> \<not> blank (RunID e)" using True by (auto simp: run_of_def)
    show ?thesis using snoc b True
      by (simp add: mark_position_snoc marker_position_def last_with_snoc s c d i at_grown)
  qed
qed (simp add: zero_position_def)

lemma turns_of_indexed: "indexed env t j \<Longrightarrow> turns_of j = rebuildTurnMarkers (jn_entries j)"
  by (auto simp: indexed_def Let_def turns_of_def)

lemma single_key: "(case xs of [(k, v)] \<Rightarrow> Some k | _ \<Rightarrow> None) = Some x \<longleftrightarrow> map fst xs = [x]"
  by (auto split: list.splits)

lemma turn_at_indexed: "indexed env t j \<Longrightarrow> turn_at j turn = mark_position (jn_entries j) turn"
  by (simp add: turn_at_def turns_of_indexed mark_position_def)

lemma runtimeActive_indexed: "indexed env t j \<Longrightarrow> runtimeActiveTurn j = Some turn \<longleftrightarrow> open_turns (jn_entries j) = [turn]"
  by (simp add: runtimeActiveTurn_def turns_of_indexed open_turns_def single_key)

lemma turnTerminal_indexed: "indexed env t j \<Longrightarrow> turnTerminal j turn = last_with (turn_end turn) (jn_entries j)"
  using mark_fields [of "jn_entries j" turn] by (simp add: turnTerminal_def turn_at_indexed Let_def)

lemma hasTurnStarted_indexed: "indexed env t j \<Longrightarrow> hasTurnStarted j turn \<longleftrightarrow> (\<exists>e \<in> set (jn_entries j). turn_start turn e)"
  using mark_fields [of "jn_entries j" turn] by (simp add: hasTurnStarted_def turn_at_indexed)

lemma cancellation_indexed: "indexed env t j \<Longrightarrow> turnCancellationRequested j turn \<longleftrightarrow> (\<exists>e \<in> set (jn_entries j). cancel_of turn e)"
  using mark_fields [of "jn_entries j" turn] by (simp add: turnCancellationRequested_def turn_at_indexed)

lemma runIdentity_indexed:
  "indexed env t j \<Longrightarrow> activeRunIdentity j turn = (case last_with (run_of turn) (jn_entries j) of
     None \<Rightarrow> Inl ErrAuthorityCorrupt | Some e \<Rightarrow> Inr (trim_space (RunID e)))"
  using mark_fields [of "jn_entries j" turn] by (simp add: activeRunIdentity_def turn_at_indexed Let_def)

lemma ordinal_indexed: "indexed env t j \<Longrightarrow> ordinal_of j = ids_map (jn_entries j)"
  by (auto simp: indexed_def Let_def ordinal_of_def ids_map_def fun_eq_iff)

lemma ordinal_indexed_Some:
  assumes "indexed env t j"
  shows "ordinal_of j i = Some k \<longleftrightarrow> 0 \<le> k \<and> k < int (length (jn_entries j)) \<and> ID (at (jn_entries j) k) = i"
  unfolding ordinal_indexed [OF assms]
  by (rule ids_map_Some) (use assms in \<open>simp add: indexed_def Let_def\<close>)

section \<open>The shape of an operation\<close>

text \<open>
  What an operation does to the repository of a thread, step by step. \<open>P\<close> says which entry may
  be appended to which journal; its identity must be new.
\<close>

inductive grows :: "store_env \<Rightarrow> string \<Rightarrow> (entry list \<Rightarrow> entry \<Rightarrow> bool) \<Rightarrow> repo \<Rightarrow> repo \<Rightarrow> bool"
  for env t P r where
  grows_refl: "grows env t P r r"
| grows_built: "grows env t P r r' \<Longrightarrow> built env (rp_journal r' t) j \<Longrightarrow> grows env t P r (setJournal t j r')"
| grows_thread: "grows env t P r r' \<Longrightarrow> thread r t \<noteq> None \<Longrightarrow> tm_ID m = t \<Longrightarrow> grows env t P r (setThread t m r')"
| grows_provider: "grows env t P r r' \<Longrightarrow> grows env t P r (setProviderState t p r')"
| grows_no_provider: "grows env t P r r' \<Longrightarrow> grows env t P r (deleteProviderState t r')"
| grows_seq: "grows env t P r r' \<Longrightarrow> rp_seq r' \<le> n \<Longrightarrow> grows env t P r (r'\<lparr>rp_seq := n\<rparr>)"
| grows_entry: "grows env t P r r' \<Longrightarrow> ThreadID e = t \<Longrightarrow> ID e \<noteq> '''' \<Longrightarrow>
    ID e \<notin> ID ` set (jn_entries (rp_journal r' t)) \<Longrightarrow> P (jn_entries (rp_journal r' t)) e \<Longrightarrow>
    grows env t P r (setJournal t (appendIndexedEntries env [e] (rp_journal r' t)) r')"

abbreviation log :: "repo \<Rightarrow> string \<Rightarrow> entry list" where
  "log r t \<equiv> jn_entries (rp_journal r t)"

lemma appended_log: "\<exists>d. jn_entries (appendIndexedEntries env [e] j) = jn_entries j @ [e\<lparr>PathDepth := d\<rparr>]"
  by (simp add: appended_entries stored_copy_def) blast

lemma built_log: "built env j k \<Longrightarrow> jn_entries k = jn_entries j"
  by (drule built_caught_up) (simp add: caught_up_def)

lemma repo_frame [simp]:
  "rp_journal (setThread k m r) = rp_journal r" "rp_journal (setProviderState k p r) = rp_journal r"
  "rp_journal (deleteProviderState k r) = rp_journal r"
  "rp_seq (setThread k m r) = rp_seq r" "rp_seq (setProviderState k p r) = rp_seq r"
  "rp_seq (deleteProviderState k r) = rp_seq r" "rp_seq (setJournal k j r) = rp_seq r"
  "thread (r\<lparr>rp_seq := n\<rparr>) = thread r" "thread (setJournal k j r) = thread r"
  by (simp_all add: setThread_def setProviderState_def deleteProviderState_def setJournal_def thread_def fun_eq_iff)

lemma setJournal_other [simp]: "rp_journal (setJournal k j r) i = (if i = k then j else rp_journal r i)"
  by (simp add: setJournal_def)

lemma grows_live: "grows env t P r r' \<Longrightarrow> thread r' t \<noteq> None \<longleftrightarrow> thread r t \<noteq> None"
  by (induction rule: grows.induct) (simp_all add: repo_simps)

lemma grows_trans: "grows env t P r2 r3 \<Longrightarrow> grows env t P r1 r2 \<Longrightarrow> grows env t P r1 r3"
proof (induction rule: grows.induct)
  case (grows_thread r' m)
  then show ?case using grows.grows_thread [of env t P r1 r' m] grows_live [of env t P r1 r2] by blast
qed (simp_all add: grows.intros)

lemma grows_mono: "grows env t P r r' \<Longrightarrow> (\<And>es e. P es e \<Longrightarrow> Q es e) \<Longrightarrow> grows env t Q r r'"
  by (induction rule: grows.induct) (auto intro: grows.intros)

lemma grows_indexed: "grows env t P r r' \<Longrightarrow> repo_indexed env r \<Longrightarrow> repo_indexed env r'"
proof (induction rule: grows.induct)
  case (grows_entry r' e)
  then show ?case using append_indexed_repo [of env r' e] by simp
qed (simp_all add: repo_indexed_built repo_indexed_seq)

lemma grows_keyed: "grows env t P r r' \<Longrightarrow> (\<And>k m. thread r k = Some m \<Longrightarrow> tm_ID m = k) \<Longrightarrow> thread r' k = Some m \<Longrightarrow> tm_ID m = k"
proof (induction arbitrary: k m rule: grows.induct)
  case (grows_thread r' m')
  then show ?case by (cases "k = t") (simp_all add: repo_simps)
qed (auto simp: repo_simps)

lemma grows_other: "grows env t P r r' \<Longrightarrow> k \<noteq> t \<Longrightarrow> rp_journal r' k = rp_journal r k"
  by (induction rule: grows.induct) simp_all

lemma grows_inv:
  assumes "grows env t P r r'" "J (log r t)" "\<And>es e d. J es \<Longrightarrow> P es e \<Longrightarrow> J (es @ [e\<lparr>PathDepth := d\<rparr>])"
  shows "J (log r' t)"
  using assms(1)
proof (induction rule: grows.induct)
  case (grows_entry r' e)
  obtain d where "jn_entries (appendIndexedEntries env [e] (rp_journal r' t)) = log r' t @ [e\<lparr>PathDepth := d\<rparr>]"
    using appended_log by blast
  then show ?case using assms(3) [OF grows_entry.IH grows_entry.hyps(5), of d] by simp
qed (use assms(2) in \<open>simp_all add: built_log\<close>)

lemma grows_longer: "grows env t P r r' \<Longrightarrow> \<exists>new. log r' t = log r t @ new"
  by (erule grows_inv [where J = "\<lambda>es. \<exists>new. es = log r t @ new"]) auto

lemma grows_names:
  assumes "grows env t P r r'" "\<And>es e. P es e \<Longrightarrow> N (ID e)"
  shows "i \<in> ID ` set (log r' t) \<Longrightarrow> i \<in> ID ` set (log r t) \<or> N i"
proof -
  have "i \<in> ID ` set (log r' t) \<longrightarrow> i \<in> ID ` set (log r t) \<or> N i"
    by (rule grows_inv [OF assms(1), where J = "\<lambda>es. i \<in> ID ` set es \<longrightarrow> i \<in> ID ` set (log r t) \<or> N i"])
      (use assms(2) in auto)
  then show "i \<in> ID ` set (log r' t) \<Longrightarrow> i \<in> ID ` set (log r t) \<or> N i" by blast
qed

lemma grows_touched:
  assumes g: "grows env t P r r'" and i: "repo_indexed env r"
  shows "within (rp_journal r t) (rp_journal r' t)
     \<and> (\<forall>k. k \<noteq> t \<longrightarrow> rp_journal r' k = rp_journal r k \<and> rp_providerStates r' k = rp_providerStates r k)
     \<and> (if thread r t = None then rp_threads r' = rp_threads r else \<exists>m. rp_threads r' = AList.update t m (rp_threads r))
     \<and> rp_todos r' = rp_todos r \<and> rp_tombstones r' = rp_tombstones r \<and> rp_artifacts r' = rp_artifacts r"
  using g
proof (induction rule: grows.induct)
  case grows_refl
  have "journal_ok (rp_journal r t)" using i indexed_ok by (auto simp: repo_indexed_def)
  then show ?case by (auto simp: within_refl thread_def dest: update_same [symmetric])
next
  case (grows_built r' j)
  then show ?case using built_caught_up [OF grows_built.hyps(2)] by (auto simp: setJournal_def caught_up_def)
next
  case (grows_thread r' m)
  obtain m0 where m0: "rp_threads r' = AList.update t m0 (rp_threads r)" using grows_thread by auto
  have "rp_threads (setThread t m r') = AList.update t m (rp_threads r)"
    by (simp add: setThread_def m0 update_update)
  then show ?case using grows_thread.IH grows_thread.hyps(2) by (auto simp: setThread_def)
next
  case (grows_entry r' e)
  have "indexed env t (rp_journal r' t)" using grows_indexed [OF grows_entry.hyps(1) i] by (simp add: repo_indexed_def)
  then have "ordinal_of (rp_journal r' t) (ID e) = None" using indexed_fresh grows_entry.hyps(4) by blast
  then show ?case using append_one grows_entry.IH by (simp add: setJournal_def)
qed (auto simp: setProviderState_def deleteProviderState_def)

text \<open>So a checkpoint taken before undoes all of it.\<close>

lemma grows_undone:
  assumes g: "grows env t P r r'" and i: "repo_indexed env r"
  shows "restore_checkpoint (checkpointJournalAppend r t) r' = r"
proof -
  have ok: "journal_ok (rp_journal r t)" using i indexed_ok by (auto simp: repo_indexed_def)
  note w = grows_touched [OF g i]
  show ?thesis
  proof (cases "thread r t")
    case (Some m)
    then have "touched t r r'" using w by (simp add: touched_def)
    then show ?thesis using rollback_touched [OF ok _] Some by simp
  next
    case None
    have "(rp_journal r')(t := rp_journal r t) = rp_journal r"
      "(rp_providerStates r')(t := rp_providerStates r t) = rp_providerStates r"
      using w by (auto simp: fun_eq_iff)
    moreover have "AList.delete t (rp_threads r') = rp_threads r" using w None
      by (simp add: thread_def map_of_eq_None_iff)
    ultimately show ?thesis
      using w None undo_within [OF ok conjunct1 [OF w]]
      by (cases "rp_providerStates r t"; cases r)
        (auto simp: restore_checkpoint_def checkpointJournalAppend_def Let_def thread_def
          setJournal_def deleteThread_def setProviderState_def deleteProviderState_def)
  qed
qed

section \<open>The steps operations are made of\<close>

definition repo_ok :: "store_env \<Rightarrow> repo \<Rightarrow> bool" where
  "repo_ok env r \<longleftrightarrow> repo_indexed env r \<and> (\<forall>k m. thread r k = Some m \<longrightarrow> tm_ID m = k)"

lemma repo_ok_indexed: "repo_ok env r \<Longrightarrow> indexed env t (rp_journal r t)"
  by (simp add: repo_ok_def repo_indexed_def)

lemma grows_ok: "grows env t P r r' \<Longrightarrow> repo_ok env r \<Longrightarrow> repo_ok env r'"
  using grows_indexed [of env t P r r'] grows_keyed [of env t P r r'] unfolding repo_ok_def by blast

lemma ensured_grows: "grows env t P r (ensured t r)"
  unfolding ensured_def by (rule grows_built [OF grows_refl built_step(1)])

lemma read_grows: "grows env t P r (fst (canonicalPath ctx (ValidateEntryIntegrity env) r t leaf))"
  using read_built [of ctx env r t leaf] grows_built [OF grows_refl] grows_refl by metis

lemma observed_grows: "ThreadID e = t \<Longrightarrow> grows env t P r (fst (check_observed ctx env r e))"
  using observed_built [of ctx env r e] grows_built [OF grows_refl] grows_refl by metis

text \<open>What an appended fact keeps of the entry it was made from.\<close>

definition kept_of :: "entry \<Rightarrow> entry \<Rightarrow> bool" where
  "kept_of e x \<longleftrightarrow> Type x = Type e \<and> ThreadID x = ThreadID e \<and> TurnID x = TurnID e \<and> RunID x = RunID e
     \<and> TurnStatus x = TurnStatus e \<and> RequestKey x = RequestKey e \<and> RequestFingerprint x = RequestFingerprint e
     \<and> Payload x = Payload e \<and> Error x = Error e
     \<and> (Type e \<noteq> EntryAssistantMessage \<longrightarrow> Type e \<noteq> EntryToolCall \<longrightarrow> Message x = Message e)
     \<and> (\<not> turn_started e \<longrightarrow> Metadata x = Metadata e)"

definition wanted_id :: "append_options \<Rightarrow> entry \<Rightarrow> string" where
  "wanted_id opts e = (if ao_ID opts \<noteq> '''' then ao_ID opts else ID e)"

definition named :: "string \<Rightarrow> append_options \<Rightarrow> entry \<Rightarrow> entry \<Rightarrow> bool" where
  "named t opts e x \<longleftrightarrow>
     (if wanted_id opts e = '''' then \<exists>n. ID x = generated_entry_id t n else ID x = wanted_id opts e)"

lemma admit_result:
  assumes "admit_fact env allow j e = (j', Inr x)"
  shows "x = e \<or> turn_started e \<and> (\<exists>v. x = e\<lparr>Metadata := v\<rparr>)"
  using assms unfolding admit_fact_def Let_def by (simp split: if_splits option.splits) blast+

lemma admit_kept: "admit_fact env allow j e = (j', Inr x) \<Longrightarrow> kept_of e x"
  by (drule admit_result) (auto simp: kept_of_def)

lemma last_branch:
  "(if a then (k, Inl p) else if b then (k, Inl q) else if c then (l, Inl u) else (l, Inr y)) = (n, Inr x) \<Longrightarrow> x = y"
  by (simp split: if_splits)

lemma place_result:
  assumes "place_fact env opts meta j seq e = (n, Inr x)"
  shows "\<exists>i p c d. x = e\<lparr>ID := i, ParentID := p, CreatedAt := c, PathDepth := d\<rparr>"
  using last_branch [OF assms [unfolded place_fact_def Let_def]] by blast

lemma place_kept: "place_fact env opts meta j seq e = (n, Inr x) \<Longrightarrow> kept_of e x"
  by (drule place_result) (auto simp: kept_of_def)

lemma sealed_kept: "kept_of e (sealed_entry env (admitOutputSources env e))"
  by (simp add: admitOutputSources_def sealed_entry_def kept_of_def Let_def)

lemma kept_trans: "kept_of a b \<Longrightarrow> kept_of b c \<Longrightarrow> kept_of a c"
  by (auto simp: kept_of_def turn_started_def)

lemma next_named: "\<exists>n. snd (nextEntryID j t seq) = generated_entry_id t n"
  using fresh_id_name [of "length (jn_entries j)" "\<lambda>i. ordinal_of j i \<noteq> None" "generated_entry_id t" seq]
  by (auto simp: nextEntryID_def)

lemma place_named:
  assumes "place_fact env opts meta j seq e = (n, Inr x)"
  shows "named (ThreadID e) opts e x"
proof (cases "wanted_id opts e = ''''")
  case True
  then have "ID x = snd (nextEntryID j (ThreadID e) seq)"
    using place_fact_Inr [OF assms] unfolding wanted_id_def [symmetric] by simp
  then show ?thesis using True next_named [of j "ThreadID e" seq] by (simp add: named_def)
next
  case False
  then show ?thesis using place_fact_Inr [OF assms] unfolding wanted_id_def [symmetric] by (simp add: named_def)
qed

lemma append_grows:
  assumes ok: "repo_ok env r" and t: "ThreadID e = t"
    and P: "\<And>x. kept_of e x \<Longrightarrow> named t opts e x \<Longrightarrow> P (log r t) x"
  shows "grows env t P r (fst (appendFact ctx env r e opts allow))
    \<and> (case snd (appendFact ctx env r e opts allow) of
         Inl err \<Rightarrow> log (fst (appendFact ctx env r e opts allow)) t = log r t
       | Inr x \<Rightarrow> kept_of e x \<and> named t opts e x
           \<and> (\<exists>d. log (fst (appendFact ctx env r e opts allow)) t = log r t @ [x\<lparr>PathDepth := d\<rparr>])
           \<and> (\<exists>m. thread (fst (appendFact ctx env r e opts allow)) t = Some m \<and> tm_LeafID m = ID x))"
  using t
proof (cases rule: appendFact_cases [where ctx = ctx and env = env and r = r and opts = opts and allow = allow])
  case (refused err)
  then show ?thesis by (simp add: grows_refl)
next
  case (rejected j1 err)
  then show ?thesis using grows_built [OF grows_refl] built_log by auto
next
  case (unplaced j1 s err)
  then show ?thesis using grows_seq [OF grows_built [OF grows_refl]] built_log by auto
next
  case (placed meta j1 j2 e1 e2 s)
  let ?r2 = "(setJournal t j2 r)\<lparr>rp_seq := s\<rparr>" and ?x = "sealed_entry env (admitOutputSources env e2)"
  have k: "kept_of e ?x"
    using admit_kept [OF placed(3)] place_kept [OF placed(4)] sealed_kept kept_trans by blast
  have "ID e1 = ID e" by (rule admit_fact_ID [OF placed(3)])
  then have n: "named t opts e ?x"
  proof -
    have "wanted_id opts e1 = wanted_id opts e" using \<open>ID e1 = ID e\<close> by (simp only: wanted_id_def)
    moreover have "ID ?x = ID e2" by simp
    moreover have "named t opts e1 e2" using place_named [OF placed(4)] admit_fact_thread [OF placed(3)] t by simp
    ultimately show ?thesis by (simp only: named_def)
  qed
  have r: "repo_indexed env r" using ok by (simp add: repo_ok_def)
  have j1: "indexed env t j1" using r placed(10) by (auto simp: repo_indexed_def intro: built_indexed)
  have "0 \<le> rp_seq r" using r by (simp add: repo_indexed_def)
  note new = place_fact_ID [OF placed(4) j1 this]
  have g2: "grows env t P r ?r2"
    by (rule grows_seq [OF grows_built [OF grows_refl placed(11)]]) (use new(3) in simp)
  obtain r3 v where c: "check_observed ctx env ?r2 (admitOutputSources env e2) = (r3, v)" by fastforce
  have tx: "ThreadID (admitOutputSources env e2) = t" using placed(5) by simp
  have g3: "grows env t P r r3"
    using grows_trans [OF observed_grows [OF tx, of env P ?r2 ctx] g2] c by simp
  have es3: "log r3 t = log r t"
  proof -
    have "r3 = ?r2 \<or> (\<exists>j. r3 = setJournal t j ?r2 \<and> built env (rp_journal ?r2 t) j)"
      using observed_built [of ctx env ?r2 "admitOutputSources env e2"] c tx by auto
    then show ?thesis using built_log [OF placed(11)] built_log by auto
  qed
  have j1es: "jn_entries j1 = log r t" by (rule built_log [OF placed(10)])
  show ?thesis
  proof (cases v)
    case None
    have g4: "grows env t P r (setJournal t (appendIndexedEntries env [?x] (rp_journal r3 t)) r3)"
      by (rule grows_entry [OF g3]) (use new placed(5) es3 j1es P [OF k n] in auto)
    have live: "thread r t \<noteq> None" using placed(1) by simp
    have m: "tm_ID meta = t" using ok placed(1) by (simp add: repo_ok_def)
    have "grows env t P r (commit_fact env meta r3 ?x)"
      using grows_thread [OF g4 live, of "meta\<lparr>tm_LeafID := ID ?x, tm_UpdatedAt := CreatedAt ?x\<rparr>"] m placed(5)
      by (simp add: commit_fact_def)
    moreover have "\<exists>d. log (commit_fact env meta r3 ?x) t = log r t @ [?x\<lparr>PathDepth := d\<rparr>]"
      using appended_log [of env ?x "rp_journal r3 t"] es3 placed(5) by (simp add: commit_fact_def)
    moreover have "\<exists>m. thread (commit_fact env meta r3 ?x) t = Some m \<and> tm_LeafID m = ID ?x"
      using placed(5) by (simp add: commit_fact_def repo_simps)
    ultimately show ?thesis using placed(9) c None k n by simp
  next
    case (Some err)
    then show ?thesis using placed(9) c g3 es3 by simp
  qed
qed

lemma put_grows:
  assumes "ThreadID e = t" "ID e \<noteq> ''''" "ID e \<notin> ID ` set (log r t)" "P (log r t) e"
  shows "grows (tv_store env) t P r (put_entry env t e r)"
  unfolding put_entry_def using assms by (intro grows_entry [OF grows_refl]) auto

lemma put_log: "\<exists>d. log (put_entry env t e r) t = log r t @ [e\<lparr>PathDepth := d\<rparr>]"
  using appended_log [of "tv_store env" e "rp_journal r t"] by (simp add: put_entry_def)

lemma commit_at_grows:
  assumes "tm_ID meta = t" "thread r t \<noteq> None" "ThreadID e = t" "ID e \<noteq> ''''" "ID e \<notin> ID ` set (log r t)"
    "P (log r t) e"
  shows "grows env t P r (commit_at env meta r e)"
  unfolding commit_at_def assms(1)
  using assms by (intro grows_thread [OF grows_entry [OF grows_refl]]) auto

lemma commit_at_log: "tm_ID meta = t \<Longrightarrow> \<exists>d. log (commit_at env meta r e) t = log r t @ [e\<lparr>PathDepth := d\<rparr>]"
  using appended_log [of env e "rp_journal r t"] by (simp add: commit_at_def)

end
