(* ===== verification/TurnSteps.thy ===== *)
theory TurnSteps
  imports TurnOrder
begin

text \<open>
  Every operation on turns has the shape of TurnOrder: with new identities it only appends, and
  the markers it appends keep the order of the turns.
\<close>

section \<open>The order of turns\<close>

fun turn_allowed :: "turn_status option \<Rightarrow> turn_status \<Rightarrow> bool" where
  "turn_allowed None s = (s = TurnStarted)"
| "turn_allowed (Some p) s = (opens p \<and> (s = TurnSavePoint \<or> s = TurnWaiting \<or> terminalTurnMarker s))"

text \<open>
  The markers of every turn start with one start and end with at most one terminal, a turn is open
  exactly between them, at most one turn is open, and a start is named after its turn.
\<close>

definition orderly :: "entry list \<Rightarrow> bool" where
  "orderly es \<longleftrightarrow> (\<forall>turn. follows turn_allowed None (turn_marks turn es))
     \<and> (\<forall>turn. turn \<in> set (open_turns es) \<longleftrightarrow> (\<exists>s. last_state None (turn_marks turn es) = Some s \<and> opens s))
     \<and> length (open_turns es) \<le> 1
     \<and> (\<forall>e \<in> set es. turn_mark e \<longrightarrow> TurnStatus e = TurnStarted \<longrightarrow> ID e = runtimeTurnStartedEntryID (TurnID e))"

definition mark_ok :: "entry list \<Rightarrow> entry \<Rightarrow> bool" where
  "mark_ok es e \<longleftrightarrow> \<not> turn_mark e
     \<or> TurnStatus e = TurnStarted \<and> turn_marks (TurnID e) es = [] \<and> open_turns es = []
       \<and> ID e = runtimeTurnStartedEntryID (TurnID e)
     \<or> (TurnStatus e = TurnSavePoint \<or> TurnStatus e = TurnWaiting \<or> terminalTurnMarker (TurnStatus e))
       \<and> open_turns es = [TurnID e]"

lemma orderly_Nil: "orderly []"
  by (simp add: orderly_def)

lemma opens_terminal: "opens s \<Longrightarrow> \<not> terminalTurnMarker s"
  by (auto simp: opens_def terminalTurnMarker_def)

lemma orderly_mark:
  assumes o: "orderly es" and t: "turn_mark e"
    and allowed: "turn_allowed (last_state None (turn_marks (TurnID e) es)) (TurnStatus e)"
    and new: "open_turns (es @ [e]) = (if opens (TurnStatus e) then [TurnID e] else [])"
    and old: "set (open_turns es) \<subseteq> {TurnID e}"
    and start: "TurnStatus e = TurnStarted \<Longrightarrow> ID e = runtimeTurnStartedEntryID (TurnID e)"
  shows "orderly (es @ [e])"
  unfolding orderly_def
proof (intro conjI allI ballI impI)
  note l = o [unfolded orderly_def]
  have marks: "turn_marks turn (es @ [e]) = turn_marks turn es @ (if turn = TurnID e then [TurnStatus e] else [])" for turn
    using t by (simp add: turn_marks_snoc)
  fix turn
  show "follows turn_allowed None (turn_marks turn (es @ [e]))" using l allowed by (simp add: marks)
  show "(turn \<in> set (open_turns (es @ [e]))) = (\<exists>s. last_state None (turn_marks turn (es @ [e])) = Some s \<and> opens s)"
  proof (cases "turn = TurnID e")
    case False
    then have "turn \<notin> set (open_turns es)" "turn \<notin> set (open_turns (es @ [e]))" using old new by auto
    then show ?thesis using l False by (simp add: marks)
  qed (simp add: marks new)
  show "length (open_turns (es @ [e])) \<le> 1" by (simp add: new)
  fix x assume "x \<in> set (es @ [e])" "turn_mark x" "TurnStatus x = TurnStarted"
  then show "ID x = runtimeTurnStartedEntryID (TurnID x)" using l start by auto
qed

lemma orderly_snoc:
  assumes o: "orderly es" and m: "mark_ok es e"
  shows "orderly (es @ [e])"
proof (cases "turn_mark e")
  case False
  then show ?thesis using o by (simp add: orderly_def open_turns_snoc turn_marks_snoc)
next
  case True
  show ?thesis
  proof (cases "TurnStatus e = TurnStarted")
    case start: True
    then have n: "turn_marks (TurnID e) es = []" "open_turns es = []" "ID e = runtimeTurnStartedEntryID (TurnID e)"
      using m True by (auto simp: mark_ok_def terminalTurnMarker_def)
    then show ?thesis using start by (intro orderly_mark [OF o True]) (simp_all add: open_turns_snoc True opens_def)
  next
    case False
    then have s: "TurnStatus e = TurnSavePoint \<or> TurnStatus e = TurnWaiting \<or> terminalTurnMarker (TurnStatus e)"
      and p: "open_turns es = [TurnID e]"
      using m True by (auto simp: mark_ok_def)
    have "TurnID e \<in> set (open_turns es)" by (simp add: p)
    then obtain q where "last_state None (turn_marks (TurnID e) es) = Some q" "opens q"
      using o unfolding orderly_def by blast
    then have "turn_allowed (last_state None (turn_marks (TurnID e) es)) (TurnStatus e)" using s by simp
    then show ?thesis using False s p
      by (intro orderly_mark [OF o True]) (auto simp: open_turns_snoc True opens_def terminalTurnMarker_def)
  qed
qed

lemma depth_irrelevant [simp]:
  "turn_mark (e\<lparr>PathDepth := d\<rparr>) = turn_mark e" "mark_ok es (e\<lparr>PathDepth := d\<rparr>) = mark_ok es e"
  by (simp_all add: turn_mark_def mark_ok_def)

lemma grows_orderly:
  "grows env t P r r' \<Longrightarrow> (\<And>es e. P es e \<Longrightarrow> mark_ok es e) \<Longrightarrow> orderly (log r t) \<Longrightarrow> orderly (log r' t)"
  by (erule grows_inv) (auto intro: orderly_snoc)

lemma unmarked_open:
  assumes "grows env t P r r'" "\<And>es e. P es e \<Longrightarrow> \<not> turn_mark e"
  shows "open_turns (log r' t) = open_turns (log r t)" "turn_marks turn (log r' t) = turn_marks turn (log r t)"
proof -
  show "open_turns (log r' t) = open_turns (log r t)"
    by (rule grows_inv [OF assms(1), where J = "\<lambda>es. open_turns es = open_turns (log r t)"])
      (use assms(2) in \<open>auto simp: open_turns_snoc\<close>)
  show "turn_marks turn (log r' t) = turn_marks turn (log r t)"
    by (rule grows_inv [OF assms(1), where J = "\<lambda>es. turn_marks turn es = turn_marks turn (log r t)"])
      (use assms(2) in \<open>auto simp: turn_marks_snoc\<close>)
qed

section \<open>Names\<close>

text \<open>
  The prefixes the operations name entries with. Callers name terminal entries \<open>terminal-\<close> and a hash
  (\<open>harness.go\<close>, \<open>thread_runtime.go\<close>), and so does the failure of a turn whose effects are in doubt; the
  other prefixes are the operations' own.
\<close>

definition reserved_prefixes :: "string list" where
  "reserved_prefixes = [''turn-started:'', ''user:'', ''queue-promoted:'', ''turn-failure:'', ''steer-resolved:'',
     ''interaction-resolved:'', ''effect-attempt:'', ''tool-cancelled:'', ''tool-effect-unknown:'']"

definition internal_prefixes :: "string list" where
  "internal_prefixes = ''terminal-'' # reserved_prefixes"

definition has_prefix :: "string \<Rightarrow> string \<Rightarrow> bool" where
  "has_prefix p i \<longleftrightarrow> take (length p) i = p"

definition internal_name :: "string \<Rightarrow> bool" where
  "internal_name i \<longleftrightarrow> list_ex (\<lambda>p. has_prefix p i) internal_prefixes"

text \<open>A thread whose generated names are not mistaken for internal ones, and a name given by a caller.\<close>

definition plain_thread :: "string \<Rightarrow> bool" where
  "plain_thread t \<longleftrightarrow> trim_space t = t \<and> (\<forall>n. \<not> internal_name (generated_entry_id t n))"

definition caller_name :: "string \<Rightarrow> string \<Rightarrow> bool" where
  "caller_name t i \<longleftrightarrow> i \<noteq> '''' \<and> \<not> list_ex (\<lambda>p. has_prefix p i) reserved_prefixes
     \<and> (\<forall>n. i \<noteq> generated_entry_id t n)"

lemma has_prefix_append [simp]: "has_prefix p (p @ s)"
  by (simp add: has_prefix_def)

lemma has_prefix_iff: "has_prefix p i \<longleftrightarrow> (\<exists>s. i = p @ s)"
  unfolding has_prefix_def by (metis append_eq_conv_conj append_take_drop_id)

lemma prefix_clash: "has_prefix p i \<Longrightarrow> has_prefix q i \<Longrightarrow> take (length q) p = take (length p) q"
  unfolding has_prefix_def by (metis min.commute take_take)

text \<open>The names of terminal entries that callers give are among them.\<close>

lemma terminal_caller_name:
  assumes "plain_thread t"
  shows "caller_name t (''terminal-'' @ s)"
proof -
  have "\<not> has_prefix p (''terminal-'' @ s)" if "p \<in> set reserved_prefixes" for p
    using that prefix_clash [OF has_prefix_append, of p "''terminal-''" s] by (auto simp: reserved_prefixes_def)
  moreover have "''terminal-'' @ s \<noteq> generated_entry_id t n" for n
    using assms has_prefix_append [of "''terminal-''" s]
    unfolding plain_thread_def internal_name_def internal_prefixes_def by fastforce
  ultimately show ?thesis by (auto simp: caller_name_def list_ex_iff)
qed

text \<open>The names that appending while a turn is settled can give.\<close>

definition closing_name :: "string \<Rightarrow> string \<Rightarrow> bool" where
  "closing_name t i \<longleftrightarrow> has_prefix ''interaction-resolved:'' i
     \<or> has_prefix ''effect-attempt:'' i \<or> has_prefix ''tool-cancelled:'' i \<or> has_prefix ''tool-effect-unknown:'' i
     \<or> (\<exists>n. i = generated_entry_id t n)"

definition settle_name :: "string \<Rightarrow> string \<Rightarrow> bool" where
  "settle_name t i \<longleftrightarrow> has_prefix ''steer-resolved:'' i \<or> closing_name t i"

lemma settle_names:
  assumes s: "settle_name t i" and t: "plain_thread t"
  shows "\<not> has_prefix ''turn-failure:'' i" "\<not> has_prefix ''terminal-'' i" "\<not> caller_name t i"
proof -
  have n: "\<not> has_prefix p (generated_entry_id t n)" if "p \<in> set internal_prefixes" for p n
    using t that by (auto simp: plain_thread_def internal_name_def list_ex_iff)
  have c: "\<not> (has_prefix p i \<and> has_prefix q i)" if "take (length q) p \<noteq> take (length p) q" for p q
    using prefix_clash [of p i q] that by auto
  show "\<not> has_prefix ''turn-failure:'' i" "\<not> has_prefix ''terminal-'' i"
    using s n [of "''turn-failure:''"] n [of "''terminal-''"]
      c [of "''steer-resolved:''" "''turn-failure:''"] c [of "''interaction-resolved:''" "''turn-failure:''"]
      c [of "''effect-attempt:''" "''turn-failure:''"] c [of "''tool-cancelled:''" "''turn-failure:''"]
      c [of "''tool-effect-unknown:''" "''turn-failure:''"]
      c [of "''steer-resolved:''" "''terminal-''"] c [of "''interaction-resolved:''" "''terminal-''"]
      c [of "''effect-attempt:''" "''terminal-''"] c [of "''tool-cancelled:''" "''terminal-''"]
      c [of "''tool-effect-unknown:''" "''terminal-''"]
    by (auto simp: settle_name_def closing_name_def internal_prefixes_def reserved_prefixes_def)
  show "\<not> caller_name t i"
    using s by (auto simp: settle_name_def closing_name_def caller_name_def reserved_prefixes_def)
qed

text \<open>What they append: facts that settle something, none that opens anything.\<close>

definition asks_input :: "entry \<Rightarrow> bool" where
  "asks_input e \<longleftrightarrow> Type e = EntryToolResult
     \<and> (case msg_ToolResult (Message e) of None \<Rightarrow> False | Some v \<Rightarrow> tr_InputRequired v \<noteq> None)"

definition settles :: "entry \<Rightarrow> bool" where
  "settles e \<longleftrightarrow> Type e \<in> {EntryInteractionDone, EntryEffectAttempt, EntryToolResult, EntrySteeringCancelled, EntryCustom}
     \<and> \<not> asks_input e"

lemma settles_no_mark: "settles e \<Longrightarrow> \<not> turn_mark e"
  by (auto simp: settles_def turn_mark_def)

lemma settles_depth [simp]: "settles (e\<lparr>PathDepth := d\<rparr>) = settles e"
  by (simp add: settles_def asks_input_def)

lemma settles_kept: "settles e \<Longrightarrow> kept_of e x \<Longrightarrow> settles x"
  by (auto simp: settles_def asks_input_def kept_of_def)

definition settling :: "string \<Rightarrow> entry list \<Rightarrow> entry \<Rightarrow> bool" where
  "settling t es e \<longleftrightarrow> settles e \<and> settle_name t (ID e)"

definition closing :: "string \<Rightarrow> entry list \<Rightarrow> entry \<Rightarrow> bool" where
  "closing t es e \<longleftrightarrow> settles e \<and> closing_name t (ID e)"

lemma closing_settling: "closing t es e \<Longrightarrow> settling t es e"
  by (simp add: closing_def settling_def settle_name_def)

lemma closing_steering:
  assumes s: "closing_name t i" and t: "plain_thread t"
  shows "\<not> has_prefix ''steer-resolved:'' i"
proof -
  have n: "\<not> has_prefix ''steer-resolved:'' (generated_entry_id t n)" for n
    using t by (auto simp: plain_thread_def internal_name_def internal_prefixes_def reserved_prefixes_def)
  have c: "\<not> (has_prefix p i \<and> has_prefix q i)" if "take (length q) p \<noteq> take (length p) q" for p q
    using prefix_clash [of p i q] that by auto
  show ?thesis
    using s n c [of "''interaction-resolved:''" "''steer-resolved:''"] c [of "''effect-attempt:''" "''steer-resolved:''"]
      c [of "''tool-cancelled:''" "''steer-resolved:''"] c [of "''tool-effect-unknown:''" "''steer-resolved:''"]
    by (auto simp: closing_name_def)
qed

section \<open>The steps that settle a turn\<close>

lemma closing_prefix:
  "closing_name t (''interaction-resolved:'' @ i)" "closing_name t (''effect-attempt:'' @ i)"
  "closing_name t (''tool-cancelled:'' @ i)" "closing_name t (''tool-effect-unknown:'' @ i)"
  using has_prefix_append [of "''interaction-resolved:''" i]
    has_prefix_append [of "''effect-attempt:''" i] has_prefix_append [of "''tool-cancelled:''" i]
    has_prefix_append [of "''tool-effect-unknown:''" i]
  unfolding closing_name_def by blast+

lemma settle_prefix: "settle_name t (''steer-resolved:'' @ i)"
  using has_prefix_append [of "''steer-resolved:''" i] unfolding settle_name_def by blast

text \<open>The selection of a turn is its entries.\<close>

lemma select_at: "select_ordinals es t turn p ks = Inr xs \<Longrightarrow> xs = map (at es) ks"
  by (induction es t turn p ks arbitrary: xs rule: select_ordinals.induct) (auto split: if_splits sum.splits)

lemma positions_filter:
  "\<not> blank turn \<Longrightarrow> map (at es) (list_at (index_turns 0 es Map.empty) turn) = filter (\<lambda>e. TurnID e = turn) es
    \<and> (\<forall>k \<in> set (list_at (index_turns 0 es Map.empty) turn). 0 \<le> k \<and> k < int (length es))"
proof (induction es rule: rev_induct)
  case (snoc e es)
  have *: "map (at (es @ [e])) (list_at (index_turns 0 es Map.empty) turn) = filter (\<lambda>e. TurnID e = turn) es"
    using snoc by (simp add: at_grown cong: map_cong)
  have "list_at (push_at k x m) i = (if i = k then list_at m k @ [x] else list_at m i)" for k i and x :: int and m
    by (rule list_at_push)
  then show ?case using snoc * by (auto simp: index_turns_snoc)
qed (simp add: list_at_def)

lemma turn_entries_filter:
  assumes "indexed env t (rp_journal r t)" "\<not> blank turn" "runtimeTurnEntries r t turn = Inr es"
  shows "es = filter (\<lambda>e. TurnID e = turn) (log r t)"
proof -
  have "jn_turnOrdinals (rp_journal r t) = index_turns 0 (log r t) Map.empty"
    using assms(1) by (simp add: indexed_def Let_def)
  then have "es = map (at (log r t)) (list_at (index_turns 0 (log r t) Map.empty) turn)"
    using assms(3) by (auto simp: runtimeTurnEntries_def Let_def split: if_splits dest: select_at)
  then show ?thesis using positions_filter [OF assms(2)] by simp
qed

lemma cancel_steering_grows:
  assumes "tm_ID meta = t" "thread r t \<noteq> None" "distinct (map ID xs)"
    "\<And>x. x \<in> set xs \<Longrightarrow> ''steer-resolved:'' @ ID x \<notin> ID ` set (log r t)"
  shows "grows (tv_store env) t (settling t) r (snd (cancel_steering env turn run reason now xs (meta, r)))
    \<and> tm_ID (fst (cancel_steering env turn run reason now xs (meta, r))) = t"
  using assms
proof (induction xs arbitrary: meta r)
  case (Cons x xs)
  let ?e = "steering_cancelled env meta turn run reason now x"
  let ?r = "commit_at (tv_store env) meta r ?e" and ?m = "meta\<lparr>tm_LeafID := ID ?e, tm_UpdatedAt := now\<rparr>"
  have e: "ID ?e = ''steer-resolved:'' @ ID x" "ThreadID ?e = t" "settles ?e"
    using Cons.prems(1) by (simp_all add: steering_cancelled_def sealed_entry_def settles_def asks_input_def)
  have g: "grows (tv_store env) t (settling t) r ?r"
  proof (rule commit_at_grows [OF Cons.prems(1,2) e(2)])
    show "settling t (log r t) ?e" unfolding settling_def e(1) using e(3) settle_prefix by blast
    show "ID ?e \<notin> ID ` set (log r t)" unfolding e(1) using Cons.prems(4) by simp
    show "ID ?e \<noteq> ''''" by (simp add: e(1))
  qed
  obtain d where d: "log ?r t = log r t @ [?e\<lparr>PathDepth := d\<rparr>]"
    using commit_at_log [OF Cons.prems(1), of "tv_store env" r ?e] by blast
  have "thread ?r t \<noteq> None" using grows_live [OF g] Cons.prems(2) by blast
  moreover have "''steer-resolved:'' @ ID y \<notin> ID ` set (log ?r t)" if "y \<in> set xs" for y
  proof -
    have "ID y \<noteq> ID x" using that Cons.prems(3) by (simp add: image_iff) metis
    moreover have "ID ` set (log ?r t) = insert (ID ?e) (ID ` set (log r t))" by (simp add: d)
    moreover have "''steer-resolved:'' @ ID y \<notin> ID ` set (log r t)" using that Cons.prems(4) by simp
    ultimately show ?thesis unfolding e(1) by simp
  qed
  ultimately have "grows (tv_store env) t (settling t) ?r (snd (cancel_steering env turn run reason now xs (?m, ?r)))
      \<and> tm_ID (fst (cancel_steering env turn run reason now xs (?m, ?r))) = t"
    using Cons.prems by (intro Cons.IH) auto
  then show ?case using grows_trans [OF _ g] by (simp add: Let_def)
qed (simp add: grows_refl)

definition steering_free :: "turn_env \<Rightarrow> entry list \<Rightarrow> string \<Rightarrow> bool" where
  "steering_free env es turn \<longleftrightarrow>
    (\<forall>e \<in> set es. Type e = EntrySteeringRequested \<longrightarrow> TurnID e = turn \<longrightarrow>
       ID e \<notin> set (resolved_steering env (filter (\<lambda>e. TurnID e = turn) es)) \<longrightarrow>
       ''steer-resolved:'' @ ID e \<notin> ID ` set es)"

lemma log_distinct: "repo_ok env r \<Longrightarrow> distinct (map ID (log r t))"
  by (drule repo_ok_indexed [where t = t]) (simp add: indexed_def Let_def)

lemma steering_grows:
  assumes ok: "repo_ok (tv_store env) r0" and m: "tm_ID meta = t" "thread r t \<noteq> None"
    and es: "es = filter (\<lambda>e. TurnID e = turn) (log r0 t)" and free: "steering_free env (log r0 t) turn"
    and new: "\<And>i. i \<in> ID ` set (log r t) \<Longrightarrow> i \<in> ID ` set (log r0 t) \<or> \<not> has_prefix ''steer-resolved:'' i"
  shows "grows (tv_store env) t (settling t) r (snd (cancelPendingSteering env meta es turn run reason now r))
    \<and> tm_ID (fst (cancelPendingSteering env meta es turn run reason now r)) = t"
  unfolding cancelPendingSteering_def
proof (rule cancel_steering_grows [OF m])
  show "distinct (map ID (filter (\<lambda>e. Type e = EntrySteeringRequested \<and> TurnID e = turn
      \<and> ID e \<notin> set (resolved_steering env es)) es))"
    unfolding es by (intro distinct_map_filter log_distinct [OF ok])
  fix x assume "x \<in> set (filter (\<lambda>e. Type e = EntrySteeringRequested \<and> TurnID e = turn
      \<and> ID e \<notin> set (resolved_steering env es)) es)"
  then have "''steer-resolved:'' @ ID x \<notin> ID ` set (log r0 t)" using free by (simp add: es steering_free_def)
  moreover have "has_prefix ''steer-resolved:'' (''steer-resolved:'' @ ID x)" by (rule has_prefix_append)
  ultimately show "''steer-resolved:'' @ ID x \<notin> ID ` set (log r t)" using new by blast
qed

lemma compaction_entry:
  assumes "NewThreadContextCompactionEntry cx c = Inr e"
  shows "Type e = EntryCustom" "ThreadID e = trim_space (tc_ThreadID c)" "ID e = ''''"
  using assms by (auto simp: NewThreadContextCompactionEntry_def zero_entry_def split: sum.splits)

definition generating :: "string \<Rightarrow> entry list \<Rightarrow> entry \<Rightarrow> bool" where
  "generating t es e \<longleftrightarrow> settles e \<and> (\<exists>n. ID e = generated_entry_id t n)"

lemma generating_closing: "generating t es e \<Longrightarrow> closing t es e"
  unfolding generating_def closing_def closing_name_def by blast

lemma compaction_grows:
  assumes ok: "repo_ok (tv_store env) r" and t: "trim_space t = t" and es: "\<And>e. e \<in> set es \<Longrightarrow> ThreadID e = t"
  shows "grows (tv_store env) t (generating t) r
    (fst (settleRunningCompaction ctx env es turn run phase status message now r))"
proof -
  have "grows (tv_store env) t (generating t) r (fst (appendFact ctx (tv_store env) r pending (no_options\<lparr>ao_Now := now\<rparr>) False))"
    if e: "e \<in> set es" "DecodeThreadContextCompactionEntry (tv_context env) e = Inr compact"
      "NewThreadContextCompactionEntry (tv_context env) (compact\<lparr>tc_Phase := phase, tc_Status := status, tc_Error := message, tc_ObservedAt := now\<rparr>)
        = Inr pending" for e compact pending
  proof (rule conjunct1 [OF append_grows [OF ok]])
    have "tc_ThreadID compact = trim_space (ThreadID e)"
      using e(2) by (auto simp: DecodeThreadContextCompactionEntry_def Let_def split: option.splits sum.splits)
    then show "ThreadID pending = t" using compaction_entry [OF e(3)] es [OF e(1)] t by simp
    fix x assume "kept_of pending x" "named t (no_options\<lparr>ao_Now := now\<rparr>) pending x"
    then show "generating t (log r t) x" using compaction_entry [OF e(3)]
      by (auto simp: generating_def kept_of_def settles_def asks_input_def named_def wanted_id_def no_options_def)
  qed
  then show ?thesis
    by (auto simp: settleRunningCompaction_def grows_refl split: option.splits sum.splits prod.splits
        dest!: list_find_Some) (metis fst_conv)+
qed

lemma effect_entry_name: "ID (effectAttemptEntry env att p) = ''effect-attempt:'' @ trim_space (ea_ID att) @ '':'' @ state_text (ea_State att)"
  "ThreadID (effectAttemptEntry env att p) = iv_ThreadID (ea_Invocation att)"
  "Type (effectAttemptEntry env att p) = EntryEffectAttempt"
  by (simp_all add: effectAttemptEntry_def effectAttemptEntryID_def sealed_entry_def)

lemma effect_closing: "closing t es (effectAttemptEntry env att p)"
  unfolding closing_def effect_entry_name(1) using closing_prefix by (auto simp: settles_def asks_input_def effect_entry_name(3))

lemma append_effect_grows:
  assumes m: "tm_ID meta = t" "thread r t \<noteq> None" and a: "iv_ThreadID (ea_Invocation att) = t"
  shows "grows (ee_store env) t (closing t) r (snd (fst (append_effect env att (meta, r))))
    \<and> tm_ID (fst (fst (append_effect env att (meta, r)))) = t"
proof -
  let ?e = "effectAttemptEntry env att (tm_LeafID meta)"
  have "grows (ee_store env) t (closing t) r (commit_at (ee_store env) meta r ?e)" if "findEntry (log r t) (ID ?e) = None"
  proof (rule commit_at_grows [OF m])
    show "ID ?e \<notin> ID ` set (log r t)" using that by (simp add: findEntry_None)
    show "ID ?e \<noteq> ''''" by (simp add: effect_entry_name)
  qed (simp_all add: effect_closing effect_entry_name a)
  then show ?thesis
    using m(1) by (auto simp: append_effect_def appendEffectAttempt_def Let_def grows_refl split: option.splits)
qed

lemma append_effects_grows:
  assumes "tm_ID meta = t" "thread r t \<noteq> None" "\<And>att. att \<in> set atts \<Longrightarrow> iv_ThreadID (ea_Invocation att) = t"
  shows "grows (ee_store env) t (closing t) r (snd (fst (append_effects env atts (meta, r))))"
  using assms
proof (induction atts arbitrary: meta r)
  case (Cons att atts)
  obtain m1 r1 err where a: "append_effect env att (meta, r) = ((m1, r1), err)" by (metis prod.exhaust_sel)
  have g: "grows (ee_store env) t (closing t) r r1" "tm_ID m1 = t"
    using append_effect_grows [OF Cons.prems(1,2), of att env] Cons.prems(3) a by auto
  show ?case
  proof (cases err)
    case None
    have "grows (ee_store env) t (closing t) r1 (snd (fst (append_effects env atts (m1, r1))))"
      using Cons.prems g grows_live [OF g(1)] by (intro Cons.IH) auto
    then show ?thesis using grows_trans [OF _ g(1)] by (simp add: a None)
  qed (use g in \<open>simp add: a\<close>)
qed (simp add: grows_refl)

lemma append_all_grows:
  assumes "repo_ok env r" "\<And>e. e \<in> set es \<Longrightarrow> ThreadID e = t \<and> ID e \<noteq> '''' \<and> closing_name t (ID e) \<and> settles e"
  shows "grows env t (closing t) r (fst (append_all ctx env now es r))
    \<and> (\<forall>saved. snd (append_all ctx env now es r) = Inr saved \<longrightarrow>
        (\<exists>new. log (fst (append_all ctx env now es r)) t = log r t @ new
          \<and> list_all2 (\<lambda>e x. kept_of e x \<and> ID x = ID e) es new))"
  using assms
proof (induction es arbitrary: r)
  case (Cons e es)
  let ?o = "no_options\<lparr>ao_ID := ID e, ao_Now := now\<rparr>"
  have e: "ThreadID e = t" "ID e \<noteq> ''''" "closing_name t (ID e)" "settles e" using Cons.prems(2) by auto
  have n: "ID x = ID e" if "named t ?o e x" for x
    using that e(2) by (simp add: named_def wanted_id_def)
  obtain r1 v where a: "appendFact ctx env r e ?o False = (r1, v)" by fastforce
  have g: "grows env t (closing t) r r1
      \<and> (case v of Inl err \<Rightarrow> log r1 t = log r t
         | Inr x \<Rightarrow> kept_of e x \<and> named t ?o e x \<and> (\<exists>d. log r1 t = log r t @ [x\<lparr>PathDepth := d\<rparr>])
             \<and> (\<exists>m. thread r1 t = Some m \<and> tm_LeafID m = ID x))"
  proof -
    have "closing t (log r t) x" if "kept_of e x" "named t ?o e x" for x
      using that n e settles_kept by (simp add: closing_def)
    then show ?thesis
      using append_grows [where P = "closing t" and e = e and opts = ?o and ctx = ctx and allow = False, OF Cons.prems(1) e(1)]
      unfolding a fst_conv snd_conv by blast
  qed
  show ?case
  proof (cases v)
    case (Inr x)
    have "repo_ok env r1" using g grows_ok Cons.prems(1) by blast
    note IH = Cons.IH [OF this Cons.prems(2)]
    obtain r2 w where b: "append_all ctx env now es r1 = (r2, w)" by fastforce
    have g2: "grows env t (closing t) r r2" using IH b grows_trans g by auto
    show ?thesis
    proof (cases w)
      case w: (Inr rest)
      obtain new where new: "log r2 t = log r1 t @ new" "list_all2 (\<lambda>e x. kept_of e x \<and> ID x = ID e) es new"
        using IH b w by auto
      obtain d where d: "log r1 t = log r t @ [x\<lparr>PathDepth := d\<rparr>]" "kept_of e x" "ID x = ID e" using g Inr n by auto
      then have "kept_of e (x\<lparr>PathDepth := d\<rparr>)" by (simp add: kept_of_def)
      then show ?thesis using g2 a b Inr w new d by (auto intro!: exI [of _ "x\<lparr>PathDepth := d\<rparr> # new"])
    qed (use g2 a b Inr in simp)
  qed (use g a in simp)
qed (simp add: grows_refl)

lemma output_grows:
  assumes "repo_ok env r" "\<And>e. e \<in> set es \<Longrightarrow> ThreadID e = t \<and> \<not> turn_mark e"
  shows "grows env t (\<lambda>_ x. \<not> turn_mark x) r (fst (append_output ctx env now es r))"
  using assms
proof (induction es arbitrary: r)
  case (Cons e es)
  obtain r1 v where a: "appendFact ctx env r e (no_options\<lparr>ao_Now := now\<rparr>) False = (r1, v)" by fastforce
  have g: "grows env t (\<lambda>_ x. \<not> turn_mark x) r r1"
  proof -
    have e: "ThreadID e = t" "\<not> turn_mark e" using Cons.prems(2) by auto
    then have "\<not> turn_mark x" if "kept_of e x" for x using that by (simp add: kept_of_def turn_mark_def)
    then show ?thesis
      using append_grows [where P = "\<lambda>_ x. \<not> turn_mark x" and e = e and opts = "no_options\<lparr>ao_Now := now\<rparr>"
          and ctx = ctx and allow = False, OF Cons.prems(1) e(1)]
      unfolding a by simp
  qed
  have "grows env t (\<lambda>_ x. \<not> turn_mark x) r1 (fst (append_output ctx env now es r1))"
    using Cons.prems grows_ok [OF g] by (intro Cons.IH) auto
  then show ?case using g grows_trans [OF _ g] by (auto simp: a split: sum.splits prod.splits)
qed (simp add: grows_refl)

end
