(* ===== verification/TurnRun.thy ===== *)
theory TurnRun
  imports TurnSteps
begin

text \<open>
  Runs of the operations on turns: the indexes stay those of the entries and the turns of a thread
  stay in order, one after the other.
\<close>

section \<open>Admission\<close>

lemma metadata_found:
  "entryMetadata r t i = Inr (Some e) \<Longrightarrow> ID e = i \<and> ThreadID e = t"
  by (auto simp: entryMetadata_def Let_def split: option.splits if_splits)

lemma metadata_missing:
  "repo_ok env r \<Longrightarrow> entryMetadata r t i = Inr None \<longleftrightarrow> i \<notin> ID ` set (log r t)"
  using indexed_fresh [OF repo_ok_indexed, of env r t i]
  by (auto simp: entryMetadata_def Let_def split: option.splits)

lemma base_leaf_grows:
  "ThreadID started = t \<Longrightarrow> grows (tv_store env) t P r (fst (runtimeAdmissionBaseLeaf env r started pending))"
  using read_grows [of "tv_store env" t P r background]
  by (auto simp: runtimeAdmissionBaseLeaf_def Let_def grows_refl split: option.splits sum.splits prod.splits)
    (metis fst_conv)+

lemma replay_grows:
  assumes "ThreadID started = t" "aq_ThreadID req = t"
  shows "grows (tv_store env) t P r (fst (replayRuntimeTurnAcceptance env r req started userID))"
proof -
  obtain r1 v where b: "runtimeAdmissionBaseLeaf env r started None = (r1, v)" by fastforce
  have "grows (tv_store env) t P r r1" using base_leaf_grows [OF assms(1), of env P r None] b by simp
  then have "grows (tv_store env) t P r r1" "grows (tv_store env) t P r (ensured t r1)"
    using grows_trans [OF ensured_grows] by auto
  then show ?thesis using assms(2) b grows_refl
    by (auto simp: replayRuntimeTurnAcceptance_def Let_def split: sum.splits)
qed

lemma gate_grows: "tm_ID meta = t \<Longrightarrow> grows (tv_store env) t P r (fst (host_work_gate env r meta req))"
  using read_grows [of "tv_store env" t P r background "tm_LeafID meta"]
  by (auto simp: host_work_gate_def Let_def grows_refl split: sum.splits prod.splits)

lemma kind_grows: "tm_ID meta = t \<Longrightarrow> grows (tv_store env) t P r (fst (recorded_kind env r meta req))"
  using read_grows [of "tv_store env" t P r background "tm_LeafID meta"]
  by (auto simp: recorded_kind_def Let_def grows_refl split: sum.splits prod.splits)

lemma idle_marks:
  assumes o: "orderly (jn_entries j)" and j: "indexed env t j"
    and active: "runtimeActiveTurn j \<in> {None, Some turn}"
    and new: "runtimeTurnStartedEntryID turn \<notin> ID ` set (jn_entries j)"
  shows "turn_marks turn (jn_entries j) = []" "open_turns (jn_entries j) = []"
proof -
  let ?es = "jn_entries j"
  note l = o [unfolded orderly_def]
  show m: "turn_marks turn ?es = []"
  proof (rule ccontr)
    assume a: "turn_marks turn ?es \<noteq> []"
    moreover have "follows turn_allowed None (turn_marks turn ?es)" using l by blast
    ultimately have "TurnStarted \<in> set (turn_marks turn ?es)"
      by (cases "turn_marks turn ?es") auto
    then obtain e where "e \<in> set ?es" "turn_mark e" "TurnID e = turn" "TurnStatus e = TurnStarted"
      by (auto simp: turn_marks_def)
    then have "ID e = runtimeTurnStartedEntryID turn" using l by auto
    then show False using new \<open>e \<in> set ?es\<close> by (metis imageI)
  qed
  then have "turn \<notin> set (open_turns ?es)" using l by auto
  moreover have "open_turns ?es = [x] \<Longrightarrow> x = turn" for x
    using active runtimeActive_indexed [OF j, of x] by auto
  moreover have "open_turns ?es = [] \<or> (\<exists>x. open_turns ?es = [x])"
    using l by (cases "open_turns ?es") (auto simp: le_Suc_eq)
  ultimately show "open_turns ?es = []" by auto
qed

text \<open>The names a fresh admission writes without looking are free.\<close>

definition accept_free :: "repo \<Rightarrow> accept_request \<Rightarrow> bool" where
  "accept_free r req \<longleftrightarrow> (let ids = ID ` set (log r (aq_ThreadID req)) in
     runtimeTurnStartedEntryID (aq_TurnID req) \<notin> ids \<longrightarrow> open_turns (log r (aq_ThreadID req)) = [] \<longrightarrow>
     (brings_input req \<longrightarrow> runtimeUserEntryID (aq_LogicalRequestID req) \<notin> ids)
   \<and> (aq_PromotedQueueID req \<noteq> '''' \<longrightarrow> ''queue-promoted:'' @ aq_PromotedQueueID req \<notin> ids))"

lemma promotion_entry:
  assumes "promotion env r meta req now = Inr p"
  shows "(p = None \<longleftrightarrow> aq_PromotedQueueID req = '''') \<and> (\<forall>e. p = Some e \<longrightarrow>
    ID e = ''queue-promoted:'' @ aq_PromotedQueueID req \<and> ThreadID e = tm_ID meta \<and> Type e = EntryQueuePromoted)"
  using assms by (auto simp: promotion_def Let_def sealed_entry_def split: if_splits)

lemma started_simps:
  "ID (started_entry env meta req p kind now) = runtimeTurnStartedEntryID (aq_TurnID req)"
  "ThreadID (started_entry env meta req p kind now) = tm_ID meta"
  "TurnID (started_entry env meta req p kind now) = aq_TurnID req"
  "TurnStatus (started_entry env meta req p kind now) = TurnStarted"
  "Type (started_entry env meta req p kind now) = EntryTurnMarker"
  by (simp_all add: started_entry_def sealed_entry_def)

lemma user_simps:
  "ID (user_entry env meta req now) = runtimeUserEntryID (aq_LogicalRequestID req)"
  "ThreadID (user_entry env meta req now) = tm_ID meta"
  "Type (user_entry env meta req now) = EntryUserMessage"
  by (simp_all add: user_entry_def sealed_entry_def)

lemma fallback_keeps_ID: "installFallbackThreadTitle m msg now = Inr (m', b) \<Longrightarrow> tm_ID m' = tm_ID m"
  by (auto simp: installFallbackThreadTitle_def Let_def split: if_splits title_status.splits)

lemma commit_acceptance_grows:
  assumes t: "tm_ID meta = t" "thread r t \<noteq> None"
    and p: "\<And>e. promoted = Some e \<Longrightarrow> ID e = ''queue-promoted:'' @ aq_PromotedQueueID req \<and> ThreadID e = t
      \<and> Type e = EntryQueuePromoted \<and> ID e \<notin> ID ` set (log r t)"
    and started: "started = started_entry env meta req parentID kind now0"
      "runtimeTurnStartedEntryID (aq_TurnID req) \<notin> ID ` set (log r t)"
    and u: "brings_input req \<Longrightarrow> runtimeUserEntryID (aq_LogicalRequestID req) \<notin> ID ` set (log r t)"
    and idle: "turn_marks (aq_TurnID req) (log r t) = []" "open_turns (log r t) = []"
  shows "grows (tv_store env) t mark_ok r (fst (commit_acceptance env r meta req promoted started base now))"
proof -
  define r1 where "r1 = (case promoted of None \<Rightarrow> r | Some e \<Rightarrow> put_entry env t e r)"
  define r2 where "r2 = put_entry env t started r1"
  define user where "user = user_entry env meta req now"
  define r3 where "r3 = (if brings_input req then put_entry env t user r2 else r2)"
  have unmarked: "\<not> turn_mark e" if "promoted = Some e" for e using p [OF that] by (simp add: turn_mark_def)
  have g1: "grows (tv_store env) t mark_ok r r1"
    using p unmarked unfolding r1_def
    by (cases promoted) (auto simp: mark_ok_def intro: grows_refl put_grows)
  have es1: "turn_marks turn (log r1 t) = turn_marks turn (log r t) \<and> open_turns (log r1 t) = open_turns (log r t)
      \<and> ID ` set (log r1 t) = ID ` set (log r t) \<union> ID ` set_option promoted" for turn
  proof (cases promoted)
    case (Some e)
    obtain d where "log (put_entry env t e r) t = log r t @ [e\<lparr>PathDepth := d\<rparr>]" using put_log by blast
    then show ?thesis using unmarked [OF Some] by (simp add: r1_def Some turn_marks_snoc open_turns_snoc)
  qed (simp add: r1_def)
  have new_started: "ID started \<notin> ID ` set (log r1 t)"
    using es1 started p by (auto simp: started_simps runtimeTurnStartedEntryID_def)
  have g2: "grows (tv_store env) t mark_ok r1 r2" unfolding r2_def
  proof (rule put_grows [OF _ _ new_started])
    show "mark_ok (log r1 t) started" using es1 idle
      by (simp add: mark_ok_def started(1) started_simps)
  qed (simp_all add: started(1) started_simps t runtimeTurnStartedEntryID_def)
  obtain d2 where d2: "log r2 t = log r1 t @ [started\<lparr>PathDepth := d2\<rparr>]" using put_log r2_def by blast
  have g3: "grows (tv_store env) t mark_ok r2 r3"
  proof (cases "brings_input req")
    case True
    have "ID user \<notin> ID ` set (log r2 t)"
      using u [OF True] es1 p started(1) d2
      by (auto simp: user_def user_simps started_simps runtimeTurnStartedEntryID_def runtimeUserEntryID_def)
    then show ?thesis unfolding r3_def using True
      by (auto intro!: put_grows simp: user_def user_simps t runtimeUserEntryID_def mark_ok_def turn_mark_def)
  qed (simp add: r3_def grows_refl)
  have g: "grows (tv_store env) t mark_ok r r3" by (rule grows_trans [OF g3 grows_trans [OF g2 g1]])
  then have "grows (tv_store env) t mark_ok r (setThread t m r3)" if "tm_ID m = t" for m
    using grows_thread [OF g t(2)] that by blast
  then show ?thesis using g t(1) unfolding commit_acceptance_def r3_def r2_def r1_def user_def
    by (auto simp: Let_def dest!: fallback_keeps_ID split: sum.splits prod.splits option.splits)
qed

lemma accept_fresh_grows:
  assumes ok: "repo_ok (tv_store env) r0" and o: "orderly (log r0 t)" and m: "thread r0 t = Some meta"
    and t: "aq_ThreadID req = t" and free: "accept_free r0 req"
    and new: "runtimeTurnStartedEntryID (aq_TurnID req) \<notin> ID ` set (log r0 t)"
  shows "grows (tv_store env) t mark_ok r0 (fst (accept_fresh env r0 meta req))"
proof -
  let ?s = "tv_store env" and ?N = "\<lambda>_ _. False"
  define r where "r = ensured t r0"
  define now where "now = canonicalTime (tv_effects env) (aq_Now req)"
  have id: "tm_ID meta = t" using ok m by (simp add: repo_ok_def)
  have weaken: "grows ?s t mark_ok r0 q" if "grows ?s t ?N r0 q" for q using grows_mono [OF that] by blast
  have g: "grows ?s t ?N r0 r" unfolding r_def by (rule ensured_grows)
  have j: "indexed ?s t (rp_journal r t)" using grows_ok [OF g ok] by (rule repo_ok_indexed)
  have log_r: "log q t = log r0 t" if "grows ?s t ?N r0 q" for q
    by (rule grows_inv [OF that]) auto
  obtain r1 e1 where g1: "host_work_gate env r meta req = (r1, e1)" by fastforce
  have n1: "grows ?s t ?N r0 r1" using grows_trans [OF gate_grows [OF id] g, of req] g1 by (metis fst_conv)
  obtain r2 k where g2: "recorded_kind env r1 meta req = (r2, k)" by fastforce
  have n2: "grows ?s t ?N r0 r2" using grows_trans [OF kind_grows [OF id] n1, of req] g2 by (metis fst_conv)
  have step: "grows ?s t mark_ok r0 (fst (case runtimeAdmissionBaseLeaf env r2 started promoted of
          (r3, Inl err) \<Rightarrow> (r3, Inl err)
        | (r3, Inr base) \<Rightarrow> commit_acceptance env r3 meta req promoted started base now))"
    if active: "runtimeActiveTurn (rp_journal r t) \<in> {None, Some (aq_TurnID req)}"
      and p: "promotion env r1 meta req now = Inr promoted"
      and s: "started = started_entry env meta req parentID kind now" for promoted started parentID kind
  proof -
    obtain r3 b where b: "runtimeAdmissionBaseLeaf env r2 started promoted = (r3, b)" by fastforce
    have "ThreadID started = t" using s id by (simp add: started_simps)
    from base_leaf_grows [OF this] have "grows ?s t ?N r2 r3" using b by (metis fst_conv)
    from grows_trans [OF this n2] have n3: "grows ?s t ?N r0 r3" .
    have idle: "turn_marks (aq_TurnID req) (log r0 t) = []" "open_turns (log r0 t) = []"
      using idle_marks [OF _ j active] o new log_r [OF g] by auto
    have live: "thread r3 t \<noteq> None" using grows_live [OF n3] m by simp
    have "grows ?s t mark_ok r3 (fst (commit_acceptance env r3 meta req promoted started base now))" for base
    proof (rule commit_acceptance_grows [OF id live _ s])
      fix e assume "promoted = Some e"
      then show "ID e = ''queue-promoted:'' @ aq_PromotedQueueID req \<and> ThreadID e = t
          \<and> Type e = EntryQueuePromoted \<and> ID e \<notin> ID ` set (log r3 t)"
        using promotion_entry [OF p] free new idle id t log_r [OF n3] by (auto simp: accept_free_def Let_def)
    qed (use new idle free t log_r [OF n3] in \<open>auto simp: accept_free_def Let_def\<close>)
    then show ?thesis using b weaken [OF n3] grows_trans [OF _ weaken [OF n3]] by (auto split: sum.splits)
  qed
  show ?thesis
    using weaken [OF g] weaken [OF n1] weaken [OF n2] step g1 g2 id
    unfolding accept_fresh_def Let_def now_def [symmetric] id r_def [symmetric]
    by (auto split: sum.splits option.splits)
qed

lemma acceptTurn_grows:
  assumes ok: "repo_ok (tv_store env) r" and o: "orderly (log r (aq_ThreadID req))" and free: "accept_free r req"
  shows "grows (tv_store env) (aq_ThreadID req) mark_ok r (fst (acceptTurn env r req))"
proof (cases "thread r (aq_ThreadID req)")
  case (Some meta)
  let ?t = "aq_ThreadID req" and ?i = "runtimeTurnStartedEntryID (aq_TurnID req)"
  have id: "tm_ID meta = ?t" using ok Some by (simp add: repo_ok_def)
  have a: "grows (tv_store env) ?t mark_ok r (fst (accept_fresh env r meta req))" if "entryMetadata r ?t ?i = Inr None"
    using accept_fresh_grows [OF ok o Some refl free] metadata_missing [OF ok] that by blast
  have b: "grows (tv_store env) ?t mark_ok r (fst (replayRuntimeTurnAcceptance env r req started u))"
    if "entryMetadata r ?t ?i = Inr (Some started)" for started u
    using replay_grows metadata_found [OF that] by blast
  show ?thesis using a b Some id grows_refl
    by (auto simp: acceptTurn_def split: option.splits sum.splits)
qed (simp add: acceptTurn_def grows_refl)

section \<open>Finishing\<close>

lemma settling_mark: "settling t es e \<Longrightarrow> mark_ok es e"
  by (simp add: settling_def mark_ok_def settles_no_mark)

lemma closes_settles: "grows env t (closing t) r r' \<Longrightarrow> grows env t (settling t) r r'"
  by (erule grows_mono) (rule closing_settling)

lemma settles_mark: "grows env t (settling t) r r' \<Longrightarrow> grows env t mark_ok r r'"
  by (erule grows_mono) (rule settling_mark)

lemma settles_names:
  "grows env t (settling t) r r' \<Longrightarrow> i \<in> ID ` set (log r' t) \<Longrightarrow> i \<in> ID ` set (log r t) \<or> settle_name t i"
  by (erule grows_names) (simp_all add: settling_def)

lemma settles_open: "grows env t (settling t) r r' \<Longrightarrow> open_turns (log r' t) = open_turns (log r t)"
  by (erule unmarked_open) (simp add: settling_def settles_no_mark)

lemma set_update: "set (AList.update k v xs) \<subseteq> insert (k, v) (set xs)"
  by (induction xs) auto

lemma attempts_decoded:
  "att \<in> set (canonicalEffectAttemptsIn env es turn) \<Longrightarrow> \<exists>e \<in> set es. decodeEffectAttempt env e = Inr att"
proof -
  define f where "f = (\<lambda>e latest. if Type e \<noteq> EntryEffectAttempt \<or> TurnID e \<noteq> trim_space turn then latest
       else (case decodeEffectAttempt env e of Inl _ \<Rightarrow> latest | Inr att \<Rightarrow> AList.update (ea_ID att) att latest))"
  have step: "snd ` set (f e xs) \<subseteq> snd ` set xs \<union> {a. decodeEffectAttempt env e = Inr a}" for e xs
    by (auto simp: f_def split: sum.splits dest!: subsetD [OF set_update])
  have "snd ` set (fold f es xs) \<subseteq> snd ` set xs \<union> {a. \<exists>e \<in> set es. decodeEffectAttempt env e = Inr a}" for xs
  proof (induction es arbitrary: xs)
    case (Cons e es)
    show ?case using Cons [of "f e xs"] step [of e xs] by auto
  qed simp
  from this [of "[]"] have "snd ` set (fold f es []) \<subseteq> {a. \<exists>e \<in> set es. decodeEffectAttempt env e = Inr a}" by simp
  moreover have "canonicalEffectAttemptsIn env es turn = map snd (fold f es [])"
    by (simp add: canonicalEffectAttemptsIn_def f_def)
  ultimately show "att \<in> set (canonicalEffectAttemptsIn env es turn) \<Longrightarrow> ?thesis" by auto
qed

lemma decoded_thread: "decodeEffectAttempt env e = Inr att \<Longrightarrow> iv_ThreadID (ea_Invocation att) = ThreadID e"
  by (auto simp: decodeEffectAttempt_def Let_def split: if_splits option.splits)

lemma attempts_thread:
  "(\<And>e. e \<in> set es \<Longrightarrow> ThreadID e = t) \<Longrightarrow> att \<in> set (canonicalEffectAttemptsIn env es turn) \<Longrightarrow>
    iv_ThreadID (ea_Invocation att) = t"
  using attempts_decoded decoded_thread by metis

lemma reanchor_grows: "grows (tv_store env) t P r (reanchorProviderState env t i key now r)"
proof -
  obtain r' v where c: "canonicalPath background (ValidateEntryIntegrity (tv_store env)) r t i = (r', v)" by fastforce
  have "grows (tv_store env) t P r r'" using read_grows [of "tv_store env" t P r background i] c by simp
  then show ?thesis using c
    by (auto simp: reanchorProviderState_def intro: grows_refl grows_provider grows_no_provider split: option.splits sum.splits)
qed

lemma context_only_grows: "grows env t P r (settleContextOnlyProviderState started t turn run i now r)"
  by (auto simp: settleContextOnlyProviderState_def intro: grows_refl grows_provider grows_no_provider split: option.splits)

lemma finish_provider_grows: "grows (tv_store env) t P r (finish_provider env req admission t i now r)"
  by (auto simp: finish_provider_def intro: grows_refl grows_provider reanchor_grows context_only_grows split: option.splits)

lemma terminal_simps:
  "ID (terminal_entry env i t turn run p fp status md now) = i"
  "ThreadID (terminal_entry env i t turn run p fp status md now) = t"
  "TurnID (terminal_entry env i t turn run p fp status md now) = turn"
  "TurnStatus (terminal_entry env i t turn run p fp status md now) = status"
  "Type (terminal_entry env i t turn run p fp status md now) = EntryTurnMarker"
  "ID (failure_entry env t turn run p msg now) = ''turn-failure:'' @ turn"
  "ThreadID (failure_entry env t turn run p msg now) = t"
  "Type (failure_entry env t turn run p msg now) = EntryRunFailure"
  by (simp_all add: terminal_entry_def failure_entry_def sealed_entry_def)

text \<open>Putting a failure and a terminal marker under new names.\<close>

lemma put_end_grows:
  assumes open_turn: "open_turns (log r t) = [turn]" and i: "i \<noteq> ''''" "i \<notin> ID ` set (log r t)"
    and status: "status = TurnWaiting \<or> terminalTurnMarker status"
    and failure: "fails \<Longrightarrow> ''turn-failure:'' @ turn \<notin> ID ` set (log r t) \<and> ''turn-failure:'' @ turn \<noteq> i"
  shows "grows (tv_store env) t mark_ok r (put_entry env t (terminal_entry env i t turn run p fp status md now)
    (if fails then put_entry env t (failure_entry env t turn run q msg now') r else r))"
proof -
  let ?f = "failure_entry env t turn run q msg now'" and ?e = "terminal_entry env i t turn run p fp status md now"
  define r1 where "r1 = (if fails then put_entry env t ?f r else r)"
  have g: "grows (tv_store env) t mark_ok r r1"
    using failure unfolding r1_def
    by (auto intro!: put_grows intro: grows_refl simp: terminal_simps mark_ok_def turn_mark_def)
  have "open_turns (log r1 t) = [turn] \<and> i \<notin> ID ` set (log r1 t)"
  proof (cases fails)
    case True
    obtain d where "log (put_entry env t ?f r) t = log r t @ [?f\<lparr>PathDepth := d\<rparr>]" using put_log by blast
    then show ?thesis using True i open_turn failure
      by (auto simp: r1_def open_turns_snoc turn_mark_def terminal_simps)
  qed (use i open_turn in \<open>simp add: r1_def\<close>)
  then have "grows (tv_store env) t mark_ok r1 (put_entry env t ?e r1)"
    using i(1) status by (intro put_grows) (auto simp: terminal_simps mark_ok_def)
  from grows_trans [OF this g] show ?thesis by (simp add: r1_def)
qed

lemma commit_finish_grows:
  assumes m: "tm_ID meta = t" "thread r t \<noteq> None"
    and open_turn: "open_turns (log r t) = [fq_TurnID req]"
    and i: "trim_space (fq_TerminalEntryID req) \<noteq> ''''" "trim_space (fq_TerminalEntryID req) \<notin> ID ` set (log r t)"
    and status: "fq_Status req = TurnWaiting \<or> terminalTurnMarker (fq_Status req)"
    and failure: "trim_space (fq_FailureMessage req) \<noteq> '''' \<Longrightarrow> ''turn-failure:'' @ fq_TurnID req \<notin> ID ` set (log r t)
      \<and> ''turn-failure:'' @ fq_TurnID req \<noteq> trim_space (fq_TerminalEntryID req)"
    and atts: "\<And>att. att \<in> set attempts \<Longrightarrow> iv_ThreadID (ea_Invocation att) = t"
  shows "grows (tv_store env) t mark_ok r (fst (commit_turn_finish env req admission attempts metadata now meta r))"
proof -
  define message where "message = trim_space (fq_FailureMessage req)"
  define failure where "failure = failure_entry env t (fq_TurnID req) (fq_RunID req) (tm_LeafID meta) message now"
  define terminal where "terminal = terminal_entry env (trim_space (fq_TerminalEntryID req)) t (fq_TurnID req) (fq_RunID req)
    (if message = '''' then tm_LeafID meta else ID failure) (fq_OutcomeFingerprint req) (fq_Status req) metadata now"
  define r1 where "r1 = (if message \<noteq> '''' then put_entry env t failure r else r)"
  define meta' where "meta' = meta\<lparr>tm_LeafID := ID terminal, tm_UpdatedAt := now\<rparr>"
  define r3 where "r3 = finish_provider env req admission t (ID terminal) now (setThread t meta' (put_entry env t terminal r1))"
  define prepared where "prepared = map (settled_attempt EffectAttemptCancelled (''turn-finish:'' @ fq_OutcomeFingerprint req) now)
    (filter (\<lambda>att. ea_State att = EffectAttemptPrepared) attempts)"
  have g1: "grows (tv_store env) t mark_ok r (put_entry env t terminal r1)"
    unfolding r1_def failure_def terminal_def
    by (rule put_end_grows [OF open_turn i status failure]) (simp add: message_def)
  have m': "tm_ID meta' = t" by (simp add: meta'_def m)
  have g3: "grows (tv_store env) t mark_ok r r3"
    unfolding r3_def by (rule grows_trans [OF finish_provider_grows grows_thread [OF g1 m(2) m']])
  have live: "thread r3 t \<noteq> None" using grows_live [OF g3] m(2) by simp
  have "grows (tv_store env) t (closing t) r3 (snd (fst (append_effects (tv_effects env) prepared (meta', r3))))"
    by (rule append_effects_grows [OF m' live]) (auto simp: prepared_def settled_attempt_def dest: atts)
  note grows_trans [OF settles_mark [OF closes_settles [OF this]] g3]
  moreover have r1': "r1 = (if message = '''' then r else put_entry env t failure r)" by (simp add: r1_def)
  have "fst (commit_turn_finish env req admission attempts metadata now meta r)
      = snd (fst (append_effects (tv_effects env) prepared (meta', r3)))"
    unfolding commit_turn_finish_def Let_def m(1) message_def [symmetric] failure_def [symmetric]
      terminal_def [symmetric] r1' [symmetric] meta'_def [symmetric] r3_def [symmetric] prepared_def [symmetric]
    by (simp split: prod.splits option.splits)
  ultimately show ?thesis by simp
qed

text \<open>The names a finish writes without looking are free, and the terminal marker has a name of its own.\<close>

definition finish_free :: "turn_env \<Rightarrow> repo \<Rightarrow> finish_turn_request \<Rightarrow> bool" where
  "finish_free env r req \<longleftrightarrow> (let t = fq_ThreadID req; es = log r t in
     plain_thread t \<and> caller_name t (trim_space (fq_TerminalEntryID req)) \<and> steering_free env es (fq_TurnID req)
   \<and> ''turn-failure:'' @ fq_TurnID req \<notin> ID ` set es)"

lemma finish_status: "ValidateFinishTurnRequest req = None \<Longrightarrow>
    (fq_Status req = TurnWaiting \<or> terminalTurnMarker (fq_Status req)) \<and> \<not> blank (fq_TurnID req)"
  by (auto simp: ValidateFinishTurnRequest_def terminalTurnMarker_def split: if_splits)

lemma finish_compaction_grows:
  assumes ok: "repo_ok (tv_store env) r" and t: "fq_ThreadID req = t" "trim_space t = t"
    and m: "tm_ID meta = t" "thread r t \<noteq> None" and es: "\<And>e. e \<in> set es \<Longrightarrow> ThreadID e = t"
  shows "grows (tv_store env) t (generating t) r (snd (fst (finish_compaction env es req now meta r)))
    \<and> tm_ID (fst (fst (finish_compaction env es req now meta r))) = t"
proof -
  obtain r' err where c: "settleRunningCompaction background env es (fq_TurnID req) (fq_RunID req)
      (if fq_Status req = TurnAborted then ''cancelled'' else ''failed'')
      (if fq_Status req = TurnAborted then ''cancelled'' else ''failed'') (fq_FailureMessage req) now r = (r', err)" by fastforce
  have g: "grows (tv_store env) t (generating t) r r'" using compaction_grows [OF ok t(2) es] c by (metis fst_conv)
  have "tm_ID (meta_of r' t) = t"
    using grows_live [OF g] m(2) grows_ok [OF g ok] by (auto simp: meta_of_def repo_ok_def split: option.splits)
  then show ?thesis using g c m t(1) by (auto simp: finish_compaction_def Let_def grows_refl split: option.splits)
qed

lemma finish_settled_grows:
  assumes ok: "repo_ok (tv_store env) r" and v: "ValidateFinishTurnRequest req = None"
    and t: "fq_ThreadID req = t" and m: "tm_ID meta = t" "thread r t \<noteq> None"
    and es: "es = filter (\<lambda>e. TurnID e = fq_TurnID req) (log r t)"
    and open_turn: "open_turns (log r t) = [fq_TurnID req]" and free: "finish_free env r req"
    and new: "trim_space (fq_TerminalEntryID req) \<notin> ID ` set (log r t)"
  shows "grows (tv_store env) t mark_ok r (fst (finish_settled env req admission meta es r))"
proof -
  let ?s = "tv_store env"
  note f = free [unfolded finish_free_def Let_def t]
  have plain: "plain_thread t" "trim_space t = t" using f by (auto simp: plain_thread_def)
  have th: "ThreadID e = t" if "e \<in> set es" for e
    using that repo_ok_indexed [OF ok, of t] es by (auto simp: indexed_def Let_def)
  define now where "now = canonicalTime (tv_effects env) (fq_Now req)"
  define attempts where "attempts = canonicalEffectAttemptsIn (tv_effects env) es (fq_TurnID req)"
  obtain r1 md where g1: "finish_metadata env r meta req = (r1, md)" by fastforce
  have n1: "grows ?s t (\<lambda>_ _. False) r r1"
    using read_grows [of ?s t "\<lambda>_ _. False" r background "tm_LeafID meta"] g1 t grows_refl
    by (auto simp: finish_metadata_def split: if_splits sum.splits prod.splits)
  have l1: "log r1 t = log r t" by (rule grows_inv [OF n1]) auto
  have live1: "thread r1 t \<noteq> None" using grows_live [OF n1] m(2) by simp
  obtain m2 r2 e2 where g2: "finish_compaction env es req now meta r1 = ((m2, r2), e2)" by (metis prod.exhaust_sel)
  have n2: "grows ?s t (generating t) r1 r2" "tm_ID m2 = t"
    using finish_compaction_grows [OF grows_ok [OF n1 ok] t plain(2) m(1) live1, where es = es and now = now, OF th] unfolding g2 by simp_all
  have n2': "grows ?s t (generating t) r r2" by (rule grows_trans [OF n2(1) grows_mono [OF n1]]) simp
  obtain m3 r3 where g3: "(if fq_Status req = TurnWaiting then (m2, r2)
      else cancelPendingSteering env m2 es (fq_TurnID req) (fq_RunID req) ''task_ended'' now r2) = (m3, r3)" by fastforce
  have gen: "grows ?s t (settling t) r r2" by (rule closes_settles [OF grows_mono [OF n2' generating_closing]])
  have "grows ?s t (settling t) r2 (snd (cancelPendingSteering env m2 es (fq_TurnID req) (fq_RunID req) ''task_ended'' now r2))
      \<and> tm_ID (fst (cancelPendingSteering env m2 es (fq_TurnID req) (fq_RunID req) ''task_ended'' now r2)) = t"
  proof (rule steering_grows [OF ok n2(2) _ es])
    show "thread r2 t \<noteq> None" using grows_live [OF gen] m(2) by simp
    show "steering_free env (log r t) (fq_TurnID req)" using f by simp
    fix i assume "i \<in> ID ` set (log r2 t)"
    then have "i \<in> ID ` set (log r t) \<or> (\<exists>n. i = generated_entry_id t n)"
      using grows_names [OF n2', where N = "\<lambda>i. \<exists>n. i = generated_entry_id t n" and i = i]
      by (simp add: generating_def)
    then show "i \<in> ID ` set (log r t) \<or> \<not> has_prefix ''steer-resolved:'' i"
      using plain(1) by (auto simp: plain_thread_def internal_name_def internal_prefixes_def reserved_prefixes_def)
  qed
  then have n3: "grows ?s t (settling t) r r3" "tm_ID m3 = t"
    using g3 gen n2(2) grows_trans [OF _ gen] by (auto split: if_splits)
  have last: "grows ?s t mark_ok r (fst (commit_turn_finish env req admission attempts metadata now m3 r3))" for metadata
  proof (rule grows_trans [OF commit_finish_grows settles_mark [OF n3(1)]])
    show "thread r3 t \<noteq> None" using grows_live [OF n3(1)] m(2) by simp
    show "open_turns (log r3 t) = [fq_TurnID req]" using settles_open [OF n3(1)] open_turn by simp
    show "trim_space (fq_TerminalEntryID req) \<notin> ID ` set (log r3 t)"
      using settles_names [OF n3(1)] new f settle_names(3) [OF _ plain(1)] by blast
    show "trim_space (fq_TerminalEntryID req) \<noteq> ''''" using f by (simp add: caller_name_def)
    show "fq_Status req = TurnWaiting \<or> terminalTurnMarker (fq_Status req)" using finish_status [OF v] by blast
    have "''turn-failure:'' @ fq_TurnID req \<notin> ID ` set (log r3 t)"
    proof
      assume "''turn-failure:'' @ fq_TurnID req \<in> ID ` set (log r3 t)"
      then have "settle_name t (''turn-failure:'' @ fq_TurnID req)" using settles_names [OF n3(1)] f by blast
      then show False using settle_names(1) [OF _ plain(1)] has_prefix_append by blast
    qed
    moreover have "''turn-failure:'' @ fq_TurnID req \<noteq> trim_space (fq_TerminalEntryID req)"
    proof
      assume a: "''turn-failure:'' @ fq_TurnID req = trim_space (fq_TerminalEntryID req)"
      have "has_prefix ''turn-failure:'' (trim_space (fq_TerminalEntryID req))" unfolding a [symmetric] by (rule has_prefix_append)
      then show False using f by (auto simp: caller_name_def reserved_prefixes_def)
    qed
    ultimately show "''turn-failure:'' @ fq_TurnID req \<notin> ID ` set (log r3 t)
      \<and> ''turn-failure:'' @ fq_TurnID req \<noteq> trim_space (fq_TerminalEntryID req)" by blast
    show "tm_ID m3 = t" by (rule n3(2))
    show "iv_ThreadID (ea_Invocation att) = t" if "att \<in> set attempts" for att
      using attempts_thread [OF th] that by (simp add: attempts_def)
  qed
  have weak: "grows ?s t mark_ok r r" "grows ?s t mark_ok r r1" "grows ?s t mark_ok r r2"
    using grows_refl grows_mono [OF n1] settles_mark [OF gen] by auto
  show ?thesis
    using weak last g1 g2 g3 unfolding finish_settled_def Let_def attempts_def [symmetric] now_def [symmetric]
    by (auto split: sum.splits option.splits)
qed

lemma finishTurn_grows:
  assumes ok: "repo_ok (tv_store env) r" and v: "ValidateFinishTurnRequest req = None"
    and free: "open_turns (log r (fq_ThreadID req)) = [fq_TurnID req] \<Longrightarrow> finish_free env r req"
  shows "grows (tv_store env) (fq_ThreadID req) mark_ok r (fst (finishTurn env r req))"
proof -
  let ?t = "fq_ThreadID req" and ?s = "tv_store env"
  let ?r1 = "ensured ?t r"
  have g: "grows ?s ?t P r ?r1" for P by (rule ensured_grows)
  have l: "log ?r1 ?t = log r ?t" by (rule grows_inv [OF g [of "\<lambda>_ _. False"]]) auto
  have ok1: "repo_ok ?s ?r1" by (rule grows_ok [OF g ok])
  have "grows ?s ?t mark_ok r (fst (finish_settled env req admission meta es ?r1))"
    if "entryMetadata r ?t (trim_space (fq_TerminalEntryID req)) = Inr None"
      "runtimeActiveTurn (rp_journal ?r1 ?t) = Some (fq_TurnID req)" "thread ?r1 ?t = Some meta"
      "runtimeTurnEntries ?r1 (tm_ID meta) (fq_TurnID req) = Inr es" for admission meta es
  proof (rule grows_trans [OF finish_settled_grows g])
    show id: "tm_ID meta = ?t" using ok1 that(3) by (simp add: repo_ok_def)
    show "es = filter (\<lambda>e. TurnID e = fq_TurnID req) (log ?r1 ?t)"
      using turn_entries_filter [OF repo_ok_indexed [OF ok1]] finish_status [OF v] that(4) id by simp
    show op: "open_turns (log ?r1 ?t) = [fq_TurnID req]"
      using that(2) runtimeActive_indexed [OF repo_ok_indexed [OF ok1]] by blast
    show "finish_free env ?r1 req" using free op l by (simp add: finish_free_def)
    show "trim_space (fq_TerminalEntryID req) \<notin> ID ` set (log ?r1 ?t)"
      using that(1) metadata_missing [OF ok] l by simp
  qed (use ok1 v that(3) in auto)
  then show ?thesis using g grows_refl
    by (auto simp: finishTurn_def Let_def split: sum.splits option.splits)
qed

section \<open>Failing a turn whose effects are in doubt\<close>

definition fail_free :: "turn_env \<Rightarrow> repo \<Rightarrow> string \<Rightarrow> string \<Rightarrow> bool" where
  "fail_free env r t turn \<longleftrightarrow> plain_thread t \<and> steering_free env (log r t) turn
     \<and> ''turn-failure:'' @ turn \<notin> ID ` set (log r t)"

lemma live_meta: "repo_ok env r \<Longrightarrow> thread r t \<noteq> None \<Longrightarrow> tm_ID (meta_of r t) = t"
  by (auto simp: meta_of_def repo_ok_def split: option.splits)

lemma resolution_simps:
  "ID (resolution_entry t k fp pl now i) = ''interaction-resolved:'' @ ri_ID i"
  "ThreadID (resolution_entry t k fp pl now i) = t" "Type (resolution_entry t k fp pl now i) = EntryInteractionDone"
  by (simp_all add: resolution_entry_def)

lemma resolutions_closing:
  "e \<in> set (map (resolution_entry t k fp pl now) xs) \<Longrightarrow>
    ThreadID e = t \<and> ID e \<noteq> '''' \<and> closing_name t (ID e) \<and> settles e"
proof -
  assume "e \<in> set (map (resolution_entry t k fp pl now) xs)"
  then obtain i where e: "e = resolution_entry t k fp pl now i" by auto
  show ?thesis unfolding e resolution_simps using closing_prefix(1) by (simp add: settles_def asks_input_def resolution_simps)
qed

lemma closing_simps:
  "ID (closing_entry env t turn run label st msg now c) = label @ turn @ '':'' @ trim_space (msg_ToolCallID (Message c))"
  "ThreadID (closing_entry env t turn run label st msg now c) = t"
  "Type (closing_entry env t turn run label st msg now c) = EntryToolResult"
  by (simp_all add: closing_entry_def Let_def)

lemma closing_settles: "settles (closing_entry env t turn run label st msg now c)"
  by (simp add: settles_def asks_input_def closing_entry_def Let_def empty_view_def)

lemma unknown_closing_ok:
  assumes "e \<in> set (map (unknown_closing env req unknown now) calls)" "uq_ThreadID req = t"
  shows "ThreadID e = t \<and> ID e \<noteq> '''' \<and> closing_name t (ID e) \<and> settles e"
proof -
  obtain c where e: "e = unknown_closing env req unknown now c" using assms(1) by auto
  have i: "ID e = ''tool-effect-unknown:'' @ uq_TurnID req @ '':'' @ trim_space (msg_ToolCallID (Message c))"
    by (cases "msg_ToolCallID (Message c) \<in> set unknown") (simp_all only: e unknown_closing_def closing_simps if_True if_False)
  have "closing_name t (ID e)" unfolding i by (rule closing_prefix(4))
  moreover have "ID e \<noteq> ''''" by (simp add: i)
  moreover have "settles e" by (simp add: e unknown_closing_def closing_settles)
  ultimately show ?thesis using assms(2) by (simp add: e unknown_closing_def closing_simps)
qed

lemma in_doubt_not: "has_prefix p (p @ s)" by (rule has_prefix_append)

lemma fresh_after:
  assumes g: "grows env t (settling t) r r'" and t: "plain_thread t" and i: "i \<notin> ID ` set (log r t)"
    and p: "has_prefix ''turn-failure:'' i \<or> has_prefix ''terminal-'' i \<or> caller_name t i"
  shows "i \<notin> ID ` set (log r' t)"
  using settles_names [OF g, of i] settle_names [OF _ t, of i] i p by blast

lemma commit_unknown_grows:
  assumes m: "thread r (uq_ThreadID req) \<noteq> None" and ok: "repo_ok (tv_store env) r"
    and open_turn: "open_turns (log r (uq_ThreadID req)) = [uq_TurnID req]"
    and i: "unknownEffectTerminalEntryID (tv_store env) (uq_ThreadID req) (uq_TurnID req) (uq_RunID req)
      \<notin> ID ` set (log r (uq_ThreadID req))"
    and failure: "''turn-failure:'' @ uq_TurnID req \<notin> ID ` set (log r (uq_ThreadID req))"
  shows "grows (tv_store env) (uq_ThreadID req) mark_ok r (fst (commit_unknown env req now resolutions results r))"
proof -
  let ?t = "uq_ThreadID req" and ?turn = "uq_TurnID req" and ?run = "uq_RunID req" and ?s = "tv_store env"
  let ?i = "unknownEffectTerminalEntryID ?s ?t ?turn ?run"
  define failure where "failure = failure_entry env ?t ?turn ?run (tm_LeafID (meta_of r ?t)) EffectOutcomeUnknownFailureMessage now"
  define terminal where "terminal = terminal_entry env ?i ?t ?turn ?run (ID failure)
    (unknownEffectOutcomeFingerprint ?s ?t ?turn ?run) TurnFailed
    [(''run_id'', ?run), (''outcome'', ''failed''), (''failure_reason'', EffectOutcomeUnknownFailureMessage),
     (''failure_code'', ''effect_outcome_unknown'')] now"
  define r1 where "r1 = put_entry env ?t terminal (if True then put_entry env ?t failure r else r)"
  have i': "?i \<noteq> ''''" "''turn-failure:'' @ ?turn \<noteq> ?i" by (simp_all add: unknownEffectTerminalEntryID_def)
  have g: "grows ?s ?t mark_ok r r1"
    unfolding r1_def terminal_def failure_def
    by (rule put_end_grows [OF open_turn i'(1) i]) (use assms(5) i' in \<open>auto simp: terminalTurnMarker_def\<close>)
  have live: "thread r1 ?t \<noteq> None" using grows_live [OF g] m by simp
  have "grows ?s ?t mark_ok r (deleteProviderState ?t (setThread ?t
      ((meta_of r1 ?t)\<lparr>tm_LeafID := ID terminal, tm_UpdatedAt := now\<rparr>) r1))"
    using live_meta [OF grows_ok [OF g ok] live] by (intro grows_no_provider grows_thread [OF g m]) simp
  then show ?thesis
    unfolding commit_unknown_def Let_def failure_def [symmetric] terminal_def [symmetric] r1_def if_True by simp
qed

lemma closes_ok: "grows env t (closing t) r r' \<Longrightarrow> repo_ok env r \<Longrightarrow> repo_ok env r'"
  by (rule grows_ok)

lemma settle_unknown_grows:
  assumes ok: "repo_ok (tv_store env) r" and m: "tm_ID meta = uq_ThreadID req" "thread r (uq_ThreadID req) \<noteq> None"
    and es: "es = filter (\<lambda>e. TurnID e = uq_TurnID req) (log r (uq_ThreadID req))"
    and open_turn: "open_turns (log r (uq_ThreadID req)) = [uq_TurnID req]"
    and free: "fail_free env r (uq_ThreadID req) (uq_TurnID req)"
    and new: "unknownEffectTerminalEntryID (tv_store env) (uq_ThreadID req) (uq_TurnID req) (uq_RunID req)
      \<notin> ID ` set (log r (uq_ThreadID req))"
  shows "grows (tv_store env) (uq_ThreadID req) mark_ok r (fst (settle_unknown ctx env req meta es r))"
proof -
  let ?t = "uq_ThreadID req" and ?turn = "uq_TurnID req" and ?s = "tv_store env"
  note f = free [unfolded fail_free_def]
  have th: "ThreadID e = ?t" if "e \<in> set es" for e
    using that repo_ok_indexed [OF ok, of ?t] es by (auto simp: indexed_def Let_def)
  define now where "now = canonicalTime (tv_effects env) (uq_Now req)"
  define fp where "fp = unknownEffectOutcomeFingerprint ?s ?t ?turn (uq_RunID req)"
  define attempts where "attempts = canonicalEffectAttemptsIn (tv_effects env) es ?turn"
  define r1 where "r1 = snd (cancelPendingSteering env meta es ?turn (uq_RunID req) ''effect_outcome_unknown'' now r)"
  have n1: "grows ?s ?t (settling ?t) r r1"
    unfolding r1_def by (rule conjunct1 [OF steering_grows [OF ok m es]]) (use f in auto)
  obtain r2 v2 where g2: "append_all ctx ?s now (map (resolution_entry ?t '''' '''' failed_outcome now)
      (runtimePendingInteractions ?s es ?turn)) r1 = (r2, v2)" by fastforce
  have "grows ?s ?t (closing ?t) r1 r2"
    using append_all_grows [OF grows_ok [OF n1 ok], where ctx = ctx and now = now and t = ?t
        and es = "map (resolution_entry ?t '''' '''' failed_outcome now) (runtimePendingInteractions ?s es ?turn)"]
      resolutions_closing [of _ ?t "''''" "''''" failed_outcome now] g2 by simp
  then have n2: "grows ?s ?t (settling ?t) r r2" using grows_trans [OF closes_settles n1] by blast
  have live2: "thread r2 ?t \<noteq> None" using grows_live [OF n2] m(2) by simp
  obtain s3 v3 where g3: "append_effects (tv_effects env) (closed_attempts fp now attempts) (meta_of r2 ?t, r2) = (s3, v3)" by fastforce
  have "grows ?s ?t (closing ?t) r2 (snd (fst (append_effects (tv_effects env) (closed_attempts fp now attempts) (meta_of r2 ?t, r2))))"
  proof (rule append_effects_grows [OF live_meta [OF grows_ok [OF n2 ok] live2] live2])
    show "iv_ThreadID (ea_Invocation att) = ?t" if "att \<in> set (closed_attempts fp now attempts)" for att
      using that attempts_thread [OF th] by (auto simp: closed_attempts_def settled_attempt_def attempts_def)
  qed
  then have n3: "grows ?s ?t (settling ?t) r (snd s3)" using grows_trans [OF closes_settles n2] g3 by simp
  have n4: "grows ?s ?t (settling ?t) r (fst (append_all ctx ?s now (map (unknown_closing env req unknown now) calls) (snd s3)))"
    for unknown calls
    by (rule grows_trans [OF closes_settles n3])
      (rule conjunct1 [OF append_all_grows [OF grows_ok [OF n3 ok] unknown_closing_ok]], simp_all)
  have n5: "grows ?s ?t mark_ok r (fst (commit_unknown env req now resolutions results r4))"
    if n: "grows ?s ?t (settling ?t) r r4" for resolutions results r4
  proof (rule grows_trans [OF commit_unknown_grows settles_mark [OF n]])
    show "thread r4 ?t \<noteq> None" using grows_live [OF n] m(2) by simp
    show "repo_ok ?s r4" by (rule grows_ok [OF n ok])
    show "open_turns (log r4 ?t) = [?turn]" using settles_open [OF n] open_turn by simp
    show "''turn-failure:'' @ ?turn \<notin> ID ` set (log r4 ?t)"
      using f in_doubt_not [of "''turn-failure:''"] by (intro fresh_after [OF n]) blast+
    show "unknownEffectTerminalEntryID ?s ?t ?turn (uq_RunID req) \<notin> ID ` set (log r4 ?t)"
      using f new in_doubt_not [of "''terminal-''"] unfolding unknownEffectTerminalEntryID_def
      by (intro fresh_after [OF n]) blast+
  qed
  show ?thesis
    using grows_refl settles_mark [OF n1] settles_mark [OF n2] settles_mark [OF n3] settles_mark [OF n4] n5 [OF n4] g2 g3
    unfolding settle_unknown_def Let_def now_def [symmetric] fp_def [symmetric] attempts_def [symmetric] r1_def [symmetric]
    by (auto split: sum.splits option.splits prod.splits) (metis fst_conv)+
qed

lemma quiet_log: "grows env t (\<lambda>_ _. False) r r' \<Longrightarrow> log r' t = log r t"
  by (erule grows_inv) auto

lemma fail_body_grows:
  assumes ok: "repo_ok (tv_store env) r" and turn: "\<not> blank (uq_TurnID req)"
    and free: "open_turns (log r (uq_ThreadID req)) = [uq_TurnID req] \<Longrightarrow> fail_free env r (uq_ThreadID req) (uq_TurnID req)"
  shows "grows (tv_store env) (uq_ThreadID req) mark_ok r (fst (fail_unknown_body ctx env r req))"
proof -
  let ?t = "uq_ThreadID req" and ?s = "tv_store env"
  let ?r1 = "ensured ?t r"
  have g: "grows ?s ?t P r ?r1" for P by (rule ensured_grows)
  have l: "log ?r1 ?t = log r ?t" by (rule quiet_log [OF g])
  have ok1: "repo_ok ?s ?r1" by (rule grows_ok [OF g ok])
  have "grows ?s ?t mark_ok r (fst (settle_unknown ctx env req meta es ?r1))"
    if "entryMetadata r ?t (unknownEffectTerminalEntryID ?s ?t (uq_TurnID req) (uq_RunID req)) = Inr None"
      "runtimeActiveTurn (rp_journal ?r1 ?t) = Some (uq_TurnID req)" "thread ?r1 ?t = Some meta"
      "runtimeTurnEntries ?r1 ?t (uq_TurnID req) = Inr es" for meta es
  proof (rule grows_trans [OF settle_unknown_grows g])
    show "tm_ID meta = ?t" using ok1 that(3) by (simp add: repo_ok_def)
    show "es = filter (\<lambda>e. TurnID e = uq_TurnID req) (log ?r1 ?t)"
      by (rule turn_entries_filter [OF repo_ok_indexed [OF ok1] turn that(4)])
    show op: "open_turns (log ?r1 ?t) = [uq_TurnID req]"
      using that(2) runtimeActive_indexed [OF repo_ok_indexed [OF ok1]] by blast
    show "fail_free env ?r1 ?t (uq_TurnID req)" using free op l by (simp add: fail_free_def)
    show "unknownEffectTerminalEntryID ?s ?t (uq_TurnID req) (uq_RunID req) \<notin> ID ` set (log ?r1 ?t)"
      using that(1) metadata_missing [OF ok] l by simp
  qed (use ok1 that(3) in auto)
  then show ?thesis using g grows_refl
    by (auto simp: fail_unknown_body_def Let_def split: sum.splits option.splits)
qed

lemma undone_grows:
  assumes "grows env t P r (fst res)" "repo_ok env r"
  shows "grows env t P r (fst (undone_on_error t r res))"
    "snd (undone_on_error t r res) = Inl err \<Longrightarrow> fst (undone_on_error t r res) = r"
  using assms grows_undone [OF assms(1)] grows_refl
  by (auto simp: undone_on_error_def repo_ok_def split: sum.splits prod.splits)

lemma fail_grows:
  assumes ok: "repo_ok (tv_store env) r"
    and free: "open_turns (log r (trim_space (uq_ThreadID req))) = [trim_space (uq_TurnID req)] \<Longrightarrow>
      fail_free env r (trim_space (uq_ThreadID req)) (trim_space (uq_TurnID req))"
  shows "grows (tv_store env) (trim_space (uq_ThreadID req)) mark_ok r (fst (failUnknownEffectTurn ctx env r req))"
    "snd (failUnknownEffectTurn ctx env r req) = Inl err \<Longrightarrow> fst (failUnknownEffectTurn ctx env r req) = r"
proof -
  define q where "q = req\<lparr>uq_ThreadID := trim_space (uq_ThreadID req), uq_TurnID := trim_space (uq_TurnID req),
    uq_RunID := trim_space (uq_RunID req)\<rparr>"
  have q: "uq_ThreadID q = trim_space (uq_ThreadID req)" "uq_TurnID q = trim_space (uq_TurnID req)" by (simp_all add: q_def)
  have e: "failUnknownEffectTurn ctx env r req = (case ValidateFailUnknownEffectTurnRequest req of
      Some err \<Rightarrow> (r, Inl err) | None \<Rightarrow> undone_on_error (uq_ThreadID q) r (fail_unknown_body ctx env r q))"
    unfolding failUnknownEffectTurn_def Let_def q_def ..
  have "grows (tv_store env) (uq_ThreadID q) mark_ok r (fst (failUnknownEffectTurn ctx env r req))
      \<and> (snd (failUnknownEffectTurn ctx env r req) = Inl err \<longrightarrow> fst (failUnknownEffectTurn ctx env r req) = r)"
  proof (cases "ValidateFailUnknownEffectTurnRequest req")
    case None
    then have "\<not> blank (uq_TurnID q)"
      by (auto simp: ValidateFailUnknownEffectTurnRequest_def q blank_def split: if_splits)
    note g = fail_body_grows [OF ok this free [folded q], simplified]
    show ?thesis using undone_grows [OF g ok] by (simp add: e None)
  qed (simp add: e grows_refl)
  then show "grows (tv_store env) (trim_space (uq_ThreadID req)) mark_ok r (fst (failUnknownEffectTurn ctx env r req))"
    "snd (failUnknownEffectTurn ctx env r req) = Inl err \<Longrightarrow> fst (failUnknownEffectTurn ctx env r req) = r"
    by (simp_all add: q)
qed

section \<open>Cancelling\<close>

definition cancel_free :: "turn_env \<Rightarrow> repo \<Rightarrow> cancel_request \<Rightarrow> bool" where
  "cancel_free env r req \<longleftrightarrow> fail_free env r (cq_ThreadID req) (cq_TurnID req)
     \<and> caller_name (cq_ThreadID req) (cq_CancelEntryID req) \<and> caller_name (cq_ThreadID req) (cq_TerminalEntryID req)
     \<and> cq_CancelEntryID req \<noteq> cq_TerminalEntryID req"

lemma cancel_closing_ok:
  assumes "e \<in> set (map (cancel_closing env req unknown now) calls)" "cq_ThreadID req = t"
  shows "ThreadID e = t \<and> ID e \<noteq> '''' \<and> closing_name t (ID e) \<and> settles e"
proof -
  obtain c where e: "e = cancel_closing env req unknown now c" using assms(1) by auto
  have i: "ID e = ''tool-cancelled:'' @ cq_TurnID req @ '':'' @ trim_space (msg_ToolCallID (Message c))"
    by (simp only: e cancel_closing_def closing_simps)
  have "closing_name t (ID e)" unfolding i by (rule closing_prefix(3))
  moreover have "ID e \<noteq> ''''" by (simp add: i)
  moreover have "settles e" by (simp add: e cancel_closing_def closing_settles)
  ultimately show ?thesis using assms(2) by (simp add: e cancel_closing_def closing_simps)
qed

lemma latest_decoded:
  "latest_attempts env turn latest es = Inr out \<Longrightarrow> att \<in> snd ` set out \<Longrightarrow>
    att \<in> snd ` set latest \<or> (\<exists>e \<in> set es. decodeEffectAttempt env e = Inr att)"
proof (induction env turn latest es arbitrary: out rule: latest_attempts.induct)
  case (2 env turn latest e es)
  show ?case
  proof (cases "TurnID e \<noteq> turn \<or> Type e \<noteq> EntryEffectAttempt")
    case False
    then obtain a where a: "decodeEffectAttempt env e = Inr a" using 2(3) by (auto split: sum.splits)
    then have "att \<in> snd ` set (AList.update (ea_ID a) a latest) \<or> (\<exists>e \<in> set es. decodeEffectAttempt env e = Inr att)"
      using 2(2) [OF False a] 2(3,4) False by simp
    then show ?thesis using a by (auto dest!: subsetD [OF set_update])
  qed (use 2 in auto)
qed simp

lemma cancel_effects_grows:
  assumes m: "tm_ID meta = t" "thread r t \<noteq> None" and es: "\<And>e. e \<in> set es \<Longrightarrow> ThreadID e = t"
  shows "grows (ee_store env) t (closing t) r (fst (cancelTurnEffects env meta req es now r))"
proof (cases "latest_attempts env (cq_TurnID req) [] es")
  case (Inr latest)
  have th: "iv_ThreadID (ea_Invocation att) = t" if "att \<in> snd ` set latest" for att
    using latest_decoded [OF Inr that] es decoded_thread by (auto dest: decoded_thread)
  define atts where "atts = map (\<lambda>att. settled_attempt
      (if ea_State att = EffectAttemptPrepared then EffectAttemptCancelled else EffectAttemptUnknown)
      (''turn-cancel:'' @ cq_OutcomeFingerprint req) now att)
    (filter (\<lambda>att. ea_State att = EffectAttemptPrepared \<or> ea_State att = EffectAttemptDispatching) (map snd latest))"
  obtain m' r' err where p: "append_effects env atts (meta, r) = ((m', r'), err)" by (metis prod.exhaust_sel)
  have "fst (cancelTurnEffects env meta req es now r) = snd (fst (append_effects env atts (meta, r)))"
    using p by (simp add: cancelTurnEffects_def Let_def Inr atts_def split: option.splits)
  moreover have "iv_ThreadID (ea_Invocation a) = t" if "a \<in> set atts" for a
  proof -
    from that have "\<exists>b \<in> snd ` set latest. iv_ThreadID (ea_Invocation a) = iv_ThreadID (ea_Invocation b)"
      unfolding atts_def settled_attempt_def by force
    then show ?thesis using th by auto
  qed
  ultimately show ?thesis using append_effects_grows [OF m] by simp
qed (simp add: cancelTurnEffects_def grows_refl)

lemma steering_free_snoc:
  assumes "steering_free env es turn" "\<not> has_prefix ''steer-resolved:'' (ID x)"
    "Type x \<noteq> EntrySteeringRequested" "Type x \<noteq> EntrySteeringApplied" "Type x \<noteq> EntrySteeringCancelled"
  shows "steering_free env (es @ [x]) turn"
proof -
  have "resolved_steering env (filter (\<lambda>e. TurnID e = turn) (es @ [x])) = resolved_steering env (filter (\<lambda>e. TurnID e = turn) es)"
    using assms(4,5) by (simp add: resolved_steering_def)
  moreover have "''steer-resolved:'' @ i \<noteq> ID x" for i
    using assms(2) has_prefix_append [of "''steer-resolved:''" i] by metis
  ultimately show ?thesis using assms(1,3) unfolding steering_free_def by auto
qed

text \<open>What a cancel request adds before the turn is settled.\<close>

lemma request_cancel_grows:
  assumes ok: "repo_ok (tv_store env) r" and i: "caller_name (cq_ThreadID req) (cq_CancelEntryID req)"
  shows "grows (tv_store env) (cq_ThreadID req) (\<lambda>_ x. Type x = EntryCancelRequested \<and> ID x = cq_CancelEntryID req) r
    (fst (request_cancel ctx env req now r))
   \<and> (log (fst (request_cancel ctx env req now r)) (cq_ThreadID req) = log r (cq_ThreadID req)
      \<or> (\<exists>x. log (fst (request_cancel ctx env req now r)) (cq_ThreadID req) = log r (cq_ThreadID req) @ [x]
            \<and> Type x = EntryCancelRequested \<and> ID x = cq_CancelEntryID req))"
proof -
  let ?t = "cq_ThreadID req" and ?i = "cq_CancelEntryID req"
  define e where "e = zero_entry\<lparr>ID := ?i, ThreadID := ?t, TurnID := cq_TurnID req, RunID := cq_RunID req,
    Type := EntryCancelRequested, RequestKey := cq_RequestKey req, RequestFingerprint := cq_RequestFingerprint req,
    CreatedAt := now, Metadata := cq_CancellationMetadata req\<rparr>"
  define o' where "o' = no_options\<lparr>ao_ID := ?i, ao_Now := now\<rparr>"
  let ?P = "\<lambda>_ x. Type x = EntryCancelRequested \<and> ID x = ?i"
  have t: "ThreadID e = ?t" by (simp add: e_def)
  have k: "Type x = EntryCancelRequested \<and> ID x = ?i" if "kept_of e x" "named ?t o' e x" for x
    using that i by (simp add: kept_of_def e_def named_def wanted_id_def o'_def caller_name_def)
  note a = append_grows [where P = ?P and opts = o' and ctx = ctx and allow = False, OF ok t k]
  have "log (fst (appendFact ctx (tv_store env) r e o' False)) ?t = log r ?t
      \<or> (\<exists>x. log (fst (appendFact ctx (tv_store env) r e o' False)) ?t = log r ?t @ [x]
            \<and> Type x = EntryCancelRequested \<and> ID x = ?i)"
  proof (cases "snd (appendFact ctx (tv_store env) r e o' False)")
    case (Inr x)
    then have x: "kept_of e x" "named ?t o' e x"
      and d: "\<exists>d. log (fst (appendFact ctx (tv_store env) r e o' False)) ?t = log r ?t @ [x\<lparr>PathDepth := d\<rparr>]"
      using a by auto
    from d obtain d where "log (fst (appendFact ctx (tv_store env) r e o' False)) ?t = log r ?t @ [x\<lparr>PathDepth := d\<rparr>]" by blast
    then show ?thesis using k [OF x] by auto
  qed (use a in simp)
  moreover have "fst (request_cancel ctx env req now r) = r
      \<or> fst (request_cancel ctx env req now r) = fst (appendFact ctx (tv_store env) r e o' False)"
    unfolding request_cancel_def Let_def e_def [symmetric] o'_def [symmetric]
    by (simp split: sum.split option.split)
  ultimately show ?thesis using conjunct1 [OF a] grows_refl [of "tv_store env" ?t ?P r] by (elim disjE) simp_all
qed

lemma cancel_provider_grows: "grows (tv_store env) (cq_ThreadID req) P r (fst (cancel_provider env req i now r))"
  by (auto simp: cancel_provider_def Let_def intro: grows_refl reanchor_grows context_only_grows split: sum.splits)

lemma commit_cancel_grows:
  assumes ok: "repo_ok (tv_store env) r0" and n: "grows (tv_store env) (cq_ThreadID req) (closing (cq_ThreadID req)) r0 r"
    and live: "thread r0 (cq_ThreadID req) \<noteq> None"
    and es: "es = filter (\<lambda>e. TurnID e = cq_TurnID req) (log r0 (cq_ThreadID req))"
    and open_turn: "open_turns (log r0 (cq_ThreadID req)) = [cq_TurnID req]"
    and free: "fail_free env r0 (cq_ThreadID req) (cq_TurnID req)"
    and i: "caller_name (cq_ThreadID req) (cq_TerminalEntryID req)" "cq_TerminalEntryID req \<notin> ID ` set (log r0 (cq_ThreadID req))"
  shows "grows (tv_store env) (cq_ThreadID req) mark_ok r (fst (commit_cancel env req now es result r))"
proof -
  let ?t = "cq_ThreadID req" and ?turn = "cq_TurnID req" and ?s = "tv_store env" and ?i = "cq_TerminalEntryID req"
  note f = free [unfolded fail_free_def]
  have okr: "repo_ok ?s r" by (rule grows_ok [OF n ok])
  have liver: "thread r ?t \<noteq> None" using grows_live [OF n] live by simp
  obtain meta r1 where c: "cancelPendingSteering env (meta_of r ?t) es ?turn (cq_RunID req) ''stopped'' now r = (meta, r1)" by fastforce
  have "grows ?s ?t (settling ?t) r (snd (cancelPendingSteering env (meta_of r ?t) es ?turn (cq_RunID req) ''stopped'' now r))
      \<and> tm_ID (fst (cancelPendingSteering env (meta_of r ?t) es ?turn (cq_RunID req) ''stopped'' now r)) = ?t"
  proof (rule steering_grows [OF ok live_meta [OF okr liver] liver es])
    fix k assume "k \<in> ID ` set (log r ?t)"
    then show "k \<in> ID ` set (log r0 ?t) \<or> \<not> has_prefix ''steer-resolved:'' k"
      using grows_names [OF n, where N = "closing_name ?t" and i = k] closing_steering [of ?t k] f
      by (auto simp: closing_def)
  qed (use f in simp)
  then have n1: "grows ?s ?t (settling ?t) r r1" and m: "tm_ID meta = ?t" using c by auto
  have all: "grows ?s ?t (settling ?t) r0 r1" by (rule grows_trans [OF n1 closes_settles [OF n]])
  define terminal where "terminal = terminal_entry env ?i ?t ?turn (cq_RunID req) (tm_LeafID meta)
    (cq_OutcomeFingerprint req) TurnAborted (cq_Metadata req) now"
  define r2 where "r2 = setThread ?t (meta\<lparr>tm_LeafID := ID terminal, tm_UpdatedAt := now\<rparr>) (put_entry env ?t terminal r1)"
  have o1: "open_turns (log r1 ?t) = [?turn]" using settles_open [OF all] open_turn by simp
  have i1: "?i \<noteq> ''''" using i(1) by (simp add: caller_name_def)
  have i2: "?i \<notin> ID ` set (log r1 ?t)" using fresh_after [OF all _ i(2)] i(1) f by blast
  have "grows ?s ?t mark_ok r1 (put_entry env ?t terminal r1)"
    using put_end_grows [where fails = False and status = TurnAborted, OF o1 i1 i2]
    unfolding terminal_def by (simp add: terminalTurnMarker_def)
  then have "grows ?s ?t mark_ok r (put_entry env ?t terminal r1)"
    using grows_trans [OF _ settles_mark [OF n1]] by simp
  from grows_thread [OF this liver, of "meta\<lparr>tm_LeafID := ID terminal, tm_UpdatedAt := now\<rparr>"]
  have g2: "grows ?s ?t mark_ok r r2" using m by (simp add: r2_def)
  have "grows ?s ?t mark_ok r (fst (cancel_provider env req (ID terminal) now r2))"
    by (rule grows_trans [OF cancel_provider_grows g2])
  moreover have "fst (commit_cancel env req now es result r) = fst (cancel_provider env req (ID terminal) now r2)"
    using c by (simp add: commit_cancel_def Let_def terminal_def r2_def split: prod.splits option.splits)
  ultimately show ?thesis by simp
qed

lemma settle_cancel_grows:
  assumes ok: "repo_ok (tv_store env) r" and live: "thread r (cq_ThreadID req) \<noteq> None"
    and turn: "\<not> blank (cq_TurnID req)"
    and open_turn: "open_turns (log r (cq_ThreadID req)) = [cq_TurnID req]"
    and free: "fail_free env r (cq_ThreadID req) (cq_TurnID req)"
    and i: "caller_name (cq_ThreadID req) (cq_TerminalEntryID req)" "cq_TerminalEntryID req \<notin> ID ` set (log r (cq_ThreadID req))"
  shows "grows (tv_store env) (cq_ThreadID req) mark_ok r (fst (settle_cancel ctx env req now cancel r))"
proof (cases "runtimeTurnEntries r (cq_ThreadID req) (cq_TurnID req)")
  case (Inr es)
  let ?t = "cq_ThreadID req" and ?s = "tv_store env"
  note f = free [unfolded fail_free_def]
  have es: "es = filter (\<lambda>e. TurnID e = cq_TurnID req) (log r ?t)"
    by (rule turn_entries_filter [OF repo_ok_indexed [OF ok] turn Inr])
  have th: "ThreadID e = ?t" if "e \<in> set es" for e
    using that repo_ok_indexed [OF ok, of ?t] es by (auto simp: indexed_def Let_def)
  obtain r1 v1 where g1: "append_all ctx ?s now (map (resolution_entry ?t (cq_RequestKey req) (cq_RequestFingerprint req)
      (cq_InteractionResolutionPayload req) now) (runtimePendingInteractions ?s es (cq_TurnID req))) r = (r1, v1)" by fastforce
  have n1: "grows ?s ?t (closing ?t) r r1"
    using append_all_grows [OF ok, where ctx = ctx and now = now and t = ?t
        and es = "map (resolution_entry ?t (cq_RequestKey req) (cq_RequestFingerprint req)
          (cq_InteractionResolutionPayload req) now) (runtimePendingInteractions ?s es (cq_TurnID req))"]
      resolutions_closing [of _ ?t "cq_RequestKey req" "cq_RequestFingerprint req" "cq_InteractionResolutionPayload req" now] g1
    by simp
  obtain r2 v2 where g2: "cancelTurnEffects (tv_effects env) (meta_of r1 ?t) req es now r1 = (r2, v2)" by fastforce
  have live1: "thread r1 ?t \<noteq> None" using grows_live [OF n1] live by simp
  have "grows ?s ?t (closing ?t) r1 r2"
    using cancel_effects_grows [where env = "tv_effects env" and req = req and now = now and es = es,
        OF live_meta [OF grows_ok [OF n1 ok] live1] live1] th g2 by simp
  then have n2: "grows ?s ?t (closing ?t) r r2" using grows_trans n1 by blast
  have n3: "grows ?s ?t (closing ?t) r (fst (append_all ctx ?s now (map (cancel_closing env req unknown now) calls) r2))"
    for unknown calls
    by (rule grows_trans [OF _ n2])
      (rule conjunct1 [OF append_all_grows [OF grows_ok [OF n2 ok] cancel_closing_ok]], simp_all)
  have n4: "grows ?s ?t (closing ?t) r (fst (settleRunningCompaction ctx env es (cq_TurnID req) (cq_RunID req) a b c now q))"
    if "grows ?s ?t (closing ?t) r q" for a b c q
  proof (rule grows_trans [OF grows_mono [OF compaction_grows] that])
    show "repo_ok ?s q" by (rule grows_ok [OF that ok])
  qed (use f th in \<open>simp_all add: plain_thread_def generating_closing\<close>)
  have n5: "grows ?s ?t mark_ok r (fst (commit_cancel env req now es result q))"
    if "grows ?s ?t (closing ?t) r q" for result q
    by (rule grows_trans [OF commit_cancel_grows [OF ok that live es open_turn free i]])
      (rule settles_mark [OF closes_settles [OF that]])
  have m: "grows ?s ?t mark_ok r q" if "grows ?s ?t (closing ?t) r q" for q
    by (rule settles_mark [OF closes_settles [OF that]])
  show ?thesis
    using Inr m [OF n1] m [OF n2] m [OF n3] m [OF n4 [OF n3]] n5 [OF n4 [OF n3]]
    unfolding settle_cancel_def Let_def g1 [unfolded Let_def]
    by (auto simp: g1 g2 split: sum.splits option.splits prod.splits) (metis fst_conv)+
qed (simp add: settle_cancel_def Let_def grows_refl)

lemma cancel_replay_grows:
  "grows (tv_store env) (cq_ThreadID req) P r (fst (cancel_replay env r req))"
  "snd (cancel_replay env r req) = Inr None \<Longrightarrow> entryMetadata r (cq_ThreadID req) (cq_TerminalEntryID req) = Inr None"
  by (auto simp: cancel_replay_def Let_def grows_refl ensured_grows split: sum.splits option.splits if_splits)

lemma requested_mark: "Type x = EntryCancelRequested \<Longrightarrow> mark_ok es x"
  by (simp add: mark_ok_def turn_mark_def)

text \<open>The request itself leaves the turn open and the names free that settling it needs.\<close>

lemma requested_grows:
  fixes ctx env req now r
  assumes ok: "repo_ok (tv_store env) r" and free: "cancel_free env r req"
  defines "r2 \<equiv> fst (request_cancel ctx env req now r)"
  shows "grows (tv_store env) (cq_ThreadID req) mark_ok r r2 \<and> fail_free env r2 (cq_ThreadID req) (cq_TurnID req)
    \<and> open_turns (log r2 (cq_ThreadID req)) = open_turns (log r (cq_ThreadID req))
    \<and> (cq_TerminalEntryID req \<notin> ID ` set (log r (cq_ThreadID req)) \<longrightarrow>
        cq_TerminalEntryID req \<notin> ID ` set (log r2 (cq_ThreadID req)))"
proof -
  let ?t = "cq_ThreadID req" and ?turn = "cq_TurnID req" and ?i = "cq_TerminalEntryID req"
  note f = free [unfolded cancel_free_def] and ff = conjunct1 [OF free [unfolded cancel_free_def], unfolded fail_free_def]
  note q = request_cancel_grows [OF ok conjunct1 [OF conjunct2 [OF f]], of ctx now, folded r2_def]
  have g: "grows (tv_store env) ?t mark_ok r r2"
    by (rule grows_mono [OF conjunct1 [OF q]]) (simp add: requested_mark)
  show ?thesis
    using conjunct2 [OF q]
  proof
    assume "log r2 ?t = log r ?t"
    then show ?thesis using f g by (simp add: fail_free_def)
  next
    assume "\<exists>x. log r2 ?t = log r ?t @ [x] \<and> Type x = EntryCancelRequested \<and> ID x = cq_CancelEntryID req"
    then obtain x where x: "log r2 ?t = log r ?t @ [x]" "Type x = EntryCancelRequested" "ID x = cq_CancelEntryID req" by blast
    have n: "\<not> has_prefix p (ID x)" if "p \<in> set reserved_prefixes" for p
      using f that by (auto simp: x(3) caller_name_def list_ex_iff)
    have "steering_free env (log r2 ?t) ?turn" unfolding x(1)
      by (rule steering_free_snoc) (use ff n [of "''steer-resolved:''"] x(2) in \<open>auto simp: reserved_prefixes_def\<close>)
    moreover have "''turn-failure:'' @ ?turn \<noteq> ID x"
      using n [of "''turn-failure:''"] in_doubt_not [of "''turn-failure:''" ?turn] by (auto simp: reserved_prefixes_def)
    ultimately show ?thesis using x ff f g by (auto simp: fail_free_def open_turns_snoc turn_mark_def)
  qed
qed

lemma cancel_free_log: "log r' (cq_ThreadID req) = log r (cq_ThreadID req) \<Longrightarrow> cancel_free env r req \<Longrightarrow> cancel_free env r' req"
  by (simp add: cancel_free_def fail_free_def)

lemma cancel_replayed: "snd (cancel_replay env r req) = Inr (Some res) \<Longrightarrow> cr_Replayed res"
  by (auto simp: cancel_replay_def Let_def cancelled_before_def split: sum.splits option.splits if_splits)

lemma cancel_body_idle:
  assumes ok: "repo_ok (tv_store env) r" and idle: "open_turns (log r (cq_ThreadID req)) \<noteq> [cq_TurnID req]"
  shows "cancel_body ctx env r req = (fst (cancel_replay env r req), case snd (cancel_replay env r req) of
    Inl err \<Rightarrow> Inl err | Inr None \<Rightarrow> Inl ErrStaleAuthority | Inr (Some result) \<Rightarrow> Inr result)"
proof -
  have n1: "grows (tv_store env) (cq_ThreadID req) (\<lambda>_ _. False) r (fst (cancel_replay env r req))"
    by (rule cancel_replay_grows(1))
  have "runtimeActiveTurn (rp_journal (fst (cancel_replay env r req)) (cq_ThreadID req)) \<noteq> Some (cq_TurnID req)"
    using idle runtimeActive_indexed [OF repo_ok_indexed [OF grows_ok [OF n1 ok]]] by (simp add: quiet_log [OF n1])
  then show ?thesis by (auto simp: cancel_body_def Let_def split: prod.split sum.split option.split)
qed

lemma cancel_body_grows:
  assumes ok: "repo_ok (tv_store env) r"
    and names: "open_turns (log r (cq_ThreadID req)) = [cq_TurnID req] \<Longrightarrow> cancel_free env r req"
    and turn: "\<not> blank (cq_TurnID req)" "trim_space (cq_TurnID req) = cq_TurnID req"
  shows "grows (tv_store env) (cq_ThreadID req) mark_ok r (fst (cancel_body ctx env r req))"
proof (cases "open_turns (log r (cq_ThreadID req)) = [cq_TurnID req]")
  case False
  then show ?thesis using cancel_replay_grows(1) by (simp add: cancel_body_idle [OF ok])
next
  case True
  note free = names [OF True]
  let ?t = "cq_ThreadID req" and ?turn = "cq_TurnID req" and ?s = "tv_store env" and ?i = "cq_TerminalEntryID req"
  note f = free [unfolded cancel_free_def] and ff = conjunct1 [OF free [unfolded cancel_free_def], unfolded fail_free_def]
  have t: "trim_space ?t = ?t" using ff by (simp add: plain_thread_def)
  define now where "now = canonicalTime (tv_effects env) (cq_Now req)"
  obtain r1 v1 where c: "cancel_replay env r req = (r1, v1)" by fastforce
  have n1: "grows ?s ?t P r r1" for P using cancel_replay_grows(1) c by (metis fst_conv)
  have l1: "log r1 ?t = log r ?t" by (rule quiet_log [OF n1])
  have ok1: "repo_ok ?s r1" by (rule grows_ok [OF n1 ok])
  obtain r2 v2 where g2: "request_cancel ctx env req now r1 = (r2, v2)" by fastforce
  note q = requested_grows [OF ok1 cancel_free_log [OF l1 free], of ctx now, unfolded g2 fst_conv]
  have n2: "grows ?s ?t mark_ok r r2" by (rule grows_trans [OF conjunct1 [OF q] n1])
  have ok2: "repo_ok ?s r2" by (rule grows_ok [OF n2 ok])
  note after = conjunct2 [OF q, unfolded l1]
  define u where "u = \<lparr>uq_ThreadID = ?t, uq_TurnID = ?turn, uq_RunID = cq_RunID req, uq_Now = cq_Now req\<rparr>"
  have u: "trim_space (uq_ThreadID u) = ?t" "trim_space (uq_TurnID u) = ?turn" by (simp_all add: u_def t turn)
  obtain r3 v3 where g3: "failUnknownEffectTurn ctx env r2 u = (r3, v3)" by fastforce
  have "fail_free env r2 (trim_space (uq_ThreadID u)) (trim_space (uq_TurnID u))" unfolding u using after by blast
  note g = fail_grows [OF ok2 this, of ctx, unfolded g3 fst_conv snd_conv u]
  have n3: "grows ?s ?t mark_ok r r3" by (rule grows_trans [OF g(1) n2])
  have n4: "grows ?s ?t mark_ok r (fst (settle_cancel ctx env req now cancel r3))"
    if "v1 = Inr None" "runtimeActiveTurn (rp_journal r1 ?t) = Some ?turn" "thread r1 ?t \<noteq> None" "v3 = Inl err" for cancel err
  proof (rule grows_trans [OF _ n3])
    have r3: "r3 = r2" by (rule g(2) [OF that(4)])
    have new: "?i \<notin> ID ` set (log r ?t)"
      using metadata_missing [OF ok] cancel_replay_grows(2) [of env r req] c that(1) by simp
    have "open_turns (log r1 ?t) = [?turn]" using runtimeActive_indexed [OF repo_ok_indexed [OF ok1]] that(2) by blast
    then have o: "open_turns (log r2 ?t) = [?turn]" using after l1 by simp
    show "grows ?s ?t mark_ok r3 (fst (settle_cancel ctx env req now cancel r3))" unfolding r3
    proof (rule settle_cancel_grows [OF ok2 _ turn(1) o])
      show "thread r2 ?t \<noteq> None" using grows_live [OF n2] grows_live [OF n1] that(3) by blast
    qed (use after f new in blast)+
  qed
  show ?thesis
    using n1 n2 n3 n4 g2 g3 c
    unfolding cancel_body_def Let_def now_def [symmetric] u_def [symmetric]
    by (auto split: sum.splits option.splits)
qed

lemma CancelTurn_grows:
  assumes ok: "repo_ok (tv_store env) r"
    and free: "open_turns (log r (cq_ThreadID (trimmed_cancel req))) = [cq_TurnID (trimmed_cancel req)] \<Longrightarrow>
      cancel_free env r (trimmed_cancel req)"
  shows "grows (tv_store env) (trim_space (cq_ThreadID req)) mark_ok r (fst (CancelTurn ctx env r req))"
    "snd (CancelTurn ctx env r req) = Inl err \<Longrightarrow> fst (CancelTurn ctx env r req) = r"
proof -
  have t: "cq_ThreadID (trimmed_cancel req) = trim_space (cq_ThreadID req)" by (simp add: trimmed_cancel_def)
  have "grows (tv_store env) (trim_space (cq_ThreadID req)) mark_ok r (fst (CancelTurn ctx env r req))
      \<and> (snd (CancelTurn ctx env r req) = Inl err \<longrightarrow> fst (CancelTurn ctx env r req) = r)"
  proof (cases "ValidateCancelTurnRequest (tv_store env) req")
    case None
    then have "\<not> blank (cq_TurnID (trimmed_cancel req))"
      by (auto simp: ValidateCancelTurnRequest_def trimmed_cancel_def blank_def split: if_splits)
    then have g: "grows (tv_store env) (trim_space (cq_ThreadID req)) mark_ok r (fst (cancel_body ctx env r (trimmed_cancel req)))"
      using cancel_body_grows [OF ok free, of ctx] t by (simp add: trimmed_cancel_def)
    show ?thesis using undone_grows [OF g ok] by (simp add: CancelTurn_def None)
  qed (simp add: CancelTurn_def grows_refl)
  then show "grows (tv_store env) (trim_space (cq_ThreadID req)) mark_ok r (fst (CancelTurn ctx env r req))"
    "snd (CancelTurn ctx env r req) = Inl err \<Longrightarrow> fst (CancelTurn ctx env r req) = r" by simp_all
qed

end
