(* ===== verification/TurnHistory.thy ===== *)
theory TurnHistory
  imports TurnRun EffectFacts
begin

text \<open>
  Any sequence of operations on a repository: threads, journals, effects, provider output, goals and
  turns. The indexes stay those of the entries, the threads stay keyed and the turns of every
  journal stay in order.
\<close>

section \<open>A repository in order\<close>

definition in_order :: "store_env \<Rightarrow> repo \<Rightarrow> bool" where
  "in_order env r \<longleftrightarrow> repo_indexed env r \<and> keyed r \<and> (\<forall>t. orderly (log r t))"

lemma in_order_ok: "in_order env r \<Longrightarrow> repo_ok env r"
  using keyed_thread [of r] by (auto simp: in_order_def repo_ok_def)

lemma in_order_orderly: "in_order env r \<Longrightarrow> orderly (log r t)"
  by (simp add: in_order_def)

lemma grows_keyedness: "grows env t P r r' \<Longrightarrow> keyed r \<Longrightarrow> keyed r'"
  by (induction rule: grows.induct) (simp_all add: keyed_setThread)

lemma in_order_grows:
  assumes "grows env t P r r'" "in_order env r" "\<And>es e. P es e \<Longrightarrow> mark_ok es e"
  shows "in_order env r'"
  unfolding in_order_def
proof (intro conjI allI)
  show "repo_indexed env r'" using grows_indexed [OF assms(1)] assms(2) by (simp add: in_order_def)
  show "keyed r'" using grows_keyedness [OF assms(1)] assms(2) by (simp add: in_order_def)
  show "orderly (log r' k)" for k
    using grows_orderly [OF assms(1,3)] grows_other [OF assms(1), of k] assms(2)
    by (cases "k = t") (auto simp: in_order_def)
qed

lemmas in_order_marks = in_order_grows [where P = mark_ok]

lemma in_order_quiet: "grows env t (\<lambda>_ x. \<not> turn_mark x) r r' \<Longrightarrow> in_order env r \<Longrightarrow> in_order env r'"
  by (erule in_order_grows) (auto simp: mark_ok_def)

lemma in_order_undone:
  assumes "grows env t (\<lambda>_ x. \<not> turn_mark x) r r'" "in_order env r"
  shows "in_order env r' \<and> restore_checkpoint (checkpointJournalAppend r t) r' = r"
  using in_order_quiet [OF assms] grows_undone [OF assms(1)] assms(2) by (simp add: in_order_def)

lemma in_order_new: "in_order env newMemoryRepo"
  using repo_indexed_new new_store_ok by (auto simp: in_order_def store_ok_def newMemoryRepo_def empty_journal_def orderly_Nil)

section \<open>Threads and journals\<close>

lemma create_in_order: "in_order env r \<Longrightarrow> in_order env (fst (createThread clock r m))"
proof -
  assume o: "in_order env r"
  let ?n = "fst (fresh_id (length (rp_threads r)) (\<lambda>i. thread r i \<noteq> None) generated_thread_id (rp_seq r))"
  have "case snd (createThread clock r m) of
      Inl err \<Rightarrow> fst (createThread clock r m) \<in> {r, r\<lparr>rp_seq := ?n\<rparr>}
    | Inr x \<Rightarrow> fst (createThread clock r m) \<in> {setThread (tm_ID x) x r, setThread (tm_ID x) x (r\<lparr>rp_seq := ?n\<rparr>)}"
    by (simp add: createThread_def Let_def split: sum.split option.split)
  then have "keyed (fst (createThread clock r m)) \<and> rp_journal (fst (createThread clock r m)) = rp_journal r"
    using o by (auto simp: in_order_def keyed_setThread split: sum.splits)
  then show ?thesis using o create_keeps_indexed [of env r clock m] by (auto simp: in_order_def)
qed

lemma empty_log: "jn_entries empty_journal = []"
  by (simp add: empty_journal_def)

lemma delete_one_in_order: "in_order env r \<Longrightarrow> in_order env (delete_one root key fp now t r)"
  by (simp add: in_order_def repo_indexed_def keyed_delete_one delete_one_fields indexed_empty empty_log orderly_Nil)

lemma delete_all_in_order: "in_order env r \<Longrightarrow> in_order env (fold (delete_one root key fp now) ids r)"
  by (induction ids arbitrary: r) (simp_all add: delete_one_in_order)

lemma update_in_order: "in_order env r \<Longrightarrow> tm_ID m = t \<Longrightarrow> in_order env (setThread t m r)"
  by (simp add: in_order_def keyed_setThread)

lemma title_in_order: "in_order env r \<Longrightarrow> in_order env (fst (titleOperation r q))"
proof -
  assume o: "in_order env r"
  have "in_order env (setThread t m' r)"
    if "thread r t = Some m" "guarded_update ValidateThreadTitleState ErrAuthorityCorrupt (title_transition q) m = Inr (m', True)" for t m m'
    using o that in_order_ok [OF o]
    by (intro update_in_order) (auto simp: repo_ok_def guarded_update_changed dest: title_transition_frame)
  then show ?thesis using o by (auto simp: titleOperation_def mutateThreadTitle_def split: option.splits sum.splits)
qed

lemma store_in_order: "in_order env r \<Longrightarrow> in_order env (store_step op r)"
proof (cases op)
  case (CreateOp clock m)
  then show "in_order env r \<Longrightarrow> ?thesis" by (simp add: create_in_order)
next
  case (UpdateOp clock m)
  then show "in_order env r \<Longrightarrow> ?thesis" by (simp add: UpdateThread_def update_in_order split: option.splits)
next
  case (TitleOp q)
  then show "in_order env r \<Longrightarrow> ?thesis" by (simp add: title_in_order)
next
  case (DeleteOp clock root key fp)
  then show "in_order env r \<Longrightarrow> ?thesis"
    by (simp add: DeleteRootTreeWithRequest_def deleteRootTree_def delete_live_def Let_def delete_all_in_order
        split: option.splits sum.splits)
qed

lemma facts_grow:
  assumes "repo_ok env r" "thread r t \<noteq> None" "list_all (\<lambda>e. \<not> turn_mark e) es"
  shows "grows env t (\<lambda>_ x. \<not> turn_mark x) r (fst (append_facts ctx env t r es))"
  using assms
proof (induction es arbitrary: r)
  case (Cons e es)
  let ?o = "\<lparr>ao_ID = ID e, ao_ParentID = '''', ao_Now = 0\<rparr>"
  obtain r1 v where a: "appendFact ctx env r (e\<lparr>ThreadID := t\<rparr>) ?o False = (r1, v)" by fastforce
  have g: "grows env t (\<lambda>_ x. \<not> turn_mark x) r r1"
    using append_grows [where P = "\<lambda>_ x. \<not> turn_mark x" and e = "e\<lparr>ThreadID := t\<rparr>" and opts = ?o
        and ctx = ctx and allow = False, OF Cons.prems(1)] Cons.prems(3)
    unfolding a by (simp add: kept_of_def turn_mark_def)
  show ?case
  proof (cases v)
    case (Inr saved)
    have g2: "grows env t (\<lambda>_ x. \<not> turn_mark x) r (reanchor t saved r1)"
      using g grows_thread [OF g] grows_provider [OF g] by (auto simp: reanchor_def split: option.splits)
    have "grows env t (\<lambda>_ x. \<not> turn_mark x) (reanchor t saved r1) (fst (append_facts ctx env t (reanchor t saved r1) es))"
      using Cons.prems grows_ok [OF g2] grows_live [OF g2] by (intro Cons.IH) auto
    then show ?thesis using a Inr grows_trans [OF _ g2] by (auto split: prod.splits sum.splits)
  qed (use a g in simp)
qed (simp add: grows_refl)

lemma facts_in_order:
  assumes o: "in_order env r" and m: "list_all (\<lambda>e. \<not> turn_mark e) es"
  shows "in_order env (fst (AppendRuntimeFacts ctx env r t0 es))"
proof -
  let ?t = "trim_space t0"
  define r1 where "r1 = (if list_ex steering_fact es then setJournal ?t (ensureTurnMarkers (rp_journal r ?t)) r else r)"
  have g: "grows env ?t (\<lambda>_ x. \<not> turn_mark x) r r1"
    using ensured_grows grows_refl by (auto simp: r1_def ensured_def)
  have o1: "in_order env r1" by (rule in_order_quiet [OF g o])
  have "fst (AppendRuntimeFacts ctx env r t0 es) \<in> {r, r1} \<or> thread r ?t \<noteq> None
      \<and> (fst (AppendRuntimeFacts ctx env r t0 es) = fst (append_facts ctx env ?t r1 es)
        \<or> fst (AppendRuntimeFacts ctx env r t0 es)
            = restore_checkpoint (checkpointJournalAppend r1 ?t) (fst (append_facts ctx env ?t r1 es)))"
    by (auto simp: AppendRuntimeFacts_def Let_def r1_def split: if_splits sum.splits prod.splits)
  moreover have "in_order env (fst (append_facts ctx env ?t r1 es))
      \<and> restore_checkpoint (checkpointJournalAppend r1 ?t) (fst (append_facts ctx env ?t r1 es)) = r1"
    if "thread r ?t \<noteq> None"
  proof -
    have "thread r1 ?t \<noteq> None" using grows_live [OF g] that by blast
    from in_order_undone [OF facts_grow [OF in_order_ok [OF o1] this m, of ctx] o1] show ?thesis .
  qed
  ultimately show ?thesis using o o1 by auto
qed

fun journal_free :: "repo \<Rightarrow> journal_op \<Rightarrow> bool" where
  "journal_free r (journal_op.AppendOp e opts allow) \<longleftrightarrow> \<not> turn_mark e
     \<or> TurnStatus e = TurnSavePoint \<and> open_turns (log r (ThreadID e)) = [TurnID e]"
| "journal_free r (FactsOp t es) \<longleftrightarrow> list_all (\<lambda>e. \<not> turn_mark e) es"
| "journal_free r _ \<longleftrightarrow> True"

lemma append_in_order:
  assumes "in_order env r" "\<not> turn_mark e \<or> TurnStatus e = TurnSavePoint \<and> open_turns (log r (ThreadID e)) = [TurnID e]"
  shows "in_order env (fst (appendFact ctx env r e opts allow))"
proof -
  have "\<not> turn_mark x \<or> TurnStatus x = TurnSavePoint \<and> open_turns (log r (ThreadID e)) = [TurnID x]" if "kept_of e x" for x
    using that assms(2) by (auto simp: kept_of_def turn_mark_def)
  then have "mark_ok (log r (ThreadID e)) x" if "kept_of e x" for x using that by (auto simp: mark_ok_def)
  then have "grows env (ThreadID e) mark_ok r (fst (appendFact ctx env r e opts allow))"
    using append_grows [where P = mark_ok, OF in_order_ok [OF assms(1)] refl] by blast
  then show ?thesis using in_order_marks assms(1) by blast
qed

lemma move_in_order: "in_order env r \<Longrightarrow> in_order env (fst (MoveLeaf env r t i))"
  using in_order_ok [of env r] by (auto simp: MoveLeaf_def repo_ok_def update_in_order split: option.splits)

lemma read_in_order: "in_order env r \<Longrightarrow> in_order env (fst (canonicalPath ctx (ValidateEntryIntegrity env) r t leaf))"
  by (rule in_order_quiet [OF read_grows])

lemma journal_in_order: "in_order env r \<Longrightarrow> journal_free r op \<Longrightarrow> in_order env (journal_step ctx env op r)"
proof (induction ctx env op r rule: journal_step.induct)
  case (6 ctx env t r)
  then show ?case using in_order_quiet [OF ensured_grows] by (simp add: ensured_def)
qed (simp_all add: store_in_order append_in_order facts_in_order move_in_order read_in_order)

section \<open>Effects\<close>

lemma attempt_grows:
  assumes "tm_ID meta = t" "thread r t \<noteq> None" "iv_ThreadID (ea_Invocation att) = t"
  shows "grows (ee_store env) t (\<lambda>_ x. \<not> turn_mark x) r (fst (appendEffectAttempt env meta att r))"
proof -
  have "snd (fst (append_effect env att (meta, r))) = fst (appendEffectAttempt env meta att r)"
    by (simp add: append_effect_def Let_def split: prod.splits)
  moreover have "grows (ee_store env) t (\<lambda>_ x. \<not> turn_mark x) r (snd (fst (append_effect env att (meta, r))))"
    by (rule grows_mono [OF conjunct1 [OF append_effect_grows [OF assms]]]) (simp add: closing_def settles_no_mark)
  ultimately show ?thesis by simp
qed

text \<open>An attempt is found in the journal of its thread.\<close>

lemma found_thread:
  assumes ok: "repo_ok (ee_store env) r" and f: "find_attempt env r a = Inr att"
  shows "thread r (iv_ThreadID (ea_Invocation att)) \<noteq> None"
proof -
  obtain t where t: "list_find (\<lambda>t. latestEffectAttempt env (log r t) a \<noteq> None) (map fst (rp_threads r)) = Some t"
    using f by (auto simp: find_attempt_def entriesByEffectAttempt_def latestEffectAttempt_def split: option.splits)
  then have l: "latestEffectAttempt env (log r t) a = Some (Inr att)"
    using f by (auto simp: find_attempt_def entriesByEffectAttempt_def split: option.splits)
  have t: "t \<in> fst ` set (rp_threads r)" using list_find_Some [OF t] by auto
  from l obtain e where "e \<in> set (log r t)" "decodeEffectAttempt env e = Inr att"
    by (auto simp: latestEffectAttempt_def dest!: list_find_Some)
  then have "iv_ThreadID (ea_Invocation att) = t"
    using decoded_thread repo_ok_indexed [OF ok, of t] by (auto simp: indexed_def Let_def)
  then show ?thesis using t by (auto simp: thread_def map_of_eq_None_iff)
qed

lemma commit_attempt_grows:
  assumes ok: "repo_ok (ee_store env) r" and "iv_ThreadID (ea_Invocation att) = t" "thread r t \<noteq> None"
  shows "grows (ee_store env) t (\<lambda>_ x. \<not> turn_mark x) r (fst (commit_attempt env att r))"
proof -
  have "tm_ID (meta_of r t) = t" by (rule live_meta [OF ok assms(3)])
  from attempt_grows [OF this assms(3,2)] show ?thesis
    using assms(2) by (auto simp: commit_attempt_def split: prod.splits option.splits) (metis fst_conv)+
qed

lemma prepare_in_order: "in_order (ee_store env) r \<Longrightarrow> in_order (ee_store env) (fst (PrepareEffectAttempt env r q))"
proof -
  assume o: "in_order (ee_store env) r"
  let ?t = "iv_ThreadID (pe_Invocation q)"
  have g: "grows (ee_store env) ?t P r (ensured ?t r)" for P by (rule ensured_grows)
  have "grows (ee_store env) ?t (\<lambda>_ x. \<not> turn_mark x) r (fst (appendEffectAttempt env meta (prepared env q) (ensured ?t r)))"
    if "thread r ?t = Some meta" for meta
  proof (rule grows_trans [OF attempt_grows g])
    show "tm_ID meta = ?t" using in_order_ok [OF o] that by (simp add: repo_ok_def)
    show "thread (ensured ?t r) ?t \<noteq> None" using that by (simp add: ensured_def)
    show "iv_ThreadID (ea_Invocation (prepared env q)) = ?t" by (simp add: prepared_def Let_def)
  qed
  then have "grows (ee_store env) ?t (\<lambda>_ x. \<not> turn_mark x) r (fst (PrepareEffectAttempt env r q))"
    using g grows_refl by (auto simp: PrepareEffectAttempt_def Let_def split: option.splits sum.splits prod.splits)
  then show ?thesis using in_order_quiet o by blast
qed

lemma reject_in_order: "in_order (ee_store env) r \<Longrightarrow> in_order (ee_store env) (fst (RejectEffectAttempt env r q))"
proof -
  assume o: "in_order (ee_store env) r"
  have "in_order (ee_store env) (fst (commit_attempt env (att\<lparr>ea_State := s, ea_RejectionCode := c,
      ea_TerminalFingerprint := f, ea_UpdatedAt := n\<rparr>) r))"
    if "find_attempt env r a = Inr att" for a att s c f n
    using in_order_quiet [OF commit_attempt_grows o] found_thread [OF in_order_ok [OF o] that] in_order_ok [OF o] by simp
  then show ?thesis using o by (auto simp: RejectEffectAttempt_def Let_def split: sum.splits)
qed

lemma begin_in_order: "in_order (ee_store env) r \<Longrightarrow> in_order (ee_store env) (fst (BeginEffectDispatch env r q))"
proof -
  assume o: "in_order (ee_store env) r"
  have e: "in_order (ee_store env) (ensured t r)" for t by (rule in_order_quiet [OF ensured_grows o])
  have "in_order (ee_store env) (fst (commit_attempt env (att\<lparr>ea_State := s, ea_UpdatedAt := n\<rparr>)
      (ensured (iv_ThreadID (ea_Invocation att)) r)))"
    if "find_attempt env r a = Inr att" for a att s n
    using in_order_quiet [OF commit_attempt_grows e] found_thread [OF in_order_ok [OF o] that] in_order_ok [OF e]
    by (simp add: ensured_def)
  then show ?thesis using o e by (auto simp: BeginEffectDispatch_def Let_def split: sum.splits)
qed

lemma artifact_in_order: "in_order env r \<Longrightarrow> in_order env (setArtifact k a r)"
  by (simp add: in_order_def repo_indexed_def setArtifact_def keyed_def thread_def)

lemma retained:
  "retain_output env meta att out e r = Inr (r2, e1, ref) \<Longrightarrow>
    (r2 = r \<or> (\<exists>k a. r2 = setArtifact k a r)) \<and> ID e1 = ID e \<and> ThreadID e1 = ThreadID e \<and> Type e1 = Type e"
  by (auto simp: retain_output_def Let_def with_output_def split: option.splits sum.splits if_splits)

lemma finish_effect_in_order: "in_order (ee_store env) r \<Longrightarrow> in_order (ee_store env) (fst (FinishEffectDispatch env r q))"
proof -
  assume o: "in_order (ee_store env) r"
  let ?s = "ee_store env" and ?Q = "\<lambda>_ x. \<not> turn_mark x"
  have e: "in_order ?s (ensured t r)" for t by (rule in_order_quiet [OF ensured_grows o])
  have "in_order ?s (fst (commit_finish env att q (ensured (iv_ThreadID (ea_Invocation att)) r)))"
    if f: "find_attempt env r a = Inr att" and c: "finish_check att (fi_Result q)" for a att
  proof -
    let ?t = "iv_ThreadID (ea_Invocation att)"
    define r0 where "r0 = ensured ?t r"
    have o0: "in_order ?s r0" unfolding r0_def by (rule e)
    note ok0 = in_order_ok [OF o0]
    have live: "thread r0 ?t \<noteq> None" using found_thread [OF in_order_ok [OF o] f] by (simp add: r0_def ensured_def)
    have m: "tm_ID (meta_of r0 ?t) = ?t" by (rule live_meta [OF ok0 live])
    define gen where "gen = nextEntryID (rp_journal r0 ?t) ?t (rp_seq r0)"
    have n: "snd gen \<notin> ID ` set (log r0 ?t)" "snd gen \<noteq> ''''" "rp_seq r0 < fst gen"
      using next_unused [OF repo_ok_indexed [OF ok0]] ok0 by (auto simp: gen_def repo_ok_def repo_indexed_def)
    define r1 where "r1 = r0\<lparr>rp_seq := fst gen\<rparr>"
    have "grows ?s ?t ?Q r0 r1" unfolding r1_def by (rule grows_seq [OF grows_refl]) (use n in simp)
    then have o1: "in_order ?s r1" using in_order_quiet o0 by blast
    have go: "in_order ?s (fst (appendEffectAttempt env (m'\<lparr>tm_LeafID := i, tm_UpdatedAt := u\<rparr>) att' (commit_at ?s m' r2 x)))"
      if o2: "in_order ?s r2" and m': "m' = meta_of r0 ?t" and l: "log r2 ?t = log r0 ?t" "thread r2 = thread r0"
        and x: "ID x = snd gen" "ThreadID x = ?t" "\<not> turn_mark x" and a': "iv_ThreadID (ea_Invocation att') = ?t"
      for r2 x m' i u att'
    proof -
      have g: "grows ?s ?t ?Q r2 (commit_at ?s m' r2 x)"
        by (rule commit_at_grows) (use m m' live l x n in simp_all)
      from grows_trans [OF attempt_grows g] have "grows ?s ?t ?Q r2
          (fst (appendEffectAttempt env (m'\<lparr>tm_LeafID := i, tm_UpdatedAt := u\<rparr>) att' (commit_at ?s m' r2 x)))"
        using m m' live l grows_live [OF g] a' by simp
      then show ?thesis using in_order_quiet o2 by blast
    qed
    have res: "ID (result_entry env mm att q i) = i \<and> ThreadID (result_entry env mm att q i) = ?t
        \<and> Type (result_entry env mm att q i) = EntryToolResult" for mm i
      using c by (simp add: result_entry_def finish_check_def Let_def)
    define m0 where "m0 = meta_of r0 ?t"
    define e0 where "e0 = result_entry env m0 att q (snd gen)"
    show ?thesis
    proof (cases "retain_output env m0 att (fi_FullOutput q) e0 r1")
      case (Inl err)
      then show ?thesis using o1
        by (simp add: commit_finish_def Let_def r0_def [symmetric] m0_def [symmetric] e0_def [symmetric] gen_def [symmetric]
            r1_def [symmetric] m [folded m0_def])
    next
      case (Inr p)
      obtain r2 e1 ref where p: "p = (r2, e1, ref)" by (cases p)
      note k = retained [OF Inr [unfolded p]]
      define x where "x = sealed_entry ?s e1"
      have i: "ID x = ID e1" by (simp add: x_def)
      have "in_order ?s r2" "log r2 ?t = log r0 ?t" "thread r2 = thread r0"
        using k o1 artifact_in_order [OF o1] by (auto simp: r1_def setArtifact_def thread_def)
      moreover have "ID x = snd gen" "ThreadID x = ?t" "\<not> turn_mark x"
        using k res [of m0 "snd gen"] by (simp_all add: x_def e0_def turn_mark_def sealed_entry_def)
      ultimately have "in_order ?s (fst (appendEffectAttempt env (m0\<lparr>tm_LeafID := ID x, tm_UpdatedAt := CreatedAt x\<rparr>)
          (att\<lparr>ea_State := want_state q, ea_TerminalFingerprint := trim_space (fi_OutcomeFingerprint q),
            ea_ResultEntryID := ID x, ea_UpdatedAt := CreatedAt x\<rparr>) (commit_at ?s m0 r2 x)))"
        by (intro go) (simp_all add: m0_def)
      then show ?thesis
        unfolding commit_finish_def Let_def r0_def [symmetric] m0_def [symmetric] gen_def [symmetric]
          m [folded m0_def] r1_def [symmetric] e0_def [symmetric] i
        by (simp add: gen_def [symmetric] r1_def [symmetric] e0_def [symmetric] Inr p x_def [symmetric] split: prod.split option.split)
          auto
    qed
  qed
  then show ?thesis using o e by (auto simp: FinishEffectDispatch_def Let_def split: sum.splits)
qed

section \<open>Host work\<close>

lemma work_unmarked:
  "bindHostWorkEntry env w path = Inr e \<Longrightarrow> \<not> turn_mark e"
  "settleHostWorkEntry senv req path = Inr (e, w', b) \<Longrightarrow> \<not> turn_mark e"
  "hostWorkAdmission senv path t turn run = Inr (Some e) \<Longrightarrow> \<not> turn_mark e"
  by (auto simp: bindHostWorkEntry_def settleHostWorkEntry_def hostWorkAdmission_def Let_def turn_mark_def
      work_entry_def settlement_entry_def admission_entry_def split: sum.splits option.splits if_splits prod.splits)

lemma bind_in_order: "in_order (ee_store env) r \<Longrightarrow> in_order (ee_store env) (fst (BindHostWork ctx env r w))"
proof -
  assume o: "in_order (ee_store env) r"
  have "in_order (ee_store env) (fst (appendFact ctx (ee_store env) (ensured t (fst (canonicalPath ctx
      (ValidateEntryIntegrity (ee_store env)) r k leaf))) e opts False))" if "\<not> turn_mark e" for t k leaf e opts
    using append_in_order in_order_quiet [OF ensured_grows] read_in_order o that by blast
  moreover have "in_order (ee_store env) (ensured t (fst (canonicalPath ctx (ValidateEntryIntegrity (ee_store env)) r k leaf)))" for t k leaf
    using in_order_quiet [OF ensured_grows] read_in_order o by blast
  moreover note read_in_order [OF o, of ctx]
  ultimately show ?thesis using o
    by (auto simp: BindHostWork_def Let_def dest: work_unmarked split: option.splits sum.splits prod.splits) (metis fst_conv work_unmarked(1))+
qed

lemma settle_in_order: "in_order env r \<Longrightarrow> in_order env (fst (SettleHostWork ctx env r req))"
proof -
  assume o: "in_order env r"
  have "in_order env (fst (appendFact ctx env (fst (canonicalPath ctx (ValidateEntryIntegrity env) r k leaf)) e opts True))"
    if "\<not> turn_mark e" for k leaf e opts
    using append_in_order read_in_order o that by blast
  moreover note read_in_order [OF o, of ctx] artifact_in_order
  ultimately show ?thesis using o
    by (auto simp: SettleHostWork_def Let_def split: option.splits sum.splits prod.splits) (metis fst_conv work_unmarked(2))+
qed

lemma admit_in_order: "in_order env r \<Longrightarrow> in_order env (fst (AdmitHostWork ctx env r t turn run))"
proof -
  assume o: "in_order env r"
  have e: "in_order env (ensured t r)" by (rule in_order_quiet [OF ensured_grows o])
  have "in_order env (fst (appendFact ctx env (fst (canonicalPath ctx (ValidateEntryIntegrity env) (ensured t r) k leaf)) e opts False))"
    if "\<not> turn_mark e" for k leaf e opts
    using append_in_order read_in_order e that by blast
  moreover note read_in_order [OF e, of ctx]
  ultimately show ?thesis using o e
    by (auto simp: AdmitHostWork_def Let_def split: option.splits sum.splits prod.splits) (metis fst_conv work_unmarked(3))+
qed

lemma stops_grow:
  assumes "repo_ok env r" "list_all (\<lambda>e. ThreadID e = t \<and> \<not> turn_mark e) es"
  shows "grows env t (\<lambda>_ x. \<not> turn_mark x) r (fst (append_stops ctx env r es))"
  using assms
proof (induction es arbitrary: r)
  case (Cons e es)
  obtain r1 v where a: "appendFact ctx env r e no_options True = (r1, v)" by fastforce
  have g: "grows env t (\<lambda>_ x. \<not> turn_mark x) r r1"
    using append_grows [where P = "\<lambda>_ x. \<not> turn_mark x" and e = e and opts = no_options and t = t
        and ctx = ctx and allow = True, OF Cons.prems(1)] Cons.prems(2)
    unfolding a by (simp add: kept_of_def turn_mark_def)
  have "grows env t (\<lambda>_ x. \<not> turn_mark x) r1 (fst (append_stops ctx env r1 es))"
    using Cons.prems grows_ok [OF g] by (intro Cons.IH) auto
  then show ?case using g a grows_trans [OF _ g] by (auto split: sum.splits)
qed (simp add: grows_refl)

lemma stop_in_order: "in_order env r \<Longrightarrow> in_order env (fst (StopHostWork ctx env r t))"
proof -
  assume o: "in_order env r"
  define r1 where "r1 = fst (current_path ctx env r t)"
  have o1: "in_order env r1"
    using o read_in_order by (simp add: r1_def current_path_def split: option.splits)
  have "in_order env (fst (append_stops ctx env r1 es))
      \<and> restore_checkpoint (checkpointJournalAppend r1 t) (fst (append_stops ctx env r1 es)) = r1"
    if "hostWorkStops env path t = Inr es" for path es
  proof -
    have "list_all (\<lambda>e. ThreadID e = t \<and> \<not> turn_mark e) (stop_loop env t ad st ws)" for ad st ws
      by (induction env t ad st ws rule: stop_loop.induct) (simp_all add: stop_entry_def turn_mark_def)
    then have "list_all (\<lambda>e. ThreadID e = t \<and> \<not> turn_mark e) es"
      using that by (auto simp: hostWorkStops_def split: sum.splits)
    from in_order_undone [OF stops_grow [OF in_order_ok [OF o1] this, of ctx] o1] show ?thesis .
  qed
  then show ?thesis using o1 unfolding r1_def
    by (cases "current_path ctx env r t") (auto simp: StopHostWork_def split: sum.splits prod.splits option.splits, (metis fst_conv)+)
qed

section \<open>Provider output and goals\<close>

lemma output_in_order: "in_order (tv_store env) r \<Longrightarrow> in_order (tv_store env) (fst (CommitProviderContext ctx env r req))"
proof -
  assume o: "in_order (tv_store env) r"
  let ?t = "pc_ThreadID req" and ?s = "tv_store env" and ?Q = "\<lambda>_ x. \<not> turn_mark x"
  let ?r1 = "ensured ?t r"
  have g1: "grows ?s ?t ?Q r ?r1" by (rule ensured_grows)
  have o1: "in_order ?s ?r1" by (rule in_order_quiet [OF g1 o])
  have "grows ?s ?t ?Q ?r1 (fst (install_output ctx env req ?r1))"
    if "list_all (output_entry_ok req) (pc_Entries req)"
  proof -
    have "ThreadID e = ?t \<and> \<not> turn_mark e" if e: "e \<in> set (pc_Entries req)" for e
    proof -
      have "output_entry_ok req e" using e \<open>list_all _ _\<close> by (simp add: list_all_iff)
      then show ?thesis by (auto simp: output_entry_ok_def turn_mark_def)
    qed
    note out = this
    have g: "grows ?s ?t ?Q ?r1 (fst (append_output ctx ?s (pc_Now req) (pc_Entries req) ?r1))"
      by (rule output_grows [OF in_order_ok [OF o1] out])
    obtain r2 v where a: "append_output ctx ?s (pc_Now req) (pc_Entries req) ?r1 = (r2, v)" by fastforce
    have "grows ?s ?t ?Q ?r1 r2" using g a by simp
    then show ?thesis using grows_provider
      by (auto simp: install_output_def Let_def a split: sum.splits option.splits)
  qed
  then have "in_order ?s (fst (undone_on_error ?t ?r1 (install_output ctx env req ?r1)))"
    if "list_all (output_entry_ok req) (pc_Entries req)"
    using that in_order_quiet [OF undone_grows(1) o1] in_order_ok [OF o1] by blast
  moreover have "in_order ?s (deleteProviderState ?t ?r1)"
    by (rule in_order_quiet [OF grows_no_provider [OF g1] o])
  ultimately show ?thesis using o o1
    by (auto simp: CommitProviderContext_def Let_def split: option.splits)
qed

definition goal_like :: "string \<Rightarrow> entry list \<Rightarrow> entry \<Rightarrow> bool" where
  "goal_like i es e \<longleftrightarrow> \<not> turn_mark e \<and> ID e = i"

lemma goal_grows:
  assumes ok: "repo_ok (ee_store env) r"
  shows "grows (ee_store env) (gm_ThreadID m) (goal_like (goal_entry_id (ee_store env) m)) r (fst (mutateGoal ctx env gx r m))"
proof -
  let ?t = "gm_ThreadID m" and ?s = "ee_store env" and ?i = "goal_entry_id (ee_store env) m"
  let ?P = "goal_like ?i"
  have i: "?i \<noteq> ''''" by (simp add: goal_entry_id_def)
  have read: "grows ?s ?t P r (fst (canonicalPath background (ValidateEntryIntegrity ?s) r ?t leaf))" for P leaf
    by (rule read_grows)
  have add: "grows ?s ?t ?P r' (fst (append_goal ctx env gx m fp nx r'))" if "repo_ok ?s r'" for fp nx r'
  proof -
    define e where "e = zero_entry\<lparr>ID := ?i, ThreadID := ?t, TurnID := gm_TurnID m, RunID := gm_RunID m,
      Type := EntryGoal, RequestKey := gm_RequestKey m, RequestFingerprint := fp,
      Payload := gx_change_json gx \<lparr>gc_State = nx, gc_Operation = gm_Operation m, gc_Reason = gm_Reason m\<rparr>\<rparr>"
    have "?P (log r' ?t) x" if "kept_of e x" "named ?t (no_options\<lparr>ao_ID := ?i\<rparr>) e x" for x
      using that i by (simp add: goal_like_def kept_of_def turn_mark_def e_def named_def wanted_id_def)
    moreover have "ThreadID e = ?t" by (simp add: e_def)
    ultimately have "grows ?s ?t ?P r' (fst (appendFact ctx ?s r' e (no_options\<lparr>ao_ID := ?i\<rparr>) False))"
      using append_grows [OF that] by blast
    then show ?thesis unfolding append_goal_def Let_def e_def [symmetric]
      by (simp split: prod.split sum.split) (metis fst_conv)
  qed
  have go: "grows ?s ?t ?P r (fst (append_goal ctx env gx m fp nx r'))" if g: "grows ?s ?t ?P r r'" for fp nx r'
    by (rule grows_trans [OF add [OF grows_ok [OF g ok]] g])
  have e: "grows ?s ?t ?P r (ensured ?t r')" if g: "grows ?s ?t ?P r r'" for r'
    by (rule grows_trans [OF ensured_grows g])
  show ?thesis
  proof (cases "thread r ?t")
    case (Some meta)
    obtain r1 v where c: "canonicalPath background (ValidateEntryIntegrity ?s) r ?t (tm_LeafID meta) = (r1, v)" by fastforce
    have g: "grows ?s ?t ?P r r1" using read [of ?P "tm_LeafID meta"] by (simp add: c)
    show ?thesis using Some c g go [OF g] go [OF e [OF g]] e [OF g] grows_refl
      by (auto simp: mutateGoal_def Let_def split: sum.splits option.splits)
  qed (simp add: mutateGoal_def Let_def grows_refl)
qed

lemma goal_in_order: "in_order (ee_store env) r \<Longrightarrow> in_order (ee_store env) (fst (mutateGoal ctx env gx r m))"
  by (rule in_order_grows [OF goal_grows [OF in_order_ok]]) (auto simp: goal_like_def mark_ok_def)

lemma accept_in_order:
  assumes "in_order (tv_store env) r" "accept_free r req"
  shows "in_order (tv_store env) (fst (acceptTurn env r req))"
  by (rule in_order_marks [OF acceptTurn_grows [OF in_order_ok [OF assms(1)] in_order_orderly [OF assms(1)] assms(2)] assms(1)])

text \<open>The goal entry takes none of the names the admission needs.\<close>

lemma goal_leaves_free:
  assumes g: "grows env t (goal_like (goal_entry_id senv m)) r r'" and t: "aq_ThreadID req = t" and f: "accept_free r req"
  shows "accept_free r' req"
proof -
  have "i \<in> ID ` set (log r t)" if "i \<in> ID ` set (log r' t)" "i \<noteq> goal_entry_id senv m" for i
    using grows_names [OF g, where N = "\<lambda>i. i = goal_entry_id senv m" and i = i] that by (simp add: goal_like_def)
  moreover have "runtimeUserEntryID (aq_LogicalRequestID req) \<noteq> goal_entry_id senv m"
    "''queue-promoted:'' @ aq_PromotedQueueID req \<noteq> goal_entry_id senv m"
    by (simp_all add: runtimeUserEntryID_def goal_entry_id_def)
  moreover have "i \<in> ID ` set (log r' t)" if "i \<in> ID ` set (log r t)" for i
    by (rule grows_inv [OF g, where J = "\<lambda>es. i \<in> ID ` set es"]) (use that in auto)
  moreover have "open_turns (log r' t) = open_turns (log r t)"
    by (rule unmarked_open(1) [OF g]) (simp add: goal_like_def)
  ultimately show ?thesis using f t unfolding accept_free_def Let_def by metis
qed

text \<open>A submission grows its thread: by the goal and by the turn it starts.\<close>

lemma submit_body_grows:
  assumes o: "in_order (tv_store env) r" and t: "gm_ThreadID m = aq_ThreadID q" and f: "accept_free r q"
  shows "grows (tv_store env) (aq_ThreadID q) mark_ok r (fst (submit_body ctx env m q r))"
proof -
  let ?t = "aq_ThreadID q" and ?s = "tv_store env"
  obtain r1 v where g: "mutateGoal ctx (tv_effects env) (tv_goals env) r m = (r1, v)" by fastforce
  have n1: "grows ?s ?t (goal_like (goal_entry_id ?s m)) r r1"
    using goal_grows [OF in_order_ok [OF o], of m ctx "tv_goals env"] g t by simp
  then have m1: "grows ?s ?t mark_ok r r1" by (rule grows_mono) (simp add: goal_like_def mark_ok_def)
  have e: "grows ?s ?t P r1 (ensured ?t r1)" for P by (rule ensured_grows)
  have m2: "grows ?s ?t mark_ok r (ensured ?t r1)" by (rule grows_trans [OF e m1])
  have o2: "in_order ?s (ensured ?t r1)" by (rule in_order_marks [OF m2 o])
  have "accept_free (ensured ?t r1) q" by (rule goal_leaves_free [OF grows_trans [OF e n1] refl f])
  from grows_trans [OF acceptTurn_grows [OF in_order_ok [OF o2] in_order_orderly [OF o2] this] m2]
  show ?thesis using g m1 m2 t
    by (auto simp: submit_body_def Let_def split: sum.splits prod.splits) 
qed

lemma submit_in_order:
  assumes o: "in_order (tv_store env) r" and f: "accept_free r (gb_Turn g)"
  shows "in_order (tv_store env) (fst (SubmitGoal ctx env r g))"
proof -
  let ?m = "(gb_Mutation g)\<lparr>gm_Reason := ''User submitted goal.''\<rparr>" and ?q = "gb_Turn g"
  have "in_order (tv_store env) (fst (undone_on_error (gm_ThreadID ?m) r (submit_body ctx env ?m ?q r)))"
    if "submission_ok g"
  proof -
    have t: "gm_ThreadID ?m = aq_ThreadID ?q" using that by (simp add: submission_ok_def Let_def)
    from submit_body_grows [OF o t f] have "grows (tv_store env) (gm_ThreadID ?m) mark_ok r (fst (submit_body ctx env ?m ?q r))"
      using t by simp
    from in_order_marks [OF undone_grows(1) [OF this in_order_ok [OF o]] o] show ?thesis .
  qed
  then show ?thesis using o by (auto simp: SubmitGoal_def Let_def split: option.splits)
qed

lemma submit_refused:
  assumes o: "in_order (tv_store env) r" and f: "accept_free r (gb_Turn g)"
    and e: "snd (SubmitGoal ctx env r g) = Inl err"
  shows "fst (SubmitGoal ctx env r g) = r"
proof -
  let ?m = "(gb_Mutation g)\<lparr>gm_Reason := ''User submitted goal.''\<rparr>" and ?q = "gb_Turn g"
  have "snd (undone_on_error (gm_ThreadID ?m) r (submit_body ctx env ?m ?q r)) = Inl err
      \<longrightarrow> fst (undone_on_error (gm_ThreadID ?m) r (submit_body ctx env ?m ?q r)) = r"
    if "submission_ok g"
  proof -
    have t: "gm_ThreadID ?m = aq_ThreadID ?q" using that by (simp add: submission_ok_def Let_def)
    from submit_body_grows [OF o t f] have "grows (tv_store env) (gm_ThreadID ?m) mark_ok r (fst (submit_body ctx env ?m ?q r))"
      using t by simp
    from undone_grows(2) [OF this in_order_ok [OF o]] show ?thesis by blast
  qed
  then show ?thesis using e by (auto simp: SubmitGoal_def Let_def split: option.splits if_splits)
qed

lemma review_in_order:
  "in_order (ee_store env) r \<Longrightarrow> in_order (ee_store env) (fst (RecordGoalReview ctx env gx r t turn run c v out ev))"
proof -
  assume o: "in_order (ee_store env) r"
  have r: "in_order (ee_store env) (fst (canonicalPath background (ValidateEntryIntegrity (ee_store env)) r t leaf))" for leaf
    by (rule read_in_order [OF o])
  have e: "in_order (ee_store env) (ensured t (fst (canonicalPath background (ValidateEntryIntegrity (ee_store env)) r t leaf)))" for leaf
    by (rule in_order_quiet [OF ensured_grows r])
  have a: "in_order (ee_store env) (fst (appendFact ctx (ee_store env)
      (ensured t (fst (canonicalPath background (ValidateEntryIntegrity (ee_store env)) r t leaf)))
      (zero_entry\<lparr>ID := i, ThreadID := t, TurnID := turn, RunID := run, Type := EntryGoalReview, Payload := p\<rparr>) opts False))"
    for leaf i p opts
    by (rule append_in_order [OF e]) (simp add: turn_mark_def)
  show ?thesis
  proof (cases "thread r t")
    case (Some meta)
    obtain r1 w where c: "canonicalPath background (ValidateEntryIntegrity (ee_store env)) r t (tm_LeafID meta) = (r1, w)" by fastforce
    show ?thesis using o r [of "tm_LeafID meta"] e [of "tm_LeafID meta"] a [of "tm_LeafID meta"] Some c
      unfolding RecordGoalReview_def Let_def by (simp split: option.split sum.split)
  qed (use o in \<open>simp add: RecordGoalReview_def Let_def split: option.split\<close>)
qed

section \<open>Histories\<close>

datatype turn_op =
    OnJournal journal_op
  | Prepare prepare_request | Reject reject_request | Begin begin_request | FinishEffect finish_request
  | Bind host_work | Settle settlement | Admit string string string | StopWork string
  | Output context_commit
  | Mutate goal_mutation | Review string string string string int string string | Submit goal_submission
  | Accept accept_request | Finish finish_turn_request | FailUnknown fail_request | Cancel cancel_request

fun turn_step :: "ctx_poll \<Rightarrow> turn_env \<Rightarrow> turn_op \<Rightarrow> repo \<Rightarrow> repo" where
  "turn_step ctx env (OnJournal op) r = journal_step ctx (tv_store env) op r"
| "turn_step ctx env (Prepare q) r = fst (PrepareEffectAttempt (tv_effects env) r q)"
| "turn_step ctx env (Reject q) r = fst (RejectEffectAttempt (tv_effects env) r q)"
| "turn_step ctx env (Begin q) r = fst (BeginEffectDispatch (tv_effects env) r q)"
| "turn_step ctx env (FinishEffect q) r = fst (FinishEffectDispatch (tv_effects env) r q)"
| "turn_step ctx env (Bind w) r = fst (BindHostWork ctx (tv_effects env) r w)"
| "turn_step ctx env (Settle q) r = fst (SettleHostWork ctx (tv_store env) r q)"
| "turn_step ctx env (Admit t turn run) r = fst (AdmitHostWork ctx (tv_store env) r t turn run)"
| "turn_step ctx env (StopWork t) r = fst (StopHostWork ctx (tv_store env) r t)"
| "turn_step ctx env (Output q) r = fst (CommitProviderContext ctx env r q)"
| "turn_step ctx env (Mutate m) r = fst (MutateGoal ctx (tv_effects env) (tv_goals env) r m)"
| "turn_step ctx env (Review t turn run c v out ev) r =
     fst (RecordGoalReview ctx (tv_effects env) (tv_goals env) r t turn run c v out ev)"
| "turn_step ctx env (Submit g) r = fst (SubmitGoal ctx env r g)"
| "turn_step ctx env (Accept q) r = fst (AcceptTurn env r q)"
| "turn_step ctx env (Finish q) r = fst (FinishTurn env r q)"
| "turn_step ctx env (FailUnknown q) r = fst (FailUnknownEffectTurn ctx env r q)"
| "turn_step ctx env (Cancel q) r = fst (CancelTurn ctx env r q)"

text \<open>
  The requests considered. Markers of turns come from the turn operations, and a save point is for the turn
  that runs. A turn is started only when the names of its user message and of its promotion are not
  taken, and while it runs a request to finish, fail or cancel it finds the name of the failure entry
  unused, the \<open>steer-resolved:\<close> names of its open steering unused, and brings names that do not start with
  a prefix of the operations' own: the names \<open>harness.go\<close> and \<open>thread_runtime.go\<close> give
  (\<open>terminal-\<close> and a hash, \<open>terminal-cancelled-\<close>, \<open>cancel:\<close>) qualify, by \<open>terminal_caller_name\<close>. Repeated and late requests, for a
  turn that does not run, are unrestricted.
\<close>

fun admissible :: "turn_env \<Rightarrow> repo \<Rightarrow> turn_op \<Rightarrow> bool" where
  "admissible env r (OnJournal op) \<longleftrightarrow> journal_free r op"
| "admissible env r (Submit g) \<longleftrightarrow> accept_free r (gb_Turn g)"
| "admissible env r (Accept q) \<longleftrightarrow> accept_free r (trimmed_accept q)"
| "admissible env r (Finish q) \<longleftrightarrow> (open_turns (log r (fq_ThreadID q)) = [fq_TurnID q] \<longrightarrow> finish_free env r q)"
| "admissible env r (FailUnknown q) \<longleftrightarrow> (let t = trim_space (uq_ThreadID q); turn = trim_space (uq_TurnID q)
     in open_turns (log r t) = [turn] \<longrightarrow> fail_free env r t turn)"
| "admissible env r (Cancel q) \<longleftrightarrow> (let c = trimmed_cancel q
     in open_turns (log r (cq_ThreadID c)) = [cq_TurnID c] \<longrightarrow> cancel_free env r c)"
| "admissible env r _ \<longleftrightarrow> True"

inductive turn_reach :: "turn_env \<Rightarrow> repo \<Rightarrow> bool" for env where
  reach_new: "turn_reach env newMemoryRepo"
| reach_step: "turn_reach env r \<Longrightarrow> admissible env r op \<Longrightarrow> turn_reach env (turn_step ctx env op r)"

lemma finish_in_order:
  assumes o: "in_order (tv_store env) r" and f: "open_turns (log r (fq_ThreadID q)) = [fq_TurnID q] \<Longrightarrow> finish_free env r q"
  shows "in_order (tv_store env) (fst (FinishTurn env r q))"
  using in_order_marks [OF finishTurn_grows [OF in_order_ok [OF o] _ f] o] o by (simp add: FinishTurn_def split: option.split)

lemma step_in_order:
  "in_order (tv_store env) r \<Longrightarrow> admissible env r op \<Longrightarrow> in_order (tv_store env) (turn_step ctx env op r)"
proof (induction ctx env op r rule: turn_step.induct)
  case (11 ctx env m r)
  then show ?case using goal_in_order by (simp add: MutateGoal_def split: option.split)
next
  case (14 ctx env q r)
  then show ?case using accept_in_order by (simp add: AcceptTurn_def split: option.split)
next
  case (16 ctx env q r)
  then show ?case using in_order_marks [OF fail_grows(1) [OF in_order_ok]] by (simp add: FailUnknownEffectTurn_def Let_def)
next
  case (17 ctx env q r)
  then show ?case using in_order_marks [OF CancelTurn_grows(1) [OF in_order_ok]] by (simp add: Let_def)
qed (simp_all add: journal_in_order prepare_in_order reject_in_order begin_in_order finish_effect_in_order
    bind_in_order settle_in_order admit_in_order stop_in_order output_in_order review_in_order
    submit_in_order finish_in_order)

lemma reach_in_order: "turn_reach env r \<Longrightarrow> in_order (tv_store env) r"
  by (induction rule: turn_reach.induct) (simp_all add: in_order_new step_in_order)

text \<open>
  C2: One turn at a time. After any sequence of operations on threads, journals, effects, host work,
  provider output, goals and turns that are admissible in the sense above, whichever of them fail, the markers of every turn in
  every journal are one start, then save points and waits, then at most one terminal marker; and
  the turn the index reports as active is exactly the one that has started and not ended, so never two.
\<close>

theorem one_turn_at_a_time:
  assumes "turn_reach env r"
  shows "follows turn_allowed None (turn_marks turn (log r t))
    \<and> (runtimeActiveTurn (rp_journal r t) = Some turn
        \<longleftrightarrow> (\<exists>s. last_state None (turn_marks turn (log r t)) = Some s \<and> opens s))"
proof -
  have o: "orderly (log r t)" and j: "indexed (tv_store env) t (rp_journal r t)"
    using reach_in_order [OF assms] by (auto simp: in_order_def repo_indexed_def)
  have "length (open_turns (log r t)) \<le> 1" using o by (simp add: orderly_def)
  then have "turn \<in> set (open_turns (log r t)) \<longleftrightarrow> open_turns (log r t) = [turn]"
    by (cases "open_turns (log r t)") auto
  then show ?thesis using o runtimeActive_indexed [OF j] unfolding orderly_def by blast
qed

text \<open>An opened thread and its first turn.\<close>

definition sample_turns :: turn_env where
  "sample_turns = \<lparr>tv_effects = sample_effects,
     tv_goals = \<lparr>gx_change = (\<lambda>_. None), gx_change_json = (\<lambda>_. ''{}''), gx_review = (\<lambda>_. None),
       gx_review_json = (\<lambda>_. ''{}''), gx_mutation_json = (\<lambda>m. gm_Text m)\<rparr>,
     tv_context = \<lparr>cx_policy_json = (\<lambda>_. ''{}''), cx_policy = (\<lambda>_. None), cx_compaction_json = (\<lambda>_. ''{}''),
       cx_compaction = (\<lambda>_. None)\<rparr>,
     tv_id_json = (\<lambda>i. i), tv_id = Some, tv_item_id = Some, tv_steering_json = sr_SteeringID,
     tv_steering = (\<lambda>s. Some \<lparr>sr_SteeringID = s, sr_Reason = ''''\<rparr>), tv_terminal_activity = (\<lambda>_ s m. s @ m)\<rparr>"

definition opened_repo :: repo where
  "opened_repo = fst (createThread 1 newMemoryRepo (zero_meta\<lparr>tm_ID := ''t''\<rparr>))"

definition first_turn :: accept_request where
  "first_turn = \<lparr>aq_ContinueGoal = False, aq_TurnKind = '''', aq_ThreadID = ''t'', aq_TurnID = ''u'',
     aq_RunID = ''r'', aq_LogicalRequestID = ''q'',
     aq_Input = zero_message\<lparr>msg_Role := User, msg_Content := ''hi''\<rparr>,
     aq_RetrySourceTurnID = '''', aq_RetrySourceEntryID = '''', aq_PromotedQueueID = '''',
     aq_PromotionRequestKey = '''', aq_PromotionRequestFingerprint = '''',
     aq_InputRequestFingerprint = ''i'', aq_RequestFingerprint = ''f'', aq_Now = 2\<rparr>"
definition accepted_repo :: repo where
  "accepted_repo = fst (AcceptTurn sample_turns opened_repo first_turn)"

lemma accepted_reach: "turn_reach sample_turns accepted_repo"
proof -
  let ?create = "OnJournal (StoreOp (CreateOp 1 (zero_meta\<lparr>tm_ID := ''t''\<rparr>)))"
  have "turn_reach sample_turns (turn_step background sample_turns ?create newMemoryRepo)"
    by (rule reach_step [OF reach_new]) simp
  then have "turn_reach sample_turns opened_repo" by (simp add: opened_repo_def)
  moreover have "accept_free opened_repo (trimmed_accept first_turn)" by code_simp
  ultimately have "turn_reach sample_turns (turn_step background sample_turns (Accept first_turn) opened_repo)"
    by (intro reach_step) simp_all
  then show ?thesis by (simp add: accepted_repo_def)
qed

lemma accepted_active: "runtimeActiveTurn (rp_journal accepted_repo ''t'') = Some ''u''"
  by code_simp

theorem one_turn_at_a_time_witness:
  "\<exists>s. last_state None (turn_marks ''u'' (log accepted_repo ''t'')) = Some s \<and> opens s"
  using one_turn_at_a_time [OF accepted_reach, of "''u''" "''t''"] accepted_active by blast

text \<open>
  C6: A refused operation leaves nothing behind. In a reachable repository, an admissible request to
  cancel a turn, to fail it or to submit a goal writes several entries one after the other; if any step is
  refused, however late, the repository is the one from before, every index included.
\<close>

theorem refused_leaves_nothing:
  assumes "turn_reach env r"
  shows "(admissible env r (Cancel c) \<and> CancelTurn ctx env r c = (r', Inl err) \<longrightarrow> r' = r)
    \<and> (admissible env r (FailUnknown u) \<and> FailUnknownEffectTurn ctx env r u = (r', Inl err) \<longrightarrow> r' = r)
    \<and> (admissible env r (Submit g) \<and> SubmitGoal ctx env r g = (r', Inl err) \<longrightarrow> r' = r)"
proof (intro conjI impI)
  have o: "in_order (tv_store env) r" by (rule reach_in_order [OF assms])
  note ok = in_order_ok [OF o]
  show "r' = r" if "admissible env r (Cancel c) \<and> CancelTurn ctx env r c = (r', Inl err)"
    using CancelTurn_grows(2) [OF ok, of c ctx err] that by (simp add: Let_def)
  show "r' = r" if "admissible env r (FailUnknown u) \<and> FailUnknownEffectTurn ctx env r u = (r', Inl err)"
    using fail_grows(2) [OF ok, of u ctx err] that by (simp add: FailUnknownEffectTurn_def Let_def)
  show "r' = r" if "admissible env r (Submit g) \<and> SubmitGoal ctx env r g = (r', Inl err)"
    using submit_refused [OF o, of g ctx err] that by simp
qed

definition stale_cancel :: cancel_request where
  "stale_cancel = \<lparr>cq_PreserveProviderState = False, cq_RequestOnly = False, cq_CancellationMetadata = [],
     cq_ThreadID = ''t'', cq_TurnID = ''v'', cq_RunID = ''r'', cq_CancelEntryID = ''cancel:k'',
     cq_TerminalEntryID = ''terminal-v'',
     cq_RequestKey = ''k'', cq_RequestFingerprint = ''f'', cq_OutcomeFingerprint = ''o'',
     cq_InteractionResolutionPayload = ''{}'', cq_Metadata = [(''failure_code'', ''cancelled'')], cq_ClearProviderState = False, cq_Now = 5\<rparr>"

lemma stale_fields:
  "cq_ThreadID stale_cancel = ''t''" "cq_TurnID stale_cancel = ''v''" "cq_CancelEntryID stale_cancel = ''cancel:k''"
  "cq_TerminalEntryID stale_cancel = ''terminal-v''"
  by (simp_all add: stale_cancel_def)

lemma plain_sample: "plain_thread ''t''"
proof -
  have "\<not> internal_name (generated_entry_id ''t'' n)" for n
    by (simp add: generated_entry_id_def internal_name_def internal_prefixes_def reserved_prefixes_def has_prefix_def)
  moreover have "trim_space ''t'' = ''t''" by code_simp
  ultimately show ?thesis by (simp add: plain_thread_def)
qed

text \<open>The names of the harness and of the runtime.\<close>

lemma caller_sample:
  "caller_name ''t'' ''cancel:k''" "caller_name ''t'' ''terminal-v''" "caller_name ''t'' ''terminal-h''"
  by (simp_all add: caller_name_def reserved_prefixes_def has_prefix_def generated_entry_id_def)

theorem refused_leaves_nothing_witness:
  "\<exists>r' err. CancelTurn background sample_turns accepted_repo stale_cancel = (r', Inl err) \<and> r' = accepted_repo"
proof -
  have "snd (CancelTurn background sample_turns accepted_repo stale_cancel) = Inl ErrStaleAuthority" by code_simp
  then obtain r' where c: "CancelTurn background sample_turns accepted_repo stale_cancel = (r', Inl ErrStaleAuthority)"
    by (cases "CancelTurn background sample_turns accepted_repo stale_cancel") simp
  have t: "trimmed_cancel stale_cancel = stale_cancel" by code_simp
  have "steering_free sample_turns (log accepted_repo ''t'') ''v''
      \<and> ''turn-failure:v'' \<notin> ID ` set (log accepted_repo ''t'')" by code_simp
  then have "admissible sample_turns accepted_repo (Cancel stale_cancel)"
    using plain_sample caller_sample by (simp add: t cancel_free_def fail_free_def stale_fields)
  then show ?thesis using refused_leaves_nothing [OF accepted_reach, of stale_cancel background r' ErrStaleAuthority] c by blast
qed

end
