(* ===== verification/TurnSettled.thy ===== *)
theory TurnSettled
  imports TurnRun
begin

text \<open>
  What the end of a turn leaves: every pending tool call and interaction is answered by an entry
  appended before the terminal marker.
\<close>

section \<open>What new entries answer\<close>

text \<open>An entry that opens nothing new in its turn.\<close>

definition still :: "entry \<Rightarrow> bool" where
  "still e \<longleftrightarrow> Type e \<noteq> EntryToolCall \<and> Type e \<noteq> EntryInteractionAsked \<and> \<not> asks_input e
     \<and> \<not> (Type e = EntryTurnMarker \<and> TurnStatus e = TurnWaiting)"

lemma still_depth [simp]: "still (e\<lparr>PathDepth := d\<rparr>) = still e"
  by (simp add: still_def asks_input_def)

lemma settles_still: "settles e \<Longrightarrow> still e"
  by (auto simp: settles_def still_def)

definition calls_ok :: "string list \<times> (string \<rightharpoonup> entry) \<Rightarrow> bool" where
  "calls_ok s \<longleftrightarrow> (\<forall>i c. snd s i = Some c \<longrightarrow> i \<in> set (fst s) \<and> trim_space (msg_ToolCallID (Message c)) = i \<and> i \<noteq> '''')"

lemma call_step_ok: "calls_ok s \<Longrightarrow> calls_ok (call_step env turn e s)"
  by (auto simp: calls_ok_def call_step_def Let_def split: if_splits)

lemma calls_ok_fold: "calls_ok s \<Longrightarrow> calls_ok (fold (call_step env turn) es s)"
  by (induction es arbitrary: s) (simp_all add: call_step_ok)

lemma call_stays_answered:
  "list_all (\<lambda>e. Type e \<noteq> EntryToolCall) new \<Longrightarrow> snd s i = None \<Longrightarrow> snd (fold (call_step env turn) new s) i = None"
  by (induction new arbitrary: s) (simp_all add: call_step_def Let_def)

lemma call_answered:
  assumes n: "list_all (\<lambda>e. Type e \<noteq> EntryToolCall) new" and x: "x \<in> set new" "Type x = EntryToolResult" "TurnID x = turn"
    and i: "trim_space (msg_ToolCallID (Message x)) = i" "i \<noteq> ''''"
  shows "snd (fold (call_step env turn) new s) i = None"
proof -
  obtain a b where "new = a @ x # b" using x(1) by (auto simp: in_set_conv_decomp)
  then show ?thesis using n x i by (simp add: call_stays_answered call_step_def Let_def)
qed

lemma calls_settled:
  assumes still: "list_all still new"
    and a: "\<And>c. c \<in> set (runtimePendingToolCalls env es turn) \<Longrightarrow> \<exists>x \<in> set new. Type x = EntryToolResult
      \<and> TurnID x = turn \<and> msg_ToolCallID (Message x) = msg_ToolCallID (Message c)"
  shows "runtimePendingToolCalls env (es @ new) turn = []"
proof -
  define s where "s = fold (call_step env turn) es ([], Map.empty)"
  have o: "calls_ok s" unfolding s_def by (rule calls_ok_fold) (simp add: calls_ok_def)
  have n: "list_all (\<lambda>e. Type e \<noteq> EntryToolCall) new" using still by (auto simp: still_def list_all_iff)
  have "snd (fold (call_step env turn) new s) i = None" for i
  proof (cases "snd s i")
    case None
    then show ?thesis by (rule call_stays_answered [OF n])
  next
    case (Some e)
    then have i: "i \<in> set (fst s)" "trim_space (msg_ToolCallID (Message e)) = i" "i \<noteq> ''''" using o by (auto simp: calls_ok_def)
    have "e \<in> set (runtimePendingToolCalls env es turn)"
      unfolding runtimePendingToolCalls_def s_def [symmetric] using Some i(1)
      by (cases s) (force simp: List.map_filter_def)
    then obtain x where x: "x \<in> set new" "Type x = EntryToolResult" "TurnID x = turn"
      "msg_ToolCallID (Message x) = msg_ToolCallID (Message e)" using a by blast
    then show ?thesis using call_answered [OF n x(1-3)] i by metis
  qed
  then show ?thesis unfolding runtimePendingToolCalls_def fold_append comp_apply s_def [symmetric]
    by (cases "fold (call_step env turn) new s") (simp add: List.map_filter_def)
qed

lemma ready_append:
  "ready_inputs p (es @ es') = ready_inputs p es @ ready_inputs (fold (\<lambda>e p. fst (inputs_Observe e p)) es p) es'"
  by (induction es arbitrary: p) (simp_all split: prod.splits)

lemma ready_still: "(\<And>e. e \<in> set new \<Longrightarrow> still e) \<Longrightarrow> ready_inputs p new = []"
  by (induction new arbitrary: p) (auto simp: inputs_Observe_def Let_def still_def asks_input_def)

lemma ready_known:
  assumes "\<And>k. set (list_at (tj_pending p) k) \<subseteq> N"
  shows "set (ready_inputs p es) \<subseteq> N \<union> ID ` set es"
  using assms
proof (induction es arbitrary: p N)
  case (Cons e es)
  have p: "set (list_at (tj_pending (fst (inputs_Observe e p))) k) \<subseteq> insert (ID e) N" for k
    using Cons.prems by (auto simp: inputs_Observe_def Let_def list_at_def push_at_def split: option.splits if_splits)
  have "set (snd (inputs_Observe e p)) \<subseteq> insert (ID e) N"
    using Cons.prems by (auto simp: inputs_Observe_def Let_def)
  with Cons.IH [OF p] show ?case by (cases "inputs_Observe e p") auto
qed simp

lemma ready_ids: "set (readyToolInputResultIDs es) \<subseteq> ID ` set es"
  using ready_known [of zero_inputs "{}" es] by (simp add: readyToolInputResultIDs_def zero_inputs_def list_at_def)

lemma ready_same: "list_all still new \<Longrightarrow> readyToolInputResultIDs (es @ new) = readyToolInputResultIDs es"
  by (simp add: readyToolInputResultIDs_def ready_append ready_still list_all_iff)

lemma failed_same: "list_all still new \<Longrightarrow> failed_controls env turn (es @ new) = failed_controls env turn es"
proof -
  assume "list_all still new"
  then have "fold (\<lambda>e m. if control_call env turn ControlFailed e \<and> signal_call e \<noteq> ''''
      then m(signal_call e \<mapsto> interaction_of (signal_call e) e) else m) new m = m" for m
    by (induction new arbitrary: m) (auto simp: control_call_def still_def)
  then show ?thesis by (simp add: failed_controls_def)
qed

definition asked_ok :: "string \<Rightarrow> interactions \<Rightarrow> bool" where
  "asked_ok turn s \<longleftrightarrow> (\<forall>(k, i) \<in> set (snd s). ri_ID i = k \<and> ri_TurnID i = turn)"

lemma delete_subset: "set (AList.delete k xs) \<subseteq> set xs"
  by (auto simp: AList.delete_eq)

lemma interaction_ok: "asked_ok turn s \<Longrightarrow> asked_ok turn (interaction_step env turn F R e s)"
  using delete_subset [of _ "snd s"]
  by (auto simp: asked_ok_def interaction_step_def add_interaction_def interaction_of_def Let_def split: option.split)

lemma interactions_ok: "asked_ok turn s \<Longrightarrow> asked_ok turn (fold (interaction_step env turn F R) es s)"
  by (induction es arbitrary: s) (simp_all add: interaction_ok)

definition quiet_in :: "string list \<Rightarrow> entry \<Rightarrow> bool" where
  "quiet_in R e \<longleftrightarrow> still e \<and> (Type e = EntryToolResult \<longrightarrow> ID e \<notin> set R)"

lemma interaction_shrinks: "quiet_in R e \<Longrightarrow> set (snd (interaction_step env turn F R e s)) \<subseteq> set (snd s)"
  using delete_subset [of _ "snd s"] by (auto simp: quiet_in_def still_def interaction_step_def)

lemma interactions_shrink:
  "list_all (quiet_in R) new \<Longrightarrow> set (snd (fold (interaction_step env turn F R) new s)) \<subseteq> set (snd s)"
proof (induction new arbitrary: s)
  case (Cons e es)
  then show ?case using interaction_shrinks [of R e env turn F s] by fastforce
qed simp

lemma trim_prefix_append: "trim_prefix p (p @ k) = k"
  by (simp add: trim_prefix_def)

lemma interaction_answered:
  assumes n: "list_all (quiet_in R) new" and x: "x \<in> set new" "Type x = EntryInteractionDone" "TurnID x = turn"
    "ID x = ''interaction-resolved:'' @ k"
  shows "(k, i) \<notin> set (snd (fold (interaction_step env turn F R) new s))"
proof -
  obtain a b where ab: "new = a @ x # b" using x(1) by (auto simp: in_set_conv_decomp)
  define s1 where "s1 = fold (interaction_step env turn F R) a s"
  have "snd (interaction_step env turn F R x s1) = AList.delete (trim_prefix ''interaction-resolved:'' (ID x)) (snd s1)"
    using x(2,3) by (simp add: interaction_step_def)
  then have "(k, i) \<notin> set (snd (interaction_step env turn F R x s1))"
    unfolding x(4) trim_prefix_append by (auto simp: AList.delete_eq)
  moreover have "list_all (quiet_in R) b" using n by (simp add: ab)
  ultimately show ?thesis
    using interactions_shrink [of R b env turn F "interaction_step env turn F R x s1"] by (auto simp: ab s1_def)
qed

lemma interactions_settled:
  assumes still: "list_all still new" and fresh: "ID ` set new \<inter> ID ` set es = {}"
    and a: "\<And>i. i \<in> set (runtimePendingInteractions env es turn) \<Longrightarrow> \<exists>x \<in> set new. Type x = EntryInteractionDone
      \<and> TurnID x = ri_TurnID i \<and> ID x = ''interaction-resolved:'' @ ri_ID i"
  shows "runtimePendingInteractions env (es @ new) turn = []"
proof -
  define F where "F = failed_controls env turn es"
  define R where "R = readyToolInputResultIDs es"
  define s where "s = fold (interaction_step env turn F R) es ([], [])"
  have o: "asked_ok turn s" unfolding s_def by (rule interactions_ok) (simp add: asked_ok_def)
  have n: "list_all (quiet_in R) new"
    using still fresh ready_ids [of es] by (auto simp: quiet_in_def list_all_iff R_def)
  have "x \<notin> set (snd (fold (interaction_step env turn F R) new s))" for x
  proof
    assume x: "x \<in> set (snd (fold (interaction_step env turn F R) new s))"
    obtain k i where k: "x = (k, i)" by (cases x)
    then have "(k, i) \<in> set (snd s)" using x interactions_shrink [OF n, of env turn F s] by blast
    moreover have "set (runtimePendingInteractions env es turn) = snd ` set (snd s)"
      by (simp add: runtimePendingInteractions_def s_def F_def R_def)
    ultimately have "ri_ID i = k" "ri_TurnID i = turn" "i \<in> set (runtimePendingInteractions env es turn)"
      using o by (auto simp: asked_ok_def intro: rev_image_eqI)
    then obtain y where "y \<in> set new" "Type y = EntryInteractionDone" "TurnID y = turn" "ID y = ''interaction-resolved:'' @ k"
      using a by blast
    from interaction_answered [OF n this] show False using x k by blast
  qed
  then have "snd (fold (interaction_step env turn F R) new s) = []" by (cases "snd (fold (interaction_step env turn F R) new s)") auto
  then show ?thesis
    unfolding runtimePendingInteractions_def ready_same [OF still] failed_same [OF still] F_def [symmetric] R_def [symmetric]
      fold_append comp_apply s_def [symmetric] by simp
qed

section \<open>A turn that has ended\<close>

definition answered :: "turn_env \<Rightarrow> entry list \<Rightarrow> string \<Rightarrow> entry list \<Rightarrow> bool" where
  "answered env es turn new \<longleftrightarrow>
     (\<forall>i \<in> set (runtimePendingInteractions (tv_store env) es turn). \<exists>x \<in> set new. Type x = EntryInteractionDone
        \<and> TurnID x = ri_TurnID i \<and> ID x = ''interaction-resolved:'' @ ri_ID i)
   \<and> (\<forall>c \<in> set (runtimePendingToolCalls (tv_store env) es turn). \<exists>x \<in> set new. Type x = EntryToolResult
        \<and> TurnID x = turn \<and> msg_ToolCallID (Message x) = msg_ToolCallID (Message c))"

text \<open>What was appended since: answers, then the terminal marker, which leaves no turn open.\<close>

definition ended :: "turn_env \<Rightarrow> string \<Rightarrow> entry list \<Rightarrow> entry list \<Rightarrow> entry \<Rightarrow> bool" where
  "ended env turn old es terminal \<longleftrightarrow> (\<exists>N d. es = old @ N @ [terminal\<lparr>PathDepth := d\<rparr>] \<and> list_all still N
     \<and> answered env (filter (\<lambda>e. TurnID e = turn) old) turn N \<and> turn_end turn terminal \<and> open_turns es = [])"

lemma asked_turn: "i \<in> set (runtimePendingInteractions senv es turn) \<Longrightarrow> ri_TurnID i = turn"
  using interactions_ok [of turn "([], [])" senv "failed_controls senv turn es" "readyToolInputResultIDs es" es]
  by (auto simp: runtimePendingInteractions_def asked_ok_def)

lemma ended_settled:
  assumes e: "ended env turn old es terminal" and d: "distinct (map ID es)"
  shows "runtimePendingToolCalls (tv_store env) (filter (\<lambda>e. TurnID e = turn) es) turn = []"
    "runtimePendingInteractions (tv_store env) (filter (\<lambda>e. TurnID e = turn) es) turn = []"
proof -
  obtain N k where es: "es = old @ N @ [terminal\<lparr>PathDepth := k\<rparr>]" and s: "list_all still N"
    and a: "answered env (filter (\<lambda>e. TurnID e = turn) old) turn N" and t: "turn_end turn terminal"
    using e by (auto simp: ended_def)
  define new where "new = filter (\<lambda>e. TurnID e = turn) (N @ [terminal\<lparr>PathDepth := k\<rparr>])"
  have f: "filter (\<lambda>e. TurnID e = turn) es = filter (\<lambda>e. TurnID e = turn) old @ new" by (simp add: es new_def)
  have "still (terminal\<lparr>PathDepth := k\<rparr>)"
    using t by (auto simp: still_def asks_input_def turn_end_def turn_mark_def terminalTurnMarker_def)
  then have n: "list_all still new" using s by (auto simp: new_def list_all_iff)
  show "runtimePendingToolCalls (tv_store env) (filter (\<lambda>e. TurnID e = turn) es) turn = []"
    unfolding f by (rule calls_settled [OF n]) (use a in \<open>auto simp: answered_def new_def\<close>)
  show "runtimePendingInteractions (tv_store env) (filter (\<lambda>e. TurnID e = turn) es) turn = []"
    unfolding f
  proof (rule interactions_settled [OF n])
    show "ID ` set new \<inter> ID ` set (filter (\<lambda>e. TurnID e = turn) old) = {}"
    proof -
      have "ID ` set old \<inter> ID ` set (N @ [terminal\<lparr>PathDepth := k\<rparr>]) = {}"
        using d unfolding es map_append distinct_append by simp
      moreover have "set new \<subseteq> set (N @ [terminal\<lparr>PathDepth := k\<rparr>])" unfolding new_def by (rule filter_is_subset)
      moreover have "set (filter (\<lambda>e. TurnID e = turn) old) \<subseteq> set old" by (rule filter_is_subset)
      ultimately show ?thesis by blast
    qed
    show "\<exists>x \<in> set new. Type x = EntryInteractionDone \<and> TurnID x = ri_TurnID i \<and> ID x = ''interaction-resolved:'' @ ri_ID i"
      if "i \<in> set (runtimePendingInteractions (tv_store env) (filter (\<lambda>e. TurnID e = turn) old) turn)" for i
      using a asked_turn [OF that] that by (auto simp: answered_def new_def)
  qed
qed

lemma segment:
  assumes "grows env t P r r'" "\<And>es e. P es e \<Longrightarrow> settles e"
  shows "\<exists>N. log r' t = log r t @ N \<and> list_all still N"
proof (rule grows_inv [OF assms(1), where J = "\<lambda>es. \<exists>N. es = log r t @ N \<and> list_all still N"])
  fix es e d
  assume "\<exists>N. es = log r t @ N \<and> list_all still N" "P es e"
  then obtain N where "es @ [e\<lparr>PathDepth := d\<rparr>] = log r t @ (N @ [e\<lparr>PathDepth := d\<rparr>])" "list_all still (N @ [e\<lparr>PathDepth := d\<rparr>])"
    using assms(2) settles_still by fastforce
  then show "\<exists>N. es @ [e\<lparr>PathDepth := d\<rparr>] = log r t @ N \<and> list_all still N" by blast
qed simp

lemma settling_segment: "grows env t (settling t) r r' \<Longrightarrow> \<exists>N. log r' t = log r t @ N \<and> list_all still N"
  by (erule segment) (simp add: settling_def)

lemma closing_segment: "grows env t (closing t) r r' \<Longrightarrow> \<exists>N. log r' t = log r t @ N \<and> list_all still N"
  by (erule segment) (simp add: closing_def)

lemma resolved_kept:
  assumes "list_all2 (\<lambda>e x. kept_of e x \<and> ID x = ID e) (map (resolution_entry t k fp pl now) is) new" "i \<in> set is"
  shows "\<exists>x \<in> set new. Type x = EntryInteractionDone \<and> TurnID x = ri_TurnID i \<and> ID x = ''interaction-resolved:'' @ ri_ID i"
proof -
  have "\<exists>x \<in> set new. kept_of (resolution_entry t k fp pl now i) x \<and> ID x = ID (resolution_entry t k fp pl now i)"
    using assms by (induction "is" arbitrary: new) (auto simp: list_all2_Cons1)
  then show ?thesis by (auto simp: kept_of_def resolution_entry_def)
qed

lemma closed_kept:
  assumes "list_all2 (\<lambda>e x. kept_of e x \<and> ID x = ID e) (map f calls) new" "c \<in> set calls"
    and f: "Type (f c) = EntryToolResult" "TurnID (f c) = turn" "msg_ToolCallID (Message (f c)) = msg_ToolCallID (Message c)"
  shows "\<exists>x \<in> set new. Type x = EntryToolResult \<and> TurnID x = turn \<and> msg_ToolCallID (Message x) = msg_ToolCallID (Message c)"
proof -
  have "\<exists>x \<in> set new. kept_of (f c) x"
    using assms(1,2) by (induction calls arbitrary: new) (auto simp: list_all2_Cons1)
  then show ?thesis using f by (auto simp: kept_of_def)
qed

lemma closing_fields:
  "TurnID (closing_entry env t turn run label st msg now c) = turn"
  "msg_ToolCallID (Message (closing_entry env t turn run label st msg now c)) = msg_ToolCallID (Message c)"
  by (simp_all add: closing_entry_def Let_def)

lemma answered_by:
  assumes a: "list_all2 (\<lambda>e x. kept_of e x \<and> ID x = ID e)
      (map (resolution_entry t k fp pl now) (runtimePendingInteractions (tv_store env) es turn)) A"
    and b: "list_all2 (\<lambda>e x. kept_of e x \<and> ID x = ID e) (map close (runtimePendingToolCalls (tv_store env) es turn)) B"
    and close: "\<And>c. Type (close c) = EntryToolResult" "\<And>c. TurnID (close c) = turn"
      "\<And>c. msg_ToolCallID (Message (close c)) = msg_ToolCallID (Message c)"
    and N: "set A \<union> set B \<subseteq> set N"
  shows "answered env es turn N"
  unfolding answered_def
proof (intro conjI ballI)
  fix i assume "i \<in> set (runtimePendingInteractions (tv_store env) es turn)"
  from resolved_kept [OF a this] show "\<exists>x \<in> set N. Type x = EntryInteractionDone \<and> TurnID x = ri_TurnID i
      \<and> ID x = ''interaction-resolved:'' @ ri_ID i" using N by blast
next
  fix c assume "c \<in> set (runtimePendingToolCalls (tv_store env) es turn)"
  from closed_kept [OF b this close] show "\<exists>x \<in> set N. Type x = EntryToolResult \<and> TurnID x = turn
      \<and> msg_ToolCallID (Message x) = msg_ToolCallID (Message c)" using N by blast
qed

text \<open>The commits: the answers are in, the failure and the terminal marker follow.\<close>

lemma unknown_commit_log:
  assumes "\<not> blank (uq_TurnID req)" "commit_unknown env req now resolutions results r = (r', res)"
  shows "\<exists>f d. log r' (uq_ThreadID req) = log r (uq_ThreadID req) @ [f, (ur_Terminal res)\<lparr>PathDepth := d\<rparr>] \<and> Type f = EntryRunFailure
    \<and> turn_end (uq_TurnID req) (ur_Terminal res)"
proof -
  let ?t = "uq_ThreadID req" and ?turn = "uq_TurnID req"
  define f where "f = failure_entry env ?t ?turn (uq_RunID req) (tm_LeafID (meta_of r ?t)) EffectOutcomeUnknownFailureMessage now"
  define e where "e = ur_Terminal res"
  have e: "e = terminal_entry env (unknownEffectTerminalEntryID (tv_store env) ?t ?turn (uq_RunID req)) ?t ?turn (uq_RunID req) (ID f)
      (unknownEffectOutcomeFingerprint (tv_store env) ?t ?turn (uq_RunID req)) TurnFailed
      [(''run_id'', uq_RunID req), (''outcome'', ''failed''), (''failure_reason'', EffectOutcomeUnknownFailureMessage),
       (''failure_code'', ''effect_outcome_unknown'')] now"
    and l: "log r' ?t = log (put_entry env ?t e (put_entry env ?t f r)) ?t"
    using assms(2) by (auto simp: commit_unknown_def Let_def f_def e_def)
  obtain d1 where "log (put_entry env ?t f r) ?t = log r ?t @ [f\<lparr>PathDepth := d1\<rparr>]" using put_log by blast
  moreover obtain d2 where "log (put_entry env ?t e (put_entry env ?t f r)) ?t = log (put_entry env ?t f r) ?t @ [e\<lparr>PathDepth := d2\<rparr>]"
    using put_log by blast
  moreover have "Type f = EntryRunFailure" by (simp add: f_def terminal_simps)
  moreover have "turn_end ?turn e"
    using assms(1) by (simp add: e turn_end_def turn_mark_def terminal_simps terminalTurnMarker_def)
  ultimately show ?thesis unfolding l e_def by force
qed

lemma ends_with:
  assumes l: "log r' t = log r t @ N" "list_all still N" and o: "open_turns (log r' t) = [turn]"
    and a: "answered env (filter (\<lambda>e. TurnID e = turn) (log r t)) turn N"
    and c: "es = log r' t @ F @ [e\<lparr>PathDepth := d\<rparr>]" "\<forall>f \<in> set F. Type f = EntryRunFailure" "F = [] \<or> (\<exists>f. F = [f])"
      "turn_end turn e"
  shows "ended env turn (log r t) es e"
proof -
  have "open_turns (log r' t @ F) = [turn]"
    using c(2,3) o by (auto simp: open_turns_snoc turn_mark_def)
  then have "open_turns ((log r' t @ F) @ [e\<lparr>PathDepth := d\<rparr>]) = []"
    using c(4) opens_terminal unfolding open_turns_snoc by (auto simp: turn_end_def)
  moreover have "list_all still (N @ F)" using l(2) c(2) by (auto simp: list_all_iff still_def asks_input_def)
  moreover have "answered env (filter (\<lambda>e. TurnID e = turn) (log r t)) turn (N @ F)" using a by (fastforce simp: answered_def)
  ultimately show ?thesis unfolding ended_def using l(1) c(1,4) by (metis append.assoc)
qed

lemma settle_unknown_ended:
  assumes ok: "repo_ok (tv_store env) r" and m: "tm_ID meta = uq_ThreadID req" "thread r (uq_ThreadID req) \<noteq> None"
    and turn: "\<not> blank (uq_TurnID req)"
    and es: "es = filter (\<lambda>e. TurnID e = uq_TurnID req) (log r (uq_ThreadID req))"
    and open_turn: "open_turns (log r (uq_ThreadID req)) = [uq_TurnID req]"
    and free: "fail_free env r (uq_ThreadID req) (uq_TurnID req)"
    and s: "settle_unknown ctx env req meta es r = (r', Inr res)"
  shows "ended env (uq_TurnID req) (log r (uq_ThreadID req)) (log r' (uq_ThreadID req)) (ur_Terminal res)"
proof -
  let ?t = "uq_ThreadID req" and ?turn = "uq_TurnID req" and ?s = "tv_store env"
  note f = free [unfolded fail_free_def]
  have th: "ThreadID e = ?t" if "e \<in> set es" for e
    using that repo_ok_indexed [OF ok, of ?t] es by (auto simp: indexed_def Let_def)
  define now where "now = canonicalTime (tv_effects env) (uq_Now req)"
  define attempts where "attempts = canonicalEffectAttemptsIn (tv_effects env) es ?turn"
  define fp where "fp = unknownEffectOutcomeFingerprint ?s ?t ?turn (uq_RunID req)"
  define closing1 where "closing1 = map (resolution_entry ?t '''' '''' failed_outcome now) (runtimePendingInteractions ?s es ?turn)"
  define close where "close = unknown_closing env req (map (\<lambda>att. iv_ToolCallID (ea_Invocation att)) (filter in_doubt attempts)) now"
  define r1 where "r1 = snd (cancelPendingSteering env meta es ?turn (uq_RunID req) ''effect_outcome_unknown'' now r)"
  obtain r2 saved m3 r3 r4 results where g2: "append_all ctx ?s now closing1 r1 = (r2, Inr saved)"
    and g3: "append_effects (tv_effects env) (closed_attempts fp now attempts) (meta_of r2 ?t, r2) = ((m3, r3), None)"
    and g4: "append_all ctx ?s now (map close (runtimePendingToolCalls ?s es ?turn)) r3 = (r4, Inr results)"
    and g5: "commit_unknown env req now saved results r4 = (r', res)"
    using s unfolding settle_unknown_def Let_def now_def [symmetric] attempts_def [symmetric] fp_def [symmetric]
      closing1_def [symmetric] close_def [symmetric] r1_def [symmetric]
    by (auto split: if_splits sum.splits option.splits prod.splits)
  have n1: "grows ?s ?t (settling ?t) r r1"
    unfolding r1_def by (rule conjunct1 [OF steering_grows [OF ok m es]]) (use f in auto)
  note ok1 = grows_ok [OF n1 ok]
  have a2: "grows ?s ?t (closing ?t) r1 r2 \<and> (\<exists>new. log r2 ?t = log r1 ?t @ new
      \<and> list_all2 (\<lambda>e x. kept_of e x \<and> ID x = ID e) closing1 new)"
    using append_all_grows [OF ok1, where ctx = ctx and now = now and t = ?t and es = closing1]
      resolutions_closing [of _ ?t "''''" "''''" failed_outcome now] g2 by (simp add: closing1_def)
  then have n2: "grows ?s ?t (closing ?t) r1 r2" by blast
  note ok2 = grows_ok [OF n2 ok1]
  have live2: "thread r2 ?t \<noteq> None" using grows_live [OF n2] grows_live [OF n1] m(2) by simp
  have n3: "grows ?s ?t (closing ?t) r2 r3"
  proof -
    have "grows ?s ?t (closing ?t) r2 (snd (fst (append_effects (tv_effects env) (closed_attempts fp now attempts) (meta_of r2 ?t, r2))))"
    proof (rule append_effects_grows [OF live_meta [OF ok2 live2] live2])
      show "iv_ThreadID (ea_Invocation att) = ?t" if "att \<in> set (closed_attempts fp now attempts)" for att
        using that attempts_thread [OF th] by (auto simp: closed_attempts_def settled_attempt_def attempts_def)
    qed
    then show ?thesis by (simp add: g3)
  qed
  have a4: "grows ?s ?t (closing ?t) r3 r4 \<and> (\<exists>new. log r4 ?t = log r3 ?t @ new
      \<and> list_all2 (\<lambda>e x. kept_of e x \<and> ID x = ID e) (map close (runtimePendingToolCalls ?s es ?turn)) new)"
    using append_all_grows [OF grows_ok [OF n3 ok2], where ctx = ctx and now = now and t = ?t
        and es = "map close (runtimePendingToolCalls ?s es ?turn)"] unknown_closing_ok [of _ env req _ now _ ?t] g4
    by (simp add: close_def)
  have n4: "grows ?s ?t (settling ?t) r r4"
    using grows_trans [OF closes_settles [OF conjunct1 [OF a4]] grows_trans [OF closes_settles [OF n3]
      grows_trans [OF closes_settles [OF n2] n1]]] .
  obtain N1 A2 N3 A4 where N: "log r1 ?t = log r ?t @ N1" "log r2 ?t = log r1 ?t @ A2" "log r3 ?t = log r2 ?t @ N3" "log r4 ?t = log r3 ?t @ A4"
    and k2: "list_all2 (\<lambda>e x. kept_of e x \<and> ID x = ID e) closing1 A2"
    and k4: "list_all2 (\<lambda>e x. kept_of e x \<and> ID x = ID e) (map close (runtimePendingToolCalls ?s es ?turn)) A4"
    using settling_segment [OF n1] a2 closing_segment [OF n3] a4 by blast
  have still: "list_all still (N1 @ A2 @ N3 @ A4)" using settling_segment [OF n4] N by auto
  have close: "Type (close c) = EntryToolResult" "TurnID (close c) = ?turn"
    "msg_ToolCallID (Message (close c)) = msg_ToolCallID (Message c)" for c
    by (simp_all add: close_def unknown_closing_def closing_simps closing_fields)
  have ans: "answered env (filter (\<lambda>e. TurnID e = ?turn) (log r ?t)) ?turn (N1 @ A2 @ N3 @ A4)"
    unfolding es [symmetric] by (rule answered_by [OF k2 [unfolded closing1_def] k4 close]) auto
  obtain g d where "log r' ?t = log r4 ?t @ [g] @ [(ur_Terminal res)\<lparr>PathDepth := d\<rparr>]" "Type g = EntryRunFailure"
    "turn_end ?turn (ur_Terminal res)" using unknown_commit_log [OF turn g5] by auto
  note g = this
  from ends_with [OF _ still _ ans g(1) _ _ g(3)] show ?thesis
    using N settles_open [OF n4] open_turn g(2) by simp
qed

lemma cancel_commit_log:
  assumes ok: "repo_ok (tv_store env) r0" and n: "grows (tv_store env) (cq_ThreadID req) (closing (cq_ThreadID req)) r0 r"
    and live: "thread r0 (cq_ThreadID req) \<noteq> None"
    and es: "es = filter (\<lambda>e. TurnID e = cq_TurnID req) (log r0 (cq_ThreadID req))"
    and free: "fail_free env r0 (cq_ThreadID req) (cq_TurnID req)" and turn: "\<not> blank (cq_TurnID req)"
    and c: "commit_cancel env req now es result r = (r', Inr res)"
  shows "\<exists>r1 d. grows (tv_store env) (cq_ThreadID req) (settling (cq_ThreadID req)) r r1
    \<and> log r' (cq_ThreadID req) = log r1 (cq_ThreadID req) @ [(cr_Terminal res)\<lparr>PathDepth := d\<rparr>]
    \<and> turn_end (cq_TurnID req) (cr_Terminal res)"
proof -
  let ?t = "cq_ThreadID req" and ?turn = "cq_TurnID req" and ?s = "tv_store env"
  note f = free [unfolded fail_free_def]
  have okr: "repo_ok ?s r" by (rule grows_ok [OF n ok])
  have liver: "thread r ?t \<noteq> None" using grows_live [OF n] live by simp
  obtain meta r1 where p: "cancelPendingSteering env (meta_of r ?t) es ?turn (cq_RunID req) ''stopped'' now r = (meta, r1)" by fastforce
  have "grows ?s ?t (settling ?t) r (snd (cancelPendingSteering env (meta_of r ?t) es ?turn (cq_RunID req) ''stopped'' now r))"
  proof (rule conjunct1 [OF steering_grows [OF ok live_meta [OF okr liver] liver es]])
    fix k assume "k \<in> ID ` set (log r ?t)"
    then show "k \<in> ID ` set (log r0 ?t) \<or> \<not> has_prefix ''steer-resolved:'' k"
      using grows_names [OF n, where N = "closing_name ?t" and i = k] closing_steering [of ?t k] f
      by (auto simp: closing_def)
  qed (use f in simp)
  then have n1: "grows ?s ?t (settling ?t) r r1" using p by simp
  define e where "e = terminal_entry env (cq_TerminalEntryID req) ?t ?turn (cq_RunID req) (tm_LeafID meta)
    (cq_OutcomeFingerprint req) TurnAborted (cq_Metadata req) now"
  define r2 where "r2 = setThread ?t (meta\<lparr>tm_LeafID := ID e, tm_UpdatedAt := now\<rparr>) (put_entry env ?t e r1)"
  have q: "fst (cancel_provider env req (ID e) now r2) = r'" and res: "cr_Terminal res = e"
    using c by (auto simp: commit_cancel_def Let_def p e_def [symmetric] r2_def [symmetric] split: prod.splits option.splits)
  have "grows ?s ?t (\<lambda>_ _. False) r2 r'" using cancel_provider_grows [of env req _ r2 "ID e" now] q by simp
  then have "log r' ?t = log r2 ?t" by (rule quiet_log)
  moreover obtain d where "log r2 ?t = log r1 ?t @ [e\<lparr>PathDepth := d\<rparr>]"
    using put_log [of env ?t e r1] by (auto simp: r2_def)
  moreover have "turn_end ?turn e"
    using turn by (simp add: e_def turn_end_def turn_mark_def terminal_simps terminalTurnMarker_def)
  ultimately show ?thesis using n1 res by auto
qed

lemma settle_cancel_ended:
  assumes ok: "repo_ok (tv_store env) r" and live: "thread r (cq_ThreadID req) \<noteq> None"
    and turn: "\<not> blank (cq_TurnID req)"
    and open_turn: "open_turns (log r (cq_ThreadID req)) = [cq_TurnID req]"
    and free: "fail_free env r (cq_ThreadID req) (cq_TurnID req)"
    and s: "settle_cancel ctx env req now cancel r = (r', Inr res)"
  shows "ended env (cq_TurnID req) (log r (cq_ThreadID req)) (log r' (cq_ThreadID req)) (cr_Terminal res)"
proof -
  let ?t = "cq_ThreadID req" and ?turn = "cq_TurnID req" and ?s = "tv_store env"
  note f = free [unfolded fail_free_def]
  obtain es r1 saved r2 unknown r3 results r4 where te: "runtimeTurnEntries r ?t ?turn = Inr es"
    and g1: "append_all ctx ?s now (map (resolution_entry ?t (cq_RequestKey req) (cq_RequestFingerprint req)
        (cq_InteractionResolutionPayload req) now) (runtimePendingInteractions ?s es ?turn)) r = (r1, Inr saved)"
    and g2: "cancelTurnEffects (tv_effects env) (meta_of r1 ?t) req es now r1 = (r2, Inr unknown)"
    and g3: "append_all ctx ?s now (map (cancel_closing env req unknown now) (runtimePendingToolCalls ?s es ?turn)) r2 = (r3, Inr results)"
    and g4: "settleRunningCompaction ctx env es ?turn (cq_RunID req) ''cancelled'' ''cancelled'' '''' now r3 = (r4, None)"
    and g5: "commit_cancel env req now es \<lparr>cr_CancelRequest = cancel, cr_InteractionResolutions = saved,
        cr_ToolResults = results, cr_Terminal = zero_entry, cr_Replayed = False\<rparr> r4 = (r', Inr res)"
    using s unfolding settle_cancel_def Let_def by (auto split: if_splits sum.splits option.splits prod.splits)
  have es: "es = filter (\<lambda>e. TurnID e = ?turn) (log r ?t)"
    by (rule turn_entries_filter [OF repo_ok_indexed [OF ok] turn te])
  have th: "ThreadID e = ?t" if "e \<in> set es" for e
    using that repo_ok_indexed [OF ok, of ?t] es by (auto simp: indexed_def Let_def)
  define asks where "asks = map (resolution_entry ?t (cq_RequestKey req) (cq_RequestFingerprint req)
    (cq_InteractionResolutionPayload req) now) (runtimePendingInteractions ?s es ?turn)"
  define close where "close = cancel_closing env req unknown now"
  have a1: "grows ?s ?t (closing ?t) r r1 \<and> (\<exists>new. log r1 ?t = log r ?t @ new
      \<and> list_all2 (\<lambda>e x. kept_of e x \<and> ID x = ID e) asks new)"
    using append_all_grows [OF ok, where ctx = ctx and now = now and t = ?t and es = asks]
      resolutions_closing [of _ ?t "cq_RequestKey req" "cq_RequestFingerprint req" "cq_InteractionResolutionPayload req" now] g1
    by (simp add: asks_def)
  then have n1: "grows ?s ?t (closing ?t) r r1" by blast
  have live1: "thread r1 ?t \<noteq> None" using grows_live [OF n1] live by simp
  have n2: "grows ?s ?t (closing ?t) r1 r2"
    using cancel_effects_grows [where env = "tv_effects env" and req = req and now = now and es = es,
        OF live_meta [OF grows_ok [OF n1 ok] live1] live1] th g2 by simp
  note ok2 = grows_ok [OF n2 grows_ok [OF n1 ok]]
  have a3: "grows ?s ?t (closing ?t) r2 r3 \<and> (\<exists>new. log r3 ?t = log r2 ?t @ new
      \<and> list_all2 (\<lambda>e x. kept_of e x \<and> ID x = ID e) (map close (runtimePendingToolCalls ?s es ?turn)) new)"
    using append_all_grows [OF ok2, where ctx = ctx and now = now and t = ?t
        and es = "map close (runtimePendingToolCalls ?s es ?turn)"] cancel_closing_ok [of _ env req _ now _ ?t] g3
    by (simp add: close_def)
  note n3 = conjunct1 [OF a3]
  have "grows ?s ?t (generating ?t) r3 (fst (settleRunningCompaction ctx env es ?turn (cq_RunID req)
      ''cancelled'' ''cancelled'' '''' now r3))"
    by (rule compaction_grows [OF grows_ok [OF n3 ok2] _ th]) (use f in \<open>simp_all add: plain_thread_def\<close>)
  then have n4: "grows ?s ?t (closing ?t) r3 r4" using g4 generating_closing by (auto intro: grows_mono)
  have all: "grows ?s ?t (closing ?t) r r4"
    using grows_trans [OF n4 grows_trans [OF n3 grows_trans [OF n2 n1]]] .
  from cancel_commit_log [OF ok all live es free turn g5] obtain r5 d where n5: "grows ?s ?t (settling ?t) r4 r5"
    and l: "log r' ?t = log r5 ?t @ [(cr_Terminal res)\<lparr>PathDepth := d\<rparr>]" "turn_end ?turn (cr_Terminal res)" by blast
  have all5: "grows ?s ?t (settling ?t) r r5" by (rule grows_trans [OF n5 closes_settles [OF all]])
  obtain A1 N2 A3 N4 N5 where N: "log r1 ?t = log r ?t @ A1" "log r2 ?t = log r1 ?t @ N2" "log r3 ?t = log r2 ?t @ A3"
      "log r4 ?t = log r3 ?t @ N4" "log r5 ?t = log r4 ?t @ N5"
    and k1: "list_all2 (\<lambda>e x. kept_of e x \<and> ID x = ID e) asks A1"
    and k3: "list_all2 (\<lambda>e x. kept_of e x \<and> ID x = ID e) (map close (runtimePendingToolCalls ?s es ?turn)) A3"
    using a1 closing_segment [OF n2] a3 closing_segment [OF n4] settling_segment [OF n5] by blast
  have still: "list_all still (A1 @ N2 @ A3 @ N4 @ N5)" using settling_segment [OF all5] N by auto
  have close: "Type (close c) = EntryToolResult" "TurnID (close c) = ?turn"
    "msg_ToolCallID (Message (close c)) = msg_ToolCallID (Message c)" for c
    by (simp_all add: close_def cancel_closing_def closing_simps closing_fields)
  have ans: "answered env (filter (\<lambda>e. TurnID e = ?turn) (log r ?t)) ?turn (A1 @ N2 @ A3 @ N4 @ N5)"
    unfolding es [symmetric] by (rule answered_by [OF k1 [unfolded asks_def] k3 close]) auto
  have "log r' ?t = log r5 ?t @ [] @ [(cr_Terminal res)\<lparr>PathDepth := d\<rparr>]" using l(1) by simp
  from ends_with [OF _ still _ ans this _ _ l(2)] show ?thesis
    using N settles_open [OF all5] open_turn by simp
qed

section \<open>Failing and cancelling a turn\<close>

lemma fail_ended:
  assumes ok: "repo_ok (tv_store env) r"
    and free: "open_turns (log r (trim_space (uq_ThreadID req))) = [trim_space (uq_TurnID req)] \<Longrightarrow>
      fail_free env r (trim_space (uq_ThreadID req)) (trim_space (uq_TurnID req))"
    and s: "failUnknownEffectTurn ctx env r req = (r', Inr res)" "\<not> ur_Replayed res"
  shows "ended env (trim_space (uq_TurnID req)) (log r (trim_space (uq_ThreadID req))) (log r' (trim_space (uq_ThreadID req)))
    (ur_Terminal res)"
proof -
  define q where "q = req\<lparr>uq_ThreadID := trim_space (uq_ThreadID req), uq_TurnID := trim_space (uq_TurnID req),
    uq_RunID := trim_space (uq_RunID req)\<rparr>"
  have q: "trim_space (uq_ThreadID req) = uq_ThreadID q" "trim_space (uq_TurnID req) = uq_TurnID q" by (simp_all add: q_def)
  have v: "ValidateFailUnknownEffectTurnRequest req = None" and b: "fail_unknown_body ctx env r q = (r', Inr res)"
    using s(1) unfolding failUnknownEffectTurn_def Let_def q_def [symmetric]
    by (auto simp: undone_on_error_def split: option.splits sum.splits prod.splits)
  have turn: "\<not> blank (uq_TurnID q)"
    using v by (auto simp: ValidateFailUnknownEffectTurnRequest_def q_def blank_def split: if_splits)
  let ?t = "uq_ThreadID q" and ?s = "tv_store env"
  let ?r1 = "ensured ?t r"
  have g: "grows ?s ?t P r ?r1" for P by (rule ensured_grows)
  have l: "log ?r1 ?t = log r ?t" by (rule quiet_log [OF g])
  have ok1: "repo_ok ?s ?r1" by (rule grows_ok [OF g ok])
  obtain meta es where m: "runtimeActiveTurn (rp_journal ?r1 ?t) = Some (uq_TurnID q)" "thread ?r1 ?t = Some meta"
      "runtimeTurnEntries ?r1 ?t (uq_TurnID q) = Inr es"
    and u: "settle_unknown ctx env q meta es ?r1 = (r', Inr res)"
    using b s(2) unfolding fail_unknown_body_def Let_def by (auto split: sum.splits option.splits if_splits)
  have "ended env (uq_TurnID q) (log ?r1 ?t) (log r' ?t) (ur_Terminal res)"
  proof (rule settle_unknown_ended [OF ok1 _ _ turn _ _ _ u])
    show "tm_ID meta = ?t" using ok1 m(2) by (simp add: repo_ok_def)
    show "thread ?r1 ?t \<noteq> None" using m(2) by simp
    show "es = filter (\<lambda>e. TurnID e = uq_TurnID q) (log ?r1 ?t)"
      by (rule turn_entries_filter [OF repo_ok_indexed [OF ok1] turn m(3)])
    show op: "open_turns (log ?r1 ?t) = [uq_TurnID q]"
      using m(1) runtimeActive_indexed [OF repo_ok_indexed [OF ok1]] by blast
    show "fail_free env ?r1 ?t (uq_TurnID q)" using free op l unfolding q by (simp add: fail_free_def)
  qed
  then show ?thesis unfolding q l .
qed

lemma cancel_ended:
  assumes ok: "repo_ok (tv_store env) r"
    and names: "open_turns (log r (cq_ThreadID req)) = [cq_TurnID req] \<Longrightarrow> cancel_free env r req"
    and turn: "\<not> blank (cq_TurnID req)" "trim_space (cq_TurnID req) = cq_TurnID req"
    and s: "cancel_body ctx env r req = (r', Inr res)" "\<not> cr_Replayed res" "\<not> cq_RequestOnly req"
  shows "\<exists>old. ended env (cq_TurnID req) old (log r' (cq_ThreadID req)) (cr_Terminal res)"
proof -
  let ?t = "cq_ThreadID req" and ?turn = "cq_TurnID req" and ?s = "tv_store env"
  have "open_turns (log r ?t) = [?turn]"
  proof (rule ccontr)
    assume "open_turns (log r ?t) \<noteq> [?turn]"
    from cancel_body_idle [OF ok this, of ctx] s(1,2) show False
      using cancel_replayed by (auto split: sum.splits option.splits)
  qed
  then have free: "cancel_free env r req" by (rule names)
  have t: "trim_space ?t = ?t" using free by (simp add: cancel_free_def fail_free_def plain_thread_def)
  define now where "now = canonicalTime (tv_effects env) (cq_Now req)"
  define u where "u = \<lparr>uq_ThreadID = ?t, uq_TurnID = ?turn, uq_RunID = cq_RunID req, uq_Now = cq_Now req\<rparr>"
  have u: "trim_space (uq_ThreadID u) = ?t" "trim_space (uq_TurnID u) = ?turn" by (simp_all add: u_def t turn)
  obtain r1 v1 where c: "cancel_replay env r req = (r1, v1)" by fastforce
  have v: "v1 = Inr None"
    using s c by (auto simp: cancel_body_def cancel_replay_def Let_def cancelled_before_def split: sum.splits option.splits if_splits)
  obtain r2 v2 where g2: "request_cancel ctx env req now r1 = (r2, v2)" by fastforce
  obtain r3 v3 where g3: "failUnknownEffectTurn ctx env r2 u = (r3, v3)" by fastforce
  have body: "runtimeActiveTurn (rp_journal r1 ?t) = Some ?turn \<and> thread r1 ?t \<noteq> None
      \<and> ((\<exists>x. v3 = Inr x \<and> r' = r3 \<and> cr_Terminal res = ur_Terminal x \<and> \<not> ur_Replayed x)
        \<or> (\<exists>cancel err. v3 = Inl err \<and> settle_cancel ctx env req now cancel r3 = (r', Inr res)))"
    using s unfolding cancel_body_def Let_def now_def [symmetric] u_def [symmetric] c v
    by (auto simp: g2 g3 split: sum.splits option.splits if_splits prod.splits)
  have n1: "grows ?s ?t P r r1" for P using cancel_replay_grows(1) c by (metis fst_conv)
  have l1: "log r1 ?t = log r ?t" by (rule quiet_log [OF n1])
  have ok1: "repo_ok ?s r1" by (rule grows_ok [OF n1 ok])
  note q = requested_grows [OF ok1 cancel_free_log [OF l1 free], of ctx now, unfolded g2 fst_conv]
  have ok2: "repo_ok ?s r2" by (rule grows_ok [OF conjunct1 [OF q] ok1])
  have free2: "fail_free env r2 ?t ?turn" using q by blast
  have o2: "open_turns (log r2 ?t) = [?turn]"
    using q body runtimeActive_indexed [OF repo_ok_indexed [OF ok1]] by simp
  from body consider (failed) x where "v3 = Inr x" "r' = r3" "cr_Terminal res = ur_Terminal x" "\<not> ur_Replayed x"
    | (settled) cancel err where "v3 = Inl err" "settle_cancel ctx env req now cancel r3 = (r', Inr res)" by blast
  then show ?thesis
  proof cases
    case failed
    have "ended env ?turn (log r2 ?t) (log r3 ?t) (ur_Terminal x)"
      using fail_ended [OF ok2 _ g3 [unfolded failed(1)] failed(4)] free2 unfolding u by blast
    then show ?thesis using failed by auto
  next
    case settled
    have r3: "r3 = r2" using fail_grows(2) [OF ok2, of u ctx err] free2 settled(1) by (simp add: u g3)
    have "thread r2 ?t \<noteq> None" using grows_live [OF conjunct1 [OF q]] body by blast
    from settle_cancel_ended [OF ok2 this turn(1) o2 free2 settled(2) [unfolded r3]] show ?thesis by blast
  qed
qed

end
