(* ===== verification/TurnFacts.thy ===== *)
theory TurnFacts
  imports TurnHistory TurnSettled
begin

text \<open>
  What a turn comes to: a cancellation that succeeds has settled everything the turn left open, and
  a turn with nothing left to settle can be completed.
\<close>

section \<open>A cancelled turn is settled\<close>

lemma not_active: "repo_ok env r \<Longrightarrow> open_turns (log r t) = [] \<Longrightarrow> runtimeActiveTurn (rp_journal r t) = None"
  using runtimeActive_indexed [OF repo_ok_indexed, of env r t] by (cases "runtimeActiveTurn (rp_journal r t)") auto

lemma cancel_success:
  assumes "CancelTurn ctx env r req = (r', Inr res)"
  shows "cancel_body ctx env r (trimmed_cancel req) = (r', Inr res) \<and> \<not> blank (cq_TurnID (trimmed_cancel req))"
  using assms by (auto simp: CancelTurn_def undone_on_error_def ValidateCancelTurnRequest_def trimmed_cancel_def blank_def
      split: option.splits prod.splits sum.splits if_splits)

text \<open>
  C3: A successful cancellation settles its turn. In any reachable repository, when an admissible \<open>CancelTurn\<close>
  (not a mere request) returns a fresh result (not a replayed one), the turn is over: its terminal marker is the last entry, no
  turn is active, and no tool call and no interaction of the turn is left unanswered, whichever were
  pending before.
\<close>

theorem cancel_settles:
  assumes reach: "turn_reach env r" and free: "admissible env r (Cancel req)"
    and s: "CancelTurn ctx env r req = (r', Inr res)" "\<not> cr_Replayed res" "\<not> cq_RequestOnly req"
    and t: "t = trim_space (cq_ThreadID req)" "turn = trim_space (cq_TurnID req)"
    and es: "es = filter (\<lambda>e. TurnID e = turn) (log r' t)"
  shows "runtimePendingToolCalls (tv_store env) es turn = [] \<and> runtimePendingInteractions (tv_store env) es turn = []
    \<and> runtimeActiveTurn (rp_journal r' t) = None
    \<and> log r' t \<noteq> [] \<and> turn_end turn (last (log r' t)) \<and> ID (last (log r' t)) = ID (cr_Terminal res)"
proof -
  define q where "q = trimmed_cancel req"
  have q: "cq_ThreadID q = t" "cq_TurnID q = turn" "\<not> cq_RequestOnly q" "trim_space (cq_TurnID q) = cq_TurnID q"
    using s(3) by (simp_all add: q_def trimmed_cancel_def t)
  have ok: "repo_ok (tv_store env) r" by (rule in_order_ok [OF reach_in_order [OF reach]])
  have f: "open_turns (log r (cq_ThreadID q)) = [cq_TurnID q] \<Longrightarrow> cancel_free env r q"
    using free by (simp add: q_def Let_def)
  note b = cancel_success [OF s(1), folded q_def]
  obtain old where e: "ended env turn old (log r' t) (cr_Terminal res)"
    using cancel_ended [OF ok f _ q(4) conjunct1 [OF b] s(2) q(3)] b unfolding q by blast
  have ok': "repo_ok (tv_store env) r'"
    using grows_ok [OF CancelTurn_grows(1) [OF ok, of req ctx] ok] free s(1) by (simp add: Let_def)
  have "distinct (map ID (log r' t))" using repo_ok_indexed [OF ok', of t] by (simp add: indexed_def Let_def)
  note ended_settled [OF e this]
  moreover have "open_turns (log r' t) = []" using e by (auto simp: ended_def)
  ultimately show ?thesis using not_active [OF ok'] e by (auto simp: es ended_def turn_end_def turn_mark_def)
qed

text \<open>Cancelling the first turn of the opened thread.\<close>

definition first_cancel :: cancel_request where
  "first_cancel = stale_cancel\<lparr>cq_TurnID := ''u'', cq_TerminalEntryID := ''terminal-u''\<rparr>"

definition requested_repo :: repo where
  "requested_repo = fst (request_cancel background sample_turns first_cancel 5
     (fst (cancel_replay sample_turns accepted_repo first_cancel)))"

definition in_doubt_request :: fail_request where
  "in_doubt_request = \<lparr>uq_ThreadID = ''t'', uq_TurnID = ''u'', uq_RunID = ''r'', uq_Now = 5\<rparr>"

lemma first_cancel_admissible: "cancel_free sample_turns accepted_repo first_cancel"
proof -
  have "steering_free sample_turns (log accepted_repo ''t'') ''u''
      \<and> ''turn-failure:u'' \<notin> ID ` set (log accepted_repo ''t'')" by code_simp
  then show ?thesis
    using plain_sample caller_sample stale_fields terminal_caller_name [OF plain_sample, of "''u''"]
    by (simp add: cancel_free_def fail_free_def first_cancel_def)
qed

lemma first_cancel_steps:
  "trimmed_cancel first_cancel = first_cancel"
  "ValidateCancelTurnRequest (tv_store sample_turns) first_cancel = None"
  "canonicalTime (tv_effects sample_turns) (cq_Now first_cancel) = 5"
  "snd (cancel_replay sample_turns accepted_repo first_cancel) = Inr None"
  "runtimeActiveTurn (rp_journal (fst (cancel_replay sample_turns accepted_repo first_cancel)) ''t'') = Some ''u''"
  "case thread (fst (cancel_replay sample_turns accepted_repo first_cancel)) ''t'' of
     None \<Rightarrow> False | Some m \<Rightarrow> lifecycleRejectsWrite m = None"
  "\<not> sum.isl (snd (request_cancel background sample_turns first_cancel 5
     (fst (cancel_replay sample_turns accepted_repo first_cancel))))"
  "snd (failUnknownEffectTurn background sample_turns requested_repo in_doubt_request) = Inl ErrRequestConflict"
  by code_simp+

lemma first_cancel_settles:
  "case snd (settle_cancel background sample_turns first_cancel 5 cancel requested_repo) of
     Inl _ \<Rightarrow> False | Inr res \<Rightarrow> \<not> cr_Replayed res"
  by code_simp

lemma first_cancel_runs:
  "\<exists>r' res. CancelTurn background sample_turns accepted_repo first_cancel = (r', Inr res) \<and> \<not> cr_Replayed res"
proof -
  obtain r1 where c: "cancel_replay sample_turns accepted_repo first_cancel = (r1, Inr None)"
    using first_cancel_steps(4) by (metis prod.collapse)
  note steps = first_cancel_steps [unfolded c fst_conv] and req = requested_repo_def [unfolded c fst_conv]
  have id: "cq_ThreadID first_cancel = ''t''" "cq_TurnID first_cancel = ''u''" "cq_RunID first_cancel = ''r''"
      "cq_Now first_cancel = 5" "\<not> cq_RequestOnly first_cancel" "trim_space ''t'' = ''t''" "trim_space ''u'' = ''u''"
    by code_simp+
  note ok = in_order_ok [OF reach_in_order [OF accepted_reach]]
  have n1: "grows (tv_store sample_turns) ''t'' (\<lambda>_ _. False) accepted_repo r1"
    using cancel_replay_grows(1) [where env = sample_turns and req = first_cancel and r = accepted_repo] by (simp add: id c)
  have f1: "cancel_free sample_turns r1 first_cancel"
    by (rule cancel_free_log [OF _ first_cancel_admissible]) (simp add: id quiet_log [OF n1])
  note q = requested_grows [OF grows_ok [OF n1 ok] f1, of background 5, folded req]
  have ok2: "repo_ok (tv_store sample_turns) requested_repo" using q grows_ok [OF n1 ok] grows_ok by blast
  have "fst (failUnknownEffectTurn background sample_turns requested_repo in_doubt_request) = requested_repo"
    using fail_grows(2) [OF ok2, of in_doubt_request background ErrRequestConflict] q steps(8)
    by (simp add: id in_doubt_request_def)
  with steps(8) have "failUnknownEffectTurn background sample_turns requested_repo in_doubt_request
      = (requested_repo, Inl ErrRequestConflict)" by (metis prod.collapse)
  moreover obtain c where "request_cancel background sample_turns first_cancel 5 r1 = (requested_repo, Inr c)"
    using steps(7) unfolding req by (metis prod.collapse sum.collapse(2))
  moreover obtain m where "thread r1 ''t'' = Some m" "lifecycleRejectsWrite m = None"
    using steps(6) by (auto split: option.splits)
  ultimately have "cancel_body background sample_turns accepted_repo first_cancel
      = settle_cancel background sample_turns first_cancel 5 c requested_repo"
    using steps(3,5) c by (simp add: cancel_body_def Let_def id in_doubt_request_def)
  then show ?thesis using first_cancel_settles [of c] steps(1,2)
    by (cases "settle_cancel background sample_turns first_cancel 5 c requested_repo")
      (auto simp: CancelTurn_def undone_on_error_def id split: sum.splits)
qed

theorem cancel_settles_witness:
  "\<exists>r' res. CancelTurn background sample_turns accepted_repo first_cancel = (r', Inr res)
     \<and> runtimePendingToolCalls (tv_store sample_turns) (filter (\<lambda>e. TurnID e = ''u'') (log r' ''t'')) ''u'' = []
     \<and> runtimeActiveTurn (rp_journal r' ''t'') = None \<and> turn_end ''u'' (last (log r' ''t''))"
proof -
  obtain r' res where c: "CancelTurn background sample_turns accepted_repo first_cancel = (r', Inr res)" "\<not> cr_Replayed res"
    using first_cancel_runs by blast
  have "admissible sample_turns accepted_repo (Cancel first_cancel)"
    using first_cancel_admissible first_cancel_steps(1) by simp
  moreover have "\<not> cq_RequestOnly first_cancel" "''t'' = trim_space (cq_ThreadID first_cancel)"
      "''u'' = trim_space (cq_TurnID first_cancel)" by code_simp+
  ultimately show ?thesis using cancel_settles [OF accepted_reach _ c _ _ _ refl] c(1) by blast
qed

text \<open>
  A call whose identity recurs after its result is listed as pending twice, so that the two closing
  entries of a cancellation get the same name and the second cannot be appended.
\<close>

definition call_entry :: "string \<Rightarrow> entry" where
  "call_entry c = zero_entry\<lparr>ThreadID := ''t'', Type := EntryToolCall, TurnID := ''u'', RunID := ''r'',
     Message := zero_message\<lparr>msg_Role := Assistant, msg_ToolCallID := c, msg_ToolName := ''ls''\<rparr>\<rparr>"

definition result_entry :: "string \<Rightarrow> entry" where
  "result_entry c = zero_entry\<lparr>ThreadID := ''t'', Type := EntryToolResult, TurnID := ''u'', RunID := ''r'',
     Message := zero_message\<lparr>msg_Role := Tool, msg_ToolCallID := c, msg_ToolName := ''ls''\<rparr>\<rparr>"

lemma recurring_call_pending_twice:
  "map (\<lambda>c. ID (cancel_closing sample_turns first_cancel [] 5 c))
     (runtimePendingToolCalls (tv_store sample_turns) [call_entry ''c'', result_entry ''c'', call_entry ''c''] ''u'')
   = [''tool-cancelled:u:c'', ''tool-cancelled:u:c'']"
  by code_simp

section \<open>A turn can be completed\<close>

lemma select_total:
  "(\<And>k. k \<in> set ks \<Longrightarrow> p < k \<and> 0 \<le> k \<and> k < int (length es) \<and> ThreadID (at es k) = t \<and> TurnID (at es k) = turn)
    \<Longrightarrow> sorted ks \<Longrightarrow> distinct ks \<Longrightarrow> select_ordinals es t turn p ks = Inr (map (at es) ks)"
proof (induction ks arbitrary: p)
  case (Cons k ks)
  have "select_ordinals es t turn k ks = Inr (map (at es) ks)"
    by (rule Cons.IH) (use Cons.prems in \<open>auto simp: order_less_le\<close>)
  moreover have "p < k \<and> 0 \<le> k \<and> k < int (length es) \<and> ThreadID (at es k) = t \<and> TurnID (at es k) = turn"
    by (rule Cons.prems(1)) simp
  ultimately show ?case by simp
qed simp

lemma positions_sorted: "sorted (list_at (index_turns 0 es Map.empty) turn) \<and> distinct (list_at (index_turns 0 es Map.empty) turn)
    \<and> (\<forall>k \<in> set (list_at (index_turns 0 es Map.empty) turn). k < int (length es))"
proof (induction es rule: rev_induct)
  case (snoc e es)
  then show ?case by (auto simp: index_turns_snoc list_at_push sorted_append less_imp_le)
qed (simp add: list_at_def)

lemma turn_entries_total:
  assumes j: "indexed env t (rp_journal r t)" and n: "\<not> blank turn"
    and s: "\<exists>e \<in> set (log r t). turn_start turn e"
  shows "runtimeTurnEntries (ensured t r) t turn = Inr (filter (\<lambda>e. TurnID e = turn) (log r t))"
proof -
  let ?es = "log r t" let ?ks = "list_at (index_turns 0 ?es Map.empty) turn"
  define j where "j = rp_journal (ensured t r) t"
  have "jn_turns j = Some (rebuildTurnMarkers ?es)"
    using turns_of_indexed [OF assms(1)] by (simp add: j_def ensured_def ensureTurnMarkers_def turns_of_def split: option.splits)
  moreover have "tp_started (tk_at (marker_at (rebuildTurnMarkers ?es) turn)) \<noteq> 0"
    using mark_fields [of ?es turn] s unfolding mark_position_def by blast
  moreover have e: "jn_entries j = ?es" "jn_turnOrdinals j = index_turns 0 ?es Map.empty"
      "jn_turnCounts j = (\<lambda>k. map_option (\<lambda>xs. int (length xs)) (jn_turnOrdinals j k))"
    using assms(1) by (simp_all add: j_def indexed_def Let_def ensured_def ensureTurnMarkers_def split: option.splits)
  moreover have "select_ordinals ?es t turn (- 1) ?ks = Inr (map (at ?es) ?ks)"
  proof (rule select_total)
    fix k assume k: "k \<in> set ?ks"
    have b: "0 \<le> k \<and> k < int (length ?es)" using positions_filter [OF n] k by blast
    have "at ?es k \<in> set (filter (\<lambda>e. TurnID e = turn) ?es)"
      unfolding conjunct1 [OF positions_filter [OF n], symmetric] set_map using k by (rule imageI)
    moreover have "ThreadID e = t" if "e \<in> set ?es" for e using that assms(1) by (simp add: indexed_def Let_def)
    ultimately show "- 1 < k \<and> 0 \<le> k \<and> k < int (length ?es) \<and> ThreadID (at ?es k) = t \<and> TurnID (at ?es k) = turn"
      using b by auto
  qed (use positions_sorted in blast)+
  ultimately show ?thesis using positions_filter [OF n, of ?es]
    by (auto simp: runtimeTurnEntries_def Let_def j_def [symmetric] list_at_def split: option.splits)
qed

lemma finish_commit_total:
  assumes m: "tm_ID meta = t" and o: "open_turns (log r t) = [fq_TurnID req]"
    and v: "terminalTurnMarker (fq_Status req)" "\<not> blank (fq_TurnID req)"
    and atts: "\<forall>att \<in> set attempts. ea_State att \<noteq> EffectAttemptPrepared"
  shows "\<exists>r' res. commit_turn_finish env req admission attempts metadata now meta r = (r', Inr res)
    \<and> \<not> ft_Replayed res \<and> open_turns (log r' t) = []"
proof -
  define message where "message = trim_space (fq_FailureMessage req)"
  define failure where "failure = failure_entry env t (fq_TurnID req) (fq_RunID req) (tm_LeafID meta) message now"
  define terminal where "terminal = terminal_entry env (trim_space (fq_TerminalEntryID req)) t (fq_TurnID req) (fq_RunID req)
    (if message = '''' then tm_LeafID meta else ID failure) (fq_OutcomeFingerprint req) (fq_Status req) metadata now"
  define r1 where "r1 = (if message = '''' then r else put_entry env t failure r)"
  define r2 where "r2 = put_entry env t terminal r1"
  define r3 where "r3 = finish_provider env req admission t (ID terminal) now
    (setThread t (meta\<lparr>tm_LeafID := ID terminal, tm_UpdatedAt := now\<rparr>) r2)"
  have p: "filter (\<lambda>att. ea_State att = EffectAttemptPrepared) attempts = []" using atts by (simp add: filter_empty_conv)
  obtain d where d: "log r2 t = log r1 t @ [terminal\<lparr>PathDepth := d\<rparr>]" using put_log r2_def by blast
  have "open_turns (log r1 t) = [fq_TurnID req]"
  proof (cases "message = ''''")
    case False
    obtain d' where "log r1 t = log r t @ [failure\<lparr>PathDepth := d'\<rparr>]" using put_log False r1_def by metis
    then show ?thesis using o by (simp add: open_turns_snoc turn_mark_def failure_def terminal_simps)
  qed (simp add: r1_def o)
  moreover have "turn_end (fq_TurnID req) terminal"
    using v by (simp add: terminal_def turn_end_def turn_mark_def terminal_simps)
  ultimately have "open_turns (log r2 t) = []"
    using opens_terminal unfolding d open_turns_snoc by (auto simp: turn_end_def)
  moreover have "log r3 t = log r2 t" unfolding r3_def by (simp add: quiet_log [OF finish_provider_grows])
  ultimately have "open_turns (log r3 t) = []" by simp
  moreover have "commit_turn_finish env req admission attempts metadata now meta r
     = (r3, Inr \<lparr>ft_Failure = (if message = '''' then None else Some failure), ft_Terminal = terminal, ft_Replayed = False\<rparr>)"
    unfolding commit_turn_finish_def Let_def m message_def [symmetric] failure_def [symmetric] r1_def [symmetric]
      terminal_def [symmetric] r2_def [symmetric] r3_def [symmetric] p by simp
  ultimately show ?thesis by simp
qed

lemma findEntry_distinct: "distinct (map ID es) \<Longrightarrow> e \<in> set es \<Longrightarrow> findEntry es (ID e) = Some e"
  by (induction es) (auto simp: findEntry_def)

lemma metadata_total:
  assumes "repo_ok env r"
  shows "\<exists>x. entryMetadata r t i = Inr x"
proof (cases "ordinal_of (rp_journal r t) i")
  case (Some k)
  note j = repo_ok_indexed [OF assms, of t] and k = Some [unfolded ordinal_indexed_Some [OF repo_ok_indexed [OF assms]]]
  let ?e = "at (log r t) k"
  have e: "?e \<in> set (log r t)" "ID ?e = i" using k by (auto simp: at_def)
  have "findEntry (log r t) i = Some ?e"
    using e(1) j findEntry_distinct [of "log r t" ?e] unfolding e(2) by (auto simp: indexed_def Let_def)
  then have "jn_depths (rp_journal r t) i = Some (PathDepth ?e)"
    using j by (simp add: indexed_def Let_def depth_map_def)
  moreover have "ThreadID ?e = t" "0 < PathDepth ?e" using j e by (auto simp: indexed_def Let_def)
  ultimately show ?thesis using Some k by (simp add: entryMetadata_def Let_def)
qed (simp add: entryMetadata_def)

lemma open_started:
  assumes "orderly es" "open_turns es = [turn]"
  shows "\<exists>e \<in> set es. turn_start turn e"
proof -
  have f: "follows turn_allowed None (turn_marks turn es)" and "\<exists>s. last_state None (turn_marks turn es) = Some s"
    using assms by (auto simp: orderly_def)
  then obtain s ss where "turn_marks turn es = s # ss" by (cases "turn_marks turn es") auto
  moreover from this f have "s = TurnStarted" by simp
  ultimately have "TurnStarted \<in> set (turn_marks turn es)" by simp
  then show ?thesis by (auto simp: turn_marks_def turn_start_def)
qed

text \<open>
  C5: A turn with nothing left to settle can be completed. In any reachable repository, if a turn is
  active, no question of it is open, none of its effects is prepared, dispatched or in doubt and nobody
  asked to cancel it, then a valid and admissible completion, not one the goal guard holds back
  (\<open>goal_guard\<close> is not \<open>1\<close>), under an unused name is never refused, and it frees the thread for the next turn.
\<close>

theorem turn_can_complete:
  assumes reach: "turn_reach env r" and adm: "admissible env r (Finish req)"
    and v: "ValidateFinishTurnRequest req = None" "fq_Status req = TurnCompleted" "mget (fq_Metadata req) ''goal_guard'' \<noteq> ''1''"
    and live: "thread r (fq_ThreadID req) \<noteq> None"
    and active: "runtimeActiveTurn (rp_journal r (fq_ThreadID req)) = Some (fq_TurnID req)"
    and new: "trim_space (fq_TerminalEntryID req) \<notin> ID ` set (log r (fq_ThreadID req))"
    and es: "es = filter (\<lambda>e. TurnID e = fq_TurnID req) (log r (fq_ThreadID req))"
    and asked: "runtimePendingInteractions (tv_store env) es (fq_TurnID req) = []"
    and settled: "\<forall>att \<in> set (canonicalEffectAttemptsIn (tv_effects env) es (fq_TurnID req)).
      ea_State att \<notin> {EffectAttemptPrepared, EffectAttemptDispatching, EffectAttemptUnknown}"
    and kept: "\<not> turnCancellationRequested (rp_journal r (fq_ThreadID req)) (fq_TurnID req)"
  shows "\<exists>r' res. FinishTurn env r req = (r', Inr res) \<and> \<not> ft_Replayed res
    \<and> runtimeActiveTurn (rp_journal r' (fq_ThreadID req)) = None"
proof -
  let ?t = "fq_ThreadID req" and ?turn = "fq_TurnID req" and ?s = "tv_store env"
  let ?r1 = "ensured ?t r"
  have o: "in_order ?s r" by (rule reach_in_order [OF reach])
  note ok = in_order_ok [OF o]
  have n: "\<not> blank ?turn" using finish_status [OF v(1)] by blast
  have g: "grows ?s ?t P r ?r1" for P by (rule ensured_grows)
  have l1: "log ?r1 ?t = log r ?t" by (rule quiet_log [OF g])
  have ok1: "repo_ok ?s ?r1" by (rule grows_ok [OF g ok])
  have op: "open_turns (log r ?t) = [?turn]" using active runtimeActive_indexed [OF repo_ok_indexed [OF ok]] by blast
  then have free: "finish_free env r req" using adm by simp
  have "orderly (log r ?t)" using o by (simp add: in_order_def)
  then have e: "runtimeTurnEntries ?r1 ?t ?turn = Inr es"
    using turn_entries_total [OF repo_ok_indexed [OF ok] n] open_started op es by blast
  obtain meta where m: "thread ?r1 ?t = Some meta" using grows_live [OF g] live by blast
  have id: "tm_ID meta = ?t" using ok1 m by (simp add: repo_ok_def)
  have a1: "runtimeActiveTurn (rp_journal ?r1 ?t) = Some ?turn" "\<not> turnCancellationRequested (rp_journal ?r1 ?t) ?turn"
    using op kept runtimeActive_indexed [OF repo_ok_indexed [OF ok1], of ?t ?turn] cancellation_indexed [OF repo_ok_indexed [OF ok]]
      cancellation_indexed [OF repo_ok_indexed [OF ok1]] by (simp_all add: l1)
  define now where "now = canonicalTime (tv_effects env) (fq_Now req)"
  define attempts where "attempts = canonicalEffectAttemptsIn (tv_effects env) es ?turn"
  obtain m3 r3 where g3: "cancelPendingSteering env meta es ?turn (fq_RunID req) ''task_ended'' now ?r1 = (m3, r3)" by fastforce
  have n3: "grows ?s ?t (settling ?t) ?r1 r3" "tm_ID m3 = ?t"
    using steering_grows [OF ok id _ es, where r = ?r1 and run = "fq_RunID req" and reason = "''task_ended''" and now = now]
      free m by (simp_all add: finish_free_def Let_def l1 g3)
  have op3: "open_turns (log r3 ?t) = [?turn]" using settles_open [OF n3(1)] l1 op by simp
  have sub: "\<exists>r' res. finish_settled env req admission meta es ?r1 = (r', Inr res) \<and> \<not> ft_Replayed res
      \<and> open_turns (log r' ?t) = []" for admission
    using finish_commit_total [where env = env and admission = admission and metadata = "fq_Metadata req" and now = now,
        OF n3(2) op3 _ n, of attempts] asked settled a1(2) v(2,3) id
    by (auto simp: finish_settled_def Let_def now_def [symmetric] attempts_def [symmetric] g3 finish_metadata_def
        finish_compaction_def terminalTurnMarker_def runtimeTurnHasPendingInteraction_def list_ex_iff)
  have "entryMetadata r ?t (trim_space (fq_TerminalEntryID req)) = Inr None" using metadata_missing [OF ok] new by blast
  then have "\<exists>r' res. FinishTurn env r req = (r', Inr res) \<and> \<not> ft_Replayed res \<and> open_turns (log r' ?t) = []"
    using sub metadata_total [OF ok, of ?t "runtimeTurnStartedEntryID ?turn"] a1(1) m e id
    by (auto simp: FinishTurn_def v(1) finishTurn_def Let_def split: sum.split)
  moreover have "repo_ok ?s (fst (FinishTurn env r req))"
    using grows_ok [OF finishTurn_grows [OF ok v(1) free] ok] by (simp add: FinishTurn_def v(1))
  ultimately show ?thesis using not_active by (metis fst_conv)
qed

text \<open>Completing the first turn.\<close>

definition first_finish :: finish_turn_request where
  "first_finish = \<lparr>fq_PreserveProviderState = False, fq_StateCompatibilityKey = '''', fq_ThreadID = ''t'', fq_TurnID = ''u'',
     fq_RunID = ''r'', fq_TerminalEntryID = ''terminal-h'', fq_Status = TurnCompleted, fq_Metadata = [], fq_FailureMessage = '''',
     fq_ProviderState = None, fq_ClearProviderState = False, fq_OutcomeFingerprint = ''o'', fq_Now = 9\<rparr>"

lemma first_finish_fields:
  "fq_ThreadID first_finish = ''t''" "fq_TurnID first_finish = ''u''" "fq_TerminalEntryID first_finish = ''terminal-h''"
  "trim_space ''terminal-h'' = ''terminal-h''"
  by code_simp+

lemma first_finish_ready:
  "ValidateFinishTurnRequest first_finish = None" "fq_Status first_finish = TurnCompleted"
  "mget (fq_Metadata first_finish) ''goal_guard'' \<noteq> ''1''" "thread accepted_repo ''t'' \<noteq> None"
  "''terminal-h'' \<notin> ID ` set (log accepted_repo ''t'')"
  "runtimePendingInteractions (tv_store sample_turns) (filter (\<lambda>e. TurnID e = ''u'') (log accepted_repo ''t'')) ''u'' = []"
  "canonicalEffectAttemptsIn (tv_effects sample_turns) (filter (\<lambda>e. TurnID e = ''u'') (log accepted_repo ''t'')) ''u'' = []"
  "\<not> turnCancellationRequested (rp_journal accepted_repo ''t'') ''u''"
  by code_simp+

lemma first_finish_admissible: "admissible sample_turns accepted_repo (Finish first_finish)"
proof -
  have "steering_free sample_turns (log accepted_repo ''t'') ''u''
      \<and> ''turn-failure:u'' \<notin> ID ` set (log accepted_repo ''t'')" by code_simp
  then show ?thesis using plain_sample caller_sample by (simp add: finish_free_def first_finish_fields)
qed

text \<open>Histories whose turns were finished and cancelled under the names the program gives are reachable.\<close>

lemma ended_reach:
  "turn_reach sample_turns (fst (FinishTurn sample_turns accepted_repo first_finish))"
  "turn_reach sample_turns (fst (CancelTurn background sample_turns accepted_repo first_cancel))"
proof -
  show "turn_reach sample_turns (fst (FinishTurn sample_turns accepted_repo first_finish))"
    using reach_step [OF accepted_reach first_finish_admissible] by simp
  have "admissible sample_turns accepted_repo (Cancel first_cancel)"
    using first_cancel_admissible first_cancel_steps(1) by simp
  from reach_step [OF accepted_reach this, of background]
  show "turn_reach sample_turns (fst (CancelTurn background sample_turns accepted_repo first_cancel))" by simp
qed

theorem turn_can_complete_witness:
  "\<exists>r' res. FinishTurn sample_turns accepted_repo first_finish = (r', Inr res)
     \<and> runtimeActiveTurn (rp_journal r' ''t'') = None"
proof -
  show ?thesis
    using turn_can_complete [OF accepted_reach first_finish_admissible first_finish_ready(1-3) _ _ _ refl] first_finish_ready accepted_active
    by (simp add: first_finish_fields) blast
qed

end
