(* ===== verification/ForkFacts.thy ===== *)
theory ForkFacts
  imports Forks TurnFacts
begin

text \<open>
  What a fork makes of a path: removing effect authority and renaming keep the copy linked, closing it
  leaves no turn open, and installing it rebuilds the indexes (\<open>fresh_copy\<close>).
\<close>

section \<open>The entries that stay\<close>

text \<open>Every parent is an earlier entry.\<close>

fun kept_ok :: "string set \<Rightarrow> entry list \<Rightarrow> bool" where
  "kept_ok seen [] = True"
| "kept_ok seen (e # es) = ((ParentID e = '''' \<or> ParentID e \<in> seen) \<and> Type e \<noteq> EntryEffectAttempt
     \<and> kept_ok (insert (ID e) seen) es)"

text \<open>What a copy keeps of the entry it was made from.\<close>

definition copy_of :: "entry \<Rightarrow> entry \<Rightarrow> bool" where
  "copy_of e x \<longleftrightarrow> Type x = Type e \<and> TurnID x = TurnID e \<and> RunID x = RunID e \<and> TurnStatus x = TurnStatus e
     \<and> Message x = Message e \<and> RequestKey x = RequestKey e \<and> CreatedAt x = CreatedAt e
     \<and> (keeps_name e \<longrightarrow> ID x = ID e)"

lemma retained_entries:
  "retain_entries removed depths es = Inr kept \<Longrightarrow> \<forall>e \<in> set es. Type e \<noteq> EntryEffectAttempt \<Longrightarrow>
    kept_ok (dom depths) kept \<and> list_all2 (\<lambda>e x. ID x = ID e \<and> copy_of e x) es kept"
proof (induction removed depths es arbitrary: kept rule: retain_entries.induct)
  case (2 removed depths e es)
  obtain parent where p: "resolveRemovedEffectEntryID removed [] (ParentID e) = Inr parent"
    using "2.prems"(1) by (auto split: sum.splits)
  define depth where "depth = (if parent = '''' then 0 else case depths parent of None \<Rightarrow> 0 | Some d \<Rightarrow> d)"
  have "\<not> (parent \<noteq> '''' \<and> depth \<le> 0) \<and> (\<exists>rest. retain_entries removed (depths(ID e \<mapsto> depth + 1)) es = Inr rest
      \<and> kept = e\<lparr>ParentID := parent, PathDepth := depth + 1\<rparr> # rest)"
    using "2.prems"(1) p by (auto simp: Let_def depth_def [symmetric] split: sum.splits if_splits)
  then obtain rest where r: "\<not> (parent \<noteq> '''' \<and> depth \<le> 0)" "retain_entries removed (depths(ID e \<mapsto> depth + 1)) es = Inr rest"
      "kept = e\<lparr>ParentID := parent, PathDepth := depth + 1\<rparr> # rest" by blast
  have "parent = '''' \<or> parent \<in> dom depths" using r(1) by (cases "depths parent") (auto simp: depth_def domIff split: if_splits)
  moreover have "dom (depths(ID e \<mapsto> depth + 1)) = insert (ID e) (dom depths)" by simp
  from "2.IH" [OF p depth_def r(1,2), unfolded this] have "kept_ok (insert (ID e) (dom depths)) rest
      \<and> list_all2 (\<lambda>e x. ID x = ID e \<and> copy_of e x) es rest"
    using "2.prems"(2) by simp
  ultimately show ?case using "2.prems"(2) by (simp add: r(3) copy_of_def)
qed simp

lemma name_copy_cases: "name_copy aliases old new ids i = ids i \<or> name_copy aliases old new ids i = Some new"
proof -
  have "fold (\<lambda>i ids. ids(i \<mapsto> new)) xs m i \<in> {m i, Some new}" for xs m
  proof (induction xs arbitrary: m)
    case (Cons x xs)
    show ?case using Cons [of "m(x \<mapsto> new)"] by (simp split: if_splits)
  qed simp
  from this [of "list_at aliases old" "ids(old \<mapsto> new)"] show ?thesis by (simp add: name_copy_def split: if_splits)
qed

lemma name_copy_old: "name_copy aliases old new ids old = Some new"
proof -
  have "m old = Some new \<Longrightarrow> fold (\<lambda>i ids. ids(i \<mapsto> new)) xs m old = Some new" for xs m
    by (induction xs arbitrary: m) auto
  then show ?thesis by (simp add: name_copy_def)
qed

section \<open>Copies are linked\<close>

definition copied :: "string \<Rightarrow> entry list \<Rightarrow> bool" where
  "copied t es \<longleftrightarrow> (\<forall>n < length es. PathDepth (es ! n) = int n + 1 \<and> Type (es ! n) \<noteq> EntryEffectAttempt
     \<and> (ParentID (es ! n) = '''' \<or> ParentID (es ! n) \<in> ID ` set (take n es)))"

lemma copied_Nil [simp]: "copied t []"
  by (simp add: copied_def)

lemma copied_snoc:
  "copied t (es @ [e]) \<longleftrightarrow> copied t es \<and> PathDepth e = int (length es) + 1
     \<and> Type e \<noteq> EntryEffectAttempt \<and> (ParentID e = '''' \<or> ParentID e \<in> ID ` set es)"
  by (auto simp: copied_def nth_append less_Suc_eq)

definition leaf_of :: "entry list \<Rightarrow> string" where
  "leaf_of es = (if es = [] then '''' else ID (last es))"

lemma leaf_snoc [simp]: "leaf_of (es @ [e]) = ID e"
  by (simp add: leaf_of_def)

lemma leaf_cases: "leaf_of es = '''' \<or> leaf_of es \<in> ID ` set es"
  by (auto simp: leaf_of_def)

definition fork_ok :: "string \<Rightarrow> string set \<Rightarrow> fork_state \<Rightarrow> bool" where
  "fork_ok t seen s \<longleftrightarrow> (\<forall>i \<in> seen. \<exists>x \<in> ID ` set (fk_entries s). fk_ids s i = Some x)
     \<and> fk_leaf s = leaf_of (fk_entries s) \<and> ('''' \<notin> ID ` set (fk_entries s) \<longrightarrow> copied t (fk_entries s))"

lemma project_entry_fields:
  assumes "project_entry env ids t g d e = Inr x"
  shows "copy_of e x \<and> ThreadID x = t \<and> PathDepth x = d \<and> rewriteReference ids (ParentID e) = Inr (ParentID x)
    \<and> ID x = (if keeps_name e then ID e else g)"
  using assms by (auto simp: project_entry_def rbind_Inr_iff copy_of_def sealed_entry_def)

lemma projected:
  "project_entries ctx env t aliases poll es s = (s', None) \<Longrightarrow> kept_ok seen es \<Longrightarrow> fork_ok t seen s \<Longrightarrow>
    \<exists>new seen'. fk_entries s' = fk_entries s @ new \<and> list_all2 copy_of es new \<and> fork_ok t seen' s'"
proof (induction ctx env t aliases poll es s arbitrary: seen rule: project_entries.induct)
  case (2 ctx env t aliases poll e es s)
  let ?g = "generated_entry_id t (fk_seq s + 1)" and ?d = "int (length (fk_entries s)) + 1"
  obtain x where x: "ctx poll = None" "project_entry env (fk_ids s) t ?g ?d e = Inr x"
    using "2.prems"(1) by (auto simp: Let_def split: option.splits sum.splits)
  define s1 where "s1 = s\<lparr>fk_seq := fk_seq s + 1, fk_ids := name_copy aliases (ID e) (ID x) (fk_ids s),
    fk_entries := fk_entries s @ [x], fk_leaf := ID x\<rparr>"
  have run: "project_entries ctx env t aliases (Suc poll) es s1 = (s', None)"
    using "2.prems"(1) x by (simp add: Let_def s1_def)
  note f = project_entry_fields [OF x(2)] and k = "2.prems"(2,3)
  have "fork_ok t (insert (ID e) seen) s1"
  proof -
    have "\<exists>y \<in> ID ` set (fk_entries s1). fk_ids s1 i = Some y" if "i \<in> insert (ID e) seen" for i
      using that k(2) name_copy_cases [of aliases "ID e" "ID x" "fk_ids s" i] name_copy_old [of aliases "ID e" "ID x" "fk_ids s"]
      by (auto simp: fork_ok_def s1_def)
    moreover have "copied t (fk_entries s1)" if n: "'''' \<notin> ID ` set (fk_entries s1)"
    proof -
      have "ParentID x = '''' \<or> ParentID x \<in> ID ` set (fk_entries s)"
      proof (cases "ParentID e = ''''")
        case False
        then have "ParentID e \<in> seen" using k(1) by simp
        then obtain y where "y \<in> ID ` set (fk_entries s)" "fk_ids s (ParentID e) = Some y"
          using k(2) unfolding fork_ok_def by blast
        then show ?thesis using f n False by (auto simp: rewriteReference_def renamed_def s1_def split: if_splits)
      qed (use f in \<open>simp add: rewriteReference_def\<close>)
      then show ?thesis using f k n by (auto simp: s1_def copied_snoc fork_ok_def copy_of_def)
    qed
    ultimately show ?thesis unfolding fork_ok_def by (simp add: s1_def)
  qed
  from "2.IH" [OF x(1) refl x(2), folded s1_def, OF run _ this] k(1) obtain new seen' where
    "fk_entries s' = fk_entries s1 @ new" "list_all2 copy_of es new" "fork_ok t seen' s'" by auto
  then show ?case using f by (intro exI [of _ "x # new"] exI [of _ seen']) (simp add: s1_def)
qed auto

section \<open>The path that is copied\<close>

lemma path_in_log:
  assumes j: "indexed env t (rp_journal r t)"
    and p: "snd (canonicalPath background (ValidateEntryIntegrity env) r t leaf) = Inr p"
  shows "set p \<subseteq> set (log r t)"
proof -
  let ?j = "ensurePathIndex (ValidateEntryIntegrity env) (located_journal (rp_journal r t))" and ?es = "log r t"
  let ?index = "build_index (ValidateEntryIntegrity env) ?es"
  have i: "indexed env t ?j" by (rule indexed_path [OF indexed_located [OF j]])
  have es: "jn_entries ?j = ?es" "jn_entries (located_journal (rp_journal r t)) = ?es"
    by (simp_all add: ensurePathIndex_def located_journal_def)
  have path: "jn_path ?j = ?index" using i path_length [of _ "located_journal (rp_journal r t)"] unfolding es
    by (simp add: indexed_def Let_def es)
  have "p = [] \<or> (\<exists>leaf' k xs. locate_intact ?j leaf' = Inr k
      \<and> read_loop (nat k + 2) background (ValidateEntryIntegrity env) True (jn_path ?j) (jn_entries ?j) t 1 k = Inr xs \<and> p = rev xs)"
    using p unfolding canonicalPath_def readCanonicalPath_def Let_def located_journal_def [symmetric]
    by (auto split: option.splits sum.splits if_splits)
  then show ?thesis
  proof
    assume "\<exists>leaf' k xs. locate_intact ?j leaf' = Inr k
      \<and> read_loop (nat k + 2) background (ValidateEntryIntegrity env) True (jn_path ?j) (jn_entries ?j) t 1 k = Inr xs \<and> p = rev xs"
    then obtain leaf' k xs where x: "locate_intact ?j leaf' = Inr k"
      "read_loop (nat k + 2) background (ValidateEntryIntegrity env) True ?index ?es t 1 k = Inr xs" "p = rev xs"
      unfolding path es(1) by blast
    have k: "0 \<le> k" "k < int (length ?es)" "pn_err (at ?index k) = None"
      using x(1) path
      by (auto simp: locate_intact_def locate_def build_index_def split: sum.splits option.splits if_splits)
    have "xs = map (at ?es) (chain ?index k)"
      using read_loop_exact [of ?es t background k "ValidateEntryIntegrity env" "nat k + 2" True 1] j k x(2)
      by (auto simp: indexed_def Let_def)
    moreover have "at ?es i \<in> set ?es" if "i \<in> set (chain ?index k)" for i
      using chain_facts [OF build_index_ok k(1) _ k(3)] k(2) that by (auto simp: at_def build_index_def)
    ultimately show ?thesis using x(3) by auto
  qed simp
qed

lemma removed_authority:
  assumes "removeEffectAuthorityEntries path0 = Inr (path, removed)"
  shows "kept_ok {} path" "list_all2 (\<lambda>e x. ID x = ID e \<and> copy_of e x) (filter (\<lambda>e. Type e \<noteq> EntryEffectAttempt) path0) path"
proof -
  have "retain_entries (removed_parents path0) Map.empty (filter (\<lambda>e. Type e \<noteq> EntryEffectAttempt) path0) = Inr path"
    using assms by (simp add: removeEffectAuthorityEntries_def Let_def split: sum.splits)
  from retained_entries [OF this] show "kept_ok {} path"
    "list_all2 (\<lambda>e x. ID x = ID e \<and> copy_of e x) (filter (\<lambda>e. Type e \<noteq> EntryEffectAttempt) path0) path" by simp_all
qed

section \<open>Generated names are canonical\<close>

lemma joined_trim:
  assumes t: "trim_space t = t" and c: "byte_of c < 128" "\<not> space1 c"
  shows "trim_space (t @ CHR ''-'' # s @ [c]) = t @ CHR ''-'' # s @ [c]"
proof (rule trim_space_Cons_id)
  have "prefix (rev (trim_left_rev (rev (trim_left t)))) (trim_left t)"
    by (metis rev_swap suffix_to_prefix trim_left_rev_suffix)
  then have "prefix t (trim_left t)" using t by (simp add: trim_space_def)
  then have "space_width t = 0" by (rule space_width_prefix) (rule trim_left_width)
  then show "space_width (t @ CHR ''-'' # s @ [c]) = 0"
    by (cases t rule: space_width.cases; cases "s @ [c]" rule: remdups_adj.cases)
      (auto simp: space1_def space2_def space3_def Let_def byte_of_def split: if_splits)
  have "\<not> space2 x c" "\<not> space3 x y c" for x y using c(1) by (auto simp: space2_def space3_def Let_def)
  then show "space_width_rev (rev (t @ CHR ''-'' # s @ [c])) = 0"
    using c(2) by (cases "rev (t @ CHR ''-'' # s)" rule: remdups_adj.cases) (simp_all add: Let_def)
qed

lemma digits_end: "\<exists>s n. digits k = s @ [digit n] \<and> n < 10"
  by (subst digits.simps) (auto intro: exI [of _ "[]"])

lemma shown_trim: "trim_space t = t \<Longrightarrow> trim_space (t @ CHR ''-'' # s @ show_int n) = t @ CHR ''-'' # s @ show_int n"
proof -
  assume t: "trim_space t = t"
  obtain s' k where "show_int n = s' @ [digit k]" "k < 10"
    using digits_end by (auto simp: show_int_def) (metis append_Cons)
  moreover have "byte_of (digit k) < 128 \<and> \<not> space1 (digit k)" if "k < 10" for k
  proof -
    have "digit k \<in> set ''0123456789''" unfolding digit_def by (rule nth_mem) (use that in \<open>simp add: eval_nat_numeral\<close>)
    then show ?thesis by (auto simp: space1_def byte_of_def Let_def)
  qed
  ultimately show ?thesis
    using joined_trim [OF t, of "digit k" "s @ s'"] by simp
qed

lemma generated_trim: "trim_space t = t \<Longrightarrow> trim_space (generated_entry_id t n) = generated_entry_id t n"
  using shown_trim [of t "''entry-''" n] by (simp add: generated_entry_id_def)

lemma generated_fork_trim: "trim_space t = t \<Longrightarrow> trim_space (generated_fork_id t n) = generated_fork_id t n"
  using shown_trim [of t "''fork-''" n] by (simp add: generated_fork_id_def)

section \<open>Closing the copy\<close>

definition named :: "fork_state \<Rightarrow> bool" where
  "named s \<longleftrightarrow> (\<forall>e \<in> set (fk_entries s). trim_space (ID e) = ID e)"

definition canonical_turn :: "entry \<Rightarrow> bool" where
  "canonical_turn e \<longleftrightarrow> trim_space (TurnID e) = TurnID e"

text \<open>Entries that carry on from the template they were made from.\<close>

definition same_fact :: "entry \<Rightarrow> entry \<Rightarrow> bool" where
  "same_fact e x \<longleftrightarrow> Type x = Type e \<and> TurnID x = TurnID e \<and> TurnStatus x = TurnStatus e \<and> Message x = Message e"

lemma extended:
  assumes s: "fork_ok t seen s" "named s" and e: "Type e \<noteq> EntryEffectAttempt" and t: "trim_space t = t"
  shows "\<exists>x. fk_entries (extend_copy env t now e s) = fk_entries s @ [x] \<and> same_fact e x
    \<and> fork_ok t seen (extend_copy env t now e s) \<and> named (extend_copy env t now e s)"
  using s e leaf_cases [of "fk_entries s"] generated_trim [OF t]
  by (auto simp: extend_copy_def Let_def fork_ok_def named_def copied_snoc same_fact_def sealed_entry_def)

lemma extended_all:
  assumes t: "trim_space t = t" and f: "\<And>c. Type (f c) \<noteq> EntryEffectAttempt"
  shows "fork_ok t seen s \<Longrightarrow> named s \<Longrightarrow>
    \<exists>new. fk_entries (fold (\<lambda>c. extend_copy env t now (f c)) cs s) = fk_entries s @ new
      \<and> list_all2 (\<lambda>c x. same_fact (f c) x) cs new \<and> fork_ok t seen (fold (\<lambda>c. extend_copy env t now (f c)) cs s)
      \<and> named (fold (\<lambda>c. extend_copy env t now (f c)) cs s)"
proof (induction cs arbitrary: s)
  case (Cons c cs)
  from extended [OF Cons.prems f t] obtain x where
    x: "fk_entries (extend_copy env t now (f c) s) = fk_entries s @ [x]" "same_fact (f c) x"
      "fork_ok t seen (extend_copy env t now (f c) s)" "named (extend_copy env t now (f c) s)" by blast
  from Cons.IH [OF x(3,4)] obtain new where
    n: "fk_entries (fold (\<lambda>c. extend_copy env t now (f c)) cs (extend_copy env t now (f c) s))
        = fk_entries (extend_copy env t now (f c) s) @ new" "list_all2 (\<lambda>c x. same_fact (f c) x) cs new"
      "fork_ok t seen (fold (\<lambda>c. extend_copy env t now (f c)) cs (extend_copy env t now (f c) s))"
      "named (fold (\<lambda>c. extend_copy env t now (f c)) cs (extend_copy env t now (f c) s))" by blast
  then show ?case using x(1,2) by (intro exI [of _ "x # new"]) simp
qed simp

lemma first_occurrences_set: "set (first_occurrences xs) = set xs"
  by (simp add: first_occurrences_def)

lemma unfinished_ended:
  assumes u: "unfinishedTurnIDs es = Inr (turn # rest)" and n: "\<forall>e \<in> set new. Type e \<noteq> EntryTurnMarker"
    and b: "Type b = EntryTurnMarker" "trim_space (TurnID b) = turn" "TurnStatus b = TurnAborted" "turn \<noteq> ''''"
  shows "unfinishedTurnIDs (es @ new @ [b]) = Inr []"
proof -
  define marks where "marks = filter (\<lambda>e. Type e = EntryTurnMarker \<and> \<not> blank (TurnID e)) es"
  define started where "started = first_occurrences (map (\<lambda>e. trim_space (TurnID e)) (filter (\<lambda>e. TurnStatus e = TurnStarted) marks))"
  define terminal where "terminal = map (\<lambda>e. trim_space (TurnID e)) (filter (\<lambda>e. terminalTurnMarker (TurnStatus e)) marks)"
  have "filter (\<lambda>e. Type e = EntryTurnMarker \<and> \<not> blank (TurnID e)) new = []" using n by (simp add: filter_empty_conv)
  then have m: "filter (\<lambda>e. Type e = EntryTurnMarker \<and> \<not> blank (TurnID e)) (es @ new @ [b]) = marks @ [b]"
    using b by (simp add: marks_def blank_def)
  have f: "filter (\<lambda>turn. turn \<notin> set terminal) started = [turn]"
    using u unfolding unfinishedTurnIDs_def Let_def marks_def [symmetric] started_def [symmetric] terminal_def [symmetric]
    by (cases rest) (simp_all split: if_split_asm)
  have "filter (\<lambda>x. x \<notin> set (terminal @ [turn])) started = filter (\<lambda>x. x \<noteq> turn) (filter (\<lambda>x. x \<notin> set terminal) started)"
    by (simp add: conj_commute)
  then have g: "filter (\<lambda>x. x \<notin> set (terminal @ [turn])) started = []" unfolding f by simp
  have st: "filter (\<lambda>e. TurnStatus e = TurnStarted) (marks @ [b]) = filter (\<lambda>e. TurnStatus e = TurnStarted) marks"
    by (simp add: b)
  have te: "map (\<lambda>e. trim_space (TurnID e)) (filter (\<lambda>e. terminalTurnMarker (TurnStatus e)) (marks @ [b])) = terminal @ [turn]"
    using b(2,3) by (simp add: terminal_def terminalTurnMarker_def)
  show ?thesis unfolding unfinishedTurnIDs_def Let_def m st te started_def [symmetric] g by simp
qed

lemma unfinished_same:
  "\<forall>e \<in> set new. Type e \<noteq> EntryTurnMarker \<Longrightarrow> unfinishedTurnIDs (es @ new) = unfinishedTurnIDs es"
proof -
  assume "\<forall>e \<in> set new. Type e \<noteq> EntryTurnMarker"
  then have "filter (\<lambda>e. Type e = EntryTurnMarker \<and> \<not> blank (TurnID e)) new = []" by (simp add: filter_empty_conv)
  then show ?thesis unfolding unfinishedTurnIDs_def filter_append by (simp only: append_Nil2)
qed

lemma unfinished_turn: "unfinishedTurnIDs es = Inr (turn # rest) \<Longrightarrow> trim_space turn = turn \<and> turn \<noteq> ''''"
proof -
  assume "unfinishedTurnIDs es = Inr (turn # rest)"
  then have "turn \<in> set (first_occurrences (map (\<lambda>e. trim_space (TurnID e)) (filter (\<lambda>e. TurnStatus e = TurnStarted)
      (filter (\<lambda>e. Type e = EntryTurnMarker \<and> \<not> blank (TurnID e)) es))))"
    unfolding unfinishedTurnIDs_def Let_def by (metis (no_types, lifting) filter_is_subset list.set_intros(1) subsetD sum.inject(2) sum.simps(4))
  then show ?thesis by (auto simp: first_occurrences_set blank_def)
qed

lemma pending_turn: "c \<in> set (runtimePendingToolCalls env es turn) \<Longrightarrow> TurnID c = turn"
proof -
  define ok where "ok = (\<lambda>s :: string list \<times> (string \<rightharpoonup> entry). \<forall>i c. snd s i = Some c \<longrightarrow> TurnID c = turn)"
  have "ok s \<Longrightarrow> ok (call_step env turn e s)" for e s by (auto simp: ok_def call_step_def Let_def)
  then have "ok s \<Longrightarrow> ok (fold (call_step env turn) es s)" for s by (induction es arbitrary: s) simp_all
  from this [of "([], Map.empty)"] have o: "ok (fold (call_step env turn) es ([], Map.empty))" by (simp add: ok_def)
  assume "c \<in> set (runtimePendingToolCalls env es turn)"
  then obtain i where "snd (fold (call_step env turn) es ([], Map.empty)) i = Some c"
    by (cases "fold (call_step env turn) es ([], Map.empty)") (auto simp: runtimePendingToolCalls_def List.map_filter_def)
  then show "TurnID c = turn" using o by (simp add: ok_def)
qed

lemma closed_copy:
  assumes c: "close_copy env t now turn s = (s', None)" and s: "fork_ok t seen s" "named s" and t: "trim_space t = t"
    and u: "unfinishedTurnIDs (fk_entries s) = Inr (turn # rest)" and can: "list_all canonical_turn (fk_entries s)"
  shows "\<exists>new. fk_entries s' = fk_entries s @ new \<and> list_all still new \<and> list_all canonical_turn new \<and> fork_ok t seen s'
    \<and> unfinishedTurnIDs (fk_entries s') = Inr [] \<and> runtimePendingToolCalls (tv_store env) (fk_entries s') turn = []"
proof -
  define calls where "calls = runtimePendingToolCalls (tv_store env) (fk_entries s) turn"
  define s1 where "s1 = fold (\<lambda>call. extend_copy env t now (uninherited_result call)) calls s"
  define pending where "pending = filter (\<lambda>e. Type e = EntrySteeringRequested \<and> ID e \<notin> set (resolved_steering env (fk_entries s1)))
    (fk_entries s1)"
  define s2 where "s2 = fold (\<lambda>e. extend_copy env t now (dropped_steering env e)) pending s1"
  obtain A where a: "fk_entries s1 = fk_entries s @ A" "list_all2 (\<lambda>c x. same_fact (uninherited_result c) x) calls A"
      "fork_ok t seen s1" "named s1"
    using extended_all [OF t _ s, of uninherited_result env now calls] unfolding s1_def [symmetric]
    by (auto simp: uninherited_result_def)
  obtain B where b: "fk_entries s2 = fk_entries s1 @ B" "list_all2 (\<lambda>c x. same_fact (dropped_steering env c) x) pending B"
      "fork_ok t seen s2" "named s2"
    using extended_all [OF t _ a(3,4), of "dropped_steering env" env now pending] unfolding s2_def [symmetric]
    by (auto simp: dropped_steering_def)
  have A: "Type x = EntryToolResult \<and> TurnID x = turn \<and> \<not> asks_input x" if member: "x \<in> set A" for x
  proof -
    obtain i where "i < length A" "x = A ! i" using member by (auto simp: in_set_conv_nth)
    then have i: "i < length calls" "same_fact (uninherited_result (calls ! i)) x"
      using a(2) by (auto simp: list_all2_conv_all_nth)
    have "calls ! i \<in> set calls" using i(1) by simp
    then have "TurnID (calls ! i) = turn" unfolding calls_def by (rule pending_turn)
    then show ?thesis using i(2) by (simp add: same_fact_def uninherited_result_def asks_input_def empty_view_def)
  qed
  have B: "Type x = EntrySteeringCancelled" if "x \<in> set B" for x
    using b(2) that by (auto simp: list_all2_conv_all_nth in_set_conv_nth same_fact_def dropped_steering_def)
  have plain: "\<forall>e \<in> set (A @ B). Type e \<noteq> EntryTurnMarker" using A B by auto
  have es2: "fk_entries s2 = fk_entries s @ (A @ B)" by (simp add: a b)
  have u2: "unfinishedTurnIDs (fk_entries s2) = Inr (turn # rest)" unfolding es2 unfinished_same [OF plain] by (rule u)
  note turn = unfinished_turn [OF u]
  obtain run where run: "s' = s2\<lparr>fk_seq := fk_seq s2 + 1, fk_entries := fk_entries s2 @ [(sealed_entry (tv_store env)
        (zero_entry\<lparr>ID := trim_space (generated_entry_id t (fk_seq s2 + 1)), ThreadID := trim_space t,
           ParentID := trim_space (fk_leaf s2), Type := EntryTurnMarker, TurnID := turn, RunID := run, TurnStatus := TurnAborted,
           CreatedAt := now, Metadata := boundary_metadata (trim_space ''fork'')\<rparr>))\<lparr>PathDepth := int (length (fk_entries s2)) + 1\<rparr>],
        fk_leaf := trim_space (generated_entry_id t (fk_seq s2 + 1))\<rparr>"
    using c u2 unfolding close_copy_def Let_def calls_def [symmetric] s1_def [symmetric] pending_def [symmetric] s2_def [symmetric]
    by (auto simp: PrepareBranchBoundaryEntry_def sealed_entry_def split: if_splits sum.splits)
  define x where "x = last (fk_entries s')"
  have x: "fk_entries s' = fk_entries s2 @ [x]" "Type x = EntryTurnMarker" "TurnID x = turn" "TurnStatus x = TurnAborted"
      "fk_leaf s' = ID x" "PathDepth x = int (length (fk_entries s2)) + 1" "ParentID x = trim_space (fk_leaf s2)" "fk_ids s' = fk_ids s2"
    by (simp_all add: run x_def sealed_entry_def)
  have leaf: "trim_space (fk_leaf s2) = '''' \<or> trim_space (fk_leaf s2) \<in> ID ` set (fk_entries s2)"
    using b(3,4) leaf_cases [of "fk_entries s2"] by (auto simp: fork_ok_def named_def)
  have ok: "fork_ok t seen s'"
    using b(3) leaf x unfolding fork_ok_def by (auto simp: copied_snoc)
  have es: "fk_entries s' = fk_entries s @ (A @ B @ [x])" by (simp add: x es2)
  have still: "list_all still (A @ B @ [x])" using A B x by (auto simp: list_all_iff still_def asks_input_def)
  have can1: "canonical_turn e" if "e \<in> set (fk_entries s1)" for e
    using that can A turn by (auto simp: a(1) list_all_iff canonical_turn_def)
  have "canonical_turn y" if member: "y \<in> set B" for y
  proof -
    obtain i where "i < length B" "y = B ! i" using member by (auto simp: in_set_conv_nth)
    then have i: "i < length pending" "same_fact (dropped_steering env (pending ! i)) y"
      using b(2) by (auto simp: list_all2_conv_all_nth)
    have "pending ! i \<in> set pending" using i(1) by simp
    then have "canonical_turn (pending ! i)" using can1 by (simp add: pending_def)
    then show ?thesis using i(2) by (simp add: same_fact_def dropped_steering_def canonical_turn_def)
  qed
  then have canonical: "list_all canonical_turn (A @ B @ [x])"
    using A x turn by (auto simp: list_all_iff canonical_turn_def)
  have "runtimePendingToolCalls (tv_store env) (fk_entries s') turn = []"
    unfolding es
  proof (rule calls_settled [OF still])
    fix c assume "c \<in> set (runtimePendingToolCalls (tv_store env) (fk_entries s) turn)"
    then obtain i where i: "i < length calls" "c = calls ! i" by (auto simp: calls_def in_set_conv_nth)
    then have "A ! i \<in> set A" "same_fact (uninherited_result c) (A ! i)" using a(2) by (auto simp: list_all2_conv_all_nth)
    then show "\<exists>x \<in> set (A @ B @ [x]). Type x = EntryToolResult \<and> TurnID x = turn
        \<and> msg_ToolCallID (Message x) = msg_ToolCallID (Message c)"
      using A by (intro bexI [of _ "A ! i"]) (auto simp: same_fact_def uninherited_result_def)
  qed
  moreover have "unfinishedTurnIDs (fk_entries s') = Inr []"
    using unfinished_ended [OF u plain x(2) _ x(4)] turn by (simp add: x es2)
  ultimately show ?thesis using es still canonical ok by blast
qed

section \<open>The installed journal\<close>

definition replaced_ok :: "string \<Rightarrow> entry list \<Rightarrow> replacement \<Rightarrow> bool" where
  "replaced_ok t es x \<longleftrightarrow> distinct (map ID es) \<and> '''' \<notin> ID ` set es \<and> (\<forall>e \<in> set es. ThreadID e = t)
     \<and> linked '''' 1 es \<and> rx_ordinals x = ids_map es \<and> rx_depths x = depth_map es
     \<and> rx_indexed x = index_turns 0 es Map.empty"

lemma linked_depth: "linked p d es \<Longrightarrow> n < length es \<Longrightarrow> PathDepth (es ! n) = d + int n"
  by (induction es arbitrary: p d n) (auto simp: nth_Cons split: nat.splits)

lemma ids_map_None: "ids_map es i = None \<longleftrightarrow> i \<notin> ID ` set es"
  by (auto simp: ids_map_def map_of_zip_is_None)

lemma depth_at:
  assumes "distinct (map ID es)" "linked '''' 1 es" "p \<in> ID ` set es"
  obtains n where "n < length es" "ID (es ! n) = p" "depth_map es p = Some (int n + 1)"
proof -
  obtain n where n: "n < length es" "p = ID (es ! n)" using assms(3) by (auto simp: in_set_conv_nth)
  then have "findEntry es p = Some (es ! n)" using findEntry_distinct [OF assms(1), of "es ! n"] by simp
  then have "depth_map es p = Some (int n + 1)" using linked_depth [OF assms(2) n(1)] by (simp add: depth_map_def)
  then show ?thesis using n that by blast
qed

lemma replaced_step:
  assumes x: "replaced_ok t es x" and s: "replace_entry env run t (int (length es)) e x = Inr y"
    and e: "PathDepth e = int (length es) + 1" "ParentID e = '''' \<or> ParentID e \<in> ID ` set es" "canonical_turn e"
  shows "replaced_ok t (es @ [e]) y"
proof -
  note ok = x [unfolded replaced_ok_def]
  have new: "ID e \<notin> ID ` set es" "ID e \<noteq> ''''" "ThreadID e = t"
    using s ok by (auto simp: replace_entry_def Let_def ids_map_None blank_def split: if_splits)
  have parent: "ParentID e = (if es = [] then '''' else ID (last es)) \<and> (ParentID e = '''' \<or> (\<exists>d. depth_map es (ParentID e) = Some d \<and> 0 < d))"
  proof (cases "ParentID e = ''''")
    case True
    then have "PathDepth e = 1" using s by (auto simp: replace_entry_def Let_def split: if_splits)
    then show ?thesis using e(1) True by simp
  next
    case False
    then obtain n where n: "n < length es" "ID (es ! n) = ParentID e" "depth_map es (ParentID e) = Some (int n + 1)"
      using depth_at ok e(2) by metis
    then have "PathDepth e = int n + 2" using s ok False by (auto simp: replace_entry_def Let_def split: if_splits)
    then have "n = length es - 1" "es \<noteq> []" using e(1) n(1) by auto
    then show ?thesis using n False by (simp add: last_conv_nth)
  qed
  have ord: "rx_ordinals y = (ids_map es)(ID e \<mapsto> int (length es))" "rx_depths y = (depth_map es)(ID e \<mapsto> PathDepth e)"
    using s ok parent by (auto simp: replace_entry_def Let_def split: if_splits sum.splits)
  have turn: "rx_indexed y = (if blank (TurnID e) then rx_indexed x else push_at (TurnID e) (int (length es)) (rx_indexed x))"
    using s e(3) by (auto simp: replace_entry_def Let_def blank_def canonical_turn_def split: if_splits sum.splits)
  show ?thesis
    using ok new parent e(1) unfolding replaced_ok_def ord turn
    by (simp add: linked_snoc ids_map_snoc depth_map_snoc index_turns_snoc)
qed

lemma replaced_all:
  "replace_entries env run t (int (length pre)) es x = Inr y \<Longrightarrow> replaced_ok t pre x \<Longrightarrow> copied t (pre @ es) \<Longrightarrow>
    list_all canonical_turn es \<Longrightarrow> replaced_ok t (pre @ es) y"
proof (induction es arbitrary: pre x)
  case (Cons e es)
  obtain x1 where x1: "replace_entry env run t (int (length pre)) e x = Inr x1"
      "replace_entries env run t (int (length (pre @ [e]))) es x1 = Inr y"
    using Cons.prems(1) by (auto simp: rbind_Inr_iff add.commute)
  have "length pre < length (pre @ e # es)" by simp
  then have "PathDepth e = int (length pre) + 1" "ParentID e = '''' \<or> ParentID e \<in> ID ` set pre"
    using Cons.prems(3) unfolding copied_def by (metis nth_append_length, metis nth_append_length append_eq_conv_conj)
  from replaced_step [OF Cons.prems(2) x1(1) this] have "replaced_ok t (pre @ [e]) x1" using Cons.prems(4) by simp
  from Cons.IH [OF x1(2) this] show ?case using Cons.prems(3,4) by simp
qed simp

lemma replaced_names:
  "replace_entries env run t n es x = Inr y \<Longrightarrow> '''' \<notin> ID ` set es"
  by (induction es arbitrary: n x) (auto simp: rbind_Inr_iff replace_entry_def Let_def split: if_splits)

lemma replaced_journal:
  assumes r: "replaceIndexedEntries env t es r = (r', None)" and c: "copied t es" "list_all canonical_turn es"
  shows "log r' t = es \<and> indexed env t (rp_journal r' t) \<and> linked '''' 1 es \<and> (\<forall>k. k \<noteq> t \<longrightarrow> rp_journal r' k = rp_journal r k)
    \<and> (\<exists>j. r' = setJournal t j r)"
proof -
  obtain x where x: "replace_entries env (\<lambda>e. Inr (trim_space (RunID e))) t 0 es zero_replacement = Inr x"
      and r': "r' = setJournal t \<lparr>jn_entries = es, jn_ordinals = Some (rx_ordinals x), jn_depths = rx_depths x,
            jn_path = rebuildPathIndex (ValidateEntryIntegrity env) (rx_ordinals x) es,
            jn_turnOrdinals = rx_indexed x,
            jn_turnCounts = (\<lambda>k. map_option (\<lambda>xs. int (length xs)) (rx_indexed x k)),
            jn_turns = Some (rebuildTurnMarkers es),
            jn_outputs = Some (observe_outputs 0 es Map.empty)\<rparr> r"
    using r by (auto simp: replaceIndexedEntries_def replaceIndexedEntriesWithStartedRunIdentity_def split: sum.splits)
  have "replaced_ok t [] zero_replacement"
    by (simp add: replaced_ok_def zero_replacement_def ids_map_def depth_map_def findEntry_def fun_eq_iff)
  from replaced_all [of env _ t "[]" es, OF _ this] x c have ok: "replaced_ok t es x" by simp
  have "0 < PathDepth e" if "e \<in> set es" for e
    using that ok linked_depth [of "''''" 1 es] by (auto simp: replaced_ok_def in_set_conv_nth)
  then show ?thesis using ok unfolding r' by (auto simp: replaced_ok_def indexed_def Let_def setJournal_def build_index_def)
qed

section \<open>The projected path\<close>

lemma projected_named:
  "project_entries ctx env t aliases poll es s = (s', None) \<Longrightarrow> trim_space t = t \<Longrightarrow>
    \<forall>e \<in> set es. trim_space (ID e) = ID e \<Longrightarrow> named s \<Longrightarrow> named s'"
proof (induction ctx env t aliases poll es s rule: project_entries.induct)
  case (2 ctx env t aliases poll e es s)
  let ?g = "generated_entry_id t (fk_seq s + 1)" and ?d = "int (length (fk_entries s)) + 1"
  obtain x where x: "ctx poll = None" "project_entry env (fk_ids s) t ?g ?d e = Inr x"
    using "2.prems"(1) by (auto simp: Let_def split: option.splits sum.splits)
  define s1 where "s1 = s\<lparr>fk_seq := fk_seq s + 1, fk_ids := name_copy aliases (ID e) (ID x) (fk_ids s),
    fk_entries := fk_entries s @ [x], fk_leaf := ID x\<rparr>"
  have run: "project_entries ctx env t aliases (Suc poll) es s1 = (s', None)"
    using "2.prems"(1) x by (simp add: Let_def s1_def)
  have "named s1" using project_entry_fields [OF x(2)] "2.prems"(2-4) generated_trim by (auto simp: named_def s1_def)
  with "2.IH" [OF x(1) refl x(2), folded s1_def, OF run "2.prems"(2)] "2.prems"(3) show ?case by simp
qed simp

lemma copy_trans: "ID x = ID e \<Longrightarrow> copy_of e x \<Longrightarrow> copy_of x y \<Longrightarrow> copy_of e y"
  by (auto simp: copy_of_def keeps_name_def)

lemma copies_trans:
  "list_all2 (\<lambda>e x. ID x = ID e \<and> copy_of e x) es xs \<Longrightarrow> list_all2 copy_of xs ys \<Longrightarrow> list_all2 copy_of es ys"
  by (rule list_all2_trans [of "\<lambda>e x. ID x = ID e \<and> copy_of e x" copy_of]) (auto intro: copy_trans)

lemma copies_canonical: "list_all2 copy_of es ys \<Longrightarrow> list_all canonical_turn es \<Longrightarrow> list_all canonical_turn ys"
  by (induction rule: list_all2_induct) (auto simp: copy_of_def canonical_turn_def)

lemma projected_path:
  assumes p: "projectForkPath ctx env t now path0 seq = (s, None)" and t: "trim_space t = t"
    and c: "\<forall>e \<in> set path0. trim_space (ID e) = ID e \<and> trim_space (TurnID e) = TurnID e"
  shows "\<exists>copies new. fk_entries s = copies @ new \<and> list_all2 copy_of (filter (\<lambda>e. Type e \<noteq> EntryEffectAttempt) path0) copies
    \<and> list_all still new \<and> list_all canonical_turn (copies @ new) \<and> fk_leaf s = leaf_of (copies @ new)
    \<and> ('''' \<notin> ID ` set (copies @ new) \<longrightarrow> copied t (copies @ new)) \<and> unfinishedTurnIDs (copies @ new) = Inr []"
proof -
  define s0 where "s0 = \<lparr>fk_seq = seq, fk_ids = ['''' \<mapsto> ''''], fk_entries = [], fk_leaf = ''''\<rparr>"
  obtain path removed aliases s1 where r: "removeEffectAuthorityEntries path0 = Inr (path, removed)"
      and run: "project_entries ctx env t aliases 0 path s0 = (s1, None)"
      and rest: "unfinishedTurnIDs (fk_entries s1) = Inr [] \<and> s = s1
        \<or> (\<exists>turn more. unfinishedTurnIDs (fk_entries s1) = Inr (turn # more) \<and> close_copy env t now turn s1 = (s, None))"
    using p unfolding projectForkPath_def Let_def s0_def [symmetric]
    by (auto split: sum.splits prod.splits option.splits list.splits)
  note k = removed_authority [OF r]
  have "fork_ok t {} s0" "named s0" by (simp_all add: fork_ok_def s0_def leaf_of_def named_def)
  from projected [OF run k(1) this(1)] obtain copies seen where
    n: "fk_entries s1 = copies" "list_all2 copy_of path copies" "fork_ok t seen s1" by (auto simp: s0_def)
  have ids: "\<forall>e \<in> set path. trim_space (ID e) = ID e"
    using k(2) c by (auto simp: list_all2_conv_all_nth in_set_conv_nth) (metis filter_is_subset nth_mem subsetD)
  have named: "named s1" by (rule projected_named [OF run t ids]) (simp add: named_def s0_def)
  have copies: "list_all2 copy_of (filter (\<lambda>e. Type e \<noteq> EntryEffectAttempt) path0) copies" by (rule copies_trans [OF k(2) n(2)])
  have can: "list_all canonical_turn copies"
    by (rule copies_canonical [OF copies]) (use c in \<open>auto simp: list_all_iff canonical_turn_def\<close>)
  from rest show ?thesis
  proof
    assume "unfinishedTurnIDs (fk_entries s1) = Inr [] \<and> s = s1"
    then show ?thesis using n copies can by (intro exI [of _ copies] exI [of _ "[]"]) (simp add: fork_ok_def)
  next
    assume "\<exists>turn more. unfinishedTurnIDs (fk_entries s1) = Inr (turn # more) \<and> close_copy env t now turn s1 = (s, None)"
    then obtain turn more where u: "unfinishedTurnIDs (fk_entries s1) = Inr (turn # more)" "close_copy env t now turn s1 = (s, None)"
      by blast
    from closed_copy [OF u(2) n(3) named t u(1)] can n(1) obtain new where
      "fk_entries s = copies @ new" "list_all still new" "list_all canonical_turn new" "fork_ok t seen s"
      "unfinishedTurnIDs (fk_entries s) = Inr []" by auto
    then show ?thesis using copies can by (intro exI [of _ copies] exI [of _ new]) (simp add: fork_ok_def)
  qed
qed

section \<open>The fork\<close>

lemma fork_title_keeps: "fork_title es now m = Inr m' \<Longrightarrow> tm_ID m' = tm_ID m \<and> tm_LeafID m' = tm_LeafID m"
  by (auto simp: fork_title_def installFallbackThreadTitle_def Let_def split: option.splits sum.splits prod.splits if_splits title_status.splits)

lemma fork_meta_ID: "tm_ID (fork_meta opts t target now) = t"
  by (simp add: fork_meta_def applyForkDestinationMeta_def split: option.split)

lemma artifacts_frame:
  "thread (install_artifacts staged r) = thread r" "rp_journal (install_artifacts staged r) = rp_journal r"
  "rp_tombstones (install_artifacts staged r) = rp_tombstones r" "rp_seq (install_artifacts staged r) = rp_seq r"
  "rp_todos (install_artifacts staged r) = rp_todos r" "rp_providerStates (install_artifacts staged r) = rp_providerStates r"
  by (induction staged arbitrary: r) (auto simp: install_artifacts_def setArtifact_def thread_def)

lemma installed_artifacts: "rp_artifacts (install_artifacts staged r) = rp_artifacts r ++ map_of (rev staged)"
proof (induction staged arbitrary: r)
  case (Cons ka staged)
  obtain k a where ka: "ka = (k, a)" by fastforce
  show ?case using Cons [of "setArtifact k a r"] by (simp add: install_artifacts_def ka setArtifact_def map_add_upd_left map_add_def fun_eq_iff split: option.splits)
qed (simp add: install_artifacts_def)

lemma fork_steps:
  assumes "fork_fresh ctx env fc r opts target now = (r', Inr meta)"
  obtains r1 path seq t s staged c where
    "canonicalPath background (ValidateEntryIntegrity (tv_store env)) r (fo_SourceThreadID opts) target = (r1, Inr path)"
    "fork_name r1 opts = (seq, t)" "projectForkPath ctx env t now path seq = (s, None)"
    "stageArtifactFork (tv_store env) (r1\<lparr>rp_seq := fk_seq s\<rparr>) c (renamed (fk_ids s)) now = Inr staged"
    "tm_ID meta = t" "tm_LeafID meta = fk_leaf s"
    "install_fork env (fo_SourceThreadID opts) t meta (fk_entries s) staged (r1\<lparr>rp_seq := fk_seq s\<rparr>) = (r', Inr meta)"
proof -
  obtain r1 path where r1: "canonicalPath background (ValidateEntryIntegrity (tv_store env)) r (fo_SourceThreadID opts) target = (r1, Inr path)"
    using assms by (auto simp: fork_fresh_def Let_def split: prod.splits sum.splits)
  obtain seq t where t: "fork_name r1 opts = (seq, t)" by fastforce
  define m where "m = fork_meta opts t target now"
  obtain c where c: "copy_path ctx env opts t m path c now (r1\<lparr>rp_seq := seq\<rparr>) = (r', Inr meta)"
    using assms r1 t by (auto simp: fork_fresh_def Let_def m_def split: if_splits sum.splits option.splits)
  obtain s where s: "projectForkPath ctx env t now path seq = (s, None)"
    using c by (auto simp: copy_path_def split: prod.splits option.splits)
  obtain staged meta' where rest: "stageArtifactFork (tv_store env) (r1\<lparr>rp_seq := fk_seq s\<rparr>) c (renamed (fk_ids s)) now = Inr staged"
      "fork_title (fk_entries s) now (m\<lparr>tm_LeafID := fk_leaf s\<rparr>) = Inr meta'"
      "install_fork env (fo_SourceThreadID opts) t meta' (fk_entries s) staged (r1\<lparr>rp_seq := fk_seq s\<rparr>) = (r', Inr meta)"
    using c s by (auto simp: copy_path_def Let_def split: sum.splits if_splits)
  have "meta' = meta" using rest(3) by (auto simp: install_fork_def Let_def split: prod.splits option.splits)
  then show ?thesis using that [OF r1 t s rest(1)] rest fork_title_keeps [OF rest(2)] fork_meta_ID by (simp add: m_def)
qed

lemma thread_setTodo: "thread (setTodo t td r) = thread r"
  by (simp add: fun_eq_iff thread_def setTodo_def)

lemma installed_fork:
  assumes "install_fork env source t meta es staged r = (r', Inr meta)"
  obtains j where "replaceIndexedEntries (tv_store env) t es r = (setJournal t j r, None)"
    "rp_journal r' = (rp_journal r)(t := j)" "thread r' = (thread r)(t \<mapsto> meta)"
    "\<forall>k. k \<noteq> t \<longrightarrow> rp_todos r' k = rp_todos r k" "rp_providerStates r' = rp_providerStates r"
    "rp_artifacts r' = rp_artifacts (install_artifacts staged r)" "rp_tombstones r' = rp_tombstones r" "rp_seq r' = rp_seq r"
proof -
  obtain r1 where r1: "replaceIndexedEntries (tv_store env) t es r = (r1, None)"
      "r' = (case rp_todos r source of None \<Rightarrow> install_artifacts staged (setThread t meta r1)
        | Some todo \<Rightarrow> setTodo t (todo\<lparr>tds_ThreadID := t\<rparr>) (install_artifacts staged (setThread t meta r1)))"
    using assms by (auto simp: install_fork_def Let_def split: prod.splits option.splits)
  obtain j where j: "r1 = setJournal t j r"
    using r1(1) by (auto simp: replaceIndexedEntries_def replaceIndexedEntriesWithStartedRunIdentity_def split: sum.splits)
  show ?thesis
  proof (rule that [of j])
    show "replaceIndexedEntries (tv_store env) t es r = (setJournal t j r, None)" using r1(1) j by simp
    show "rp_journal r' = (rp_journal r)(t := j)"
      using r1(2) by (cases "rp_todos r source") (simp_all add: artifacts_frame setTodo_def setThread_def setJournal_def j)
    have "thread (setThread t meta (setJournal t j r)) = (thread r)(t \<mapsto> meta)" by (simp add: fun_eq_iff repo_simps)
    then show "thread r' = (thread r)(t \<mapsto> meta)"
      using r1(2) by (cases "rp_todos r source") (simp_all add: artifacts_frame j thread_setTodo)
    show "\<forall>k. k \<noteq> t \<longrightarrow> rp_todos r' k = rp_todos r k"
      using r1(2) by (cases "rp_todos r source") (simp_all add: artifacts_frame setTodo_def setThread_def setJournal_def j)
    show "rp_providerStates r' = rp_providerStates r"
      using r1(2) by (cases "rp_todos r source") (simp_all add: artifacts_frame setTodo_def setThread_def setJournal_def j)
    show "rp_seq r' = rp_seq r"
      using r1(2) by (cases "rp_todos r source") (simp_all add: artifacts_frame setTodo_def j)
    show "rp_tombstones r' = rp_tombstones r"
      using r1(2) by (cases "rp_todos r source") (simp_all add: artifacts_frame setTodo_def setThread_def setJournal_def j)
    show "rp_artifacts r' = rp_artifacts (install_artifacts staged r)"
      using r1(2) by (cases "rp_todos r source") (simp_all add: installed_artifacts setTodo_def setThread_def setJournal_def j)
  qed
qed

lemma fork_chosen:
  assumes "forkLocked ctx env fc r opts = (r', Inr meta)"
    "fo_NewThreadID opts = '''' \<or> thread r (fo_NewThreadID opts) = None"
  obtains source target where "thread r (fo_SourceThreadID opts) = Some source" "fork_target r source opts = Inr target"
    "fork_fresh ctx env fc r opts target (canonicalTime (tv_effects env) (fo_Now opts)) = (r', Inr meta)"
  using assms by (auto simp: forkLocked_def Let_def split: option.splits if_splits sum.splits)

lemma fresh_copy:
  assumes ok: "repo_ok (tv_store env) r"
    and canonical: "\<forall>e \<in> set (log r (fo_SourceThreadID opts)). trim_space (ID e) = ID e \<and> trim_space (TurnID e) = TurnID e"
    and run: "fork_fresh ctx env fc r opts target now = (r', Inr meta)" and name: "trim_space (tm_ID meta) = tm_ID meta"
  obtains r1 path seq s copies closing j where
    "canonicalPath background (ValidateEntryIntegrity (tv_store env)) r (fo_SourceThreadID opts) target = (r1, Inr path)"
    "fork_name r1 opts = (seq, tm_ID meta)" "projectForkPath ctx env (tm_ID meta) now path seq = (s, None)"
    "tm_LeafID meta = leaf_of (copies @ closing)"
    "list_all2 copy_of (filter (\<lambda>e. Type e \<noteq> EntryEffectAttempt) path) copies" "list_all still closing"
    "unfinishedTurnIDs (copies @ closing) = Inr []" "jn_entries j = copies @ closing"
    "linked '''' 1 (copies @ closing)" "indexed (tv_store env) (tm_ID meta) j"
    "rp_journal r' = (rp_journal r1)(tm_ID meta := j)" "thread r' = (thread r1)(tm_ID meta \<mapsto> meta)" "rp_seq r' = fk_seq s"
proof -
  let ?source = "fo_SourceThreadID opts"
  obtain r1 path seq t s staged c where p: "canonicalPath background (ValidateEntryIntegrity (tv_store env)) r ?source target = (r1, Inr path)"
      and n: "fork_name r1 opts = (seq, t)" and s: "projectForkPath ctx env t now path seq = (s, None)"
      and st: "stageArtifactFork (tv_store env) (r1\<lparr>rp_seq := fk_seq s\<rparr>) c (renamed (fk_ids s)) now = Inr staged"
      and t: "tm_ID meta = t" and leaf: "tm_LeafID meta = fk_leaf s"
      and i: "install_fork env ?source t meta (fk_entries s) staged (r1\<lparr>rp_seq := fk_seq s\<rparr>) = (r', Inr meta)"
    by (rule fork_steps [OF run])
  have "set path \<subseteq> set (log r ?source)"
    by (rule path_in_log [OF repo_ok_indexed [OF ok], where leaf = target]) (simp add: p)
  with canonical have c: "\<forall>e \<in> set path. trim_space (ID e) = ID e \<and> trim_space (TurnID e) = TurnID e" by blast
  from projected_path [OF s name [unfolded t] c] obtain copies new where
    x: "fk_entries s = copies @ new" "list_all2 copy_of (filter (\<lambda>e. Type e \<noteq> EntryEffectAttempt) path) copies"
      "list_all still new" "list_all canonical_turn (copies @ new)" "fk_leaf s = leaf_of (copies @ new)"
      "'''' \<notin> ID ` set (copies @ new) \<longrightarrow> copied t (copies @ new)" "unfinishedTurnIDs (copies @ new) = Inr []" by blast
  from i obtain j where j: "replaceIndexedEntries (tv_store env) t (copies @ new) (r1\<lparr>rp_seq := fk_seq s\<rparr>)
      = (setJournal t j (r1\<lparr>rp_seq := fk_seq s\<rparr>), None)" "rp_journal r' = (rp_journal r1)(t := j)"
      "thread r' = (thread r1)(t \<mapsto> meta)" "rp_seq r' = fk_seq s"
    by (rule installed_fork) (simp add: x(1))
  have "'''' \<notin> ID ` set (copies @ new)"
    using j(1) replaced_names by (auto simp: replaceIndexedEntries_def replaceIndexedEntriesWithStartedRunIdentity_def
        simp del: set_append split: sum.splits)
  then have "copied t (copies @ new)" using x(6) by blast
  from replaced_journal [OF j(1) this x(4)] have "jn_entries j = copies @ new" "indexed (tv_store env) t j" "linked '''' 1 (copies @ new)"
    by (simp_all add: setJournal_def)
  then show ?thesis using that [OF p _ _ _ x(2,3,7)] n s leaf x(5) j(2-4) by (simp add: t)
qed

end
