(* ===== verification/ForkStore.thy ===== *)
theory ForkStore
  imports ForkFacts
begin

text \<open>
  What a fork does to the store: the new thread is a linked, closed copy of the path, every other thread
  is untouched, and the indexes stay sound. At the end, two things forking does not promise.
\<close>

section \<open>The copy\<close>

text \<open>
  C9: A fork is a linked, closed copy of the path. In a repository whose journals have sound indexes and
  whose threads are stored under their own names, forked ones included, let a fork to a name that is not in use succeed, of
  a thread whose entries have IDs and turn IDs without surrounding space, the name of the new thread having
  none either. Then the journal of the new thread is one chain of entries from the root to its leaf;
  it starts with a copy of every entry of the source path that is not effect authority, with the same
  kind, turn, run and message; what follows answers and closes the turn that was running in the source,
  so that no turn of the copy is unfinished; and its indexes are the ones rebuilt from its entries.
\<close>

theorem fork_copies_path:
  assumes ok: "repo_ok (tv_store env) r"
    and canonical: "\<forall>e \<in> set (log r (fo_SourceThreadID opts)). trim_space (ID e) = ID e \<and> trim_space (TurnID e) = TurnID e"
    and fresh: "fo_NewThreadID opts = '''' \<or> thread r (fo_NewThreadID opts) = None"
    and fork: "Fork ctx env fc r opts = (r', Inr meta)" and name: "trim_space (tm_ID meta) = tm_ID meta"
  shows "\<exists>source target path copies closing. thread r (fo_SourceThreadID opts) = Some source
    \<and> fork_target r source opts = Inr target
    \<and> snd (canonicalPath background (ValidateEntryIntegrity (tv_store env)) r (fo_SourceThreadID opts) target) = Inr path
    \<and> log r' (tm_ID meta) = copies @ closing \<and> linked '''' 1 (copies @ closing) \<and> tm_LeafID meta = leaf_of (copies @ closing)
    \<and> list_all2 copy_of (filter (\<lambda>e. Type e \<noteq> EntryEffectAttempt) path) copies \<and> list_all still closing
    \<and> unfinishedTurnIDs (copies @ closing) = Inr [] \<and> indexed (tv_store env) (tm_ID meta) (rp_journal r' (tm_ID meta))"
proof -
  obtain source target where st: "thread r (fo_SourceThreadID opts) = Some source" "fork_target r source opts = Inr target"
      and run: "fork_fresh ctx env fc r opts target (canonicalTime (tv_effects env) (fo_Now opts)) = (r', Inr meta)"
    using fork_chosen [OF fork [unfolded Fork_def] fresh] by blast
  show ?thesis
  proof (rule fresh_copy [OF ok canonical run name])
    fix r1 path seq s copies closing j
    assume "canonicalPath background (ValidateEntryIntegrity (tv_store env)) r (fo_SourceThreadID opts) target = (r1, Inr path)"
      "tm_LeafID meta = leaf_of (copies @ closing)" "list_all2 copy_of (filter (\<lambda>e. Type e \<noteq> EntryEffectAttempt) path) copies"
      "list_all still closing" "unfinishedTurnIDs (copies @ closing) = Inr []" "jn_entries j = copies @ closing"
      "linked '''' 1 (copies @ closing)" "indexed (tv_store env) (tm_ID meta) j" "rp_journal r' = (rp_journal r1)(tm_ID meta := j)"
    then show ?thesis using st
      by (intro exI [of _ source] exI [of _ target] exI [of _ path] exI [of _ copies] exI [of _ closing]) simp
  qed
qed

section \<open>The rest of the repository\<close>

text \<open>Whatever a fork does to the rest of the store is in the metadata, the entries, the todo list and the artifacts.\<close>

definition same_threads :: "repo \<Rightarrow> repo \<Rightarrow> bool" where
  "same_threads r r' \<longleftrightarrow> thread r' = thread r \<and> rp_tombstones r' = rp_tombstones r
     \<and> rp_providerStates r' = rp_providerStates r \<and> rp_todos r' = rp_todos r \<and> rp_artifacts r' = rp_artifacts r
     \<and> (\<forall>k. log r' k = log r k)"

lemma same_refl [simp]: "same_threads r r"
  by (simp add: same_threads_def)

lemma same_trans: "same_threads r r' \<Longrightarrow> same_threads r' r'' \<Longrightarrow> same_threads r r''"
  by (simp add: same_threads_def)

lemma same_seq: "same_threads r (r'\<lparr>rp_seq := n\<rparr>) = same_threads r r'"
  by (simp add: same_threads_def)

lemma same_read: "same_threads r (fst (canonicalPath ctx (ValidateEntryIntegrity env) r t leaf))"
proof -
  obtain j where "fst (canonicalPath ctx (ValidateEntryIntegrity env) r t leaf) = r
      \<or> fst (canonicalPath ctx (ValidateEntryIntegrity env) r t leaf) = setJournal t j r \<and> jn_entries j = log r t"
    using read_built [of ctx env r t leaf] built_log by metis
  then show ?thesis by (auto simp: same_threads_def setJournal_def thread_def fun_eq_iff)
qed

lemma fork_name_unused:
  assumes "fo_NewThreadID opts = '''' \<or> thread r (fo_NewThreadID opts) = None" "0 \<le> rp_seq r"
  shows "thread r (snd (fork_name r opts)) = None"
proof (cases "fo_NewThreadID opts = ''''")
  case True
  have "\<not> thread r (snd (fresh_id (length (rp_threads r)) (\<lambda>i. thread r i \<noteq> None)
      (generated_fork_id (fo_SourceThreadID opts)) (rp_seq r))) \<noteq> None"
    by (rule fresh_id_unused [where ids = "map fst (rp_threads r)"])
      (use assms(2) in \<open>auto simp: thread_def generated_fork_id_def show_int_def map_of_eq_None_iff dest: digits_inj\<close>)
  with True show ?thesis by (simp add: fork_name_def)
qed (use assms(1) in \<open>simp add: fork_name_def\<close>)

lemma staged_free:
  "stage_items env r c ids now items = Inr staged \<Longrightarrow> \<forall>k \<in> fst ` set staged. rp_artifacts r k = None"
  by (induction items arbitrary: staged) (auto simp: staged_record_def Let_def split: sum.splits option.splits if_splits)

lemma added_artifacts:
  assumes "\<forall>k \<in> fst ` set xs. m k = None" shows "m \<subseteq>\<^sub>m m ++ map_of (rev xs)"
proof (unfold map_le_def, intro ballI)
  fix k assume "k \<in> dom m"
  then have "k \<notin> fst ` set xs" using assms by auto
  then have "map_of (rev xs) k = None" by (simp add: map_of_eq_None_iff)
  then show "m k = (m ++ map_of (rev xs)) k" by (simp add: map_add_def)
qed

lemma install_refused: "install_fork env source t meta es staged r = (r', Inl err) \<Longrightarrow> r' = r"
  by (auto simp: install_fork_def Let_def replaceIndexedEntries_def replaceIndexedEntriesWithStartedRunIdentity_def
      split: prod.splits option.splits sum.splits)

lemma copy_refused: "copy_path ctx env opts t meta path c now r = (r', Inl err) \<Longrightarrow> same_threads r r'"
  by (auto simp: copy_path_def Let_def same_seq split: prod.splits option.splits sum.splits if_splits dest!: install_refused)

lemma fork_refused:
  assumes "forkLocked ctx env fc r opts = (r', Inl err)" shows "same_threads r r'"
proof -
  have "same_threads r r'" if f: "fork_fresh ctx env fc r opts target now = (r', Inl err)" for target now
  proof -
    obtain r1 res where c: "canonicalPath background (ValidateEntryIntegrity (tv_store env)) r (fo_SourceThreadID opts) target = (r1, res)"
      by fastforce
    have s: "same_threads r r1" using same_read [of r background "tv_store env" "fo_SourceThreadID opts" target] by (simp add: c)
    obtain seq t where n: "fork_name r1 opts = (seq, t)" by fastforce
    have "same_threads r1 r'"
      using f by (auto simp: fork_fresh_def Let_def c n same_seq split: sum.splits option.splits if_splits dest!: copy_refused)
        (simp_all add: same_threads_def)
    then show ?thesis by (rule same_trans [OF s])
  qed
  then show ?thesis using assms by (auto simp: forkLocked_def Let_def split: option.splits sum.splits if_splits)
qed

text \<open>
  C10: A fork touches nothing but its destination. Whatever a fork returns on a repository with sound
  indexes, no thread that exists changes its metadata, its entries, its todo list or its provider
  state, and no artifact that is stored is replaced; a refused fork leaves the store as it was,
  whatever was collected, projected and staged before the refusal.
\<close>

theorem fork_isolated:
  assumes ok: "repo_ok (tv_store env) r" and fork: "Fork ctx env fc r opts = (r', res)"
  shows "thread r \<subseteq>\<^sub>m thread r' \<and> rp_artifacts r \<subseteq>\<^sub>m rp_artifacts r'
    \<and> rp_tombstones r' = rp_tombstones r \<and> rp_providerStates r' = rp_providerStates r
    \<and> (\<forall>k. thread r k \<noteq> None \<longrightarrow> log r' k = log r k \<and> rp_todos r' k = rp_todos r k)
    \<and> (case res of Inl err \<Rightarrow> same_threads r r'
        | Inr meta \<Rightarrow> \<forall>k. thread r' k \<noteq> thread r k \<or> log r' k \<noteq> log r k \<longrightarrow> k = tm_ID meta \<and> thread r' k = Some meta)"
proof (cases res)
  case (Inl err)
  then show ?thesis using fork_refused [OF fork [unfolded Fork_def Inl]] by (simp add: same_threads_def)
next
  case (Inr meta)
  show ?thesis
  proof (cases "fo_NewThreadID opts = '''' \<or> thread r (fo_NewThreadID opts) = None")
    case False
    then have "r' = r" using fork unfolding Fork_def Inr by (auto simp: forkLocked_def Let_def split: option.splits sum.splits if_splits)
    then show ?thesis by (simp add: Inr)
  next
    case True
    obtain source target where run: "fork_fresh ctx env fc r opts target (canonicalTime (tv_effects env) (fo_Now opts)) = (r', Inr meta)"
      using fork_chosen [OF fork [unfolded Fork_def Inr] True] by blast
    obtain r1 path seq t s staged c where p: "canonicalPath background (ValidateEntryIntegrity (tv_store env)) r (fo_SourceThreadID opts) target = (r1, Inr path)"
        and n: "fork_name r1 opts = (seq, t)"
        and pr: "projectForkPath ctx env t (canonicalTime (tv_effects env) (fo_Now opts)) path seq = (s, None)"
        and st: "stageArtifactFork (tv_store env) (r1\<lparr>rp_seq := fk_seq s\<rparr>) c (renamed (fk_ids s)) (canonicalTime (tv_effects env) (fo_Now opts)) = Inr staged"
        and m: "tm_ID meta = t" and leaf: "tm_LeafID meta = fk_leaf s"
        and i: "install_fork env (fo_SourceThreadID opts) t meta (fk_entries s) staged (r1\<lparr>rp_seq := fk_seq s\<rparr>) = (r', Inr meta)"
      by (rule fork_steps [OF run])
    have s: "same_threads r r1" using same_read [of r background "tv_store env" "fo_SourceThreadID opts" target] by (simp add: p)
    have "repo_ok (tv_store env) r1"
      using grows_ok [OF read_grows ok, of background "fo_SourceThreadID opts" target] by (simp add: p)
    then have "0 \<le> rp_seq r1" by (simp add: repo_ok_def repo_indexed_def)
    then have fresh: "thread r t = None"
      using fork_name_unused [of opts r1] True n s by (simp add: same_threads_def)
    have free: "rp_artifacts r \<subseteq>\<^sub>m rp_artifacts r ++ map_of (rev staged)"
      using staged_free [OF st [unfolded stageArtifactFork_def]] s
      by (intro added_artifacts) (simp add: same_threads_def)
    from i obtain j where "rp_journal r' = (rp_journal r1)(t := j)" "thread r' = (thread r)(t \<mapsto> meta)"
        "\<forall>k. k \<noteq> t \<longrightarrow> rp_todos r' k = rp_todos r k" "rp_providerStates r' = rp_providerStates r"
        "rp_artifacts r' = rp_artifacts r ++ map_of (rev staged)" "rp_tombstones r' = rp_tombstones r"
      by (rule installed_fork) (use s in \<open>auto simp: installed_artifacts same_threads_def\<close>)
    then show ?thesis using s fresh free m
      by (auto simp: Inr same_threads_def map_le_def)
  qed
qed

section \<open>Forks keep the repository\<close>

lemma project_seq: "project_entries ctx env t aliases poll es s = (s', err) \<Longrightarrow> fk_seq s \<le> fk_seq s'"
proof (induction ctx env t aliases poll es s rule: project_entries.induct)
  case (2 ctx env t aliases poll e es s)
  then show ?case by (fastforce simp: Let_def split: option.splits sum.splits)
qed simp

lemma extended_seq: "fk_seq s \<le> fk_seq (fold (\<lambda>e. extend_copy env t now (f e)) es s)"
proof (induction es arbitrary: s)
  case (Cons e es)
  from Cons [of "extend_copy env t now (f e) s"] show ?case by (simp add: extend_copy_def Let_def)
qed simp

lemma close_seq: assumes "close_copy env t now turn s = (s', err)" shows "fk_seq s \<le> fk_seq s'"
proof -
  let ?s1 = "fold (\<lambda>call. extend_copy env t now (uninherited_result call)) (runtimePendingToolCalls (tv_store env) (fk_entries s) turn) s"
  let ?s2 = "fold (\<lambda>e. extend_copy env t now (dropped_steering env e))
    (filter (\<lambda>e. Type e = EntrySteeringRequested \<and> ID e \<notin> set (resolved_steering env (fk_entries ?s1))) (fk_entries ?s1)) ?s1"
  have "fk_seq s \<le> fk_seq ?s1" "fk_seq ?s1 \<le> fk_seq ?s2" by (rule extended_seq)+
  moreover have "fk_seq s' = fk_seq ?s1 \<or> fk_seq s' = fk_seq ?s2 + 1"
    using assms unfolding close_copy_def Let_def by (force split: if_splits sum.splits option.splits)
  ultimately show ?thesis by linarith
qed

lemma projected_seq: "projectForkPath ctx env t now path seq = (s, err) \<Longrightarrow> seq \<le> fk_seq s"
  by (fastforce simp: projectForkPath_def Let_def split: sum.splits prod.splits option.splits list.splits
      dest: project_seq close_seq)

lemma named_seq: "fork_name r opts = (seq, t) \<Longrightarrow> rp_seq r \<le> seq"
  using fresh_id_seq [of "rp_seq r"] by (auto simp: fork_name_def less_imp_le split: if_splits) (metis fst_conv less_imp_le)

definition sequenced :: "repo \<Rightarrow> repo \<Rightarrow> bool" where
  "sequenced r r' \<longleftrightarrow> (\<exists>n \<ge> rp_seq r. r' = r\<lparr>rp_seq := n\<rparr>)"

lemma sequenced_ok: "sequenced r r' \<Longrightarrow> repo_ok env r \<Longrightarrow> repo_ok env r'"
  by (auto simp: sequenced_def repo_ok_def repo_indexed_def)

lemma refused_fresh:
  assumes "fork_fresh ctx env fc r opts target now = (r', Inl err)"
  shows "sequenced (fst (canonicalPath background (ValidateEntryIntegrity (tv_store env)) r (fo_SourceThreadID opts) target)) r'"
proof -
  obtain r1 res where c: "canonicalPath background (ValidateEntryIntegrity (tv_store env)) r (fo_SourceThreadID opts) target = (r1, res)"
    by fastforce
  obtain seq t where n: "fork_name r1 opts = (seq, t)" by fastforce
  have here: "sequenced r1 (r1\<lparr>rp_seq := seq\<rparr>)" "sequenced r1 r1"
    using named_seq [OF n] by (auto simp: sequenced_def intro: exI [of _ "rp_seq r1"])
  have "sequenced r1 r''" if "copy_path ctx env opts t meta path cl now (r1\<lparr>rp_seq := seq\<rparr>) = (r'', Inl err)" for meta path cl r''
  proof -
    obtain s e where s: "projectForkPath ctx env t now path seq = (s, e)" by fastforce
    have "r'' = r1\<lparr>rp_seq := fk_seq s\<rparr>" using that s
      by (auto simp: copy_path_def Let_def split: option.splits sum.splits if_splits dest!: install_refused)
    then show ?thesis using projected_seq [OF s] named_seq [OF n] by (auto simp: sequenced_def intro: exI [of _ "fk_seq s"])
  qed
  then show ?thesis using assms here
    by (auto simp: fork_fresh_def Let_def c n split: sum.splits option.splits if_splits)
qed

text \<open>
  C16: Forking keeps the repository sound. After any fork, refused or not, where the entries of the source
  have IDs and turn IDs without surrounding space, and neither has the name of the source or a name given to the new
  thread, the repository is sound if it was before: the indexes of every journal, the new one included, are the ones rebuilt from its
  entries, every thread is stored under its own name, and the sequence number is not negative; so what
  is shown of the operations on such repositories holds of forked threads too.
\<close>

theorem fork_keeps_repo:
  assumes ok: "repo_ok (tv_store env) r"
    and canonical: "\<forall>e \<in> set (log r (fo_SourceThreadID opts)). trim_space (ID e) = ID e \<and> trim_space (TurnID e) = TurnID e"
    and name: "trim_space (fo_SourceThreadID opts) = fo_SourceThreadID opts" "trim_space (fo_NewThreadID opts) = fo_NewThreadID opts"
  shows "repo_ok (tv_store env) (fst (Fork ctx env fc r opts))"
proof -
  have fresh: "repo_ok (tv_store env) (fst (fork_fresh ctx env fc r opts target now))" for target now
  proof -
    let ?r1 = "fst (canonicalPath background (ValidateEntryIntegrity (tv_store env)) r (fo_SourceThreadID opts) target)"
    have ok1: "repo_ok (tv_store env) ?r1" by (rule grows_ok [OF read_grows ok])
    obtain r' res where run: "fork_fresh ctx env fc r opts target now = (r', res)" by fastforce
    show ?thesis
    proof (cases res)
      case (Inl err)
      then show ?thesis using sequenced_ok [OF refused_fresh ok1] run by simp
    next
      case (Inr meta)
      obtain r1 seq where n: "fork_name r1 opts = (seq, tm_ID meta)"
        using fork_steps [OF run [unfolded Inr]] by metis
      have t: "trim_space (tm_ID meta) = tm_ID meta"
        using n name generated_fork_trim by (auto simp: fork_name_def split: if_splits) (metis fresh_id_name snd_conv)
      show ?thesis
      proof (rule fresh_copy [OF ok canonical run [unfolded Inr] t])
        fix r1 path seq s copies closing j
        assume c: "canonicalPath background (ValidateEntryIntegrity (tv_store env)) r (fo_SourceThreadID opts) target = (r1, Inr path)"
          "fork_name r1 opts = (seq, tm_ID meta)" "projectForkPath ctx env (tm_ID meta) now path seq = (s, None)"
          "indexed (tv_store env) (tm_ID meta) j" "rp_journal r' = (rp_journal r1)(tm_ID meta := j)"
          "thread r' = (thread r1)(tm_ID meta \<mapsto> meta)" "rp_seq r' = fk_seq s"
        have "rp_seq r1 \<le> rp_seq r'" using named_seq [OF c(2)] projected_seq [OF c(3)] c(7) by simp
        then show ?thesis using ok1 c by (auto simp: run repo_ok_def repo_indexed_def)
      qed
    qed
  qed
  show ?thesis using ok fresh by (simp add: Fork_def forkLocked_def Let_def split: option.split sum.split)
qed

section \<open>A first fork\<close>

definition sample_codec :: fork_codec where
  "sample_codec = \<lparr>fx_ref_json = (\<lambda>_. ''''), fx_closure_json = (\<lambda>_ _ _. '''')\<rparr>"

definition first_fork :: fork_options where
  "first_fork = \<lparr>fo_SourceThreadID = ''t'', fo_EntryID = '''', fo_EntryIDPinned = False, fo_Position = ForkAt,
     fo_NewThreadID = ''f'', fo_OriginRequestKey = '''', fo_OriginFingerprint = '''', fo_Now = 5,
     fo_DestinationMeta = None, fo_ArtifactClosure = zero_closure\<rparr>"

lemma first_fork_runs:
  "case snd (Fork background sample_turns sample_codec accepted_repo first_fork) of Inl _ \<Rightarrow> False | Inr meta \<Rightarrow> tm_ID meta = ''f''"
  by code_simp

lemma first_fork_names:
  "\<forall>e \<in> set (log accepted_repo ''t''). trim_space (ID e) = ID e \<and> trim_space (TurnID e) = TurnID e"
  "thread accepted_repo ''f'' = None" "thread accepted_repo ''t'' \<noteq> None" "trim_space ''f'' = ''f''"
  by code_simp+

theorem fork_copies_path_witness:
  "\<exists>r' meta. Fork background sample_turns sample_codec accepted_repo first_fork = (r', Inr meta) \<and> tm_ID meta = ''f''
     \<and> linked '''' 1 (log r' ''f'') \<and> unfinishedTurnIDs (log r' ''f'') = Inr []"
proof -
  obtain r' meta where f: "Fork background sample_turns sample_codec accepted_repo first_fork = (r', Inr meta)" "tm_ID meta = ''f''"
    using first_fork_runs by (cases "Fork background sample_turns sample_codec accepted_repo first_fork") (auto split: sum.splits)
  have id: "fo_SourceThreadID first_fork = ''t''" "fo_NewThreadID first_fork = ''f''" by (simp_all add: first_fork_def)
  from fork_copies_path [OF in_order_ok [OF reach_in_order [OF accepted_reach]] _ _ f(1)] f first_fork_names show ?thesis by (auto simp: id)
qed

theorem fork_isolated_witness:
  "\<exists>r' meta. Fork background sample_turns sample_codec accepted_repo first_fork = (r', Inr meta)
     \<and> log r' ''t'' = log accepted_repo ''t'' \<and> thread r' ''t'' = thread accepted_repo ''t''"
proof -
  obtain r' meta where f: "Fork background sample_turns sample_codec accepted_repo first_fork = (r', Inr meta)"
    using first_fork_runs by (cases "Fork background sample_turns sample_codec accepted_repo first_fork") (auto split: sum.splits)
  have "thread accepted_repo \<subseteq>\<^sub>m thread r' \<and> log r' ''t'' = log accepted_repo ''t''"
    using fork_isolated [OF in_order_ok [OF reach_in_order [OF accepted_reach]] f] first_fork_names(3) by blast
  then show ?thesis using f first_fork_names(3) by (auto simp: map_le_def dom_def)
qed

theorem fork_keeps_repo_witness:
  "repo_ok (tv_store sample_turns) (fst (Fork background sample_turns sample_codec accepted_repo first_fork))"
proof -
  have "fo_SourceThreadID first_fork = ''t''" "trim_space ''t'' = ''t''" "trim_space (fo_NewThreadID first_fork) = fo_NewThreadID first_fork"
    by code_simp+
  then show ?thesis
    using fork_keeps_repo [OF in_order_ok [OF reach_in_order [OF accepted_reach]], of first_fork] first_fork_names(1) by simp
qed

section \<open>What forking does not promise\<close>

text \<open>
  The point before the first entry is the empty target, which the path takes for the current leaf: a
  fork before the first entry copies the whole thread, and records the empty boundary.
\<close>

lemma empty_target_is_leaf:
  "thread r source = Some meta \<Longrightarrow>
    canonicalPath ctx integ r source '''' = canonicalPath ctx integ r source (tm_LeafID meta)"
  by (cases "ctx 0") (simp_all add: canonicalPath_def readCanonicalPath_def Let_def)

definition fork_before_first :: fork_options where
  "fork_before_first = first_fork\<lparr>fo_Position := ForkBefore, fo_EntryID := ID (hd (log accepted_repo ''t''))\<rparr>"

lemma fork_before_first_copies_all:
  "case Fork background sample_turns sample_codec accepted_repo fork_before_first of
     (r', Inr meta) \<Rightarrow> tm_ForkedFromEntryID meta = '''' \<and>
       length (log accepted_repo ''t'') \<le> length (log r' ''f'')
   | (r', Inl err) \<Rightarrow> False"
  by code_simp

text \<open>
  A fork that repeats an earlier one finds its destination there; its first entry is refused, since the
  name is taken, and the thread of the first request is deleted with the entry and all that followed.
\<close>

definition keyed_fork :: fork_options where
  "keyed_fork = first_fork\<lparr>fo_OriginRequestKey := ''k'', fo_OriginFingerprint := ''p''\<rparr>"

definition first_entry :: entry where
  "first_entry = zero_entry\<lparr>ID := ''e'', Type := EntryCustom\<rparr>"

definition forked_repo :: repo where
  "forked_repo = fst (ForkWithInitialEntry background sample_turns sample_codec accepted_repo keyed_fork first_entry)"

lemma repeated_fork_deletes:
  "thread forked_repo ''f'' \<noteq> None \<and> ID (last (log forked_repo ''f'')) = ''e''"
  "case ForkWithInitialEntry background sample_turns sample_codec forked_repo keyed_fork first_entry of
     (r', Inl err) \<Rightarrow> thread r' ''f'' = None \<and> log r' ''f'' = [] | (r', Inr x) \<Rightarrow> False"
  by code_simp+

end
