(* ===== verification/Spec2Isabelle.thy ===== *)
theory Spec2Isabelle
  imports ContextPolicy ProviderRetry DomainChanges AgentTodos EffectOutput SessionLife JournalIndex
    ForkStore
begin

text \<open>
  \<^bold>\<open>A verification library for Floret.\<close> Floret runs model-driven agents. Its durable core is the
  session tree (\<^verbatim>\<open>internal/sessiontree\<close>): a repository of threads, each an append-only journal of
  entries linked to their parents, with indexes derived from the journal. Around it stand the
  context-window policy (\<^verbatim>\<open>internal/session/contextpolicy\<close>), which decides how much of a journal
  fits a request, and the provider retry loop (\<^verbatim>\<open>internal/providerretry\<close>), which sends it. These
  parts are modelled here; names of definitions are the names of the Go functions where possible
  (\<open>fooLocked\<close> becomes \<open>foo\<close>).

  \<^bold>\<open>Conventions.\<close> A Go \<open>int\<close>/\<open>int64\<close> is an \<open>int\<close>; arithmetic that can leave the range wraps
  explicitly (\<open>add64\<close>, \<open>sub64\<close>, \<open>mul64\<close> of Prelude) or is shown not to. Strings are byte strings
  (UTF-8 where the code decodes runes, JsonText). Errors are values: \<open>st_error + 'a\<close>. Operations of
  \<open>MemoryRepo\<close> hold one mutex, so each is a function from the state to the new state and the result;
  an operation that fails may still have moved the sequence number or built an index, and the
  models keep that. A context is a \<open>ctx_poll\<close>, the error it reports when polled for the n-th time.
  JSON, SHA-256, URL and time parsing and the clock come from outside the sources; they are the
  fields of an environment (\<open>store_env\<close>, \<open>retry_env\<close>) and no property assumes more of them than its
  hypotheses say.

  \<^bold>\<open>Theories, in the order they build on each other.\<close>
  \<^item> Prelude: 64-bit arithmetic, trimming, association lists, errors of contexts; shared lemmas.
  \<^item> ContextPolicy: defaults, limits, budgets and pressure (\<^verbatim>\<open>contextpolicy.go\<close>, \<^verbatim>\<open>output_budget.go\<close>,
    \<^verbatim>\<open>characters.go\<close>). An admitted request fits its window without overflow.
  \<^item> Float64: \<open>float64\<close> rounding to 53 bits and the truncating conversion to \<open>int64\<close>, for the jitter below.
  \<^item> ProviderRetry: failure classification and the retry loop (\<^verbatim>\<open>retry.go\<close>). The loop is a function with
    fuel \<open>MaxRetries + 1\<close>; \<open>retry_run_bounded\<close> shows that it always suffices. The delay
    is bounded for every maximum up to 52 days; \<open>jitter_overflows\<close> is a valid policy beyond that range.
  \<^item> JournalModel: errors, enumerations, \<open>Message\<close>, \<open>Entry\<close>, \<open>ThreadMeta\<close> and tombstones
    (\<^verbatim>\<open>sessiontree.go\<close>, \<^verbatim>\<open>session.go\<close>, \<^verbatim>\<open>run_identity.go\<close>).
  \<^item> JsonText, MessageContent: UTF-8 runes, the length-exact JSON encoder, and the validators of
    what messages carry (\<^verbatim>\<open>internal/session/message_*.go\<close>, \<^verbatim>\<open>model_context.go\<close>, \<^verbatim>\<open>citation\<close>,
    \<^verbatim>\<open>controlstate\<close>).
  \<^item> HostWork, HostWorkFacts: the work a host runs outside a turn, as a fold over a path
    (\<^verbatim>\<open>host_work.go\<close>); the integrity check of an entry. The fold is monotone and reads back
    the admissions the code writes.
  \<^item> Guarded, ThreadTitle: an interface of validated, versioned records (a locale) and the title
    authority that implements it (\<^verbatim>\<open>title_authority.go\<close>).
  \<^item> ThreadAuthority: lifecycle, metadata, the ownership graph and its tree walk
    (\<^verbatim>\<open>sessiontree.go\<close>, \<^verbatim>\<open>lifecycle.go\<close>); the fuel of the walks is the number of threads.
  \<^item> RepoState, DomainChanges: the maps of \<open>MemoryRepo\<close>, grouped per thread into a \<open>journal\<close>, their
    setters, and the undo log of a mutation (\<^verbatim>\<open>backend_domain_mutation.go\<close>).
  \<^item> PathIndex, PathRead: the skip-link ancestor index, whole-path reads and pages
    (\<^verbatim>\<open>path_page.go\<close>, \<^verbatim>\<open>canonical_path.go\<close>); the fuel is the length of the index, and links point down.
  \<^item> FreshId: generated identities, a locale for ``the first free name'', used for threads and entries.
  \<^item> ThreadStore: create, read, list, update and delete threads. The store invariant, exact
    deletion, provenance and pagination.
  \<^item> AgentTodos: the todo list of a thread and its compare-and-swap.
  \<^item> JournalStore: the turn index, the output source index, appends, runtime facts, and the
    checkpoint that undoes an append transaction (\<^verbatim>\<open>turn_marker_index.go\<close>, \<^verbatim>\<open>output_sources.go\<close>,
    \<^verbatim>\<open>output_source_index.go\<close>, \<^verbatim>\<open>journal_append.go\<close>, \<^verbatim>\<open>sessiontree.go\<close>).
  \<^item> JournalRollback: why restoring a checkpoint gives back the repository, index by index, and
    with it the atomicity of \<open>AppendRuntimeFacts\<close>.
  \<^item> JournalIndex: the indexes of a journal, however they were built or extended, are the ones
    rebuilt from its entries, and every operation keeps that.
  \<^item> Artifacts: references to retained outputs, the records behind them and the authority to read
    them (\<^verbatim>\<open>internal/session/artifact\<close>, \<^verbatim>\<open>artifact_authority.go\<close>, \<^verbatim>\<open>artifact_reader.go\<close>). The walks up
    the parent chain are total on every repository.
  \<^item> Lifecycle: a locale for histories of states that only move along an order.
  \<^item> EffectAttempts, EffectFacts, EffectOutput: the authority over tool effects
    (\<^verbatim>\<open>effect_authority.go\<close>): an attempt is prepared, rejected or dispatched, and finished, each state
    an entry of the journal. Under the effect authority and appends of other entries the recorded
    states of an attempt form a history of Lifecycle, a dispatch begins once, and a retained output reads back
    for whoever owns the thread. JSON is assumed to read back what it can represent (\<open>json_attempt\<close>);
    what turn operations do to attempts is part of TurnJournal.
  \<^item> HostWorkRepo: the operations of \<open>MemoryRepo\<close> on host work (\<^verbatim>\<open>host_work_repo.go\<close>); stopping is
    atomic by the rollback of JournalRollback.
  \<^item> SessionLife: the lifecycle of a session as it is derived from the canonical turns of a thread
    and as the session lifecycle keeps it (\<^verbatim>\<open>canonical_lifecycle.go\<close>,
    \<^verbatim>\<open>internal/sessionlifecycle/lifecycle.go\<close>).
  \<^item> ThreadContext: the policy and compaction facts of a thread (\<^verbatim>\<open>thread_context.go\<close>) and their validators
    (\<^verbatim>\<open>observation/compaction_decision.go\<close>, \<^verbatim>\<open>compaction.go\<close>).
  \<^item> TurnRequests: the requests of the turn authority, their validation, and the boundary a retry may
    start from (\<^verbatim>\<open>turn_authority.go\<close>, \<^verbatim>\<open>turn_failure.go\<close>, \<^verbatim>\<open>tool_history.go\<close>).
  \<^item> Goals: the goal of a thread, reduced from its path, mutated against a version and reviewed
    (\<^verbatim>\<open>goals.go\<close>).
  \<^item> TurnEntries: the entries of one turn and what in them is pending (\<^verbatim>\<open>runtime_turn_journal.go\<close>,
    \<^verbatim>\<open>steering.go\<close>, \<^verbatim>\<open>fallback_title.go\<close>).
  \<^item> TurnJournal: accepting, finishing, failing and cancelling turns, provider output and goal
    submissions (\<^verbatim>\<open>runtime_turn_journal.go\<close>, \<^verbatim>\<open>provider_context.go\<close>, \<^verbatim>\<open>goal_submission.go\<close>).

  \<^item> TurnOrder, TurnSteps, TurnRun: what the markers of a turn say and in which order they may come;
    the relation \<open>grows\<close> (an operation only appends entries of a kind) shown for every step of a turn
    operation, so that each operation keeps the markers in order whatever fails in it.
  \<^item> TurnHistory: the operations of the library as one step function over a repository, the
    reachable repositories, and the invariants of turns over all of them. \<open>admissible\<close> says
    which requests count: a request that starts or settles a running turn finds the names it writes without
    looking unused, and the entry names it brings carry no prefix of the operations' own. The names the
    harness and the runtime give, \<open>terminal-\<close> and a hash, \<open>terminal-cancelled-\<close>, \<open>cancel:\<close>, carry none
    (\<open>terminal_caller_name\<close>); requests for a turn that does not run, replays included, are unrestricted.
  \<^item> TurnSettled, TurnFacts: the end of a turn answers whatever was pending in it, and a turn with
    nothing left to settle can be completed.
  \<^item> Closures: the manifest of the retained outputs a fork takes along, collected, validated and staged
    (\<^verbatim>\<open>artifact.go\<close>, \<^verbatim>\<open>artifact_reader.go\<close>).
  \<^item> Forks: the projection of a path into a new thread and the replacement of a journal with all its
    indexes (\<^verbatim>\<open>fork_path.go\<close>, \<^verbatim>\<open>effect_authority_journal.go\<close>, \<open>forkLocked\<close> and
    \<open>replaceIndexedEntriesLocked\<close> of \<^verbatim>\<open>sessiontree.go\<close>).
  \<^item> ForkFacts, ForkStore: the copy is a linked chain with no open turn, the other threads are
    untouched, and the indexes stay sound. TurnHistory does not count forks among its steps: a copied
    path need not be the whole journal, so the order of its markers is that of the path.

  \<^bold>\<open>Not modelled.\<close> Backend persistence, its record encodings and migrations, and the file-backed
  repository (storage I/O around the same operations); query and window projections and
  activities (display data); the engine, the harness, the runtime facade, providers and tools
  (streams, processes, network, goroutines). Within the modelled parts: deep copies (values are
  immutable here), bodies of entries that are swapped out to the backend (entries are resident),
  and the contents of errors that only carry a message. The storage transactions around a fork
  (\<^verbatim>\<open>backend_fork.go\<close>, the file-backed repository) and the paged read models of canonical turns are
  part of the backend.
\<close>

end
